(* ===== verification/Prelude.thy ===== *)
theory Prelude
  imports Main "HOL-Library.Word"
begin

unbundle bit_operations_syntax

text \<open>
  Shared vocabulary of the development. The theory fixes the machine types of the C++ sources
  (\<open>uint8_t\<close> to \<open>uint64_t\<close>, \<open>uintptr_t\<close> and \<open>size_t\<close> are 64 bits wide on both targets),
  the shape of the loops the sources write again and again (scan an array for the first entry
  with a property), little-endian byte strings, and the arithmetic of 64-bit addresses that do
  not wrap. The collections declared here gather the facts that the component proofs hand to
  the simplifier.
\<close>

named_theorems mem_simps \<open>reads and writes of byte memories\<close>
named_theorems pool_simps \<open>object pools\<close>
named_theorems frame_simps \<open>fields an operation leaves alone\<close>
named_theorems step_defs \<open>definitions of the operations of a component\<close>

type_synonym u8 = "8 word"
type_synonym u16 = "16 word"
type_synonym u32 = "32 word"
type_synonym u64 = "64 word"
type_synonym i32 = "32 word"
type_synonym handle_t = u64

section \<open>Scanning an array\<close>

text \<open>
  The loop \<open>for (index = 0; index < n; ++index) if (P (a[index])) return index\<close>: the least index
  whose entry has the property.
\<close>

fun find_index :: "('a \<Rightarrow> bool) \<Rightarrow> 'a list \<Rightarrow> nat option" where
  "find_index P [] = None"
| "find_index P (x # xs) = (if P x then Some 0 else map_option Suc (find_index P xs))"

lemma find_index_None_iff: "find_index P xs = None \<longleftrightarrow> (\<forall>x \<in> set xs. \<not> P x)"
  by (induction xs) auto

lemma find_index_SomeD:
  "find_index P xs = Some i \<Longrightarrow> i < length xs \<and> P (xs ! i) \<and> (\<forall>j < i. \<not> P (xs ! j))"
proof (induction xs arbitrary: i)
  case (Cons x xs)
  show ?case
  proof (cases "P x")
    case False
    with Cons.prems obtain k where "find_index P xs = Some k" "i = Suc k" by auto
    with Cons.IH[of k] False show ?thesis by (auto simp: less_Suc_eq_0_disj)
  qed (use Cons.prems in auto)
qed simp

lemma find_index_length: "find_index P xs = Some i \<Longrightarrow> i < length xs"
  by (simp add: find_index_SomeD)

lemma find_index_sat: "find_index P xs = Some i \<Longrightarrow> P (xs ! i)"
  by (simp add: find_index_SomeD)

lemma find_index_Some_iff:
  "find_index P xs = Some i \<longleftrightarrow> i < length xs \<and> P (xs ! i) \<and> (\<forall>j < i. \<not> P (xs ! j))"
proof
  assume r: "i < length xs \<and> P (xs ! i) \<and> (\<forall>j < i. \<not> P (xs ! j))"
  then obtain k where k: "find_index P xs = Some k"
    by (metis find_index_None_iff not_None_eq nth_mem)
  with r find_index_SomeD[OF k] have "k = i" by (metis linorder_neqE_nat)
  with k show "find_index P xs = Some i" by simp
qed (rule find_index_SomeD)

lemma find_index_unique:
  assumes "i < length xs" and "P (xs ! i)" and "\<And>j. j < length xs \<Longrightarrow> P (xs ! j) \<Longrightarrow> j = i"
  shows "find_index P xs = Some i"
  unfolding find_index_Some_iff
proof (intro conjI allI impI)
  fix j assume "j < i"
  with assms(1) have "j < length xs" and "j \<noteq> i" by auto
  with assms(3)[of j] show "\<not> P (xs ! j)" by blast
qed (simp_all add: assms(1,2))

lemma find_index_cong_nth:
  assumes "length xs = length ys" and "\<And>i. i < length ys \<Longrightarrow> P (xs ! i) = Q (ys ! i)"
  shows "find_index P xs = find_index Q ys"
proof (cases "find_index Q ys")
  case None
  then have "find_index P xs = None"
    using assms by (simp add: find_index_None_iff all_set_conv_all_nth)
  with None show ?thesis by simp
next
  case (Some i)
  then have "find_index P xs = Some i"
    using assms by (auto simp: find_index_Some_iff)
  with Some show ?thesis by simp
qed

section \<open>Addresses that do not wrap\<close>

lemma unat_max_u64: "unat (- 1 :: u64) = 2 ^ 64 - 1"
  by (simp add: unsigned_minus_1_eq_mask mask_eq_exp_minus_1)

lemma unat_lt_u64: "unat (x :: u64) < 2 ^ 64"
  using unsigned_less[of x] by simp

lemma unat_add_u64: "unat (a + b :: u64) = (unat a + unat b) mod 2 ^ 64"
  by (simp add: unat_word_ariths)

lemma unat_add_no_wrap: "unat a + unat b < 2 ^ 64 \<Longrightarrow> unat (a + b :: u64) = unat a + unat b"
  by (simp add: unat_add_u64)

lemma unat_sub_no_wrap: "b \<le> a \<Longrightarrow> unat (a - b :: u64) = unat a - unat b"
  by (rule unat_sub)

lemma unat_of_nat_u64: "n < 2 ^ 64 \<Longrightarrow> unat (of_nat n :: u64) = n"
  by (simp add: unat_of_nat take_bit_nat_eq_self)

lemma le_max_minus_iff: "n \<le> - 1 - a \<longleftrightarrow> unat a + unat n < 2 ^ 64" for a n :: u64
proof -
  have "unat (- 1 - a) = unat (- 1 :: u64) - unat a" by (rule unat_sub) simp
  then show ?thesis
    using unat_lt_u64[of a] by (simp add: word_le_nat_alt unat_max_u64) linarith
qed

section \<open>Little-endian byte strings\<close>

text \<open>
  \<open>memcpy\<close> between a scalar and a byte array on the two little-endian targets: \<open>le_bytes n w\<close> are
  the low \<open>n\<close> bytes of \<open>w\<close>, \<open>le_word\<close> reads a byte string back.
\<close>

fun le_bytes :: "nat \<Rightarrow> u64 \<Rightarrow> u8 list" where
  "le_bytes 0 w = []"
| "le_bytes (Suc n) w = ucast w # le_bytes n (drop_bit 8 w)"

fun le_word :: "u8 list \<Rightarrow> u64" where
  "le_word [] = 0"
| "le_word (b # bs) = ucast b OR push_bit 8 (le_word bs)"

lemma length_le_bytes [simp]: "length (le_bytes n w) = n"
  by (induction n arbitrary: w) auto

lemma le_word_le_bytes: "le_word (le_bytes n w) = take_bit (8 * n) w"
proof (induction n arbitrary: w)
  case (Suc n)
  show ?case
  proof (rule bit_word_eqI)
    fix i assume "i < LENGTH(64)"
    then show "bit (le_word (le_bytes (Suc n) w)) i = bit (take_bit (8 * Suc n) w) i"
      by (cases "i < 8")
        (auto simp: Suc.IH bit_or_iff bit_push_bit_iff bit_take_bit_iff bit_drop_bit_eq
          bit_ucast_iff algebra_simps dest: bit_imp_le_length)
  qed
qed simp

lemma le_word_le_bytes_8 [simp]: "le_word (le_bytes 8 w) = w"
  by (simp add: le_word_le_bytes take_bit_word_eq_self)

end
