(* ===== verification/Kernel_Object_Pool.thy ===== *)
theory Kernel_Object_Pool
  imports Prelude
begin

text \<open>
  \<open>kernel/kernel_object.h\<close>, \<open>kernel/kernel_object.cpp\<close>, \<open>kernel/kernel_object_pool.h\<close> and
  \<open>kernel/kernel_object_pool.inl\<close>: reference-counted kernel objects and the fixed-capacity pool
  they live in. A slot is an \<open>option\<close> (\<open>is_occupied\<close> and the object in its storage), a pointer to
  a pooled object is the index of its slot, and the handle counter that all pools of the runtime
  share by reference is passed in and returned. The locale \<open>handle_table\<close> is the contract of the
  pool as a finite map from handles to objects.
\<close>

section \<open>Kernel objects\<close>

record kernel_object =
  m_id :: u32
  m_handle_value :: handle_t
  m_process_reference_count :: u32

definition acquire_process_reference :: "'o kernel_object_scheme \<Rightarrow> 'o kernel_object_scheme" where
  "acquire_process_reference obj =
     obj\<lparr>m_process_reference_count := m_process_reference_count obj + 1\<rparr>"

section \<open>The pool\<close>

record 'o kernel_object_pool =
  m_items :: "'o option list"
  m_next_object_id :: u32
  m_bound :: bool \<comment> \<open>\<open>m_next_handle_value != nullptr\<close>\<close>

definition empty_pool :: "nat \<Rightarrow> 'o kernel_object_pool" where
  "empty_pool capacity = \<lparr>m_items = replicate capacity None, m_next_object_id = 1, m_bound = False\<rparr>"

definition destroy_occupied_items :: "'o kernel_object_pool \<Rightarrow> 'o kernel_object_pool" where
  "destroy_occupied_items pool = pool\<lparr>m_items := map (\<lambda>_. None) (m_items pool)\<rparr>"

definition pool_reset :: "'o kernel_object_pool \<Rightarrow> 'o kernel_object_pool" where
  "pool_reset pool = (destroy_occupied_items pool)\<lparr>m_bound := True, m_next_object_id := 1\<rparr>"

definition allocate_handle_value :: "handle_t \<Rightarrow> handle_t \<times> handle_t" where
  "allocate_handle_value next_handle_value = (next_handle_value, next_handle_value + 1)"

definition emplace :: "'o kernel_object_pool \<Rightarrow> handle_t \<Rightarrow> (u32 \<Rightarrow> handle_t \<Rightarrow> 'o) \<Rightarrow>
    nat option \<times> 'o kernel_object_pool \<times> handle_t" where
  "emplace pool next_handle_value construct =
     (if \<not> m_bound pool then (None, pool, next_handle_value)
      else case find_index Option.is_none (m_items pool) of
        None \<Rightarrow> (None, pool, next_handle_value)
      | Some index \<Rightarrow>
          (let (handle, next_handle_value') = allocate_handle_value next_handle_value;
               current_item = construct (m_next_object_id pool) handle
           in (Some index,
               pool\<lparr>m_items := (m_items pool)[index := Some current_item],
                    m_next_object_id := m_next_object_id pool + 1\<rparr>,
               next_handle_value')))"

fun has_free_loop :: "'o option list \<Rightarrow> u32 \<Rightarrow> u32 \<Rightarrow> bool" where
  "has_free_loop [] free_count required_count = (required_count = 0)"
| "has_free_loop (slot # slots) free_count required_count =
     (if Option.is_none slot
      then (if free_count + 1 \<ge> required_count then True
            else has_free_loop slots (free_count + 1) required_count)
      else has_free_loop slots free_count required_count)"

definition has_free_items :: "'o kernel_object_pool \<Rightarrow> u32 \<Rightarrow> bool" where
  "has_free_items pool required_count = has_free_loop (m_items pool) 0 required_count"

definition slot_has_handle :: "handle_t \<Rightarrow> 'o kernel_object_scheme option \<Rightarrow> bool" where
  "slot_has_handle handle_value slot =
     (case slot of None \<Rightarrow> False | Some obj \<Rightarrow> m_handle_value obj = handle_value)"

definition find_by_handle :: "'o kernel_object_scheme kernel_object_pool \<Rightarrow> handle_t \<Rightarrow> nat option" where
  "find_by_handle pool handle_value = find_index (slot_has_handle handle_value) (m_items pool)"

definition erase_by_handle :: "'o kernel_object_scheme kernel_object_pool \<Rightarrow> handle_t \<Rightarrow>
    bool \<times> 'o kernel_object_scheme kernel_object_pool" where
  "erase_by_handle pool handle_value =
     (case find_by_handle pool handle_value of
        None \<Rightarrow> (False, pool)
      | Some index \<Rightarrow> (True, pool\<lparr>m_items := (m_items pool)[index := None]\<rparr>))"

definition get_by_index :: "'o kernel_object_pool \<Rightarrow> nat \<Rightarrow> 'o option" where
  "get_by_index pool index = (if index \<ge> length (m_items pool) then None else m_items pool ! index)"

text \<open>A write through a pointer to a pooled object.\<close>

definition update_slot :: "nat \<Rightarrow> ('o \<Rightarrow> 'o) \<Rightarrow> 'o kernel_object_pool \<Rightarrow> 'o kernel_object_pool" where
  "update_slot index f pool =
     pool\<lparr>m_items := (m_items pool)[index := map_option f (m_items pool ! index)]\<rparr>"

section \<open>Slots\<close>

lemma get_by_index_update_slot [pool_simps]:
  "get_by_index (update_slot i f pool) j =
     (if i = j then map_option f (get_by_index pool j) else get_by_index pool j)"
  by (auto simp: get_by_index_def update_slot_def)

lemma length_update_slot [simp]: "length (m_items (update_slot i f pool)) = length (m_items pool)"
  by (simp add: update_slot_def)

lemma update_slot_frame [simp]:
  "m_next_object_id (update_slot i f pool) = m_next_object_id pool"
  "m_bound (update_slot i f pool) = m_bound pool"
  by (simp_all add: update_slot_def)

lemma get_by_index_Some_length: "get_by_index pool i = Some obj \<Longrightarrow> i < length (m_items pool)"
  by (simp add: get_by_index_def split: if_splits)

lemma emplace_cases:
  obtains (full) "emplace pool h mk = (None, pool, h)"
  | (placed) i where "m_bound pool" "i < length (m_items pool)" "m_items pool ! i = None"
      "emplace pool h mk = (Some i,
        pool\<lparr>m_items := (m_items pool)[i := Some (mk (m_next_object_id pool) h)],
             m_next_object_id := m_next_object_id pool + 1\<rparr>, h + 1)"
proof (cases "m_bound pool \<and> find_index Option.is_none (m_items pool) \<noteq> None")
  case True
  then obtain i where i: "find_index Option.is_none (m_items pool) = Some i" by auto
  have "m_items pool ! i = None"
    using find_index_sat[OF i] by (simp add: Option.is_none_def)
  with True i find_index_length[OF i] placed[of i] show thesis
    by (simp add: emplace_def allocate_handle_value_def)
qed (use full in \<open>auto simp: emplace_def\<close>)

lemma find_by_handle_SomeD:
  assumes "find_by_handle pool h = Some i"
  obtains obj where "get_by_index pool i = Some obj" "m_handle_value obj = h"
    "i < length (m_items pool)"
proof -
  have "slot_has_handle h (m_items pool ! i)" "i < length (m_items pool)"
    using assms find_index_sat find_index_length unfolding find_by_handle_def by blast+
  then show thesis
    using that by (auto simp: slot_has_handle_def get_by_index_def split: option.splits)
qed

section \<open>The contract of a handle table\<close>

text \<open>
  Handles are drawn from an increasing counter, so everything at or above the counter is unused.
  The counter is 64 bits wide; the laws hold as long as it has not reached its last value.
\<close>

locale handle_table =
  fixes invar :: "'p \<Rightarrow> handle_t \<Rightarrow> bool"
    and lookup :: "'p \<Rightarrow> handle_t \<Rightarrow> 'o option"
    and insert :: "'p \<Rightarrow> handle_t \<Rightarrow> (u32 \<Rightarrow> handle_t \<Rightarrow> 'o) \<Rightarrow> nat option \<times> 'p \<times> handle_t"
    and remove :: "'p \<Rightarrow> handle_t \<Rightarrow> bool \<times> 'p"
    and handle_of :: "'o \<Rightarrow> handle_t"
  assumes fresh: "invar p nh \<Longrightarrow> nh \<le> h \<Longrightarrow> lookup p h = None"
    and insert_placed: "invar p nh \<Longrightarrow> nh \<noteq> - 1 \<Longrightarrow> (\<And>k. handle_of (mk k nh) = nh) \<Longrightarrow>
      insert p nh mk = (Some i, p', nh') \<Longrightarrow>
      nh' = nh + 1 \<and> invar p' nh' \<and> (\<exists>k. lookup p' = (lookup p)(nh \<mapsto> mk k nh))"
    and insert_full: "insert p nh mk = (None, p', nh') \<Longrightarrow> p' = p \<and> nh' = nh"
    and remove_spec: "invar p nh \<Longrightarrow> remove p h = (b, p') \<Longrightarrow>
      invar p' nh \<and> lookup p' = (lookup p)(h := None) \<and> b = (lookup p h \<noteq> None)"
begin

lemma insert_lookup:
  assumes "invar p nh" and "nh \<noteq> - 1" and "\<And>k. handle_of (mk k nh) = nh"
    and "insert p nh mk = (Some i, p', nh')"
  shows "\<exists>obj. lookup p' nh = Some obj \<and> handle_of obj = nh"
    and "h \<noteq> nh \<Longrightarrow> lookup p' h = lookup p h"
  using insert_placed[OF assms] assms(3) by auto

lemma insert_remove:
  assumes "invar p nh" and "nh \<noteq> - 1" and "\<And>k. handle_of (mk k nh) = nh"
    and "insert p nh mk = (Some i, p', nh')" and "remove p' nh = (b, p'')"
  shows "b \<and> lookup p'' = lookup p \<and> invar p'' nh'"
  using insert_placed[OF assms(1-4)] remove_spec[OF _ assms(5)] fresh[OF assms(1), of nh]
  by (auto simp: fun_upd_idem)

lemma remove_remove:
  assumes "invar p nh" and "remove p h = (b, p')" and "remove p' h = (b', p'')"
  shows "\<not> b'"
  using remove_spec[OF assms(1,2)] remove_spec[OF _ assms(3)] by auto

end

section \<open>The pool provides the contract\<close>

definition pool_invar :: "'o kernel_object_scheme kernel_object_pool \<Rightarrow> handle_t \<Rightarrow> bool" where
  "pool_invar pool next_handle_value \<longleftrightarrow>
     (\<forall>i obj. get_by_index pool i = Some obj \<longrightarrow> m_handle_value obj < next_handle_value) \<and>
     (\<forall>i j x y. get_by_index pool i = Some x \<longrightarrow> get_by_index pool j = Some y \<longrightarrow>
        m_handle_value x = m_handle_value y \<longrightarrow> i = j)"

definition pool_lookup :: "'o kernel_object_scheme kernel_object_pool \<Rightarrow> handle_t \<Rightarrow>
    'o kernel_object_scheme option" where
  "pool_lookup pool h = (case find_by_handle pool h of None \<Rightarrow> None | Some i \<Rightarrow> get_by_index pool i)"

lemma find_by_handle_eq:
  assumes "pool_invar pool nh" and "get_by_index pool i = Some obj" and "m_handle_value obj = h"
  shows "find_by_handle pool h = Some i"
  unfolding find_by_handle_def
proof (rule find_index_unique)
  show "i < length (m_items pool)" using assms(2) by (rule get_by_index_Some_length)
  show "slot_has_handle h (m_items pool ! i)"
    using assms(2,3) by (simp add: slot_has_handle_def get_by_index_def split: if_splits)
  fix j assume "j < length (m_items pool)" "slot_has_handle h (m_items pool ! j)"
  then obtain x where "get_by_index pool j = Some x" "m_handle_value x = h"
    by (auto simp: slot_has_handle_def get_by_index_def split: option.splits)
  with assms show "j = i" by (auto simp: pool_invar_def)
qed

lemma find_by_handle_None_iff:
  "find_by_handle pool h = None \<longleftrightarrow>
   (\<forall>i obj. get_by_index pool i = Some obj \<longrightarrow> m_handle_value obj \<noteq> h)"
  by (auto simp: find_by_handle_def find_index_None_iff all_set_conv_all_nth slot_has_handle_def
      get_by_index_def not_le split: option.splits)

lemma pool_lookup_iff:
  assumes "pool_invar pool nh"
  shows "pool_lookup pool h = Some obj \<longleftrightarrow>
    (\<exists>i. get_by_index pool i = Some obj \<and> m_handle_value obj = h)"
proof
  assume "pool_lookup pool h = Some obj"
  then obtain i where "find_by_handle pool h = Some i" "get_by_index pool i = Some obj"
    by (auto simp: pool_lookup_def split: option.splits)
  then show "\<exists>i. get_by_index pool i = Some obj \<and> m_handle_value obj = h"
    using find_by_handle_SomeD by (metis option.inject)
next
  assume "\<exists>i. get_by_index pool i = Some obj \<and> m_handle_value obj = h"
  then show "pool_lookup pool h = Some obj"
    using find_by_handle_eq[OF assms] by (auto simp: pool_lookup_def)
qed

lemma pool_lookup_eqI:
  assumes "pool_invar pool nh"
    and "\<And>h obj. m h = Some obj \<longleftrightarrow> (\<exists>i. get_by_index pool i = Some obj \<and> m_handle_value obj = h)"
  shows "pool_lookup pool = m"
proof
  fix h
  show "pool_lookup pool h = m h"
    using pool_lookup_iff[OF assms(1), of h] assms(2)[of h]
    by (cases "pool_lookup pool h"; cases "m h") (metis option.distinct(1) option.inject)+
qed

lemma get_by_index_replace [pool_simps]:
  "i < length (m_items pool) \<Longrightarrow>
   get_by_index (pool\<lparr>m_items := (m_items pool)[i := slot]\<rparr>) j =
     (if i = j then slot else get_by_index pool j)"
  "i < length (m_items pool) \<Longrightarrow>
   get_by_index (pool\<lparr>m_items := (m_items pool)[i := slot], m_next_object_id := k\<rparr>) j =
     (if i = j then slot else get_by_index pool j)"
  by (auto simp: get_by_index_def)

lemma erase_by_handle_spec:
  assumes "pool_invar pool nh" and "erase_by_handle pool h = (b, pool')"
  shows "pool_invar pool' nh" and "pool_lookup pool' = (pool_lookup pool)(h := None)"
    and "b \<longleftrightarrow> pool_lookup pool h \<noteq> None"
proof -
  have "pool_invar pool' nh \<and> pool_lookup pool' = (pool_lookup pool)(h := None) \<and>
      b = (pool_lookup pool h \<noteq> None)"
  proof (cases "find_by_handle pool h")
    case None
    then show ?thesis
      using assms by (auto simp: erase_by_handle_def pool_lookup_def fun_upd_idem)
  next
    case (Some i)
    then obtain obj where obj: "get_by_index pool i = Some obj" "m_handle_value obj = h"
      "i < length (m_items pool)" by (rule find_by_handle_SomeD)
    have p': "pool' = pool\<lparr>m_items := (m_items pool)[i := None]\<rparr>" "b"
      using assms(2) Some by (auto simp: erase_by_handle_def)
    have inv: "pool_invar pool' nh"
      using assms(1) obj(3) by (auto simp: p' pool_invar_def pool_simps split: if_splits)
    have key: "m_handle_value x = h \<longleftrightarrow> j = i" if "get_by_index pool j = Some x" for j x
      using that obj assms(1) by (auto simp: pool_invar_def)
    have "pool_lookup pool' = (pool_lookup pool)(h := None)"
      by (rule pool_lookup_eqI[OF inv])
        (use obj(3) key in
          \<open>auto simp: p' pool_simps pool_lookup_iff[OF assms(1)]; metis\<close>)
    with inv p' Some obj show ?thesis by (simp add: pool_lookup_def)
  qed
  then show "pool_invar pool' nh" and "pool_lookup pool' = (pool_lookup pool)(h := None)"
    and "b \<longleftrightarrow> pool_lookup pool h \<noteq> None" by auto
qed

lemma less_Suc_word: "h \<noteq> - 1 \<Longrightarrow> h < h + 1" for h :: u64
proof -
  assume "h \<noteq> - 1"
  then have "1 + h \<noteq> 0" by (metis add_eq_0_iff minus_equation_iff)
  then show ?thesis using unatSuc[of h] by (simp add: word_less_nat_alt add.commute)
qed

lemma emplace_spec:
  assumes "pool_invar pool nh" and "nh \<noteq> - 1" and "\<And>k. m_handle_value (mk k nh) = nh"
    and "emplace pool nh mk = (Some i, pool', nh')"
  shows "nh' = nh + 1" and "pool_invar pool' nh'"
    and "\<exists>k. pool_lookup pool' = (pool_lookup pool)(nh \<mapsto> mk k nh)"
proof -
  have i: "i < length (m_items pool)" "m_items pool ! i = None" "nh' = nh + 1"
    and p': "pool' = pool\<lparr>m_items := (m_items pool)[i := Some (mk (m_next_object_id pool) nh)],
        m_next_object_id := m_next_object_id pool + 1\<rparr>"
    by (rule emplace_cases[of pool nh mk]; use assms(4) in simp)+
  have lt: "h < nh \<Longrightarrow> h < nh + 1 \<and> h \<noteq> nh" for h
    using less_Suc_word[OF assms(2)] by auto
  have inv: "pool_invar pool' nh'"
    using assms(1,3) i less_Suc_word[OF assms(2)] lt
    by (fastforce simp: p' pool_invar_def pool_simps split: if_splits)
  have free: "get_by_index pool i = None" using i(2) by (simp add: get_by_index_def)
  have old: "m_handle_value x \<noteq> nh" if "get_by_index pool j = Some x" for j x
    using assms(1) that by (auto simp: pool_invar_def)
  have "pool_lookup pool' = (pool_lookup pool)(nh \<mapsto> mk (m_next_object_id pool) nh)"
    by (rule pool_lookup_eqI[OF inv])
      (use assms(3) i(1) old free in
        \<open>auto simp: p' pool_simps pool_lookup_iff[OF assms(1)]; metis option.distinct(1)\<close>)
  with inv i show "nh' = nh + 1" and "pool_invar pool' nh'"
    and "\<exists>k. pool_lookup pool' = (pool_lookup pool)(nh \<mapsto> mk k nh)" by auto
qed

interpretation pool: handle_table
  "pool_invar :: 'o kernel_object_scheme kernel_object_pool \<Rightarrow> handle_t \<Rightarrow> bool"
  pool_lookup emplace erase_by_handle m_handle_value
proof unfold_locales
  fix p :: "'o kernel_object_scheme kernel_object_pool" and nh h
  assume "pool_invar p nh" "nh \<le> h"
  then have "find_by_handle p h = None"
    unfolding find_by_handle_None_iff pool_invar_def by (meson linorder_not_less)
  then show "pool_lookup p h = None" by (simp add: pool_lookup_def)
next
  fix p p' :: "'o kernel_object_scheme kernel_object_pool" and nh nh' mk i
  assume "pool_invar p nh" "nh \<noteq> - 1" "\<And>k. m_handle_value (mk k nh) = nh"
    "emplace p nh mk = (Some i, p', nh')"
  from emplace_spec[OF this]
  show "nh' = nh + 1 \<and> pool_invar p' nh' \<and> (\<exists>k. pool_lookup p' = (pool_lookup p)(nh \<mapsto> mk k nh))"
    by blast
next
  fix p p' :: "'o kernel_object_scheme kernel_object_pool" and nh nh' mk
  assume "emplace p nh mk = (None, p', nh')"
  then show "p' = p \<and> nh' = nh" by (rule_tac emplace_cases[of p nh mk]) auto
next
  fix p p' :: "'o kernel_object_scheme kernel_object_pool" and nh h b
  assume "pool_invar p nh" "erase_by_handle p h = (b, p')"
  from erase_by_handle_spec[OF this]
  show "pool_invar p' nh \<and> pool_lookup p' = (pool_lookup p)(h := None) \<and>
      b = (pool_lookup p h \<noteq> None)" by blast
qed

section \<open>Capacity\<close>

text \<open>The number of free slots; \<open>has_free_items\<close> decides whether it reaches a bound.\<close>

definition free_slots :: "'o option list \<Rightarrow> nat" where
  "free_slots slots = length (filter Option.is_none slots)"

lemma has_free_loop_iff:
  assumes "free_count < required_count" and "unat free_count + length slots < 2 ^ 32"
  shows "has_free_loop slots free_count required_count \<longleftrightarrow>
    unat required_count \<le> unat free_count + free_slots slots"
  using assms
proof (induction slots arbitrary: free_count)
  case (Cons slot slots)
  have suc: "unat (free_count + 1) = Suc (unat free_count)"
    using Cons.prems(2) by (simp add: unat_word_ariths)
  show ?case
  proof (cases "Option.is_none slot \<and> \<not> free_count + 1 \<ge> required_count")
    case True
    with Cons.IH[of "free_count + 1"] Cons.prems suc show ?thesis
      by (auto simp: free_slots_def not_le dest: leD)
  next
    case False
    with Cons suc show ?thesis by (auto simp: free_slots_def word_le_nat_alt)
  qed
qed (auto simp: free_slots_def word_less_nat_alt)

section \<open>Properties\<close>

text \<open>
  C3. The pool is a finite map from handles to live objects. A successful \<open>emplace\<close> stores the new
  object under the next handle value, which no live object has, and leaves every other handle
  alone; erasing that handle again gives back the map there was before, and erasing it twice
  fails the second time.
\<close>

theorem pool_emplace_erase:
  assumes "pool_invar pool nh" and "nh \<noteq> - 1" and "\<And>k. m_handle_value (mk k nh) = nh"
    and "emplace pool nh mk = (Some i, pool1, nh')"
    and "erase_by_handle pool1 nh = (b, pool2)" and "erase_by_handle pool2 nh = (b', pool3)"
  shows "pool_lookup pool nh = None \<and> (\<exists>k. pool_lookup pool1 = (pool_lookup pool)(nh \<mapsto> mk k nh)) \<and>
    nh' = nh + 1 \<and> pool_invar pool1 nh' \<and> b \<and> pool_lookup pool2 = pool_lookup pool \<and> \<not> b'"
proof -
  note ins = pool.insert_placed[OF assms(1-4)]
  have "pool_lookup pool nh = None" using assms(1) by (rule pool.fresh) simp
  with ins pool.insert_remove[OF assms(1-5)] pool.remove_remove[OF _ assms(5,6)]
  show ?thesis by blast
qed

theorem pool_emplace_erase_witness:
  "let pool = pool_reset (empty_pool 2);
       mk = (\<lambda>k h. \<lparr>m_id = k, m_handle_value = h, m_process_reference_count = 0\<rparr>);
       pool1 = fst (snd (emplace pool 7 mk));
       pool2 = snd (erase_by_handle pool1 7)
   in pool_invar pool 7 \<and> fst (emplace pool 7 mk) = Some 0 \<and>
      pool_lookup pool2 = pool_lookup pool \<and> \<not> fst (erase_by_handle pool2 7)"
proof -
  let ?pool = "pool_reset (empty_pool 2) :: kernel_object kernel_object_pool"
  let ?mk = "\<lambda>k h. \<lparr>m_id = k, m_handle_value = h, m_process_reference_count = 0\<rparr>"
  have inv: "pool_invar ?pool 7"
    by (auto simp: pool_invar_def get_by_index_def pool_reset_def destroy_occupied_items_def
        empty_pool_def split: if_splits)
  have e: "emplace ?pool 7 ?mk = (Some 0, fst (snd (emplace ?pool 7 ?mk)), 8)"
    by (simp add: emplace_def pool_reset_def destroy_occupied_items_def empty_pool_def
        allocate_handle_value_def numeral_2_eq_2)
  show ?thesis
    using pool_emplace_erase[OF inv _ _ e prod.collapse[symmetric] prod.collapse[symmetric]] inv
      arg_cong[OF e, of fst]
    by (simp add: Let_def)
qed

text \<open>
  \<open>has_free_items\<close> answers whether the pool has at least the requested number of free slots (a
  request for zero always succeeds), and \<open>emplace\<close> on a bound pool fails exactly when no slot is
  free.
\<close>

lemma has_free_items_iff:
  assumes "length (m_items pool) < 2 ^ 32" and "m_bound pool"
  shows "(has_free_items pool required_count \<longleftrightarrow>
      unat required_count \<le> free_slots (m_items pool)) \<and>
    (fst (emplace pool nh mk) = None \<longleftrightarrow> \<not> has_free_items pool 1)"
proof -
  have iff: "has_free_items pool required_count \<longleftrightarrow>
      unat required_count \<le> free_slots (m_items pool)" for required_count
  proof (cases "required_count = 0")
    case True
    have "has_free_loop slots free_count 0" for slots :: "'c option list" and free_count
      by (induction slots arbitrary: free_count) auto
    with True show ?thesis by (simp add: has_free_items_def)
  next
    case False
    then show ?thesis
      using has_free_loop_iff[of 0 required_count "m_items pool"] assms(1)
      by (simp add: has_free_items_def word_gt_0)
  qed
  have "free_slots (m_items pool) = 0 \<longleftrightarrow> find_index Option.is_none (m_items pool) = None"
    by (simp add: free_slots_def filter_empty_conv find_index_None_iff)
  then have "fst (emplace pool nh mk) = None \<longleftrightarrow> \<not> has_free_items pool 1"
    using assms(2) iff[of 1]
    by (auto simp: emplace_def allocate_handle_value_def split: option.splits)
  with iff show ?thesis by blast
qed

end
