(* ===== verification/Host_Memory.thy ===== *)
theory Host_Memory
  imports Prelude
begin

text \<open>
  The byte memory the kernel reads and writes through raw host pointers, and the routines of
  \<open>kernel/klibc/memory.cpp\<close> and \<open>kernel/klibc/string.cpp\<close>. The memory is a total function from
  64-bit addresses to bytes; pointer arithmetic wraps as it does on the targets. \<open>memcpy\<close> and
  \<open>memset\<close> keep the ascending byte order of the source loops, which matters where source and
  destination overlap. A \<open>memcpy\<close> between host memory and an object of the kernel's own (a local
  buffer, a scalar) is a load or a store of a byte string.
\<close>

type_synonym hmem = "u64 \<Rightarrow> u8"

fun memcpy :: "hmem \<Rightarrow> u64 \<Rightarrow> u64 \<Rightarrow> nat \<Rightarrow> hmem" where
  "memcpy m destination source 0 = m"
| "memcpy m destination source (Suc len) =
     memcpy (m(destination := m source)) (destination + 1) (source + 1) len"

fun memset :: "hmem \<Rightarrow> u64 \<Rightarrow> u8 \<Rightarrow> nat \<Rightarrow> hmem" where
  "memset m destination fill_byte 0 = m"
| "memset m destination fill_byte (Suc len) =
     memset (m(destination := fill_byte)) (destination + 1) fill_byte len"

fun load_bytes :: "hmem \<Rightarrow> u64 \<Rightarrow> nat \<Rightarrow> u8 list" where
  "load_bytes m source 0 = []"
| "load_bytes m source (Suc len) = m source # load_bytes m (source + 1) len"

fun store_bytes :: "hmem \<Rightarrow> u64 \<Rightarrow> u8 list \<Rightarrow> hmem" where
  "store_bytes m destination [] = m"
| "store_bytes m destination (b # bs) = store_bytes (m(destination := b)) (destination + 1) bs"

text \<open>
  \<open>copy_string\<close> fills a destination array (its capacity is its length) from a C string, which may
  be the null pointer. A source array that ends without a terminator counts as terminated there.
\<close>

fun copy_string_loop :: "u8 list \<Rightarrow> u8 list \<Rightarrow> u8 list" where
  "copy_string_loop [] source = []"
| "copy_string_loop (d # ds) [] = 0 # ds"
| "copy_string_loop (d # ds) (c # cs) =
     (if c \<noteq> 0 \<and> ds \<noteq> [] then c # copy_string_loop ds cs else 0 # ds)"

definition copy_string :: "u8 list \<Rightarrow> u8 list option \<Rightarrow> u8 list" where
  "copy_string destination source =
     (case source of None \<Rightarrow> copy_string_loop destination []
      | Some cs \<Rightarrow> copy_string_loop destination cs)"

section \<open>Closed forms\<close>

text \<open>The offset of an address from a base, which the closed forms below index by.\<close>

abbreviation offset :: "u64 \<Rightarrow> u64 \<Rightarrow> nat" where
  "offset x base \<equiv> unat (x - base)"

lemma offset_eq_0_iff [simp]: "offset x a = 0 \<longleftrightarrow> x = a"
  by (simp add: unat_eq_zero)

lemma offset_Suc:
  assumes "x \<noteq> a"
  shows "offset x a = Suc (offset x (a + 1))"
proof -
  have eq: "x - a = 1 + (x - (a + 1))" by simp
  moreover have "1 + (x - (a + 1)) \<noteq> 0" using assms by simp
  ultimately show ?thesis using unatSuc[of "x - (a + 1)"] by metis
qed

lemma offset_add: "n < 2 ^ 64 \<Longrightarrow> offset (a + of_nat n) a = n"
  by (simp add: unat_of_nat_u64)

lemma add_offset [simp]: "a + of_nat (offset x a) = (x :: u64)"
  by simp

lemma length_load_bytes [simp]: "length (load_bytes m a n) = n"
  by (induction n arbitrary: a) auto

lemma nth_load_bytes: "i < n \<Longrightarrow> load_bytes m a n ! i = m (a + of_nat i)"
proof (induction n arbitrary: a i)
  case (Suc n)
  then show ?case by (cases i) (auto simp: add.assoc)
qed simp

lemma load_bytes_append: "load_bytes m a (n + k) = load_bytes m a n @ load_bytes m (a + of_nat n) k"
  by (induction n arbitrary: a) (auto simp: add.assoc)

lemma load_bytes_cong:
  "(\<And>i. i < n \<Longrightarrow> m (a + of_nat i) = m' (b + of_nat i)) \<Longrightarrow> load_bytes m a n = load_bytes m' b n"
  by (rule nth_equalityI) (auto simp: nth_load_bytes)

lemma store_bytes_append: "store_bytes m a (bs @ cs) = store_bytes (store_bytes m a bs) (a + of_nat (length bs)) cs"
  by (induction bs arbitrary: m a) (auto simp: add.assoc)

lemma store_bytes_outside:
  "(\<And>i. i < length bs \<Longrightarrow> x \<noteq> a + of_nat i) \<Longrightarrow> store_bytes m a bs x = m x"
proof (induction bs arbitrary: m a)
  case (Cons b bs)
  have "x \<noteq> a" using Cons.prems[of 0] by simp
  moreover have "x \<noteq> a + 1 + of_nat i" if "i < length bs" for i
    using Cons.prems[of "Suc i"] that by (simp add: add.assoc)
  ultimately show ?case using Cons.IH by simp
qed simp

lemma store_bytes_at:
  assumes "length bs \<le> 2 ^ 64"
  shows "store_bytes m a bs x = (if offset x a < length bs then bs ! offset x a else m x)"
  using assms
proof (induction bs arbitrary: m a)
  case (Cons b bs)
  show ?case
  proof (cases "x = a")
    case True
    have "store_bytes (m(a := b)) (a + 1) bs a = (m(a := b)) a"
    proof (rule store_bytes_outside)
      fix i assume i: "i < length bs"
      then have "unat (of_nat (Suc i) :: u64) = Suc i"
        using Cons.prems by (intro unat_of_nat_u64) simp
      then show "a \<noteq> a + 1 + of_nat i"
        by (auto simp: add.assoc)
    qed
    with True show ?thesis by simp
  next
    case False
    with Cons show ?thesis by (simp add: offset_Suc)
  qed
qed simp

lemma load_store_same:
  "length bs \<le> 2 ^ 64 \<Longrightarrow> load_bytes (store_bytes m a bs) a (length bs) = bs"
  by (rule nth_equalityI) (auto simp: nth_load_bytes store_bytes_at unat_of_nat_u64)

lemma memcpy_outside:
  "(\<And>i. i < n \<Longrightarrow> x \<noteq> d + of_nat i) \<Longrightarrow> memcpy m d s n x = m x"
proof (induction n arbitrary: m d s)
  case (Suc n)
  have "x \<noteq> d" using Suc.prems[of 0] by simp
  moreover have "x \<noteq> d + 1 + of_nat i" if "i < n" for i
    using Suc.prems[of "Suc i"] that by (simp add: add.assoc)
  ultimately show ?case using Suc.IH by simp
qed simp

text \<open>
  Where the destination does not meet the source, \<open>memcpy\<close> stores the bytes the source held.
\<close>

lemma memcpy_disjoint:
  "(\<And>i j. i < n \<Longrightarrow> j < n \<Longrightarrow> s + of_nat i \<noteq> d + of_nat j) \<Longrightarrow>
   memcpy m d s n = store_bytes m d (load_bytes m s n)"
proof (induction n arbitrary: m d s)
  case (Suc n)
  have "load_bytes (m(d := m s)) (s + 1) n = load_bytes m (s + 1) n"
  proof (rule load_bytes_cong)
    fix i assume "i < n"
    then show "(m(d := m s)) (s + 1 + of_nat i) = m (s + 1 + of_nat i)"
      using Suc.prems[of "Suc i" 0] by (simp add: add.assoc)
  qed
  moreover have "s + 1 + of_nat i \<noteq> d + 1 + of_nat j" if "i < n" "j < n" for i j
    using Suc.prems[of "Suc i" "Suc j"] that by (simp add: add.assoc)
  ultimately show ?case
    using Suc.IH[of "s + 1" "d + 1" "m(d := m s)"] by (simp del: fun_upd_apply)
qed simp

lemma memset_eq_store: "memset m d v n = store_bytes m d (replicate n v)"
  by (induction n arbitrary: m d) auto

section \<open>C strings\<close>

definition c_string :: "u8 list \<Rightarrow> u8 list" where
  "c_string buffer = takeWhile (\<lambda>b. b \<noteq> 0) buffer"

lemma length_copy_string_loop [simp]: "length (copy_string_loop d s) = length d"
  by (induction d s rule: copy_string_loop.induct) auto

lemma c_string_copy_string_loop:
  "d \<noteq> [] \<Longrightarrow> c_string (copy_string_loop d s) = take (length d - 1) (c_string s)"
proof (induction d s rule: copy_string_loop.induct)
  case (3 d ds c cs)
  then show ?case by (cases ds) (auto simp: c_string_def)
qed (auto simp: c_string_def)

end
