(* ===== verification/Address_Space.thy ===== *)
theory Address_Space
  imports Host_Memory
begin

text \<open>
  \<open>kernel/address_space.h\<close> and \<open>kernel/address_space.cpp\<close>: a process address space is a table of
  at most eight mappings from user ranges to host ranges. The operations add a mapping and
  translate a user range piece by piece. Output pointers are results here, an \<open>option\<close> that is
  \<open>None\<close> where the C++ function returns false; every caller in the tree passes non-null output
  pointers. The abstract view is the partial function \<open>xlate\<close> from user bytes to host bytes, and
  the locale \<open>chunked_translation\<close> states what the loops over chunks rely on.
\<close>

section \<open>Data\<close>

definition USER_RUNTIME_MAX_ADDRESS_SPACE_MAPPINGS :: nat where
  "USER_RUNTIME_MAX_ADDRESS_SPACE_MAPPINGS = 8"

record address_space_mapping =
  asm_user_address :: u64
  asm_host_address :: u64
  asm_size :: u64

record address_space =
  arch_root_table :: u64
  mapping_count :: u32
  mappings :: "address_space_mapping list"

definition live_mappings :: "address_space \<Rightarrow> address_space_mapping list" where
  "live_mappings asp = take (unat (mapping_count asp)) (mappings asp)"

section \<open>Operations\<close>

definition is_valid_address_range :: "u64 \<Rightarrow> u64 \<Rightarrow> bool" where
  "is_valid_address_range base_address len \<longleftrightarrow> len \<noteq> 0 \<and> len \<le> - 1 - base_address"

definition ranges_overlap :: "u64 \<Rightarrow> u64 \<Rightarrow> u64 \<Rightarrow> u64 \<Rightarrow> bool" where
  "ranges_overlap left_address left_size right_address right_size \<longleftrightarrow>
     (let left_limit = left_address + left_size; right_limit = right_address + right_size
      in left_address < right_limit \<and> right_address < left_limit)"

definition mapping_matches :: "u64 \<Rightarrow> bool \<Rightarrow> address_space_mapping \<Rightarrow> bool" where
  "mapping_matches user_address allow_mapping_limit m \<longleftrightarrow>
     asm_size m \<noteq> 0 \<and>
     (let mapping_limit = asm_user_address m + asm_size m
      in \<not> user_address < asm_user_address m \<and>
         (user_address < mapping_limit \<or> (allow_mapping_limit \<and> user_address = mapping_limit)))"

definition find_address_space_mapping ::
  "address_space \<Rightarrow> u64 \<Rightarrow> bool \<Rightarrow> address_space_mapping option" where
  "find_address_space_mapping asp user_address allow_mapping_limit =
     find (mapping_matches user_address allow_mapping_limit) (live_mappings asp)"

definition add_address_space_mapping ::
  "address_space \<Rightarrow> u64 \<Rightarrow> u64 \<Rightarrow> u64 \<Rightarrow> address_space option" where
  "add_address_space_mapping asp user_address host_address len =
     (if \<not> is_valid_address_range user_address len \<or> \<not> is_valid_address_range host_address len
      then None
      else if unat (mapping_count asp) \<ge> USER_RUNTIME_MAX_ADDRESS_SPACE_MAPPINGS then None
      else if \<exists>m \<in> set (live_mappings asp).
                ranges_overlap user_address len (asm_user_address m) (asm_size m)
      then None
      else Some (asp\<lparr>mappings := (mappings asp)[unat (mapping_count asp) :=
                        \<lparr>asm_user_address = user_address, asm_host_address = host_address,
                         asm_size = len\<rparr>],
                     mapping_count := mapping_count asp + 1\<rparr>))"

definition try_translate_address_space_chunk ::
  "address_space \<Rightarrow> u64 \<Rightarrow> u64 \<Rightarrow> (u64 \<times> u64) option" where
  "try_translate_address_space_chunk asp user_address requested_length =
     (case find_address_space_mapping asp user_address (requested_length = 0) of
        None \<Rightarrow> None
      | Some m \<Rightarrow>
          (let translated_offset = user_address - asm_user_address m in
           if asm_host_address m = 0 \<or> translated_offset > - 1 - asm_host_address m then None
           else
             (let available_length = asm_size m - translated_offset in
              if requested_length \<noteq> 0 \<and> available_length = 0 then None
              else Some (asm_host_address m + translated_offset,
                         if requested_length = 0 \<or> requested_length \<le> available_length
                         then requested_length else available_length))))"

lemma try_translate_chunk_le:
  assumes "try_translate_address_space_chunk asp a n = Some (h, l)"
  shows "l \<le> n"
  using assms
  by (auto simp: try_translate_address_space_chunk_def Let_def split: option.splits if_splits)

lemma unat_minus_less: "l \<noteq> 0 \<Longrightarrow> l \<le> n \<Longrightarrow> unat (n - l) < unat n" for l n :: u64
  using unat_gt_0[of l] by (simp add: unat_sub word_le_nat_alt)

function validate_range_loop :: "address_space \<Rightarrow> u64 \<Rightarrow> u64 \<Rightarrow> bool" where
  "validate_range_loop asp current_address remaining_length =
     (if remaining_length = 0 then True
      else case try_translate_address_space_chunk asp current_address remaining_length of
        None \<Rightarrow> False
      | Some (host_address, translated_length) \<Rightarrow>
          if translated_length = 0 \<or> translated_length > remaining_length then False
          else if translated_length > - 1 - current_address then False
          else validate_range_loop asp (current_address + translated_length)
                 (remaining_length - translated_length))"
  by pat_completeness auto

termination
  by (relation "measure (\<lambda>(asp, a, n). unat n)") (auto simp: not_less intro: unat_minus_less)

declare validate_range_loop.simps [simp del]

definition validate_address_space_range :: "address_space \<Rightarrow> u64 \<Rightarrow> u64 \<Rightarrow> bool" where
  "validate_address_space_range asp user_address len =
     (if len = 0 then find_address_space_mapping asp user_address True \<noteq> None
      else validate_range_loop asp user_address len)"

definition try_translate_address_space_address ::
  "address_space \<Rightarrow> u64 \<Rightarrow> u64 \<Rightarrow> u64 option" where
  "try_translate_address_space_address asp user_address len =
     (if \<not> validate_address_space_range asp user_address len then None
      else case try_translate_address_space_chunk asp user_address len of
        None \<Rightarrow> None
      | Some (host_address, translated_length) \<Rightarrow>
          if translated_length = len then Some host_address else None)"

section \<open>Well-formed address spaces\<close>

text \<open>
  What \<open>add_address_space_mapping\<close> establishes and keeps: the table has its eight entries, the live
  ones are ranges that do not wrap on either side, and their user ranges do not meet.
\<close>

definition valid_mapping :: "address_space_mapping \<Rightarrow> bool" where
  "valid_mapping m \<longleftrightarrow> is_valid_address_range (asm_user_address m) (asm_size m) \<and>
     is_valid_address_range (asm_host_address m) (asm_size m)"

definition user_bytes :: "address_space_mapping \<Rightarrow> u64 set" where
  "user_bytes m = {a. unat (asm_user_address m) \<le> unat a \<and>
     unat a < unat (asm_user_address m) + unat (asm_size m)}"

definition disjoint_mappings :: "address_space_mapping list \<Rightarrow> bool" where
  "disjoint_mappings ms \<longleftrightarrow>
     (\<forall>i < length ms. \<forall>j < length ms. i \<noteq> j \<longrightarrow> user_bytes (ms ! i) \<inter> user_bytes (ms ! j) = {})"

definition wf_address_space :: "address_space \<Rightarrow> bool" where
  "wf_address_space asp \<longleftrightarrow>
     length (mappings asp) = USER_RUNTIME_MAX_ADDRESS_SPACE_MAPPINGS \<and>
     unat (mapping_count asp) \<le> USER_RUNTIME_MAX_ADDRESS_SPACE_MAPPINGS \<and>
     (\<forall>m \<in> set (live_mappings asp). valid_mapping m) \<and>
     disjoint_mappings (live_mappings asp)"

definition empty_address_space :: "u64 \<Rightarrow> address_space" where
  "empty_address_space root =
     \<lparr>arch_root_table = root, mapping_count = 0,
      mappings = replicate USER_RUNTIME_MAX_ADDRESS_SPACE_MAPPINGS
        \<lparr>asm_user_address = 0, asm_host_address = 0, asm_size = 0\<rparr>\<rparr>"

text \<open>The abstract view: which host byte a user byte is.\<close>

definition xlate :: "address_space \<Rightarrow> u64 \<Rightarrow> u64 option" where
  "xlate asp a =
     (case find (\<lambda>m. a \<in> user_bytes m) (live_mappings asp) of
        None \<Rightarrow> None
      | Some m \<Rightarrow> if asm_host_address m = 0 then None
                  else Some (asm_host_address m + (a - asm_user_address m)))"

lemma is_valid_address_range_iff:
  "is_valid_address_range a n \<longleftrightarrow> 0 < unat n \<and> unat a + unat n < 2 ^ 64"
  by (simp add: is_valid_address_range_def le_max_minus_iff unat_gt_0)

lemma valid_mapping_iff:
  "valid_mapping m \<longleftrightarrow> 0 < unat (asm_size m) \<and>
     unat (asm_user_address m) + unat (asm_size m) < 2 ^ 64 \<and>
     unat (asm_host_address m) + unat (asm_size m) < 2 ^ 64"
  by (auto simp: valid_mapping_def is_valid_address_range_iff)

lemma ranges_overlap_iff:
  assumes "is_valid_address_range a n" and "is_valid_address_range b k"
  shows "ranges_overlap a n b k \<longleftrightarrow> unat a < unat b + unat k \<and> unat b < unat a + unat n"
  using assms
  by (simp add: ranges_overlap_def is_valid_address_range_iff word_less_nat_alt unat_add_no_wrap
    del: unat_plus_if')

lemma mapping_matches_iff:
  assumes "valid_mapping m"
  shows "mapping_matches a False m \<longleftrightarrow> a \<in> user_bytes m"
  using assms
  by (auto simp: mapping_matches_def user_bytes_def valid_mapping_iff word_less_nat_alt Let_def
      unat_add_no_wrap unat_gt_0 simp del: unat_plus_if')

lemma wf_live_valid: "wf_address_space asp \<Longrightarrow> m \<in> set (live_mappings asp) \<Longrightarrow> valid_mapping m"
  by (simp add: wf_address_space_def)

lemma find_append: "find P (xs @ ys) = (case find P xs of None \<Rightarrow> find P ys | Some x \<Rightarrow> Some x)"
  by (induction xs) auto

lemma find_cong_set: "(\<And>x. x \<in> set xs \<Longrightarrow> P x = Q x) \<Longrightarrow> find P xs = find Q xs"
  by (induction xs) auto

lemma find_address_space_mapping_wf:
  "wf_address_space asp \<Longrightarrow>
   find_address_space_mapping asp a False = find (\<lambda>m. a \<in> user_bytes m) (live_mappings asp)"
  unfolding find_address_space_mapping_def
  by (rule find_cong_set) (simp add: mapping_matches_iff wf_live_valid)

lemma find_user_bytes_unique:
  assumes "wf_address_space asp" and "m \<in> set (live_mappings asp)" and "a \<in> user_bytes m"
  shows "find (\<lambda>m. a \<in> user_bytes m) (live_mappings asp) = Some m"
proof -
  let ?ms = "live_mappings asp"
  obtain j where j: "j < length ?ms" "?ms ! j = m" using assms(2) by (auto simp: in_set_conv_nth)
  have "a \<notin> user_bytes (?ms ! i)" if "i < j" for i
  proof -
    have "user_bytes (?ms ! i) \<inter> user_bytes (?ms ! j) = {}"
      using assms(1) that j(1) by (simp add: wf_address_space_def disjoint_mappings_def)
    with assms(3) j(2) show ?thesis by blast
  qed
  with j assms(3) have "\<exists>i < length ?ms. a \<in> user_bytes (?ms ! i) \<and> m = ?ms ! i \<and>
      (\<forall>k < i. a \<notin> user_bytes (?ms ! k))" by blast
  then show ?thesis by (simp only: find_Some_iff)
qed

lemma find_user_bytes_SomeD:
  assumes "find (\<lambda>m. a \<in> user_bytes m) (live_mappings asp) = Some m"
  shows "m \<in> set (live_mappings asp)" and "a \<in> user_bytes m"
  using assms by (auto simp: find_Some_iff)

lemma user_bytes_offset:
  assumes "a \<in> user_bytes m"
  shows "unat (a - asm_user_address m) = unat a - unat (asm_user_address m)"
    and "unat (a - asm_user_address m) < unat (asm_size m)"
  using assms by (auto simp: user_bytes_def unat_sub word_le_nat_alt)

section \<open>Adding a mapping\<close>

lemma wf_empty_address_space: "wf_address_space (empty_address_space root)"
  by (simp add: wf_address_space_def empty_address_space_def live_mappings_def disjoint_mappings_def)

lemma add_address_space_mapping_SomeD:
  assumes "add_address_space_mapping asp u h n = Some asp'"
    and "length (mappings asp) = USER_RUNTIME_MAX_ADDRESS_SPACE_MAPPINGS"
  shows "live_mappings asp' =
           live_mappings asp @ [\<lparr>asm_user_address = u, asm_host_address = h, asm_size = n\<rparr>]"
    and "unat (mapping_count asp') = Suc (unat (mapping_count asp))"
    and "unat (mapping_count asp') \<le> USER_RUNTIME_MAX_ADDRESS_SPACE_MAPPINGS"
    and "length (mappings asp') = length (mappings asp)"
    and "is_valid_address_range u n" and "is_valid_address_range h n"
    and "\<forall>m \<in> set (live_mappings asp). \<not> ranges_overlap u n (asm_user_address m) (asm_size m)"
proof -
  have lt: "unat (mapping_count asp) < 8"
    and asp': "asp' = asp\<lparr>mappings := (mappings asp)[unat (mapping_count asp) :=
        \<lparr>asm_user_address = u, asm_host_address = h, asm_size = n\<rparr>],
        mapping_count := mapping_count asp + 1\<rparr>"
    and rest: "is_valid_address_range u n" "is_valid_address_range h n"
      "\<forall>m \<in> set (live_mappings asp). \<not> ranges_overlap u n (asm_user_address m) (asm_size m)"
    using assms(1)
    by (auto simp: add_address_space_mapping_def USER_RUNTIME_MAX_ADDRESS_SPACE_MAPPINGS_def
        not_le split: if_splits)
  have suc: "unat (mapping_count asp + 1) = Suc (unat (mapping_count asp))"
    using lt by (simp add: unat_plus_if')
  then show "unat (mapping_count asp') = Suc (unat (mapping_count asp))" by (simp add: asp')
  then show "unat (mapping_count asp') \<le> USER_RUNTIME_MAX_ADDRESS_SPACE_MAPPINGS"
    using lt by (simp add: USER_RUNTIME_MAX_ADDRESS_SPACE_MAPPINGS_def)
  show "live_mappings asp' =
      live_mappings asp @ [\<lparr>asm_user_address = u, asm_host_address = h, asm_size = n\<rparr>]"
    using lt assms(2)
    by (simp add: asp' live_mappings_def suc take_Suc_conv_app_nth
        USER_RUNTIME_MAX_ADDRESS_SPACE_MAPPINGS_def)
  show "length (mappings asp') = length (mappings asp)" by (simp add: asp')
qed (use assms(1) in \<open>auto simp: add_address_space_mapping_def split: if_splits\<close>)

lemma disjoint_mappings_snoc:
  assumes "disjoint_mappings ms" and "\<And>m'. m' \<in> set ms \<Longrightarrow> user_bytes m' \<inter> user_bytes m = {}"
  shows "disjoint_mappings (ms @ [m])"
  unfolding disjoint_mappings_def
proof (intro allI impI)
  fix i j assume "i < length (ms @ [m])" "j < length (ms @ [m])" "i \<noteq> j"
  then consider "i < length ms" "j < length ms" | "i = length ms" "j < length ms"
    | "i < length ms" "j = length ms" by fastforce
  then show "user_bytes ((ms @ [m]) ! i) \<inter> user_bytes ((ms @ [m]) ! j) = {}"
    using assms(1) assms(2)[OF nth_mem] \<open>i \<noteq> j\<close>
    by cases (simp_all add: nth_append disjoint_mappings_def Int_commute[of "user_bytes m"])
qed

lemma user_bytes_disjoint_iff:
  assumes "valid_mapping m" and "is_valid_address_range u n"
    and "\<not> ranges_overlap u n (asm_user_address m) (asm_size m)"
  shows "user_bytes m \<inter> user_bytes \<lparr>asm_user_address = u, asm_host_address = h, asm_size = n\<rparr> = {}"
  using assms ranges_overlap_iff[of u n "asm_user_address m" "asm_size m"]
  by (auto simp: user_bytes_def valid_mapping_def)

lemma add_address_space_mapping_wf:
  assumes "wf_address_space asp" and "add_address_space_mapping asp u h n = Some asp'"
  shows "wf_address_space asp'"
proof -
  note d = add_address_space_mapping_SomeD[OF assms(2)]
  have len: "length (mappings asp) = USER_RUNTIME_MAX_ADDRESS_SPACE_MAPPINGS"
    using assms(1) by (simp add: wf_address_space_def)
  let ?m = "\<lparr>asm_user_address = u, asm_host_address = h, asm_size = n\<rparr>"
  have "disjoint_mappings (live_mappings asp @ [?m])"
    using assms(1) d(5,7)[OF len]
    by (intro disjoint_mappings_snoc user_bytes_disjoint_iff) (auto simp: wf_address_space_def)
  moreover have "valid_mapping ?m" using d(5,6)[OF len] by (simp add: valid_mapping_def)
  ultimately show ?thesis
    using assms(1) d(1,3,4)[OF len] by (auto simp: wf_address_space_def)
qed

section \<open>Translation by chunks\<close>

text \<open>
  The contract the loops rely on: a chunk of a non-empty request is non-empty, never longer than
  the request, and translates byte by byte; a request has no chunk exactly when its first byte has
  no translation. The induction rule and the splitting lemma below are what the proofs about the
  loops use.
\<close>

locale chunked_translation =
  fixes wf :: "'s \<Rightarrow> bool"
    and chunk :: "'s \<Rightarrow> u64 \<Rightarrow> u64 \<Rightarrow> (u64 \<times> u64) option"
    and byte_at :: "'s \<Rightarrow> u64 \<Rightarrow> u64 option"
  assumes chunk_bounds: "wf s \<Longrightarrow> n \<noteq> 0 \<Longrightarrow> chunk s a n = Some (h, l) \<Longrightarrow> l \<noteq> 0 \<and> l \<le> n"
    and chunk_bytes: "wf s \<Longrightarrow> n \<noteq> 0 \<Longrightarrow> chunk s a n = Some (h, l) \<Longrightarrow> i < unat l \<Longrightarrow>
      byte_at s (a + of_nat i) = Some (h + of_nat i)"
    and chunk_None_iff: "wf s \<Longrightarrow> n \<noteq> 0 \<Longrightarrow> chunk s a n = None \<longleftrightarrow> byte_at s a = None"
    and byte_at_max: "wf s \<Longrightarrow> byte_at s (- 1) = None"
begin

definition mapped :: "'s \<Rightarrow> u64 \<Rightarrow> nat \<Rightarrow> bool" where
  "mapped s a n \<longleftrightarrow> (\<forall>i < n. byte_at s (a + of_nat i) \<noteq> None)"

lemma mapped_0 [simp]: "mapped s a 0"
  by (simp add: mapped_def)

lemma mapped_split: "mapped s a (n + k) \<longleftrightarrow> mapped s a n \<and> mapped s (a + of_nat n) k"
proof -
  have "(\<forall>i < n + k. P i) \<longleftrightarrow> (\<forall>i < n. P i) \<and> (\<forall>i < k. P (n + i))" for P
    by (metis add_less_cancel_left le_Suc_ex not_less trans_less_add1)
  then show ?thesis unfolding mapped_def by (simp add: add.assoc)
qed

lemma mapped_chunk:
  "wf s \<Longrightarrow> n \<noteq> 0 \<Longrightarrow> chunk s a n = Some (h, l) \<Longrightarrow> mapped s a (unat l)"
  by (simp add: mapped_def chunk_bytes)

lemma mapped_step:
  assumes "wf s" and "n \<noteq> 0" and "chunk s a n = Some (h, l)"
  shows "mapped s a (unat n) \<longleftrightarrow> mapped s (a + l) (unat (n - l))"
proof -
  have "unat n = unat l + unat (n - l)"
    using chunk_bounds[OF assms] by (simp add: unat_sub word_le_nat_alt)
  then show ?thesis
    using mapped_split[of s a "unat l" "unat (n - l)"] mapped_chunk[OF assms] by simp
qed

lemma not_mapped_None: "wf s \<Longrightarrow> n \<noteq> 0 \<Longrightarrow> chunk s a n = None \<Longrightarrow> \<not> mapped s a (unat n)"
  by (auto simp: mapped_def chunk_None_iff unat_gt_0 intro!: exI[of _ 0])

lemma mapped_no_wrap:
  assumes "wf s" and "mapped s a n"
  shows "unat a + n < 2 ^ 64"
proof (rule ccontr)
  assume "\<not> ?thesis"
  then have "2 ^ 64 - 1 - unat a < n" using unat_lt_u64[of a] by linarith
  moreover have "a + of_nat (2 ^ 64 - 1 - unat a) = - 1"
    by (rule word_unat_eq_iff[THEN iffD2])
      (use unat_lt_u64[of a] in \<open>simp add: unat_add_u64 unat_of_nat_u64 unat_max_u64\<close>)
  ultimately show False using assms byte_at_max[OF assms(1)] unfolding mapped_def by fastforce
qed

lemma chunk_induct [consumes 1, case_names zero unmapped chunk]:
  assumes "wf s"
    and "\<And>a. P a 0"
    and "\<And>a n. n \<noteq> 0 \<Longrightarrow> chunk s a n = None \<Longrightarrow> P a n"
    and "\<And>a n h l. n \<noteq> 0 \<Longrightarrow> chunk s a n = Some (h, l) \<Longrightarrow> l \<noteq> 0 \<Longrightarrow> l \<le> n \<Longrightarrow>
      P (a + l) (n - l) \<Longrightarrow> P a n"
  shows "P a (n :: u64)"
proof (induction "unat n" arbitrary: a n rule: less_induct)
  case less
  show ?case
  proof (cases "n = 0 \<or> chunk s a n = None")
    case False
    then obtain h l where c: "chunk s a n = Some (h, l)" by force
    with chunk_bounds[OF assms(1)] False have "l \<noteq> 0" "l \<le> n" by auto
    with less assms(4)[OF _ c] False show ?thesis by (simp add: unat_minus_less)
  next
    case True
    then show ?thesis by (cases "n = 0") (use assms(2,3) in simp_all)
  qed
qed

end

lemma try_translate_chunk_wf:
  assumes "wf_address_space asp" and "n \<noteq> 0"
  shows "try_translate_address_space_chunk asp a n =
     (case find (\<lambda>m. a \<in> user_bytes m) (live_mappings asp) of
        None \<Rightarrow> None
      | Some m \<Rightarrow> if asm_host_address m = 0 then None
                  else Some (asm_host_address m + (a - asm_user_address m),
                             min n (asm_size m - (a - asm_user_address m))))"
proof (cases "find (\<lambda>m. a \<in> user_bytes m) (live_mappings asp)")
  case None
  then show ?thesis
    using assms by (simp add: try_translate_address_space_chunk_def find_address_space_mapping_wf)
next
  case (Some m)
  note m = find_user_bytes_SomeD[OF Some]
  have v: "valid_mapping m" using assms(1) m(1) by (rule wf_live_valid)
  let ?off = "a - asm_user_address m"
  have "\<not> ?off > - 1 - asm_host_address m"
    using user_bytes_offset[OF m(2)] v by (simp add: not_less le_max_minus_iff valid_mapping_iff)
  moreover have "asm_size m - ?off \<noteq> 0" using user_bytes_offset(2)[OF m(2)] by auto
  ultimately show ?thesis
    using Some assms
    by (simp add: try_translate_address_space_chunk_def find_address_space_mapping_wf min_def Let_def)
qed

lemma xlate_same_mapping:
  assumes "wf_address_space asp" and "m \<in> set (live_mappings asp)" and "a \<in> user_bytes m"
    and "asm_host_address m \<noteq> 0" and "i < unat (asm_size m - (a - asm_user_address m))"
  shows "xlate asp (a + of_nat i) = Some (asm_host_address m + (a - asm_user_address m) + of_nat i)"
proof -
  note o = user_bytes_offset[OF assms(3)]
  have v: "valid_mapping m" using assms(1,2) by (rule wf_live_valid)
  have av: "unat (asm_size m - (a - asm_user_address m)) =
      unat (asm_size m) - (unat a - unat (asm_user_address m))"
    using o by (simp add: unat_sub word_le_nat_alt)
  have i: "i < 2 ^ 64" using assms(5) unat_lt_u64[of "asm_size m - (a - asm_user_address m)"] by linarith
  have "unat a + i < 2 ^ 64"
    using assms(3,5) av v unfolding user_bytes_def valid_mapping_iff by auto
  then have "unat (a + of_nat i) = unat a + i"
    using i by (simp add: unat_add_u64 unat_of_nat_u64)
  then have "a + of_nat i \<in> user_bytes m"
    using assms(3,5) av by (simp add: user_bytes_def)
  from find_user_bytes_unique[OF assms(1,2) this] show ?thesis
    using assms(4) by (simp add: xlate_def algebra_simps)
qed

interpretation as_chunks: chunked_translation wf_address_space try_translate_address_space_chunk xlate
proof unfold_locales
  fix asp a n h l
  assume wf: "wf_address_space asp" and n: "n \<noteq> 0"
    and c: "try_translate_address_space_chunk asp a n = Some (h, l)"
  then obtain m where f: "find (\<lambda>m. a \<in> user_bytes m) (live_mappings asp) = Some m"
    and h0: "asm_host_address m \<noteq> 0" and h: "h = asm_host_address m + (a - asm_user_address m)"
    and l: "l = min n (asm_size m - (a - asm_user_address m))"
    by (auto simp: try_translate_chunk_wf split: option.splits if_splits)
  note m = find_user_bytes_SomeD[OF f]
  have "asm_size m - (a - asm_user_address m) \<noteq> 0" using user_bytes_offset(2)[OF m(2)] by auto
  then show "l \<noteq> 0 \<and> l \<le> n" using n by (auto simp: l min_def)
  fix i assume "i < unat l"
  then have "i < unat (asm_size m - (a - asm_user_address m))"
    by (auto simp: l min_def word_le_nat_alt split: if_splits)
  then show "xlate asp (a + of_nat i) = Some (h + of_nat i)"
    using xlate_same_mapping[OF wf m h0] by (simp add: h)
next
  fix asp :: address_space and a n :: u64
  assume "wf_address_space asp" and "n \<noteq> 0"
  then show "(try_translate_address_space_chunk asp a n = None) = (xlate asp a = None)"
    by (simp add: try_translate_chunk_wf xlate_def split: option.splits)
next
  fix asp assume wf: "wf_address_space asp"
  have "(- 1 :: u64) \<notin> user_bytes m" if "m \<in> set (live_mappings asp)" for m
    using wf_live_valid[OF wf that] by (auto simp: user_bytes_def valid_mapping_iff unat_max_u64)
  then show "xlate asp (- 1) = None"
    by (auto simp: xlate_def split: option.splits dest: find_user_bytes_SomeD)
qed

lemma validate_range_loop_mapped:
  assumes "wf_address_space asp"
  shows "validate_range_loop asp a len \<longleftrightarrow> as_chunks.mapped asp a (unat len)"
  using assms
proof (induction a len rule: as_chunks.chunk_induct)
  case (zero a)
  then show ?case by (simp add: validate_range_loop.simps)
next
  case (unmapped a n)
  then show ?case
    using assms by (simp add: validate_range_loop.simps as_chunks.not_mapped_None)
next
  case (chunk a n h l)
  have "unat a + unat l < 2 ^ 64"
    using as_chunks.mapped_no_wrap[OF assms as_chunks.mapped_chunk[OF assms chunk(1,2)]] .
  then have "\<not> l > - 1 - a" by (simp add: not_less le_max_minus_iff)
  with chunk show ?case
    using as_chunks.mapped_step[OF assms chunk(1,2)]
    by (subst validate_range_loop.simps) (auto dest: leD)
qed

section \<open>Properties\<close>

text \<open>
  C1. Validation of a non-empty user range is exactly byte-wise: on a well-formed address space the
  loop of \<open>validate_address_space_range\<close> returns true if and only if every byte of the range has a
  host byte, whatever number of adjacent mappings the range crosses.
\<close>

theorem validate_range_iff_mapped:
  assumes "wf_address_space asp" and "len \<noteq> 0"
  shows "validate_address_space_range asp a len \<longleftrightarrow>
    (\<forall>i < unat len. xlate asp (a + of_nat i) \<noteq> None)"
  using assms by (simp add: validate_address_space_range_def validate_range_loop_mapped
      as_chunks.mapped_def)

theorem validate_range_iff_mapped_witness:
  "\<exists>asp. add_address_space_mapping (empty_address_space 0) 0x1000 0x8000 0x10 = Some asp \<and>
     (validate_address_space_range asp 0x1004 4 \<longleftrightarrow>
       (\<forall>i < unat (4 :: u64). xlate asp (0x1004 + of_nat i) \<noteq> None))"
proof -
  have "\<exists>asp. add_address_space_mapping (empty_address_space 0) 0x1000 0x8000 0x10 = Some asp"
    by (simp add: add_address_space_mapping_def is_valid_address_range_def empty_address_space_def
        live_mappings_def USER_RUNTIME_MAX_ADDRESS_SPACE_MAPPINGS_def)
  then obtain asp where
    a: "add_address_space_mapping (empty_address_space 0) 0x1000 0x8000 0x10 = Some asp" ..
  have "wf_address_space asp"
    by (rule add_address_space_mapping_wf[OF wf_empty_address_space a])
  from validate_range_iff_mapped[OF this, of 4 "0x1004"] a show ?thesis by auto
qed

text \<open>
  C2. A successful \<open>add_address_space_mapping\<close> keeps the address space well formed (in particular
  the user ranges stay disjoint) and changes the translation of exactly the bytes of the new
  range; every other user byte keeps its host byte.
\<close>

theorem add_mapping_lookup:
  assumes "wf_address_space asp" and "add_address_space_mapping asp u h n = Some asp'"
  shows "wf_address_space asp' \<and>
    (\<forall>a. xlate asp' a =
      (if unat u \<le> unat a \<and> unat a < unat u + unat n
       then (if h = 0 then None else Some (h + (a - u))) else xlate asp a))"
proof (intro conjI allI)
  show wf': "wf_address_space asp'" using assms by (rule add_address_space_mapping_wf)
  let ?m = "\<lparr>asm_user_address = u, asm_host_address = h, asm_size = n\<rparr>"
  have len: "length (mappings asp) = USER_RUNTIME_MAX_ADDRESS_SPACE_MAPPINGS"
    using assms(1) by (simp add: wf_address_space_def)
  note live = add_address_space_mapping_SomeD(1)[OF assms(2) len]
  fix a
  show "xlate asp' a =
      (if unat u \<le> unat a \<and> unat a < unat u + unat n
       then (if h = 0 then None else Some (h + (a - u))) else xlate asp a)"
  proof (cases "a \<in> user_bytes ?m")
    case True
    then show ?thesis
      using find_user_bytes_unique[OF wf', of ?m a] by (simp add: live xlate_def user_bytes_def)
  next
    case False
    then have "find (\<lambda>m. a \<in> user_bytes m) (live_mappings asp') =
        find (\<lambda>m. a \<in> user_bytes m) (live_mappings asp)"
      by (simp add: live find_append split: option.splits)
    then have "xlate asp' a = xlate asp a" by (simp add: xlate_def)
    with False show ?thesis by (auto simp: user_bytes_def)
  qed
qed

theorem add_mapping_lookup_witness:
  "\<exists>asp. add_address_space_mapping (empty_address_space 0) 0x1000 0x8000 0x10 = Some asp \<and>
     wf_address_space asp \<and> xlate asp 0x1005 = Some 0x8005"
proof -
  have "\<exists>asp. add_address_space_mapping (empty_address_space 0) 0x1000 0x8000 0x10 = Some asp"
    by (simp add: add_address_space_mapping_def is_valid_address_range_def empty_address_space_def
        live_mappings_def USER_RUNTIME_MAX_ADDRESS_SPACE_MAPPINGS_def)
  then obtain asp where
    a: "add_address_space_mapping (empty_address_space 0) 0x1000 0x8000 0x10 = Some asp" ..
  from add_mapping_lookup[OF wf_empty_address_space this] a show ?thesis by auto
qed

lemma try_translate_address_bytes:
  assumes "wf_address_space asp" and "len \<noteq> 0"
    and "try_translate_address_space_address asp a len = Some h" and "i < unat len"
  shows "xlate asp (a + of_nat i) = Some (h + of_nat i)"
  using assms(3,4) as_chunks.chunk_bytes[OF assms(1,2), of a h len i]
  by (auto simp: try_translate_address_space_address_def split: if_splits option.splits)

lemma try_translate_byte:
  assumes "wf_address_space asp"
  shows "try_translate_address_space_address asp a 1 = xlate asp a"
proof (cases "try_translate_address_space_chunk asp a 1")
  case None
  then show ?thesis
    using as_chunks.chunk_None_iff[OF assms, of 1 a]
    by (simp add: try_translate_address_space_address_def)
next
  case (Some hl)
  then obtain h l where hl: "try_translate_address_space_chunk asp a 1 = Some (h, l)" by (cases hl) auto
  have "l = 1"
    using as_chunks.chunk_bounds[OF assms _ hl]
    by (auto simp: word_le_nat_alt unat_gt_0[symmetric] intro!: word_unat_eq_iff[THEN iffD2]
        simp del: unat_gt_0)
  moreover have "xlate asp a = Some h"
    using as_chunks.chunk_bytes[OF assms _ hl, of 0] \<open>l = 1\<close> by simp
  moreover have "validate_address_space_range asp a 1"
    using assms calculation(2)
    by (simp add: validate_address_space_range_def validate_range_loop_mapped as_chunks.mapped_def)
  ultimately show ?thesis using hl by (simp add: try_translate_address_space_address_def)
qed

end
