(* ===== verification/Kernel_Objects.thy ===== *)
theory Kernel_Objects
  imports Kernel_Object_Pool Address_Space
begin

text \<open>
  The kernel's data types: the ABI constants of \<open>kernel/syscalls.h\<close>, the types of
  \<open>kernel/user_runtime_types.h\<close> with their constructors in \<open>kernel/user_runtime_types.cpp\<close>, and
  the pooled objects of \<open>process\<close>, \<open>thread\<close>, \<open>device_memory_object\<close> and \<open>shared_memory_object\<close>.
  Status codes are 32-bit words read as two's complement. A pointer to a process or thread is the
  index of its slot in the runtime's pool. The two targets of the conditional compilation are the
  values of \<open>target_arch\<close>.
\<close>

section \<open>ABI constants\<close>

datatype target_arch = X86_64 | AARCH64

definition STATUS_OK :: i32 where "STATUS_OK = 0"
definition STATUS_INVALID_ARGUMENT :: i32 where "STATUS_INVALID_ARGUMENT = - 1"
definition STATUS_BAD_HANDLE :: i32 where "STATUS_BAD_HANDLE = - 2"
definition STATUS_WRONG_TYPE :: i32 where "STATUS_WRONG_TYPE = - 3"
definition STATUS_BUFFER_TOO_SMALL :: i32 where "STATUS_BUFFER_TOO_SMALL = - 4"
definition STATUS_PEER_CLOSED :: i32 where "STATUS_PEER_CLOSED = - 5"
definition STATUS_WOULD_BLOCK :: i32 where "STATUS_WOULD_BLOCK = - 6"
definition STATUS_TIMED_OUT :: i32 where "STATUS_TIMED_OUT = - 7"
definition STATUS_NO_MEMORY :: i32 where "STATUS_NO_MEMORY = - 8"
definition STATUS_FAULT :: i32 where "STATUS_FAULT = - 9"
definition STATUS_NOT_SUPPORTED :: i32 where "STATUS_NOT_SUPPORTED = - 10"
definition STATUS_BAD_STATE :: i32 where "STATUS_BAD_STATE = - 11"
definition STATUS_NOT_FOUND :: i32 where "STATUS_NOT_FOUND = - 12"

lemmas status_defs = STATUS_OK_def STATUS_INVALID_ARGUMENT_def STATUS_BAD_HANDLE_def
  STATUS_WRONG_TYPE_def STATUS_BUFFER_TOO_SMALL_def STATUS_PEER_CLOSED_def STATUS_WOULD_BLOCK_def
  STATUS_TIMED_OUT_def STATUS_NO_MEMORY_def STATUS_FAULT_def STATUS_NOT_SUPPORTED_def
  STATUS_BAD_STATE_def STATUS_NOT_FOUND_def

lemma status_not_OK [simp]:
  "STATUS_INVALID_ARGUMENT \<noteq> STATUS_OK" "STATUS_BAD_HANDLE \<noteq> STATUS_OK"
  "STATUS_WRONG_TYPE \<noteq> STATUS_OK" "STATUS_BUFFER_TOO_SMALL \<noteq> STATUS_OK"
  "STATUS_PEER_CLOSED \<noteq> STATUS_OK" "STATUS_WOULD_BLOCK \<noteq> STATUS_OK"
  "STATUS_NO_MEMORY \<noteq> STATUS_OK" "STATUS_FAULT \<noteq> STATUS_OK"
  "STATUS_NOT_SUPPORTED \<noteq> STATUS_OK" "STATUS_BAD_STATE \<noteq> STATUS_OK"
  "STATUS_NOT_FOUND \<noteq> STATUS_OK"
  by (simp_all add: status_defs)

lemmas status_not_OK_sym [simp] = status_not_OK[symmetric]

definition SYSCALL_DEBUG_LOG :: u64 where "SYSCALL_DEBUG_LOG = 1"
definition SYSCALL_THREAD_EXIT :: u64 where "SYSCALL_THREAD_EXIT = 2"
definition SYSCALL_RPC_REGISTER :: u64 where "SYSCALL_RPC_REGISTER = 3"
definition SYSCALL_RPC_OPEN :: u64 where "SYSCALL_RPC_OPEN = 4"
definition SYSCALL_RPC_CALL :: u64 where "SYSCALL_RPC_CALL = 5"
definition SYSCALL_DEVICE_MEMORY_MAP :: u64 where "SYSCALL_DEVICE_MEMORY_MAP = 6"
definition SYSCALL_RPC_CLOSE :: u64 where "SYSCALL_RPC_CLOSE = 7"
definition SYSCALL_RPC_COMPLETE :: u64 where "SYSCALL_RPC_COMPLETE = 8"

lemmas syscall_defs = SYSCALL_DEBUG_LOG_def SYSCALL_THREAD_EXIT_def SYSCALL_RPC_REGISTER_def
  SYSCALL_RPC_OPEN_def SYSCALL_RPC_CALL_def SYSCALL_DEVICE_MEMORY_MAP_def SYSCALL_RPC_CLOSE_def
  SYSCALL_RPC_COMPLETE_def

definition USER_RUNTIME_MAX_PROCESSES :: nat where "USER_RUNTIME_MAX_PROCESSES = 4"
definition USER_RUNTIME_MAX_THREADS :: nat where "USER_RUNTIME_MAX_THREADS = 4"
definition USER_RUNTIME_MAX_DEVICE_MEMORY_OBJECTS :: nat where
  "USER_RUNTIME_MAX_DEVICE_MEMORY_OBJECTS = 4"
definition USER_RUNTIME_MAX_RPC_ENDPOINTS :: nat where "USER_RUNTIME_MAX_RPC_ENDPOINTS = 8"
definition USER_RUNTIME_MAX_RPC_CHANNELS :: nat where "USER_RUNTIME_MAX_RPC_CHANNELS = 8"
definition USER_RUNTIME_MAX_SHARED_MEMORY_OBJECTS :: nat where
  "USER_RUNTIME_MAX_SHARED_MEMORY_OBJECTS = 4"
definition USER_RUNTIME_MAX_INITIAL_PROCESSES :: nat where "USER_RUNTIME_MAX_INITIAL_PROCESSES = 2"
definition USER_THREAD_ARCH_PRESERVED_REGISTER_COUNT :: nat where
  "USER_THREAD_ARCH_PRESERVED_REGISTER_COUNT = 12"
definition USER_THREAD_ARCH_PRESERVED_SIMD_QWORD_COUNT :: nat where
  "USER_THREAD_ARCH_PRESERVED_SIMD_QWORD_COUNT = 20"

section \<open>Runtime types\<close>

datatype user_thread_state =
    USER_THREAD_STATE_EMPTY
  | USER_THREAD_STATE_READY
  | USER_THREAD_STATE_RUNNING
  | USER_THREAD_STATE_BLOCKED
  | USER_THREAD_STATE_EXITED

datatype user_thread_resume_kind = USER_THREAD_RESUME_KIND_SYSCALL | USER_THREAD_RESUME_KIND_RPC

datatype process_guest_architecture =
    PROCESS_GUEST_ARCHITECTURE_UNKNOWN
  | PROCESS_GUEST_ARCHITECTURE_X64
  | PROCESS_GUEST_ARCHITECTURE_ARM64

datatype process_personality =
    PROCESS_PERSONALITY_UNKNOWN
  | PROCESS_PERSONALITY_RINGOS
  | PROCESS_PERSONALITY_WINDOWS

datatype process_execution_backend =
    PROCESS_EXECUTION_BACKEND_UNKNOWN
  | PROCESS_EXECUTION_BACKEND_NATIVE
  | PROCESS_EXECUTION_BACKEND_X64_EMULATOR

record process_metadata =
  guest_architecture :: process_guest_architecture
  personality :: process_personality
  execution_backend :: process_execution_backend

record thread_context =
  ctx_instruction_pointer :: u64
  ctx_stack_pointer :: u64
  ctx_flags :: u64
  ctx_argument0 :: u64

record user_thread_resume =
  resume_kind :: user_thread_resume_kind
  resume_instruction_pointer :: u64
  resume_stack_pointer :: u64
  resume_flags :: u64
  resume_argument0 :: u64
  resume_argument1 :: u64
  resume_status_code :: i32
  resume_rpc_completion_address :: u64

record user_syscall_context =
  sc_syscall_number :: u64
  sc_trap_instruction_pointer :: u64
  sc_stack_pointer :: u64
  sc_trap_flags :: u64
  sc_argument0 :: u64
  sc_argument1 :: u64
  sc_argument2 :: u64
  sc_argument3 :: u64
  sc_argument4 :: u64
  sc_argument5 :: u64

record initial_process_configuration =
  cfg_metadata :: process_metadata
  cfg_address_space :: address_space
  cfg_thread_context :: thread_context

record initial_user_runtime_bootstrap =
  boot_process_count :: u32
  boot_initial_process_index :: u32
  boot_initial_processes :: "initial_process_configuration list"

definition make_user_syscall_context ::
  "u64 \<Rightarrow> u64 \<Rightarrow> u64 \<Rightarrow> u64 \<Rightarrow> u64 \<Rightarrow> u64 \<Rightarrow> u64 \<Rightarrow> u64 \<Rightarrow> u64 \<Rightarrow> u64 \<Rightarrow> user_syscall_context" where
  "make_user_syscall_context syscall_number trap_instruction_pointer stack_pointer trap_flags
     argument0 argument1 argument2 argument3 argument4 argument5 =
     \<lparr>sc_syscall_number = syscall_number,
      sc_trap_instruction_pointer = trap_instruction_pointer,
      sc_stack_pointer = stack_pointer, sc_trap_flags = trap_flags,
      sc_argument0 = argument0, sc_argument1 = argument1, sc_argument2 = argument2,
      sc_argument3 = argument3, sc_argument4 = argument4, sc_argument5 = argument5\<rparr>"

definition make_thread_context_from_syscall :: "user_syscall_context \<Rightarrow> thread_context" where
  "make_thread_context_from_syscall sc =
     \<lparr>ctx_instruction_pointer = sc_trap_instruction_pointer sc,
      ctx_stack_pointer = sc_stack_pointer sc,
      ctx_flags = sc_trap_flags sc,
      ctx_argument0 = sc_argument0 sc\<rparr>"

definition empty_thread_context :: thread_context where
  "empty_thread_context = \<lparr>ctx_instruction_pointer = 0, ctx_stack_pointer = 0, ctx_flags = 0,
     ctx_argument0 = 0\<rparr>"

section \<open>Processes and memory objects\<close>

type_synonym process_ref = nat
type_synonym thread_ref = nat

record process = kernel_object +
  m_metadata :: process_metadata
  m_address_space :: address_space

definition make_process :: "process_metadata \<Rightarrow> address_space \<Rightarrow> u32 \<Rightarrow> handle_t \<Rightarrow> process" where
  "make_process metadata address_space_info process_id handle_value =
     \<lparr>m_id = process_id, m_handle_value = handle_value, m_process_reference_count = 0,
      m_metadata = metadata, m_address_space = address_space_info\<rparr>"

datatype device_memory_type =
    DEVICE_MEMORY_TYPE_NONE
  | DEVICE_MEMORY_TYPE_VIRTUAL_CONSOLE_BUFFER
  | DEVICE_MEMORY_TYPE_MMIO

record device_memory_object = kernel_object +
  dm_type :: device_memory_type
  dm_user_address :: u64
  dm_host_address :: u64
  dm_size :: u64

definition make_device_memory_object ::
  "device_memory_type \<Rightarrow> u64 \<Rightarrow> u64 \<Rightarrow> u64 \<Rightarrow> u32 \<Rightarrow> handle_t \<Rightarrow> device_memory_object" where
  "make_device_memory_object ty user_address host_address len object_id handle_value =
     \<lparr>m_id = object_id, m_handle_value = handle_value, m_process_reference_count = 0,
      dm_type = ty, dm_user_address = user_address, dm_host_address = host_address,
      dm_size = len\<rparr>"

record shared_memory_object = kernel_object +
  sm_user_address :: u64
  sm_size :: u64

definition make_shared_memory_object :: "u64 \<Rightarrow> u64 \<Rightarrow> u32 \<Rightarrow> handle_t \<Rightarrow> shared_memory_object" where
  "make_shared_memory_object user_address len object_id handle_value =
     \<lparr>m_id = object_id, m_handle_value = handle_value, m_process_reference_count = 0,
      sm_user_address = user_address, sm_size = len\<rparr>"

section \<open>Threads\<close>

record thread = kernel_object +
  m_process :: "process_ref option"
  m_state :: user_thread_state
  m_user_context :: thread_context
  m_resume_state :: user_thread_resume
  m_exit_status :: u64
  m_initial_argument0 :: u64
  m_should_deliver_initial_argument :: bool
  m_pending_syscall_status :: i32
  m_arch_preserved_registers :: "u64 list"
  m_arch_preserved_simd_qwords :: "u64 list"

text \<open>
  The constructor initializes \<open>m_resume_state\<close> positionally: the sixth initializer \<open>STATUS_OK\<close>
  lands in \<open>argument1\<close>, the seventh in \<open>status_code\<close>, and the completion address is
  value-initialized.
\<close>

definition make_thread :: "process_ref \<Rightarrow> thread_context \<Rightarrow> u32 \<Rightarrow> handle_t \<Rightarrow> thread" where
  "make_thread process_context initial_context thread_id handle_value =
     \<lparr>m_id = thread_id, m_handle_value = handle_value, m_process_reference_count = 0,
      m_process = Some process_context,
      m_state = USER_THREAD_STATE_READY,
      m_user_context = initial_context,
      m_resume_state =
        \<lparr>resume_kind = USER_THREAD_RESUME_KIND_SYSCALL,
         resume_instruction_pointer = ctx_instruction_pointer initial_context,
         resume_stack_pointer = ctx_stack_pointer initial_context,
         resume_flags = ctx_flags initial_context,
         resume_argument0 = ctx_argument0 initial_context,
         resume_argument1 = scast STATUS_OK,
         resume_status_code = 0,
         resume_rpc_completion_address = 0\<rparr>,
      m_exit_status = 0,
      m_initial_argument0 = ctx_argument0 initial_context,
      m_should_deliver_initial_argument = True,
      m_pending_syscall_status = STATUS_OK,
      m_arch_preserved_registers = replicate USER_THREAD_ARCH_PRESERVED_REGISTER_COUNT 0,
      m_arch_preserved_simd_qwords = replicate USER_THREAD_ARCH_PRESERVED_SIMD_QWORD_COUNT 0\<rparr>"

definition sync_resume_to_user_context :: "thread \<Rightarrow> thread" where
  "sync_resume_to_user_context th =
     th\<lparr>m_resume_state :=
        \<lparr>resume_kind = USER_THREAD_RESUME_KIND_SYSCALL,
         resume_instruction_pointer = ctx_instruction_pointer (m_user_context th),
         resume_stack_pointer = ctx_stack_pointer (m_user_context th),
         resume_flags = ctx_flags (m_user_context th),
         resume_argument0 = ctx_argument0 (m_user_context th),
         resume_argument1 = 0,
         resume_status_code = m_pending_syscall_status th,
         resume_rpc_completion_address = 0\<rparr>\<rparr>"

definition set_user_context :: "thread_context \<Rightarrow> thread \<Rightarrow> thread" where
  "set_user_context user_context th =
     sync_resume_to_user_context (th\<lparr>m_user_context := user_context\<rparr>)"

definition set_state :: "user_thread_state \<Rightarrow> thread \<Rightarrow> thread" where
  "set_state state th = th\<lparr>m_state := state\<rparr>"

definition set_exit_status :: "u64 \<Rightarrow> thread \<Rightarrow> thread" where
  "set_exit_status exit_status th = th\<lparr>m_exit_status := exit_status\<rparr>"

definition clear_initial_argument :: "thread \<Rightarrow> thread" where
  "clear_initial_argument th = th\<lparr>m_should_deliver_initial_argument := False\<rparr>"

definition set_pending_syscall_status :: "i32 \<Rightarrow> thread \<Rightarrow> thread" where
  "set_pending_syscall_status status th =
     th\<lparr>m_pending_syscall_status := status,
        m_resume_state := (m_resume_state th)\<lparr>resume_status_code := status\<rparr>\<rparr>"

definition prepare_syscall_resume :: "target_arch \<Rightarrow> i32 \<Rightarrow> thread \<Rightarrow> thread" where
  "prepare_syscall_resume arch status th =
     (let th1 = sync_resume_to_user_context (th\<lparr>m_pending_syscall_status := status\<rparr>);
          th2 = th1\<lparr>m_resume_state := (m_resume_state th1)\<lparr>resume_status_code := status\<rparr>\<rparr>
      in case arch of
           X86_64 \<Rightarrow> th2
         | AARCH64 \<Rightarrow> th2\<lparr>m_resume_state := (m_resume_state th2)\<lparr>resume_argument0 := scast status\<rparr>\<rparr>)"

definition prepare_rpc_resume :: "u64 \<Rightarrow> u64 \<Rightarrow> u64 \<Rightarrow> u64 \<Rightarrow> u64 \<Rightarrow> thread \<Rightarrow> thread" where
  "prepare_rpc_resume callback_address completion_address argument0 argument1 stack_pointer th =
     th\<lparr>m_resume_state :=
        \<lparr>resume_kind = USER_THREAD_RESUME_KIND_RPC,
         resume_instruction_pointer = callback_address,
         resume_stack_pointer = stack_pointer,
         resume_flags = ctx_flags (m_user_context th),
         resume_argument0 = argument0,
         resume_argument1 = argument1,
         resume_status_code = 0,
         resume_rpc_completion_address = completion_address\<rparr>\<rparr>"

lemmas thread_op_defs = set_state_def set_exit_status_def set_user_context_def
  sync_resume_to_user_context_def prepare_syscall_resume_def prepare_rpc_resume_def
  acquire_process_reference_def

text \<open>Which fields of a thread an operation leaves alone.\<close>

lemma thread_op_frames [frame_simps]:
  "m_state (set_user_context c th) = m_state th"
  "m_state (prepare_syscall_resume arch st th) = m_state th"
  "m_state (prepare_rpc_resume x1 x2 x3 x4 x5 th) = m_state th"
  "m_state (set_exit_status e th) = m_state th"
  "m_state (set_state s th) = s"
  "m_process (set_user_context c th) = m_process th"
  "m_process (prepare_syscall_resume arch st th) = m_process th"
  "m_process (prepare_rpc_resume x1 x2 x3 x4 x5 th) = m_process th"
  "m_process (set_exit_status e th) = m_process th"
  "m_process (set_state s th) = m_process th"
  "m_handle_value (set_user_context c th) = m_handle_value th"
  "m_handle_value (prepare_syscall_resume arch st th) = m_handle_value th"
  "m_handle_value (prepare_rpc_resume x1 x2 x3 x4 x5 th) = m_handle_value th"
  "m_handle_value (set_exit_status e th) = m_handle_value th"
  "m_handle_value (set_state s th) = m_handle_value th"
  by (simp_all add: thread_op_defs Let_def split: target_arch.split)

lemma thread_op_register_frames [frame_simps]:
  "m_arch_preserved_registers (set_user_context c th) = m_arch_preserved_registers th"
  "m_arch_preserved_registers (prepare_syscall_resume arch st th) = m_arch_preserved_registers th"
  "m_arch_preserved_registers (prepare_rpc_resume x1 x2 x3 x4 x5 th) = m_arch_preserved_registers th"
  "m_arch_preserved_registers (set_state s th) = m_arch_preserved_registers th"
  "m_arch_preserved_simd_qwords (set_user_context c th) = m_arch_preserved_simd_qwords th"
  "m_arch_preserved_simd_qwords (prepare_syscall_resume arch st th) = m_arch_preserved_simd_qwords th"
  "m_arch_preserved_simd_qwords (prepare_rpc_resume x1 x2 x3 x4 x5 th) = m_arch_preserved_simd_qwords th"
  "m_arch_preserved_simd_qwords (set_state s th) = m_arch_preserved_simd_qwords th"
  "m_user_context (set_user_context c th) = c"
  "m_user_context (prepare_syscall_resume arch st th) = m_user_context th"
  "m_user_context (prepare_rpc_resume x1 x2 x3 x4 x5 th) = m_user_context th"
  "m_user_context (set_state s th) = m_user_context th"
  by (simp_all add: thread_op_defs Let_def split: target_arch.split)

end
