(* ===== verification/User_Memory.thy ===== *)
theory User_Memory
  imports Kernel_Objects
begin

text \<open>
  The part of \<open>kernel/user_runtime.cpp\<close> that reaches user memory: copies between a user range and a
  kernel buffer, copies between two processes, and the copy of a user string. Each is a loop over
  the chunks of \<open>try_translate_address_space_chunk\<close>; the kernel side of a copy is a byte list.
  The kernel's own buffers are never null in the tree, so the null checks of the C++ signatures
  have no counterpart here.
\<close>

section \<open>Operations\<close>

function copy_user_bytes_loop :: "address_space \<Rightarrow> hmem \<Rightarrow> u64 \<Rightarrow> u64 \<Rightarrow> i32 \<times> u8 list" where
  "copy_user_bytes_loop asp m current_user_address remaining_size =
     (if remaining_size = 0 then (STATUS_OK, [])
      else case try_translate_address_space_chunk asp current_user_address remaining_size of
        None \<Rightarrow> (STATUS_FAULT, [])
      | Some (host_address, translated_length) \<Rightarrow>
          if translated_length = 0 then (STATUS_FAULT, [])
          else (let (status, rest) = copy_user_bytes_loop asp m
                      (current_user_address + translated_length) (remaining_size - translated_length)
                in (status, load_bytes m host_address (unat translated_length) @ rest)))"
  by pat_completeness auto
termination
  by (relation "measure (\<lambda>(asp, m, a, n). unat n)")
    (auto intro: unat_minus_less dest: try_translate_chunk_le)

definition copy_user_bytes :: "address_space \<Rightarrow> hmem \<Rightarrow> u64 \<Rightarrow> u64 \<Rightarrow> i32 \<times> u8 list" where
  "copy_user_bytes asp m user_address buffer_size = copy_user_bytes_loop asp m user_address buffer_size"

function write_user_bytes_loop :: "address_space \<Rightarrow> hmem \<Rightarrow> u64 \<Rightarrow> u8 list \<Rightarrow> u64 \<Rightarrow> i32 \<times> hmem" where
  "write_user_bytes_loop asp m current_user_address current_buffer remaining_size =
     (if remaining_size = 0 then (STATUS_OK, m)
      else case try_translate_address_space_chunk asp current_user_address remaining_size of
        None \<Rightarrow> (STATUS_FAULT, m)
      | Some (host_address, translated_length) \<Rightarrow>
          if translated_length = 0 then (STATUS_FAULT, m)
          else write_user_bytes_loop asp
                 (store_bytes m host_address (take (unat translated_length) current_buffer))
                 (current_user_address + translated_length)
                 (drop (unat translated_length) current_buffer)
                 (remaining_size - translated_length))"
  by pat_completeness auto
termination
  by (relation "measure (\<lambda>(asp, m, a, bs, n). unat n)")
    (auto intro: unat_minus_less dest: try_translate_chunk_le)

definition write_user_bytes :: "address_space \<Rightarrow> hmem \<Rightarrow> u64 \<Rightarrow> u8 list \<Rightarrow> i32 \<times> hmem" where
  "write_user_bytes asp m user_address buffer =
     write_user_bytes_loop asp m user_address buffer (of_nat (length buffer))"

function copy_between_loop ::
  "address_space \<Rightarrow> address_space \<Rightarrow> hmem \<Rightarrow> u64 \<Rightarrow> u64 \<Rightarrow> u64 \<Rightarrow> i32 \<times> hmem" where
  "copy_between_loop source_asp destination_asp m current_source_address
     current_destination_address remaining_size =
     (if remaining_size = 0 then (STATUS_OK, m)
      else case try_translate_address_space_chunk source_asp current_source_address remaining_size of
        None \<Rightarrow> (STATUS_FAULT, m)
      | Some (source_host_address, source_translated_length) \<Rightarrow>
          if source_translated_length = 0 then (STATUS_FAULT, m)
          else (case try_translate_address_space_chunk destination_asp current_destination_address
                       source_translated_length of
            None \<Rightarrow> (STATUS_FAULT, m)
          | Some (destination_host_address, destination_translated_length) \<Rightarrow>
              if destination_translated_length = 0 then (STATUS_FAULT, m)
              else copy_between_loop source_asp destination_asp
                     (memcpy m destination_host_address source_host_address
                        (unat destination_translated_length))
                     (current_source_address + destination_translated_length)
                     (current_destination_address + destination_translated_length)
                     (remaining_size - destination_translated_length)))"
  by pat_completeness auto
termination
  by (relation "measure (\<lambda>(sp, dp, m, a, b, n). unat n)")
    (auto intro!: unat_minus_less dest!: try_translate_chunk_le)

definition copy_between_user_processes ::
  "address_space \<Rightarrow> u64 \<Rightarrow> address_space \<Rightarrow> u64 \<Rightarrow> u64 \<Rightarrow> hmem \<Rightarrow> i32 \<times> hmem" where
  "copy_between_user_processes source_asp source_user_address destination_asp
     destination_user_address len m =
     copy_between_loop source_asp destination_asp m source_user_address destination_user_address len"

declare copy_user_bytes_loop.simps [simp del] write_user_bytes_loop.simps [simp del]
  copy_between_loop.simps [simp del]

text \<open>
  \<open>copy_user_string\<close>: the buffer holds zeros on entry, as every caller clears it first; the fourth
  argument of the loop counts the entries of the buffer that are left.
\<close>

fun copy_user_string_loop :: "address_space \<Rightarrow> hmem \<Rightarrow> u64 \<Rightarrow> nat \<Rightarrow> u8 list \<Rightarrow> nat \<Rightarrow> i32 \<times> u8 list" where
  "copy_user_string_loop asp m user_address 0 buffer index =
     (STATUS_BUFFER_TOO_SMALL, buffer[length buffer - 1 := 0])"
| "copy_user_string_loop asp m user_address (Suc left) buffer index =
     (case try_translate_address_space_address asp (user_address + of_nat index) 1 of
        None \<Rightarrow> (STATUS_FAULT, buffer)
      | Some host_address \<Rightarrow>
          (let current_byte = m host_address; buffer' = buffer[index := current_byte]
           in if current_byte = 0 then (STATUS_OK, buffer')
              else copy_user_string_loop asp m user_address left buffer' (Suc index)))"

definition copy_user_string :: "address_space \<Rightarrow> hmem \<Rightarrow> u64 \<Rightarrow> u8 list \<Rightarrow> i32 \<times> u8 list" where
  "copy_user_string asp m user_address buffer =
     (if buffer = [] then (STATUS_INVALID_ARGUMENT, buffer)
      else copy_user_string_loop asp m user_address (length buffer) buffer 0)"

section \<open>The abstract view of a copy\<close>

text \<open>The bytes a user range holds, and the host bytes it is made of.\<close>

definition user_range :: "address_space \<Rightarrow> u64 \<Rightarrow> nat \<Rightarrow> u8 list \<Rightarrow> hmem \<Rightarrow> bool" where
  "user_range asp a n bs m \<longleftrightarrow> length bs = n \<and>
     (\<forall>i < n. \<exists>h. xlate asp (a + of_nat i) = Some h \<and> m h = bs ! i)"

definition host_range :: "address_space \<Rightarrow> u64 \<Rightarrow> nat \<Rightarrow> u64 set" where
  "host_range asp a n = {h. \<exists>i < n. xlate asp (a + of_nat i) = Some h}"

lemma host_range_split: "host_range asp a (n + k) = host_range asp a n \<union> host_range asp (a + of_nat n) k"
proof -
  have "(\<exists>i < n + k. P i) \<longleftrightarrow> (\<exists>i < n. P i) \<or> (\<exists>i < k. P (n + i))" for P
    by (metis add_less_cancel_left le_Suc_ex not_less trans_less_add1)
  then show ?thesis unfolding host_range_def by (auto simp: add.assoc)
qed

lemma host_range_chunk:
  assumes "wf_address_space asp" and "n \<noteq> 0"
    and "try_translate_address_space_chunk asp a n = Some (h, l)"
  shows "host_range asp a (unat l) = (\<lambda>i. h + of_nat i) ` {..< unat l}"
  using as_chunks.chunk_bytes[OF assms] by (auto simp: host_range_def)

lemma chunk_sum: "l \<le> n \<Longrightarrow> unat n = unat l + unat (n - l)" for l n :: u64
  by (simp add: unat_sub word_le_nat_alt)

lemma host_range_step:
  "l \<le> n \<Longrightarrow> host_range asp a (unat n) = host_range asp a (unat l) \<union> host_range asp (a + l) (unat (n - l))"
  using host_range_split[of asp a "unat l" "unat (n - l)"] chunk_sum[of l n] by simp

section \<open>Writing user memory\<close>

lemma write_loop_status:
  assumes "wf_address_space asp"
  shows "fst (write_user_bytes_loop asp m a bs n) =
     (if as_chunks.mapped asp a (unat n) then STATUS_OK else STATUS_FAULT)"
  using assms
proof (induction a n arbitrary: m bs rule: as_chunks.chunk_induct)
  case (zero a)
  then show ?case by (simp add: write_user_bytes_loop.simps)
next
  case (unmapped a n)
  then show ?case
    using as_chunks.not_mapped_None[OF assms] by (simp add: write_user_bytes_loop.simps)
next
  case (chunk a n h l)
  then show ?case
    using as_chunks.mapped_step[OF assms chunk(1,2)]
    by (subst write_user_bytes_loop.simps) simp
qed

lemma write_loop_confined:
  assumes "wf_address_space asp"
  shows "x \<notin> host_range asp a (unat n) \<Longrightarrow> snd (write_user_bytes_loop asp m a bs n) x = m x"
  using assms
proof (induction a n arbitrary: m bs rule: as_chunks.chunk_induct)
  case (zero a)
  then show ?case by (simp add: write_user_bytes_loop.simps)
next
  case (unmapped a n)
  then show ?case by (simp add: write_user_bytes_loop.simps)
next
  case (chunk a n h l)
  have "store_bytes m h (take (unat l) bs) x = m x"
    by (rule store_bytes_outside)
      (use chunk.prems host_range_chunk[OF assms chunk(1,2)] host_range_step[OF chunk(4)] in auto)
  with chunk show ?case
    using host_range_step[OF chunk(4), of asp a] by (subst write_user_bytes_loop.simps) simp
qed

text \<open>
  No two bytes of a range share a host byte: the condition under which a write stores every byte.
  The kernel's own address spaces satisfy it, but \<open>add_address_space_mapping\<close> does not check it.
\<close>

definition unaliased :: "address_space \<Rightarrow> u64 \<Rightarrow> nat \<Rightarrow> bool" where
  "unaliased asp a n \<longleftrightarrow> (\<forall>i < n. \<forall>j < n. \<forall>h.
     xlate asp (a + of_nat i) = Some h \<longrightarrow> xlate asp (a + of_nat j) = Some h \<longrightarrow> i = j)"

lemma unaliased_split:
  assumes "unaliased asp a (n + k)"
  shows "unaliased asp a n" and "unaliased asp (a + of_nat n) k"
    and "host_range asp a n \<inter> host_range asp (a + of_nat n) k = {}"
proof -
  show "unaliased asp a n" using assms by (simp add: unaliased_def)
  have shift: "xlate asp (a + of_nat (n + i)) = xlate asp (a + of_nat n + of_nat i)" for i
    by (simp add: add.assoc)
  show "unaliased asp (a + of_nat n) k"
    unfolding unaliased_def
  proof (intro allI impI)
    fix i j h assume "i < k" "j < k" "xlate asp (a + of_nat n + of_nat i) = Some h"
      "xlate asp (a + of_nat n + of_nat j) = Some h"
    then have "n + i = n + j" using assms unfolding unaliased_def shift[symmetric]
      by (meson nat_add_left_cancel_less)
    then show "i = j" by simp
  qed
  show "host_range asp a n \<inter> host_range asp (a + of_nat n) k = {}"
  proof (rule ccontr)
    assume "\<not> ?thesis"
    then obtain i j h where "i < n" "xlate asp (a + of_nat i) = Some h" "j < k"
      "xlate asp (a + of_nat (n + j)) = Some h" unfolding host_range_def shift by blast
    with assms have "i = n + j" unfolding unaliased_def
      by (meson nat_add_left_cancel_less trans_less_add1)
    with \<open>i < n\<close> show False by simp
  qed
qed

lemma unaliased_step:
  "l \<le> n \<Longrightarrow> unaliased asp a (unat n) \<Longrightarrow>
     unaliased asp (a + l) (unat (n - l)) \<and>
     host_range asp a (unat l) \<inter> host_range asp (a + l) (unat (n - l)) = {}"
  using unaliased_split[of asp a "unat l" "unat (n - l)"] chunk_sum[of l n] by simp

lemma user_range_append:
  assumes "user_range asp a n bs m" and "user_range asp (a + of_nat n) k cs m"
  shows "user_range asp a (n + k) (bs @ cs) m"
  unfolding user_range_def
proof (intro conjI allI impI)
  show "length (bs @ cs) = n + k" using assms by (simp add: user_range_def)
  fix i assume "i < n + k"
  show "\<exists>h. xlate asp (a + of_nat i) = Some h \<and> m h = (bs @ cs) ! i"
  proof (cases "i < n")
    case True
    with assms(1) show ?thesis by (auto simp: user_range_def nth_append)
  next
    case False
    then obtain j where "i = n + j" "j < k" using \<open>i < n + k\<close> by (metis add_less_cancel_left le_Suc_ex not_less)
    with assms show ?thesis by (auto simp: user_range_def nth_append add.assoc)
  qed
qed

lemma user_range_cong:
  assumes "user_range asp a n bs m" and "\<And>x. x \<in> host_range asp a n \<Longrightarrow> m' x = m x"
  shows "user_range asp a n bs m'"
  unfolding user_range_def
proof (intro conjI allI impI)
  show "length bs = n" using assms(1) by (simp add: user_range_def)
  fix i assume "i < n"
  then obtain h where h: "xlate asp (a + of_nat i) = Some h" "m h = bs ! i"
    using assms(1) unfolding user_range_def by blast
  moreover from h \<open>i < n\<close> have "h \<in> host_range asp a n" unfolding host_range_def by blast
  ultimately show "\<exists>h. xlate asp (a + of_nat i) = Some h \<and> m' h = bs ! i"
    using assms(2) by auto
qed

lemma user_range_chunk:
  assumes "wf_address_space asp" and "n \<noteq> 0"
    and "try_translate_address_space_chunk asp a n = Some (h, l)" and "length bs = unat l"
  shows "user_range asp a (unat l) bs m \<longleftrightarrow> load_bytes m h (unat l) = bs"
  using as_chunks.chunk_bytes[OF assms(1-3)] assms(4)
  by (auto simp: user_range_def list_eq_iff_nth_eq nth_load_bytes)

lemma write_loop_stores:
  assumes "wf_address_space asp"
  shows "as_chunks.mapped asp a (unat n) \<Longrightarrow> unaliased asp a (unat n) \<Longrightarrow> length bs = unat n \<Longrightarrow>
    user_range asp a (unat n) bs (snd (write_user_bytes_loop asp m a bs n))"
  using assms
proof (induction a n arbitrary: m bs rule: as_chunks.chunk_induct)
  case (zero a)
  then show ?case by (simp add: user_range_def)
next
  case (unmapped a n)
  then show ?case using as_chunks.not_mapped_None[OF assms] by blast
next
  case (chunk a n h l)
  let ?m1 = "store_bytes m h (take (unat l) bs)"
  let ?m2 = "snd (write_user_bytes_loop asp ?m1 (a + l) (drop (unat l) bs) (n - l))"
  note sum = chunk_sum[OF chunk(4)]
  note st = unaliased_step[OF chunk(4) chunk.prems(2)]
  have len: "length (take (unat l) bs) = unat l" using sum chunk.prems(3) by simp
  have "user_range asp a (unat l) (take (unat l) bs) ?m1"
    using user_range_chunk[OF assms chunk(1,2) len] load_store_same[of "take (unat l) bs" m h] len
      unat_lt_u64[of l] by simp
  then have "user_range asp a (unat l) (take (unat l) bs) ?m2"
    by (rule user_range_cong) (use st in \<open>auto intro!: write_loop_confined[OF assms]\<close>)
  moreover have "user_range asp (a + of_nat (unat l)) (unat (n - l)) (drop (unat l) bs) ?m2"
    using chunk.IH[of "drop (unat l) bs" ?m1] st chunk.prems sum
      as_chunks.mapped_step[OF assms chunk(1,2)] by simp
  ultimately have "user_range asp a (unat l + unat (n - l)) (take (unat l) bs @ drop (unat l) bs) ?m2"
    by (rule user_range_append)
  then show ?case
    using chunk(1,2,3) sum by (subst write_user_bytes_loop.simps) simp
qed

section \<open>Reading user memory\<close>

lemma copy_loop_spec:
  assumes "wf_address_space asp"
  shows "case copy_user_bytes_loop asp m a n of (status, bs) \<Rightarrow>
     (if as_chunks.mapped asp a (unat n)
      then status = STATUS_OK \<and> user_range asp a (unat n) bs m else status = STATUS_FAULT)"
  using assms
proof (induction a n rule: as_chunks.chunk_induct)
  case (zero a)
  then show ?case by (simp add: copy_user_bytes_loop.simps user_range_def)
next
  case (unmapped a n)
  then show ?case
    using as_chunks.not_mapped_None[OF assms] by (simp add: copy_user_bytes_loop.simps)
next
  case (chunk a n h l)
  obtain st bs where r: "copy_user_bytes_loop asp m (a + l) (n - l) = (st, bs)" by force
  have u: "copy_user_bytes_loop asp m a n = (st, load_bytes m h (unat l) @ bs)"
    using chunk(1,2,3) r by (subst copy_user_bytes_loop.simps) simp
  have "user_range asp a (unat l) (load_bytes m h (unat l)) m"
    using user_range_chunk[OF assms chunk(1,2)] by simp
  then have "user_range asp a (unat n) (load_bytes m h (unat l) @ bs) m"
    if "user_range asp (a + l) (unat (n - l)) bs m"
    using that user_range_append[of asp a "unat l"] chunk_sum[OF chunk(4)] by simp
  with chunk.IH r show ?case
    using as_chunks.mapped_step[OF assms chunk(1,2)] by (simp add: u split: if_splits)
qed

lemma user_range_unique:
  assumes "user_range asp a n bs m" and "user_range asp a n cs m"
  shows "bs = cs"
proof (rule nth_equalityI)
  show "length bs = length cs" using assms by (simp add: user_range_def)
  fix i assume "i < length bs"
  then have "i < n" using assms(1) by (simp add: user_range_def)
  then obtain h h' where "xlate asp (a + of_nat i) = Some h" "m h = bs ! i"
    "xlate asp (a + of_nat i) = Some h'" "m h' = cs ! i"
    using assms unfolding user_range_def by blast
  then show "bs ! i = cs ! i" by simp
qed

section \<open>Copying between processes\<close>

lemma copy_between_unfold:
  assumes "n \<noteq> 0" and "try_translate_address_space_chunk sp a n = Some (sh, sl)" and "sl \<noteq> 0"
    and "try_translate_address_space_chunk dp b sl = Some (dh, dl)" and "dl \<noteq> 0"
  shows "copy_between_loop sp dp m a b n =
    copy_between_loop sp dp (memcpy m dh sh (unat dl)) (a + dl) (b + dl) (n - dl)"
  using assms by (subst copy_between_loop.simps) simp

text \<open>One round of the loop: both chunks, and what the smaller one gives.\<close>

lemma copy_between_round:
  assumes "wf_address_space sp" and "wf_address_space dp" and "n \<noteq> 0"
    and "as_chunks.mapped sp a (unat n)" and "as_chunks.mapped dp b (unat n)"
  obtains sh sl dh dl where "try_translate_address_space_chunk sp a n = Some (sh, sl)" "sl \<noteq> 0"
    "try_translate_address_space_chunk dp b sl = Some (dh, dl)" "dl \<noteq> 0" "dl \<le> sl" "dl \<le> n"
    "\<And>i. i < unat dl \<Longrightarrow> xlate sp (a + of_nat i) = Some (sh + of_nat i)"
    "\<And>i. i < unat dl \<Longrightarrow> xlate dp (b + of_nat i) = Some (dh + of_nat i)"
proof -
  obtain sh sl where s: "try_translate_address_space_chunk sp a n = Some (sh, sl)"
    using as_chunks.not_mapped_None[OF assms(1,3)] assms(4) by fastforce
  note sb = as_chunks.chunk_bounds[OF assms(1,3) s]
  have "0 < unat n" using assms(3) by (simp add: unat_gt_0)
  then have "xlate dp b \<noteq> None" using assms(5) unfolding as_chunks.mapped_def by force
  then obtain dh dl where d: "try_translate_address_space_chunk dp b sl = Some (dh, dl)"
    using as_chunks.chunk_None_iff[OF assms(2), of sl b] sb by (metis not_None_eq old.prod.exhaust)
  note db = as_chunks.chunk_bounds[OF assms(2) _ d]
  show thesis
  proof (rule that[OF s _ d])
    show "sl \<noteq> 0" "dl \<noteq> 0" "dl \<le> sl" "dl \<le> n" using sb db by auto
    show "xlate sp (a + of_nat i) = Some (sh + of_nat i)" if "i < unat dl" for i
      by (rule as_chunks.chunk_bytes[OF assms(1,3) s])
        (use that sb db in \<open>auto simp: word_le_nat_alt\<close>)
    show "xlate dp (b + of_nat i) = Some (dh + of_nat i)" if "i < unat dl" for i
      using as_chunks.chunk_bytes[OF assms(2) _ d that] sb by blast
  qed
qed

lemma copy_between_confined:
  assumes "wf_address_space sp" and "wf_address_space dp" and "x \<notin> host_range dp b (unat n)"
  shows "snd (copy_between_loop sp dp m a b n) x = m x"
  using assms(3)
proof (induction "unat n" arbitrary: m a b n rule: less_induct)
  case less
  show ?case
  proof (cases "n = 0")
    case False
    show ?thesis
    proof (cases "try_translate_address_space_chunk sp a n")
      case (Some s)
      obtain sh sl where s: "try_translate_address_space_chunk sp a n = Some (sh, sl)"
        using Some by (cases s) auto
      note sb = as_chunks.chunk_bounds[OF assms(1) False s]
      show ?thesis
      proof (cases "try_translate_address_space_chunk dp b sl")
        case (Some d)
        obtain dh dl where d: "try_translate_address_space_chunk dp b sl = Some (dh, dl)"
          using Some by (cases d) auto
        have sl: "sl \<noteq> 0" using sb by simp
        note db = as_chunks.chunk_bounds[OF assms(2) sl d]
        have le: "dl \<le> n" using sb db by auto
        have "memcpy m dh sh (unat dl) x = m x"
          by (rule memcpy_outside)
            (use less.prems host_range_chunk[OF assms(2) sl d] host_range_step[OF le] in auto)
        moreover have "x \<notin> host_range dp (b + dl) (unat (n - dl))"
          using less.prems host_range_step[OF le] by auto
        ultimately show ?thesis
          using less.hyps[of "n - dl"] db le by (simp add: copy_between_unfold[OF False s sl d] unat_minus_less)
      qed (use False s sb in \<open>subst copy_between_loop.simps, simp\<close>)
    qed (use False in \<open>subst copy_between_loop.simps, simp\<close>)
  qed (simp add: copy_between_loop.simps)
qed

lemma copy_between_status:
  assumes "wf_address_space sp" and "wf_address_space dp"
  shows "fst (copy_between_loop sp dp m a b n) =
    (if as_chunks.mapped sp a (unat n) \<and> as_chunks.mapped dp b (unat n)
     then STATUS_OK else STATUS_FAULT)"
proof (induction "unat n" arbitrary: m a b n rule: less_induct)
  case less
  consider (zero) "n = 0" | (nosrc) "n \<noteq> 0" "try_translate_address_space_chunk sp a n = None"
    | (nodst) sh sl where "n \<noteq> 0" "try_translate_address_space_chunk sp a n = Some (sh, sl)"
        "try_translate_address_space_chunk dp b sl = None"
    | (both) sh sl dh dl where "n \<noteq> 0" "try_translate_address_space_chunk sp a n = Some (sh, sl)"
        "try_translate_address_space_chunk dp b sl = Some (dh, dl)"
    by (metis old.prod.exhaust option.exhaust)
  then show ?case
  proof cases
    case zero
    then show ?thesis by (simp add: copy_between_loop.simps)
  next
    case nosrc
    then show ?thesis
      using as_chunks.not_mapped_None[OF assms(1)] by (subst copy_between_loop.simps) simp
  next
    case nodst
    note sb = as_chunks.chunk_bounds[OF assms(1) nodst(1,2)]
    have "\<not> as_chunks.mapped dp b (unat n)"
      using as_chunks.chunk_None_iff[OF assms(2), of sl b] nodst(1,3) sb
      unfolding as_chunks.mapped_def by (auto simp: unat_gt_0 intro!: exI[of _ 0])
    with nodst sb show ?thesis by (subst copy_between_loop.simps) simp
  next
    case both
    note sb = as_chunks.chunk_bounds[OF assms(1) both(1,2)]
    have sl: "sl \<noteq> 0" using sb by simp
    note db = as_chunks.chunk_bounds[OF assms(2) sl both(3)]
    have le: "dl \<le> n" using sb db by auto
    have split: "as_chunks.mapped asp x (unat n) \<longleftrightarrow>
        as_chunks.mapped asp x (unat dl) \<and> as_chunks.mapped asp (x + dl) (unat (n - dl))" for asp x
      using as_chunks.mapped_split[of asp x "unat dl" "unat (n - dl)"] chunk_sum[OF le] by simp
    have "as_chunks.mapped sp a (unat dl)"
      using as_chunks.chunk_bytes[OF assms(1) both(1,2)] db
      by (auto simp: as_chunks.mapped_def word_le_nat_alt)
    then show ?thesis
      using less.hyps[of "n - dl"] db le as_chunks.mapped_chunk[OF assms(2) sl both(3)]
      by (simp add: copy_between_unfold[OF both(1,2) sl both(3)] unat_minus_less split)
  qed
qed

lemma user_range_drop:
  assumes "user_range asp a (n + k) bs m"
  shows "user_range asp (a + of_nat n) k (drop n bs) m"
  unfolding user_range_def
proof (intro conjI allI impI)
  show "length (drop n bs) = k" using assms by (simp add: user_range_def)
  fix i assume "i < k"
  then show "\<exists>h. xlate asp (a + of_nat n + of_nat i) = Some h \<and> m h = drop n bs ! i"
    using assms unfolding user_range_def by (auto simp: add.assoc dest: spec[of _ "n + i"])
qed

lemma user_range_take:
  "user_range asp a (n + k) bs m \<Longrightarrow> user_range asp a n (take n bs) m"
  by (auto simp: user_range_def)

text \<open>What the \<open>memcpy\<close> of one round does to the two ranges.\<close>

lemma memcpy_round:
  assumes sx: "\<And>i. i < n \<Longrightarrow> xlate sp (a + of_nat i) = Some (sh + of_nat i)"
    and dx: "\<And>i. i < n \<Longrightarrow> xlate dp (b + of_nat i) = Some (dh + of_nat i)"
    and disj: "host_range sp a n \<inter> host_range dp b n = {}"
    and src: "user_range sp a n bs m" and n: "n < 2 ^ 64"
  shows "user_range dp b n bs (memcpy m dh sh n)"
    and "x \<notin> host_range dp b n \<Longrightarrow> memcpy m dh sh n x = m x"
proof -
  have sh_in: "sh + of_nat i \<in> host_range sp a n" if "i < n" for i
    using sx[OF that] that by (auto simp: host_range_def)
  have dh_in: "dh + of_nat i \<in> host_range dp b n" if "i < n" for i
    using dx[OF that] that by (auto simp: host_range_def)
  have "load_bytes m sh n ! i = bs ! i" if "i < n" for i
  proof -
    obtain h where "xlate sp (a + of_nat i) = Some h" "m h = bs ! i"
      using src \<open>i < n\<close> unfolding user_range_def by blast
    with sx[OF that] that show ?thesis by (simp add: nth_load_bytes)
  qed
  then have ld: "load_bytes m sh n = bs"
    using src by (intro nth_equalityI) (simp_all add: user_range_def)
  have m1: "memcpy m dh sh n = store_bytes m dh bs"
    unfolding ld[symmetric] by (rule memcpy_disjoint) (use sh_in dh_in disj in fastforce)
  show "user_range dp b n bs (memcpy m dh sh n)"
    using src n dx by (auto simp: user_range_def m1 store_bytes_at unat_of_nat_u64)
  show "memcpy m dh sh n x = m x" if "x \<notin> host_range dp b n"
    by (rule memcpy_outside) (use that dh_in in auto)
qed

lemma copy_between_stores:
  assumes "wf_address_space sp" and "wf_address_space dp"
    and "as_chunks.mapped dp b (unat n)" and "unaliased dp b (unat n)"
    and "host_range sp a (unat n) \<inter> host_range dp b (unat n) = {}"
    and "user_range sp a (unat n) bs m"
  shows "user_range dp b (unat n) bs (snd (copy_between_loop sp dp m a b n))"
  using assms(3-6)
proof (induction "unat n" arbitrary: m a b n bs rule: less_induct)
  case less
  show ?case
  proof (cases "n = 0")
    case True
    with less.prems(4) show ?thesis by (simp add: user_range_def)
  next
    case False
    have "as_chunks.mapped sp a (unat n)"
      using less.prems(4) unfolding user_range_def as_chunks.mapped_def by blast
    then obtain sh sl dh dl where r: "try_translate_address_space_chunk sp a n = Some (sh, sl)" "sl \<noteq> 0"
      "try_translate_address_space_chunk dp b sl = Some (dh, dl)" "dl \<noteq> 0" "dl \<le> n"
      and x: "\<And>i. i < unat dl \<Longrightarrow> xlate sp (a + of_nat i) = Some (sh + of_nat i)"
        "\<And>i. i < unat dl \<Longrightarrow> xlate dp (b + of_nat i) = Some (dh + of_nat i)"
      using copy_between_round[OF assms(1,2) False _ less.prems(1)] by metis
    let ?k = "unat (n - dl)"
    note sum = chunk_sum[OF r(5)] and st = unaliased_step[OF r(5) less.prems(2)]
    have disj: "host_range sp a (unat dl) \<inter> host_range dp b (unat dl) = {}"
      "host_range sp (a + dl) ?k \<inter> host_range dp b (unat dl) = {}"
      "host_range sp (a + dl) ?k \<inter> host_range dp (b + dl) ?k = {}"
      using less.prems(3) unfolding host_range_step[OF r(5)] by auto
    have src: "user_range sp a (unat dl) (take (unat dl) bs) m"
      "user_range sp (a + dl) ?k (drop (unat dl) bs) m"
      using less.prems(4) user_range_take[of sp a "unat dl" ?k] user_range_drop[of sp a "unat dl" ?k]
      by (simp_all add: sum)
    let ?m1 = "memcpy m dh sh (unat dl)"
    let ?m2 = "snd (copy_between_loop sp dp ?m1 (a + dl) (b + dl) (n - dl))"
    note round = memcpy_round[OF x disj(1) src(1) unat_lt_u64]
    have "user_range dp b (unat dl) (take (unat dl) bs) ?m2"
      by (rule user_range_cong[OF round(1)])
        (use st in \<open>auto intro!: copy_between_confined[OF assms(1,2)]\<close>)
    moreover have "user_range sp (a + dl) ?k (drop (unat dl) bs) ?m1"
      by (rule user_range_cong[OF src(2)]) (use disj(2) in \<open>auto intro!: round(2)\<close>)
    then have "user_range dp (b + of_nat (unat dl)) ?k (drop (unat dl) bs) ?m2"
      using less.hyps[of "n - dl"] st disj(3) r(4,5) less.prems(1)
        as_chunks.mapped_split[of dp b "unat dl" ?k] by (simp add: unat_minus_less sum unat_gt_0)
    ultimately have "user_range dp b (unat dl + ?k) (take (unat dl) bs @ drop (unat dl) bs) ?m2"
      by (rule user_range_append)
    then show ?thesis using sum by (simp add: copy_between_unfold[OF False r(1-4)])
  qed
qed

section \<open>Copying a user string\<close>

text \<open>
  The string that starts at a user address: bytes up to and including the first zero. \<open>user_string
  asp m a bs\<close> says that the \<open>bs\<close> are non-zero and followed by a terminator.
\<close>

definition user_string :: "address_space \<Rightarrow> hmem \<Rightarrow> u64 \<Rightarrow> u8 list \<Rightarrow> bool" where
  "user_string asp m a bs \<longleftrightarrow> 0 \<notin> set bs \<and> user_range asp a (Suc (length bs)) (bs @ [0]) m"

lemma length_copy_user_string_loop [simp]:
  "length (snd (copy_user_string_loop asp m a k buf i)) = length buf"
  by (induction k arbitrary: buf i) (auto split: option.splits simp: Let_def)

lemma user_range_snoc:
  assumes "user_range asp a n bs m" and "xlate asp (a + of_nat n) = Some h"
  shows "user_range asp a (Suc n) (bs @ [m h]) m"
proof -
  have "user_range asp (a + of_nat n) 1 [m h] m" using assms(2) by (simp add: user_range_def)
  from user_range_append[OF assms(1) this] show ?thesis by simp
qed

lemma copy_user_string_loop_OK:
  assumes "wf_address_space asp"
  shows "copy_user_string_loop asp m a k buf i = (STATUS_OK, buf') \<Longrightarrow>
    i + k = length buf \<Longrightarrow> user_range asp a i (take i buf) m \<Longrightarrow> 0 \<notin> set (take i buf) \<Longrightarrow>
    \<exists>bs. user_string asp m a bs \<and> length bs < length buf \<and>
         buf' = bs @ [0] @ drop (Suc (length bs)) buf"
proof (induction k arbitrary: buf i)
  case 0
  then show ?case by simp
next
  case (Suc k)
  have i: "i < length buf" using Suc.prems(2) by simp
  obtain h where h: "xlate asp (a + of_nat i) = Some h"
    using Suc.prems(1) by (auto simp: try_translate_byte[OF assms] split: option.splits)
  note sn = user_range_snoc[OF Suc.prems(3) h]
  have tk: "take (Suc i) (buf[i := m h]) = take i buf @ [m h]"
    using i by (simp add: take_Suc_conv_app_nth)
  show ?case
  proof (cases "m h = 0")
    case True
    then have "buf' = take i buf @ [0] @ drop (Suc i) buf"
      using Suc.prems(1) h i by (simp add: try_translate_byte[OF assms] upd_conv_take_nth_drop)
    moreover have "user_string asp m a (take i buf)"
      using Suc.prems(4) sn True i by (simp add: user_string_def)
    ultimately show ?thesis using i by (intro exI[of _ "take i buf"]) simp
  next
    case False
    have "\<exists>bs. user_string asp m a bs \<and> length bs < length (buf[i := m h]) \<and>
        buf' = bs @ [0] @ drop (Suc (length bs)) (buf[i := m h])"
      using Suc.prems(1,2,4) False h sn tk
      by (intro Suc.IH[of "buf[i := m h]" "Suc i"]) (auto simp: try_translate_byte[OF assms])
    then obtain bs where bs: "user_string asp m a bs" "length bs < length buf"
      "buf' = bs @ [0] @ drop (Suc (length bs)) (buf[i := m h])" by auto
    have "i \<le> length bs"
    proof (rule ccontr)
      assume "\<not> i \<le> length bs"
      then have lt: "length bs < i" by simp
      obtain x where x: "xlate asp (a + of_nat (length bs)) = Some x" "m x = 0"
        using bs(1) unfolding user_string_def user_range_def by (fastforce simp: nth_append)
      obtain y where y: "xlate asp (a + of_nat (length bs)) = Some y" "m y = take i buf ! length bs"
        using Suc.prems(3) lt unfolding user_range_def by blast
      have "take i buf ! length bs \<in> set (take i buf)" using lt i by (intro nth_mem) simp
      with x y Suc.prems(4) show False by simp
    qed
    then have "drop (Suc (length bs)) (buf[i := m h]) = drop (Suc (length bs)) buf" by simp
    with bs show ?thesis by auto
  qed
qed

lemma copy_user_string_OK:
  assumes "wf_address_space asp" and "copy_user_string asp m a buf = (STATUS_OK, buf')"
  shows "\<exists>bs. user_string asp m a bs \<and> length bs < length buf \<and>
    buf' = bs @ [0] @ drop (Suc (length bs)) buf"
  using assms(2) copy_user_string_loop_OK[OF assms(1), of m a "length buf" buf 0 buf']
  by (auto simp: copy_user_string_def user_range_def split: if_splits)

lemma copy_user_string_loop_complete:
  assumes "wf_address_space asp" and "user_string asp m a bs" and "length bs < length buf"
  shows "i \<le> length bs \<Longrightarrow> i + k = length buf \<Longrightarrow>
    fst (copy_user_string_loop asp m a k buf i) = STATUS_OK"
  using assms(3)
proof (induction k arbitrary: buf i)
  case 0
  then show ?case by simp
next
  case (Suc k)
  obtain h where h: "xlate asp (a + of_nat i) = Some h" "m h = (bs @ [0]) ! i"
    using assms(2) Suc.prems(1) unfolding user_string_def user_range_def by (meson le_imp_less_Suc)
  show ?case
  proof (cases "i = length bs")
    case True
    with h show ?thesis by (simp add: try_translate_byte[OF assms(1)] nth_append)
  next
    case False
    with Suc.prems(1) have "i < length bs" by simp
    then have "m h \<noteq> 0"
      using h(2) assms(2) unfolding user_string_def by (auto simp: nth_append dest: nth_mem)
    with Suc \<open>i < length bs\<close> h(1) show ?thesis by (simp add: try_translate_byte[OF assms(1)])
  qed
qed

lemma copy_user_string_loop_no_fault:
  assumes "wf_address_space asp"
  shows "fst (copy_user_string_loop asp m a k buf i) = STATUS_BUFFER_TOO_SMALL \<Longrightarrow> j < k \<Longrightarrow>
    \<exists>h. xlate asp (a + of_nat (i + j)) = Some h \<and> m h \<noteq> 0"
proof (induction k arbitrary: buf i j)
  case (Suc k)
  have d: "STATUS_FAULT \<noteq> STATUS_BUFFER_TOO_SMALL" by (simp add: status_defs)
  obtain h where h: "xlate asp (a + of_nat i) = Some h" "m h \<noteq> 0"
    using Suc.prems(1) d
    by (auto simp: try_translate_byte[OF assms] Let_def split: option.splits if_splits)
  show ?case
  proof (cases j)
    case 0
    with h show ?thesis by simp
  next
    case (Suc j')
    have "fst (copy_user_string_loop asp m a k (buf[i := m h]) (Suc i)) = STATUS_BUFFER_TOO_SMALL"
      using Suc.prems(1) h by (simp add: try_translate_byte[OF assms])
    with Suc.IH[OF this] Suc.prems(2) Suc show ?thesis by simp
  qed
qed simp

section \<open>Properties\<close>

text \<open>
  C4. User memory is reached through the address space only. On a well-formed address space,
  \<open>write_user_bytes\<close> succeeds exactly when every byte of the destination is mapped and reports
  STATUS_FAULT otherwise; whether it succeeds or fails, no host byte outside the translation of
  the destination range changes; and when it succeeds and no two destination bytes share a host
  byte, the range holds the buffer.
\<close>

theorem write_user_bytes_spec:
  assumes "wf_address_space asp" and "length bs < 2 ^ 64"
    and "write_user_bytes asp m a bs = (status, m')"
  shows "status = (if \<forall>i < length bs. xlate asp (a + of_nat i) \<noteq> None then STATUS_OK else STATUS_FAULT) \<and>
    (\<forall>x. x \<notin> host_range asp a (length bs) \<longrightarrow> m' x = m x) \<and>
    (status = STATUS_OK \<longrightarrow> unaliased asp a (length bs) \<longrightarrow> user_range asp a (length bs) bs m')"
proof -
  have n: "unat (of_nat (length bs) :: u64) = length bs" using assms(2) by (rule unat_of_nat_u64)
  have w: "write_user_bytes_loop asp m a bs (of_nat (length bs)) = (status, m')"
    using assms(3) by (simp add: write_user_bytes_def)
  have st: "status = (if as_chunks.mapped asp a (length bs) then STATUS_OK else STATUS_FAULT)"
    using write_loop_status[OF assms(1), of m a bs "of_nat (length bs)"] by (simp add: w n)
  have "m' x = m x" if "x \<notin> host_range asp a (length bs)" for x
    using write_loop_confined[OF assms(1), of x a "of_nat (length bs)" m bs] that by (simp add: w n)
  moreover have "user_range asp a (length bs) bs m'"
    if "status = STATUS_OK" "unaliased asp a (length bs)"
    using write_loop_stores[OF assms(1), of a "of_nat (length bs)" bs m] that st
    by (simp add: w n split: if_splits)
  ultimately show ?thesis using st by (auto simp: as_chunks.mapped_def)
qed

lemma example_asp_exists:
  "\<exists>asp. add_address_space_mapping (empty_address_space 0) 0x1000 0x8000 0x10 = Some asp"
  by (simp add: add_address_space_mapping_def is_valid_address_range_def empty_address_space_def
      live_mappings_def USER_RUNTIME_MAX_ADDRESS_SPACE_MAPPINGS_def)

definition example_asp :: address_space where
  "example_asp = the (add_address_space_mapping (empty_address_space 0) 0x1000 0x8000 0x10)"

lemma example_asp_add:
  "add_address_space_mapping (empty_address_space 0) 0x1000 0x8000 0x10 = Some example_asp"
  using example_asp_exists by (auto simp: example_asp_def)

lemma example_asp_wf: "wf_address_space example_asp"
  by (rule add_address_space_mapping_wf[OF wf_empty_address_space example_asp_add])

lemma example_asp_live:
  "live_mappings example_asp = [\<lparr>asm_user_address = 0x1000, asm_host_address = 0x8000, asm_size = 0x10\<rparr>]"
  using add_address_space_mapping_SomeD(1)[OF example_asp_add]
  by (simp add: empty_address_space_def live_mappings_def)

lemma example_asp_xlate:
  "xlate example_asp a = (if 0x1000 \<le> unat a \<and> unat a < 0x1010 then Some (0x8000 + (a - 0x1000)) else None)"
  by (simp add: xlate_def example_asp_live user_bytes_def)

theorem write_user_bytes_spec_witness:
  "case write_user_bytes example_asp (\<lambda>_. 0) 0x1002 [7, 9] of (status, m') \<Rightarrow>
     status = STATUS_OK \<and> m' 0x8002 = 7 \<and> m' 0x8003 = 9 \<and> m' 0x8004 = 0"
proof -
  obtain st m' where w: "write_user_bytes example_asp (\<lambda>_. 0) 0x1002 [7, 9] = (st, m')" by force
  have two: "(\<forall>i < length [7 :: u8, 9]. P i) \<longleftrightarrow> P 0 \<and> P 1" for P
    by (auto simp: less_Suc_eq)
  have un: "unaliased example_asp 0x1002 (length [7 :: u8, 9])"
    unfolding unaliased_def two by (simp add: example_asp_xlate)
  have nin: "0x8004 \<notin> host_range example_asp 0x1002 (length [7 :: u8, 9])"
    unfolding host_range_def using two[of "\<lambda>i. xlate example_asp (0x1002 + of_nat i) \<noteq> Some 0x8004"]
    by (simp add: example_asp_xlate)
  have "length [7 :: u8, 9] < 2 ^ 64" by simp
  note s = write_user_bytes_spec[OF example_asp_wf this w]
  have "st = STATUS_OK" using s two by (simp add: example_asp_xlate)
  with s un have "user_range example_asp 0x1002 (length [7 :: u8, 9]) [7, 9] m'" by blast
  then have "m' 0x8002 = 7 \<and> m' 0x8003 = 9"
    unfolding user_range_def two by (simp add: example_asp_xlate)
  moreover have "m' 0x8004 = 0" using s nin by simp
  ultimately show ?thesis using w \<open>st = STATUS_OK\<close> by simp
qed

text \<open>
  Round trip through user memory: bytes written by \<open>write_user_bytes\<close> are the bytes
  \<open>copy_user_bytes\<close> reads back from the same range.
\<close>

lemma write_copy_roundtrip:
  assumes "wf_address_space asp" and "length bs < 2 ^ 64" and "unaliased asp a (length bs)"
    and "write_user_bytes asp m a bs = (STATUS_OK, m')"
  shows "copy_user_bytes asp m' a (of_nat (length bs)) = (STATUS_OK, bs)"
proof -
  have n: "unat (of_nat (length bs) :: u64) = length bs" using assms(2) by (rule unat_of_nat_u64)
  have w: "write_user_bytes_loop asp m a bs (of_nat (length bs)) = (STATUS_OK, m')"
    using assms(4) by (simp add: write_user_bytes_def)
  have mp: "as_chunks.mapped asp a (length bs)"
    using write_loop_status[OF assms(1), of m a bs "of_nat (length bs)"] by (simp add: w n split: if_splits)
  have ur: "user_range asp a (length bs) bs m'"
    using write_loop_stores[OF assms(1), of a "of_nat (length bs)" bs m] mp assms(3) by (simp add: w n)
  obtain st cs where c: "copy_user_bytes asp m' a (of_nat (length bs)) = (st, cs)" by force
  then have "st = STATUS_OK" "user_range asp a (length bs) cs m'"
    using copy_loop_spec[OF assms(1), where m = m' and a = a and n = "of_nat (length bs)"] mp
    by (simp_all add: copy_user_bytes_def n)
  with ur user_range_unique c show ?thesis by blast
qed

text \<open>
  C5. \<open>copy_between_user_processes\<close> moves a payload from one process to another. It succeeds exactly
  when both ranges are mapped; it never changes a host byte outside the translation of the
  destination range; and when the two ranges share no host byte and the destination is not
  aliased, the destination holds the bytes of the source.
\<close>

theorem copy_between_user_processes_spec:
  assumes "wf_address_space sp" and "wf_address_space dp"
    and "copy_between_user_processes sp a dp b len m = (status, m')"
  shows "(status = STATUS_OK \<longleftrightarrow>
      (\<forall>i < unat len. xlate sp (a + of_nat i) \<noteq> None \<and> xlate dp (b + of_nat i) \<noteq> None)) \<and>
    (\<forall>x. x \<notin> host_range dp b (unat len) \<longrightarrow> m' x = m x) \<and>
    (\<forall>bs. status = STATUS_OK \<longrightarrow> unaliased dp b (unat len) \<longrightarrow>
      host_range sp a (unat len) \<inter> host_range dp b (unat len) = {} \<longrightarrow>
      user_range sp a (unat len) bs m \<longrightarrow> user_range dp b (unat len) bs m')"
proof -
  have c: "copy_between_loop sp dp m a b len = (status, m')"
    using assms(3) by (simp add: copy_between_user_processes_def)
  have st: "status = STATUS_OK \<longleftrightarrow> as_chunks.mapped sp a (unat len) \<and> as_chunks.mapped dp b (unat len)"
    using copy_between_status[OF assms(1,2), of m a b len] by (simp add: c)
  show ?thesis
  proof (intro conjI allI impI)
    show "status = STATUS_OK \<longleftrightarrow>
        (\<forall>i < unat len. xlate sp (a + of_nat i) \<noteq> None \<and> xlate dp (b + of_nat i) \<noteq> None)"
      unfolding st as_chunks.mapped_def by blast
    show "m' x = m x" if "x \<notin> host_range dp b (unat len)" for x
      using copy_between_confined[OF assms(1,2) that, of m a] by (simp add: c)
    show "user_range dp b (unat len) bs m'"
      if "status = STATUS_OK" "unaliased dp b (unat len)" "user_range sp a (unat len) bs m"
        "host_range sp a (unat len) \<inter> host_range dp b (unat len) = {}" for bs
      using copy_between_stores[OF assms(1,2) _ that(2,4,3)] that(1) st by (simp add: c)
  qed
qed

theorem copy_between_user_processes_spec_witness:
  "fst (copy_between_user_processes example_asp 0x1000 example_asp 0x1008 2 (\<lambda>_. 5)) = STATUS_OK"
proof -
  obtain st m' where c:
    "copy_between_user_processes example_asp 0x1000 example_asp 0x1008 2 (\<lambda>_. 5) = (st, m')" by force
  have "unat (2 :: u64) = Suc (Suc 0)" by simp
  then have two: "(\<forall>i < unat (2 :: u64). P i) \<longleftrightarrow> P 0 \<and> P 1" for P
    by (metis One_nat_def less_Suc_eq not_less_zero)
  have "st = STATUS_OK"
    using copy_between_user_processes_spec[OF example_asp_wf example_asp_wf c] two
    by (simp add: example_asp_xlate)
  with c show ?thesis by simp
qed

text \<open>
  C6. \<open>copy_user_string\<close> with a non-empty buffer returns STATUS_OK exactly when a terminated string
  starts at the address and fits the buffer with its terminator, and then the buffer starts with
  that string and its terminator and keeps its length; STATUS_BUFFER_TOO_SMALL means that as many
  bytes as the buffer holds are mapped and none of them is zero.
\<close>

theorem copy_user_string_spec:
  assumes "wf_address_space asp" and "buf \<noteq> []" and "copy_user_string asp m a buf = (status, buf')"
  shows "(status = STATUS_OK \<longleftrightarrow> (\<exists>bs. user_string asp m a bs \<and> length bs < length buf)) \<and>
    (status = STATUS_OK \<longrightarrow> (\<exists>bs. user_string asp m a bs \<and> length bs < length buf \<and>
       buf' = bs @ [0] @ drop (Suc (length bs)) buf)) \<and>
    length buf' = length buf \<and>
    (status = STATUS_BUFFER_TOO_SMALL \<longrightarrow>
      (\<forall>i < length buf. \<exists>h. xlate asp (a + of_nat i) = Some h \<and> m h \<noteq> 0))"
proof -
  have c: "copy_user_string_loop asp m a (length buf) buf 0 = (status, buf')"
    using assms(2,3) by (simp add: copy_user_string_def)
  have "status = STATUS_OK" if "user_string asp m a bs" "length bs < length buf" for bs
    using copy_user_string_loop_complete[OF assms(1) that, of 0 "length buf"] by (simp add: c)
  moreover have "length buf' = length buf"
    using length_copy_user_string_loop[of asp m a "length buf" buf 0] by (simp add: c)
  moreover have "\<exists>h. xlate asp (a + of_nat i) = Some h \<and> m h \<noteq> 0"
    if "status = STATUS_BUFFER_TOO_SMALL" "i < length buf" for i
    using copy_user_string_loop_no_fault[OF assms(1), of m a "length buf" buf 0 i] that by (simp add: c)
  ultimately show ?thesis
    using copy_user_string_OK[OF assms(1), of m a buf buf'] assms(3) by blast
qed

theorem copy_user_string_spec_witness:
  "fst (copy_user_string example_asp ((\<lambda>_. 0)(0x8000 := 65)) 0x1000 [0, 0, 0]) = STATUS_OK"
proof -
  let ?m = "(\<lambda>_. 0)(0x8000 := 65) :: hmem"
  obtain st b where c: "copy_user_string example_asp ?m 0x1000 [0, 0, 0] = (st, b)" by force
  have "user_string example_asp ?m 0x1000 [65]"
    by (auto simp: user_string_def user_range_def example_asp_xlate less_Suc_eq)
  with copy_user_string_spec[OF example_asp_wf _ c] have "st = STATUS_OK" by fastforce
  with c show ?thesis by simp
qed

text \<open>
  A failing write may already have changed user memory: a destination that starts mapped and
  runs past its mapping gets the leading bytes although the call reports STATUS_FAULT.
\<close>

lemma write_user_bytes_partial:
  "\<exists>asp m a bs m'. wf_address_space asp \<and> write_user_bytes asp m a bs = (STATUS_FAULT, m') \<and> m' \<noteq> m"
proof -
  let ?m = "\<lambda>_. 0 :: u8"
  have c: "try_translate_address_space_chunk example_asp 0x100F 2 = Some (0x800F, 1)"
    "try_translate_address_space_chunk example_asp 0x1010 1 = None"
    by (simp_all add: try_translate_chunk_wf example_asp_wf example_asp_live user_bytes_def min_def
        word_le_nat_alt)
  have "write_user_bytes example_asp ?m 0x100F [7, 9] = (STATUS_FAULT, ?m(0x800F := 7))"
    unfolding write_user_bytes_def
    by (subst write_user_bytes_loop.simps) (simp add: c write_user_bytes_loop.simps)
  moreover have "?m(0x800F := 7) \<noteq> ?m" by (simp add: fun_eq_iff)
  ultimately show ?thesis using example_asp_wf by blast
qed

end
