(* ===== verification/Runtime_State.thy ===== *)
theory Runtime_State
  imports Kernel_Objects User_Memory
begin

text \<open>
  The state of the kernel's user runtime (\<open>class user_runtime\<close> of \<open>kernel/user_runtime.h\<close> with the
  embedded \<open>class rpc_runtime\<close> of \<open>kernel/rpc.h\<close>), the part of the machine the runtime drives, and
  the operations of \<open>kernel/user_runtime.cpp\<close> that do not depend on RPC: object creation, handle
  lookup and scheduling. Pointers to processes, threads, endpoints and channels are slot indices.
\<close>

section \<open>Endpoints and channels\<close>

definition RINGOS_RPC_ENDPOINT_NAME_MAX_LENGTH :: nat where "RINGOS_RPC_ENDPOINT_NAME_MAX_LENGTH = 31"
definition RPC_ENDPOINT_NAME_BUFFER_SIZE :: nat where
  "RPC_ENDPOINT_NAME_BUFFER_SIZE = RINGOS_RPC_ENDPOINT_NAME_MAX_LENGTH + 1"
definition RINGOS_RPC_MAX_REQUEST_SIZE :: u64 where "RINGOS_RPC_MAX_REQUEST_SIZE = 256"

type_synonym endpoint_ref = nat
type_synonym channel_ref = nat

record rpc_endpoint =
  m_is_in_use :: bool
  m_is_busy :: bool
  m_name :: "u8 list"
  m_owner_process :: "process_ref option"
  m_owner_thread :: "thread_ref option"
  m_callback_address :: u64
  m_completion_address :: u64

record rpc_channel = kernel_object +
  m_client_process :: process_ref
  m_endpoint :: "endpoint_ref option"
  m_pending_client_thread :: "thread_ref option"
  m_pending_server_thread :: "thread_ref option"
  m_saved_server_state :: user_thread_state
  m_saved_server_context :: thread_context
  m_saved_server_registers :: "u64 list"
  m_saved_server_simd_qwords :: "u64 list"

section \<open>The runtime and the machine\<close>

text \<open>
  The last five fields are the machine state that the runtime writes through the architecture
  layer: the translation-table base register (\<open>cr3\<close> or \<open>ttbr0_el1\<close>), the \<open>m_mmu_enabled\<close> flag of
  the arm64 platform, the two fields of \<open>x64_cpu_local\<close> (the kernel stack top is that of the thread
  it names), the host memory, and the messages sent to \<open>debug_log\<close>.
\<close>

record user_runtime =
  m_processes :: "process kernel_object_pool"
  m_threads :: "thread kernel_object_pool"
  m_device_memory_objects :: "device_memory_object kernel_object_pool"
  m_endpoints :: "rpc_endpoint list"
  m_channels :: "rpc_channel kernel_object_pool"
  m_shared_memory_objects :: "shared_memory_object kernel_object_pool"
  m_current_thread :: "thread_ref option"
  m_next_handle_value :: handle_t
  root_table_register :: u64
  m_mmu_enabled :: bool
  cpu_user_stack_pointer :: u64
  cpu_kernel_stack_owner :: "thread_ref option"
  host_memory :: hmem
  debug_messages :: "u8 list list"

definition get_thread :: "user_runtime \<Rightarrow> thread_ref \<Rightarrow> thread option" where
  "get_thread rt t = get_by_index (m_threads rt) t"

definition get_process :: "user_runtime \<Rightarrow> process_ref \<Rightarrow> process option" where
  "get_process rt p = get_by_index (m_processes rt) p"

definition get_channel :: "user_runtime \<Rightarrow> channel_ref \<Rightarrow> rpc_channel option" where
  "get_channel rt c = get_by_index (m_channels rt) c"

definition update_thread :: "thread_ref \<Rightarrow> (thread \<Rightarrow> thread) \<Rightarrow> user_runtime \<Rightarrow> user_runtime" where
  "update_thread t f rt = rt\<lparr>m_threads := update_slot t f (m_threads rt)\<rparr>"

definition update_channel :: "channel_ref \<Rightarrow> (rpc_channel \<Rightarrow> rpc_channel) \<Rightarrow> user_runtime \<Rightarrow> user_runtime" where
  "update_channel c f rt = rt\<lparr>m_channels := update_slot c f (m_channels rt)\<rparr>"

definition update_endpoint :: "endpoint_ref \<Rightarrow> (rpc_endpoint \<Rightarrow> rpc_endpoint) \<Rightarrow> user_runtime \<Rightarrow> user_runtime" where
  "update_endpoint e f rt = rt\<lparr>m_endpoints := (m_endpoints rt)[e := f (m_endpoints rt ! e)]\<rparr>"

text \<open>
  Reads through a thread or process pointer. Every pointer the runtime holds names an occupied
  slot (\<open>runtime_inv\<close> of the theory \<open>Runtime_Invariant\<close>); the values for an empty slot only make
  the functions total.
\<close>

definition thread_state :: "user_runtime \<Rightarrow> thread_ref \<Rightarrow> user_thread_state" where
  "thread_state rt t = (case get_thread rt t of None \<Rightarrow> USER_THREAD_STATE_EMPTY | Some th \<Rightarrow> m_state th)"

definition get_process_context :: "user_runtime \<Rightarrow> thread_ref \<Rightarrow> process_ref option" where
  "get_process_context rt t = (case get_thread rt t of None \<Rightarrow> None | Some th \<Rightarrow> m_process th)"

definition get_address_space_info :: "user_runtime \<Rightarrow> process_ref \<Rightarrow> address_space" where
  "get_address_space_info rt p =
     (case get_process rt p of None \<Rightarrow> empty_address_space 0 | Some pr \<Rightarrow> m_address_space pr)"

section \<open>Reset and object creation\<close>

definition clear_endpoint :: "rpc_endpoint \<Rightarrow> rpc_endpoint" where
  "clear_endpoint ep =
     \<lparr>m_is_in_use = False, m_is_busy = False, m_name = replicate (length (m_name ep)) 0,
      m_owner_process = None, m_owner_thread = None,
      m_callback_address = 0, m_completion_address = 0\<rparr>"

definition rpc_runtime_reset :: "user_runtime \<Rightarrow> user_runtime" where
  "rpc_runtime_reset rt =
     rt\<lparr>m_channels := pool_reset (m_channels rt), m_endpoints := map clear_endpoint (m_endpoints rt)\<rparr>"

definition runtime_reset :: "user_runtime \<Rightarrow> user_runtime" where
  "runtime_reset rt0 =
     (let rt1 = rt0\<lparr>m_current_thread := None, m_next_handle_value := 1,
                    m_processes := pool_reset (m_processes rt0),
                    m_threads := pool_reset (m_threads rt0),
                    m_device_memory_objects := pool_reset (m_device_memory_objects rt0)\<rparr>;
          rt2 = rpc_runtime_reset rt1
      in rt2\<lparr>m_shared_memory_objects := pool_reset (m_shared_memory_objects rt2)\<rparr>)"

text \<open>Creation returns the slot of the new object, or \<open>None\<close> when the pool is full.\<close>

definition create_process :: "process_metadata \<Rightarrow> address_space \<Rightarrow> user_runtime \<Rightarrow>
    process_ref option \<times> user_runtime" where
  "create_process metadata address_space_info rt =
     (case emplace (m_processes rt) (m_next_handle_value rt) (make_process metadata address_space_info) of
        (None, _, _) \<Rightarrow> (None, rt)
      | (Some p, pool, nh) \<Rightarrow>
          (Some p, rt\<lparr>m_processes := update_slot p acquire_process_reference pool, m_next_handle_value := nh\<rparr>))"

definition create_thread :: "process_ref \<Rightarrow> thread_context \<Rightarrow> user_runtime \<Rightarrow>
    (thread_ref \<times> handle_t) option \<times> user_runtime" where
  "create_thread process_context initial_context rt =
     (case emplace (m_threads rt) (m_next_handle_value rt) (make_thread process_context initial_context) of
        (None, _, _) \<Rightarrow> (None, rt)
      | (Some t, pool, nh) \<Rightarrow>
          (let rt' = rt\<lparr>m_threads := update_slot t acquire_process_reference pool, m_next_handle_value := nh\<rparr>
           in (Some (t, (case get_thread rt' t of None \<Rightarrow> 0 | Some th \<Rightarrow> m_handle_value th)), rt')))"

definition create_device_memory_object :: "device_memory_type \<Rightarrow> u64 \<Rightarrow> u64 \<Rightarrow> u64 \<Rightarrow> user_runtime \<Rightarrow>
    (nat \<times> handle_t) option \<times> user_runtime" where
  "create_device_memory_object ty user_address host_address len rt =
     (case emplace (m_device_memory_objects rt) (m_next_handle_value rt)
             (make_device_memory_object ty user_address host_address len) of
        (None, _, _) \<Rightarrow> (None, rt)
      | (Some d, pool, nh) \<Rightarrow>
          (let pool' = update_slot d acquire_process_reference pool
           in (Some (d, (case get_by_index pool' d of None \<Rightarrow> 0 | Some obj \<Rightarrow> m_handle_value obj)),
               rt\<lparr>m_device_memory_objects := pool', m_next_handle_value := nh\<rparr>)))"

definition create_shared_memory_object :: "u64 \<Rightarrow> u64 \<Rightarrow> user_runtime \<Rightarrow>
    (nat \<times> handle_t) option \<times> user_runtime" where
  "create_shared_memory_object user_address len rt =
     (case emplace (m_shared_memory_objects rt) (m_next_handle_value rt)
             (make_shared_memory_object user_address len) of
        (None, _, _) \<Rightarrow> (None, rt)
      | (Some d, pool, nh) \<Rightarrow>
          (let pool' = update_slot d acquire_process_reference pool
           in (Some (d, (case get_by_index pool' d of None \<Rightarrow> 0 | Some obj \<Rightarrow> m_handle_value obj)),
               rt\<lparr>m_shared_memory_objects := pool', m_next_handle_value := nh\<rparr>)))"

text \<open>
  \<open>find_object_by_handle\<close> searches the process, thread, device memory and shared memory pools in
  this order; its callers only compare the result with the null pointer. Channels are not searched.
\<close>

datatype object_ref =
    Process_Object nat
  | Thread_Object nat
  | Device_Memory_Object nat
  | Shared_Memory_Object nat

definition find_object_by_handle :: "user_runtime \<Rightarrow> handle_t \<Rightarrow> object_ref option" where
  "find_object_by_handle rt handle_value =
     (case find_by_handle (m_processes rt) handle_value of
        Some p \<Rightarrow> Some (Process_Object p)
      | None \<Rightarrow> (case find_by_handle (m_threads rt) handle_value of
          Some t \<Rightarrow> Some (Thread_Object t)
        | None \<Rightarrow> (case find_by_handle (m_device_memory_objects rt) handle_value of
            Some d \<Rightarrow> Some (Device_Memory_Object d)
          | None \<Rightarrow> map_option Shared_Memory_Object (find_by_handle (m_shared_memory_objects rt) handle_value))))"

definition validate_user_range :: "user_runtime \<Rightarrow> process_ref \<Rightarrow> u64 \<Rightarrow> u64 \<Rightarrow> bool" where
  "validate_user_range rt p user_address len =
     validate_address_space_range (get_address_space_info rt p) user_address len"

section \<open>Scheduling\<close>

definition thread_pointer :: "user_runtime \<Rightarrow> nat \<Rightarrow> thread_ref option" where
  "thread_pointer rt index = (case get_thread rt index of None \<Rightarrow> None | Some _ \<Rightarrow> Some index)"

definition scan_ready :: "user_runtime \<Rightarrow> nat \<Rightarrow> nat \<Rightarrow> thread_ref option" where
  "scan_ready rt lower_bound upper_bound =
     find (\<lambda>index. thread_state rt index = USER_THREAD_STATE_READY) [lower_bound..<upper_bound]"

definition find_next_ready_thread :: "user_runtime \<Rightarrow> thread_ref option \<Rightarrow> thread_ref option" where
  "find_next_ready_thread rt after_thread =
     (let start_index =
            (case after_thread of None \<Rightarrow> 0
             | Some t \<Rightarrow>
                (case find_index (\<lambda>index. thread_pointer rt index = Some t) [0..<USER_RUNTIME_MAX_THREADS] of
                   None \<Rightarrow> 0 | Some index \<Rightarrow> index + 1))
      in case scan_ready rt start_index USER_RUNTIME_MAX_THREADS of
           Some candidate \<Rightarrow> Some candidate
         | None \<Rightarrow> scan_ready rt 0 start_index)"

definition arch_activate_process_address_space :: "target_arch \<Rightarrow> process_ref option \<Rightarrow> user_runtime \<Rightarrow> user_runtime" where
  "arch_activate_process_address_space arch process_context rt =
     (case process_context of None \<Rightarrow> rt
      | Some p \<Rightarrow>
         (let root_table = arch_root_table (get_address_space_info rt p)
          in if root_table = 0 then rt
             else (case arch of
                X86_64 \<Rightarrow> rt\<lparr>root_table_register := root_table\<rparr>
              | AARCH64 \<Rightarrow> rt\<lparr>root_table_register := root_table, m_mmu_enabled := True\<rparr>)))"

definition arch_prepare_user_thread :: "target_arch \<Rightarrow> thread_ref option \<Rightarrow> user_runtime \<Rightarrow> user_runtime" where
  "arch_prepare_user_thread arch current_thread rt =
     (case arch of
        AARCH64 \<Rightarrow> rt
      | X86_64 \<Rightarrow>
         (case current_thread of None \<Rightarrow> rt
          | Some t \<Rightarrow>
             (case get_thread rt t of None \<Rightarrow> rt
              | Some th \<Rightarrow> rt\<lparr>cpu_user_stack_pointer := ctx_stack_pointer (m_user_context th),
                              cpu_kernel_stack_owner := Some t\<rparr>)))"

definition set_current_thread :: "target_arch \<Rightarrow> thread_ref option \<Rightarrow> user_runtime \<Rightarrow> user_runtime" where
  "set_current_thread arch current_thread rt =
     (let rt1 = (case m_current_thread rt of None \<Rightarrow> rt
                 | Some c \<Rightarrow>
                    if current_thread \<noteq> Some c \<and> thread_state rt c = USER_THREAD_STATE_RUNNING
                    then update_thread c (set_state USER_THREAD_STATE_READY) rt else rt);
          rt2 = rt1\<lparr>m_current_thread := current_thread\<rparr>;
          active_process = (case current_thread of None \<Rightarrow> None | Some t \<Rightarrow> get_process_context rt2 t);
          rt3 = arch_activate_process_address_space arch active_process rt2;
          rt4 = arch_prepare_user_thread arch current_thread rt3
      in case current_thread of None \<Rightarrow> rt4
         | Some t \<Rightarrow>
            if thread_state rt4 t = USER_THREAD_STATE_READY
            then update_thread t (set_state USER_THREAD_STATE_RUNNING) rt4 else rt4)"

definition schedule_next_ready_thread :: "target_arch \<Rightarrow> user_runtime \<Rightarrow> bool \<times> user_runtime" where
  "schedule_next_ready_thread arch rt =
     (case find_next_ready_thread rt (m_current_thread rt) of
        None \<Rightarrow> (False, rt\<lparr>m_current_thread := None\<rparr>)
      | Some t \<Rightarrow> (True, set_current_thread arch (Some t) rt))"

definition has_runnable_thread :: "user_runtime \<Rightarrow> bool" where
  "has_runnable_thread rt =
     (case m_current_thread rt of None \<Rightarrow> False
      | Some t \<Rightarrow> thread_state rt t \<noteq> USER_THREAD_STATE_BLOCKED \<and> thread_state rt t \<noteq> USER_THREAD_STATE_EXITED)"

end
