(* ===== verification/Rpc.thy ===== *)
theory Rpc
  imports Runtime_State
begin

text \<open>
  \<open>kernel/rpc.cpp\<close>: endpoints, channels and the RPC system calls. A call suspends the client
  thread, copies the request below the server thread's stack pointer and redirects the server to
  its callback; completion restores the server and hands the callback's status to the client. One
  definition per case of \<open>rpc_runtime::dispatch_syscall\<close>; every operation takes the target
  architecture that the conditional compilation selects and the whole runtime state.
\<close>

section \<open>Helpers\<close>

fun strings_equal :: "u8 list \<Rightarrow> u8 list \<Rightarrow> bool" where
  "strings_equal (l # ls) (r # rs) =
     (if l \<noteq> r then False else if l = 0 then True else strings_equal ls rs)"
| "strings_equal [] [] = True"
| "strings_equal [] (r # rs) = (r = 0)"
| "strings_equal (l # ls) [] = (l = 0)"

definition align_down :: "u64 \<Rightarrow> u64 \<Rightarrow> u64" where
  "align_down value alignment = (if alignment = 0 then value else value AND NOT (alignment - 1))"

section \<open>Endpoints\<close>

definition matches_name :: "u8 list \<Rightarrow> rpc_endpoint \<Rightarrow> bool" where
  "matches_name name ep = (m_is_in_use ep \<and> strings_equal (m_name ep) name)"

definition initialize_endpoint :: "process_ref \<Rightarrow> thread_ref \<Rightarrow> u8 list \<Rightarrow> u64 \<Rightarrow> u64 \<Rightarrow> rpc_endpoint \<Rightarrow> rpc_endpoint" where
  "initialize_endpoint owner_process owner_thread name callback_address completion_address ep =
     (let ep1 = (clear_endpoint ep)\<lparr>m_is_in_use := True\<rparr>
      in ep1\<lparr>m_name := copy_string (m_name ep1) (Some name),
             m_owner_process := Some owner_process, m_owner_thread := Some owner_thread,
             m_callback_address := callback_address, m_completion_address := completion_address\<rparr>)"

definition set_busy :: "bool \<Rightarrow> rpc_endpoint \<Rightarrow> rpc_endpoint" where
  "set_busy busy ep = ep\<lparr>m_is_busy := busy\<rparr>"

section \<open>Channels\<close>

definition make_rpc_channel :: "process_ref \<Rightarrow> endpoint_ref \<Rightarrow> u32 \<Rightarrow> handle_t \<Rightarrow> rpc_channel" where
  "make_rpc_channel client_process endpoint channel_id handle_value =
     \<lparr>m_id = channel_id, m_handle_value = handle_value, m_process_reference_count = 0,
      m_client_process = client_process, m_endpoint = Some endpoint,
      m_pending_client_thread = None, m_pending_server_thread = None,
      m_saved_server_state = USER_THREAD_STATE_EMPTY,
      m_saved_server_context = empty_thread_context,
      m_saved_server_registers = replicate USER_THREAD_ARCH_PRESERVED_REGISTER_COUNT 0,
      m_saved_server_simd_qwords = replicate USER_THREAD_ARCH_PRESERVED_SIMD_QWORD_COUNT 0\<rparr>"

definition channel_is_busy :: "rpc_channel \<Rightarrow> bool" where
  "channel_is_busy ch = (m_pending_client_thread ch \<noteq> None \<or> m_pending_server_thread ch \<noteq> None)"

definition is_owned_by :: "process_ref \<Rightarrow> rpc_channel \<Rightarrow> bool" where
  "is_owned_by p ch = (m_client_process ch = p)"

definition set_endpoint_busy :: "endpoint_ref option \<Rightarrow> bool \<Rightarrow> user_runtime \<Rightarrow> user_runtime" where
  "set_endpoint_busy endpoint busy rt =
     (case endpoint of None \<Rightarrow> rt | Some e \<Rightarrow> update_endpoint e (set_busy busy) rt)"

definition begin_call :: "channel_ref \<Rightarrow> thread_ref \<Rightarrow> thread_ref \<Rightarrow> user_runtime \<Rightarrow> user_runtime" where
  "begin_call c client_thread server_thread rt =
     (case (get_channel rt c, get_thread rt server_thread) of
        (Some ch, Some server) \<Rightarrow>
          set_endpoint_busy (m_endpoint ch) True
            (update_channel c (\<lambda>ch. ch\<lparr>m_pending_client_thread := Some client_thread,
                m_pending_server_thread := Some server_thread,
                m_saved_server_state := m_state server,
                m_saved_server_context := m_user_context server,
                m_saved_server_registers := m_arch_preserved_registers server,
                m_saved_server_simd_qwords := m_arch_preserved_simd_qwords server\<rparr>) rt)
      | _ \<Rightarrow> rt)"

definition clear_call :: "rpc_channel \<Rightarrow> rpc_channel" where
  "clear_call ch = ch\<lparr>m_pending_client_thread := None, m_pending_server_thread := None,
     m_saved_server_state := USER_THREAD_STATE_EMPTY,
     m_saved_server_context := empty_thread_context,
     m_saved_server_registers := replicate (length (m_saved_server_registers ch)) 0,
     m_saved_server_simd_qwords := replicate (length (m_saved_server_simd_qwords ch)) 0\<rparr>"

definition cancel_call :: "channel_ref \<Rightarrow> user_runtime \<Rightarrow> user_runtime" where
  "cancel_call c rt =
     (case get_channel rt c of None \<Rightarrow> rt
      | Some ch \<Rightarrow> update_channel c clear_call (set_endpoint_busy (m_endpoint ch) False rt))"

definition restore_server :: "rpc_channel \<Rightarrow> thread \<Rightarrow> thread" where
  "restore_server ch th =
     (set_state (m_saved_server_state ch) (set_user_context (m_saved_server_context ch) th))
        \<lparr>m_arch_preserved_registers := m_saved_server_registers ch,
         m_arch_preserved_simd_qwords := m_saved_server_simd_qwords ch\<rparr>"

definition finish_call :: "channel_ref \<Rightarrow> user_runtime \<Rightarrow> user_runtime" where
  "finish_call c rt =
     (case get_channel rt c of None \<Rightarrow> rt
      | Some ch \<Rightarrow>
         cancel_call c
           (case m_pending_server_thread ch of None \<Rightarrow> rt
            | Some server \<Rightarrow> update_thread server (restore_server ch) rt))"

section \<open>Lookup\<close>

definition find_channel_by_handle :: "user_runtime \<Rightarrow> handle_t \<Rightarrow> channel_ref option" where
  "find_channel_by_handle rt handle_value = find_by_handle (m_channels rt) handle_value"

definition find_endpoint_by_name :: "user_runtime \<Rightarrow> u8 list \<Rightarrow> endpoint_ref option" where
  "find_endpoint_by_name rt endpoint_name = find_index (matches_name endpoint_name) (m_endpoints rt)"

definition find_free_endpoint :: "user_runtime \<Rightarrow> endpoint_ref option" where
  "find_free_endpoint rt = find_index (\<lambda>ep. \<not> m_is_in_use ep) (m_endpoints rt)"

definition has_pending_server :: "thread_ref \<Rightarrow> rpc_channel option \<Rightarrow> bool" where
  "has_pending_server t slot =
     (case slot of None \<Rightarrow> False | Some ch \<Rightarrow> m_pending_server_thread ch = Some t)"

definition find_pending_channel_by_server_thread :: "user_runtime \<Rightarrow> thread_ref \<Rightarrow> channel_ref option" where
  "find_pending_channel_by_server_thread rt server_thread =
     find_index (has_pending_server server_thread) (m_items (m_channels rt))"

definition clear_endpoints_owned_by :: "thread_ref \<Rightarrow> user_runtime \<Rightarrow> user_runtime" where
  "clear_endpoints_owned_by owner_thread rt =
     rt\<lparr>m_endpoints := map (\<lambda>ep. if m_owner_thread ep = Some owner_thread then clear_endpoint ep else ep)
          (m_endpoints rt)\<rparr>"

section \<open>Redirecting the server\<close>

definition push_return_address :: "user_runtime \<Rightarrow> process_ref \<Rightarrow> u64 \<Rightarrow> u64 \<Rightarrow> i32 \<times> user_runtime" where
  "push_return_address rt p return_address completion_address =
     (case write_user_bytes (get_address_space_info rt p) (host_memory rt) return_address
             (le_bytes 8 completion_address) of
        (status, m) \<Rightarrow> (status, rt\<lparr>host_memory := m\<rparr>))"

definition copy_request :: "user_runtime \<Rightarrow> process_ref \<Rightarrow> u64 \<Rightarrow> process_ref \<Rightarrow> u64 \<Rightarrow> u64 \<Rightarrow> i32 \<times> user_runtime" where
  "copy_request rt client_process client_request_address server_process request_address request_size =
     (case copy_between_user_processes (get_address_space_info rt client_process) client_request_address
             (get_address_space_info rt server_process) request_address request_size (host_memory rt) of
        (status, m) \<Rightarrow> (status, rt\<lparr>host_memory := m\<rparr>))"

definition prepare_server_thread_x64 :: "thread_ref \<Rightarrow> process_ref \<Rightarrow> process_ref \<Rightarrow> u64 \<Rightarrow> u64 \<Rightarrow> u64 \<Rightarrow> u64 \<Rightarrow>
    u64 \<Rightarrow> user_runtime \<Rightarrow> i32 \<times> user_runtime" where
  "prepare_server_thread_x64 server_thread server_process client_process callback_address
     completion_address client_request_address request_size saved_stack_pointer rt =
     (if saved_stack_pointer \<le> request_size + 8 then (STATUS_FAULT, rt)
      else (let request_address = align_down (saved_stack_pointer - request_size) 16
        in if request_address \<le> 8 then (STATUS_FAULT, rt)
        else (let return_address = request_address - 8 in
          case copy_request rt client_process client_request_address server_process request_address request_size of
            (request_status, rt1) \<Rightarrow>
              if request_status \<noteq> STATUS_OK then (request_status, rt1)
              else (case push_return_address rt1 server_process return_address completion_address of
                (return_status, rt2) \<Rightarrow>
                  if return_status \<noteq> STATUS_OK then (return_status, rt2)
                  else (STATUS_OK, update_thread server_thread
                    (prepare_rpc_resume callback_address completion_address request_address request_size
                       return_address) rt2)))))"

definition prepare_server_thread_arm64 :: "thread_ref \<Rightarrow> process_ref \<Rightarrow> process_ref \<Rightarrow> u64 \<Rightarrow> u64 \<Rightarrow> u64 \<Rightarrow> u64 \<Rightarrow>
    u64 \<Rightarrow> user_runtime \<Rightarrow> i32 \<times> user_runtime" where
  "prepare_server_thread_arm64 server_thread server_process client_process callback_address
     completion_address client_request_address request_size saved_stack_pointer rt =
     (if saved_stack_pointer \<le> request_size then (STATUS_FAULT, rt)
      else (let request_address = align_down (saved_stack_pointer - request_size) 16 in
        case copy_request rt client_process client_request_address server_process request_address request_size of
          (request_status, rt1) \<Rightarrow>
            if request_status \<noteq> STATUS_OK then (request_status, rt1)
            else (STATUS_OK, update_thread server_thread
              (prepare_rpc_resume callback_address completion_address request_address request_size
                 request_address) rt1)))"

definition user_stack_pointer :: "user_runtime \<Rightarrow> thread_ref \<Rightarrow> u64" where
  "user_stack_pointer rt t =
     (case get_thread rt t of None \<Rightarrow> 0 | Some th \<Rightarrow> ctx_stack_pointer (m_user_context th))"

definition prepare_server_thread :: "target_arch \<Rightarrow> rpc_endpoint \<Rightarrow> thread_ref \<Rightarrow> process_ref \<Rightarrow> u64 \<Rightarrow> u64 \<Rightarrow>
    user_runtime \<Rightarrow> i32 \<times> user_runtime" where
  "prepare_server_thread arch endpoint server_thread client_process client_request_address request_size rt =
     (case m_owner_process endpoint of None \<Rightarrow> (STATUS_BAD_STATE, rt)
      | Some server_process \<Rightarrow>
        if client_request_address = 0 \<or> request_size = 0 \<or> request_size > RINGOS_RPC_MAX_REQUEST_SIZE
        then (STATUS_INVALID_ARGUMENT, rt)
        else (let callback_address = m_callback_address endpoint;
                  completion_address = m_completion_address endpoint
          in if callback_address = 0 \<or> completion_address = 0 \<or>
                \<not> validate_user_range rt server_process callback_address 1 \<or>
                \<not> validate_user_range rt server_process completion_address 1
             then (STATUS_FAULT, rt)
             else (let saved_stack_pointer = user_stack_pointer rt server_thread
               in if saved_stack_pointer = 0 then (STATUS_BAD_STATE, rt)
                  else (case arch of X86_64 \<Rightarrow> prepare_server_thread_x64 | AARCH64 \<Rightarrow> prepare_server_thread_arm64)
                         server_thread server_process client_process callback_address completion_address
                         client_request_address request_size saved_stack_pointer rt)))"

section \<open>Completion and failure\<close>

definition complete_call :: "target_arch \<Rightarrow> thread_ref \<Rightarrow> i32 \<Rightarrow> user_runtime \<Rightarrow> i32 \<times> user_runtime" where
  "complete_call arch server_thread callback_status rt =
     (case find_pending_channel_by_server_thread rt server_thread of
        None \<Rightarrow> (STATUS_BAD_STATE, rt)
      | Some c \<Rightarrow>
         (let client_thread = Option.bind (get_channel rt c) m_pending_client_thread;
              is_same_thread_call = (client_thread = Some server_thread);
              rt1 = finish_call c rt
          in if is_same_thread_call then (callback_status, rt1)
             else (case client_thread of None \<Rightarrow> (STATUS_BAD_STATE, rt1)
               | Some t \<Rightarrow>
                  (STATUS_OK,
                   set_current_thread arch (Some t)
                     (update_thread t (prepare_syscall_resume arch callback_status \<circ>
                        set_state USER_THREAD_STATE_READY) rt1)))))"

definition fail_pending_call :: "target_arch \<Rightarrow> thread_ref \<Rightarrow> i32 \<Rightarrow> user_runtime \<Rightarrow> i32 \<times> user_runtime" where
  "fail_pending_call arch server_thread failure_status rt =
     (case find_pending_channel_by_server_thread rt server_thread of
        None \<Rightarrow> (STATUS_OK, rt)
      | Some c \<Rightarrow>
         (let client_thread = Option.bind (get_channel rt c) m_pending_client_thread;
              is_same_thread_call = (client_thread = Some server_thread);
              rt1 = cancel_call c rt
          in (failure_status,
              case client_thread of None \<Rightarrow> rt1
              | Some t \<Rightarrow>
                 if is_same_thread_call then rt1
                 else update_thread t (prepare_syscall_resume arch failure_status \<circ>
                        set_state USER_THREAD_STATE_READY) rt1)))"

definition handle_thread_exit :: "target_arch \<Rightarrow> thread_ref \<Rightarrow> i32 \<Rightarrow> user_runtime \<Rightarrow> user_runtime" where
  "handle_thread_exit arch active_thread failure_status rt =
     clear_endpoints_owned_by active_thread (snd (fail_pending_call arch active_thread failure_status rt))"

section \<open>The system calls\<close>

definition rpc_register :: "target_arch \<Rightarrow> thread_ref \<Rightarrow> process_ref \<Rightarrow> user_syscall_context \<Rightarrow> user_runtime \<Rightarrow>
    i32 \<times> user_runtime" where
  "rpc_register arch active_thread owner_process sc rt =
     (if sc_argument0 sc = 0 \<or> sc_argument1 sc = 0 \<or> sc_argument2 sc = 0 then (STATUS_INVALID_ARGUMENT, rt)
      else if \<not> validate_user_range rt owner_process (sc_argument1 sc) 1 \<or>
              \<not> validate_user_range rt owner_process (sc_argument2 sc) 1 then (STATUS_FAULT, rt)
      else (case copy_user_string (get_address_space_info rt owner_process) (host_memory rt)
                   (sc_argument0 sc) (replicate RPC_ENDPOINT_NAME_BUFFER_SIZE 0) of
        (name_status, endpoint_name) \<Rightarrow>
          if name_status \<noteq> STATUS_OK then (name_status, rt)
          else if find_endpoint_by_name rt endpoint_name \<noteq> None then (STATUS_BAD_STATE, rt)
          else (case find_free_endpoint rt of None \<Rightarrow> (STATUS_NO_MEMORY, rt)
            | Some e \<Rightarrow>
               (let rt1 = update_endpoint e (initialize_endpoint owner_process active_thread endpoint_name
                            (sc_argument1 sc) (sc_argument2 sc)) rt;
                    next_thread = find_next_ready_thread rt1 (Some active_thread)
                in if next_thread \<noteq> None \<and> find_pending_channel_by_server_thread rt1 active_thread = None
                   then (STATUS_OK, set_current_thread arch next_thread
                           (update_thread active_thread (prepare_syscall_resume arch STATUS_OK) rt1))
                   else (STATUS_OK, rt1)))))"

definition rpc_open :: "process_ref \<Rightarrow> user_syscall_context \<Rightarrow> user_runtime \<Rightarrow> i32 \<times> user_runtime" where
  "rpc_open owner_process sc rt =
     (if sc_argument0 sc = 0 \<or> sc_argument1 sc = 0 then (STATUS_INVALID_ARGUMENT, rt)
      else (case copy_user_string (get_address_space_info rt owner_process) (host_memory rt)
                   (sc_argument0 sc) (replicate RPC_ENDPOINT_NAME_BUFFER_SIZE 0) of
        (name_status, endpoint_name) \<Rightarrow>
          if name_status \<noteq> STATUS_OK then (name_status, rt)
          else (case find_endpoint_by_name rt endpoint_name of None \<Rightarrow> (STATUS_NOT_FOUND, rt)
            | Some e \<Rightarrow>
               (case m_owner_thread (m_endpoints rt ! e) of None \<Rightarrow> (STATUS_PEER_CLOSED, rt)
                | Some server_thread \<Rightarrow>
                   if thread_state rt server_thread = USER_THREAD_STATE_EXITED then (STATUS_PEER_CLOSED, rt)
                   else (case emplace (m_channels rt) (m_next_handle_value rt) (make_rpc_channel owner_process e) of
                      (None, _, _) \<Rightarrow> (STATUS_NO_MEMORY, rt)
                    | (Some c, pool, nh) \<Rightarrow>
                       (let rt1 = rt\<lparr>m_channels := update_slot c acquire_process_reference pool,
                                     m_next_handle_value := nh\<rparr>;
                            channel_handle = (case get_channel rt1 c of None \<Rightarrow> 0 | Some ch \<Rightarrow> m_handle_value ch)
                        in case write_user_bytes (get_address_space_info rt1 owner_process) (host_memory rt1)
                                  (sc_argument1 sc) (le_bytes 8 channel_handle) of
                          (write_status, m) \<Rightarrow>
                            (let rt2 = rt1\<lparr>host_memory := m\<rparr>
                             in if write_status \<noteq> STATUS_OK
                                then (write_status,
                                      rt2\<lparr>m_channels := snd (erase_by_handle (m_channels rt2) channel_handle)\<rparr>)
                                else (STATUS_OK, rt2))))))))"

definition rpc_call :: "target_arch \<Rightarrow> thread_ref \<Rightarrow> process_ref \<Rightarrow> user_syscall_context \<Rightarrow> user_runtime \<Rightarrow>
    i32 \<times> user_runtime" where
  "rpc_call arch active_thread owner_process sc rt =
     (if sc_argument0 sc = 0 \<or> sc_argument1 sc = 0 \<or> sc_argument2 sc = 0 then (STATUS_INVALID_ARGUMENT, rt)
      else if sc_argument2 sc > RINGOS_RPC_MAX_REQUEST_SIZE then (STATUS_INVALID_ARGUMENT, rt)
      else (case find_channel_by_handle rt (sc_argument0 sc) of
        None \<Rightarrow> (if find_object_by_handle rt (sc_argument0 sc) = None then STATUS_BAD_HANDLE
                 else STATUS_WRONG_TYPE, rt)
      | Some c \<Rightarrow>
         (case get_channel rt c of None \<Rightarrow> (STATUS_BAD_HANDLE, rt)
          | Some channel \<Rightarrow>
             if \<not> is_owned_by owner_process channel then (STATUS_BAD_HANDLE, rt)
             else (case m_endpoint channel of None \<Rightarrow> (STATUS_PEER_CLOSED, rt)
              | Some e \<Rightarrow>
                 (case m_owner_thread (m_endpoints rt ! e) of None \<Rightarrow> (STATUS_PEER_CLOSED, rt)
                  | Some server_thread \<Rightarrow>
                     if thread_state rt server_thread = USER_THREAD_STATE_EXITED then (STATUS_PEER_CLOSED, rt)
                     else if \<not> m_is_in_use (m_endpoints rt ! e) \<or> m_is_busy (m_endpoints rt ! e) \<or>
                             channel_is_busy channel then (STATUS_WOULD_BLOCK, rt)
                     else (case prepare_server_thread arch (m_endpoints rt ! e) server_thread owner_process
                                  (sc_argument1 sc) (sc_argument2 sc) rt of
                       (prepare_status, rt1) \<Rightarrow>
                         if prepare_status \<noteq> STATUS_OK then (prepare_status, rt1)
                         else (let rt2 = begin_call c active_thread server_thread rt1
                           in if server_thread \<noteq> active_thread
                              then (STATUS_OK, set_current_thread arch (Some server_thread)
                                      (update_thread active_thread (set_state USER_THREAD_STATE_BLOCKED) rt2))
                              else (STATUS_OK, rt2))))))))"

definition rpc_close :: "process_ref \<Rightarrow> user_syscall_context \<Rightarrow> user_runtime \<Rightarrow> i32 \<times> user_runtime" where
  "rpc_close owner_process sc rt =
     (if sc_argument0 sc = 0 then (STATUS_INVALID_ARGUMENT, rt)
      else (case find_channel_by_handle rt (sc_argument0 sc) of
        None \<Rightarrow> (if find_object_by_handle rt (sc_argument0 sc) = None then STATUS_BAD_HANDLE
                 else STATUS_WRONG_TYPE, rt)
      | Some c \<Rightarrow>
         (case get_channel rt c of None \<Rightarrow> (STATUS_BAD_HANDLE, rt)
          | Some channel \<Rightarrow>
             if \<not> is_owned_by owner_process channel then (STATUS_BAD_HANDLE, rt)
             else if channel_is_busy channel then (STATUS_BAD_STATE, rt)
             else (case erase_by_handle (m_channels rt) (sc_argument0 sc) of
                (erased, pool) \<Rightarrow>
                  (if erased then STATUS_OK else STATUS_BAD_STATE, rt\<lparr>m_channels := pool\<rparr>)))))"

definition rpc_dispatch_syscall :: "target_arch \<Rightarrow> thread_ref \<Rightarrow> user_syscall_context \<Rightarrow> user_runtime \<Rightarrow>
    i32 \<times> user_runtime" where
  "rpc_dispatch_syscall arch active_thread sc rt =
     (case get_process_context rt active_thread of None \<Rightarrow> (STATUS_BAD_STATE, rt)
      | Some owner_process \<Rightarrow>
         if sc_syscall_number sc = SYSCALL_RPC_REGISTER then rpc_register arch active_thread owner_process sc rt
         else if sc_syscall_number sc = SYSCALL_RPC_OPEN then rpc_open owner_process sc rt
         else if sc_syscall_number sc = SYSCALL_RPC_CALL then rpc_call arch active_thread owner_process sc rt
         else if sc_syscall_number sc = SYSCALL_RPC_CLOSE then rpc_close owner_process sc rt
         else if sc_syscall_number sc = SYSCALL_RPC_COMPLETE
              then complete_call arch active_thread (ucast (sc_argument0 sc)) rt
         else (STATUS_NOT_SUPPORTED, rt))"

end
