(* ===== verification/User_Runtime.thy ===== *)
theory User_Runtime
  imports Rpc
begin

text \<open>
  The rest of \<open>kernel/user_runtime.cpp\<close>: thread termination, the system call dispatcher and the boot
  sequence up to the entry of the first user thread. A panic is \<open>Inl\<close> with its message.
\<close>

section \<open>Termination and dispatch\<close>

definition terminate_current_thread :: "target_arch \<Rightarrow> u64 \<Rightarrow> i32 \<Rightarrow> user_runtime \<Rightarrow> bool \<times> user_runtime" where
  "terminate_current_thread arch exit_status peer_failure_status rt =
     (case m_current_thread rt of None \<Rightarrow> (False, rt)
      | Some active_thread \<Rightarrow>
         schedule_next_ready_thread arch
           (update_thread active_thread (set_exit_status exit_status \<circ> set_state USER_THREAD_STATE_EXITED)
              (handle_thread_exit arch active_thread peer_failure_status rt)))"

definition DEBUG_MESSAGE_BUFFER_SIZE :: nat where "DEBUG_MESSAGE_BUFFER_SIZE = 96"

definition debug_log :: "u8 list \<Rightarrow> user_runtime \<Rightarrow> user_runtime" where
  "debug_log message rt = rt\<lparr>debug_messages := debug_messages rt @ [c_string message]\<rparr>"

definition syscall_debug_log :: "process_ref \<Rightarrow> user_syscall_context \<Rightarrow> user_runtime \<Rightarrow> i32 \<times> user_runtime" where
  "syscall_debug_log owner_process sc rt =
     (if sc_argument0 sc = 0 then (STATUS_INVALID_ARGUMENT, rt)
      else (case copy_user_string (get_address_space_info rt owner_process) (host_memory rt)
                   (sc_argument0 sc) (replicate DEBUG_MESSAGE_BUFFER_SIZE 0) of
        (copy_status, message_buffer) \<Rightarrow>
          if copy_status \<noteq> STATUS_OK then (copy_status, rt)
          else (STATUS_OK, debug_log message_buffer rt)))"

definition dispatch_syscall :: "target_arch \<Rightarrow> user_syscall_context \<Rightarrow> user_runtime \<Rightarrow> i32 \<times> user_runtime" where
  "dispatch_syscall arch sc rt0 =
     (case m_current_thread rt0 of None \<Rightarrow> (STATUS_BAD_STATE, rt0)
      | Some active_thread \<Rightarrow>
        (case get_process_context rt0 active_thread of None \<Rightarrow> (STATUS_BAD_STATE, rt0)
         | Some owner_process \<Rightarrow>
           (let rt = update_thread active_thread (set_user_context (make_thread_context_from_syscall sc)) rt0;
                number = sc_syscall_number sc
            in if number = SYSCALL_DEBUG_LOG then syscall_debug_log owner_process sc rt
               else if number = SYSCALL_THREAD_EXIT
                    then (STATUS_OK, snd (terminate_current_thread arch (sc_argument0 sc) STATUS_PEER_CLOSED rt))
               else if number = SYSCALL_RPC_REGISTER \<or> number = SYSCALL_RPC_OPEN \<or> number = SYSCALL_RPC_CALL \<or>
                       number = SYSCALL_RPC_CLOSE \<or> number = SYSCALL_RPC_COMPLETE
                    then rpc_dispatch_syscall arch active_thread sc rt
               else if number = SYSCALL_DEVICE_MEMORY_MAP
                    then (if sc_argument0 sc = 0 \<or> sc_argument1 sc = 0 then (STATUS_INVALID_ARGUMENT, rt)
                          else (STATUS_NOT_FOUND, rt))
               else (STATUS_NOT_SUPPORTED, rt))))"

section \<open>Boot\<close>

text \<open>The runtime as static initialization leaves it.\<close>

definition empty_endpoint :: rpc_endpoint where
  "empty_endpoint = \<lparr>m_is_in_use = False, m_is_busy = False, m_name = replicate RPC_ENDPOINT_NAME_BUFFER_SIZE 0,
     m_owner_process = None, m_owner_thread = None, m_callback_address = 0, m_completion_address = 0\<rparr>"

definition g_user_runtime :: "hmem \<Rightarrow> u64 \<Rightarrow> user_runtime" where
  "g_user_runtime m root_table =
     \<lparr>m_processes = empty_pool USER_RUNTIME_MAX_PROCESSES,
      m_threads = empty_pool USER_RUNTIME_MAX_THREADS,
      m_device_memory_objects = empty_pool USER_RUNTIME_MAX_DEVICE_MEMORY_OBJECTS,
      m_endpoints = replicate USER_RUNTIME_MAX_RPC_ENDPOINTS empty_endpoint,
      m_channels = empty_pool USER_RUNTIME_MAX_RPC_CHANNELS,
      m_shared_memory_objects = empty_pool USER_RUNTIME_MAX_SHARED_MEMORY_OBJECTS,
      m_current_thread = None, m_next_handle_value = 1,
      root_table_register = root_table, m_mmu_enabled = False, cpu_user_stack_pointer = 0,
      cpu_kernel_stack_owner = None, host_memory = m, debug_messages = []\<rparr>"

fun create_initial_processes :: "initial_process_configuration list \<Rightarrow> user_runtime \<Rightarrow>
    string + ((process_ref \<times> thread_ref) list \<times> user_runtime)" where
  "create_initial_processes [] rt = Inr ([], rt)"
| "create_initial_processes (cfg # cfgs) rt =
     (case create_process (cfg_metadata cfg) (cfg_address_space cfg) rt of
        (None, _) \<Rightarrow> Inl ''failed to create initial process''
      | (Some p, rt1) \<Rightarrow>
        (case create_thread p (cfg_thread_context cfg) rt1 of
           (None, _) \<Rightarrow> Inl ''failed to create initial thread''
         | (Some (t, thread_handle), rt2) \<Rightarrow>
            if thread_handle = 0 then Inl ''failed to create initial thread''
            else (case create_initial_processes cfgs rt2 of
                Inl message \<Rightarrow> Inl message
              | Inr (pts, rt3) \<Rightarrow> Inr ((p, t) # pts, rt3))))"

text \<open>
  The boot sequence; the platform's \<open>initialize\<close> has filled in the bootstrap and the host memory.
  \<open>initial_processes\<close> is an array, of which the first \<open>process_count\<close> entries are read. The
  result is the initial process and thread and the state in which the platform launches them.
\<close>

definition start_initial_user_runtime :: "target_arch \<Rightarrow> initial_user_runtime_bootstrap \<Rightarrow> user_runtime \<Rightarrow>
    string + ((process_ref \<times> thread_ref) \<times> user_runtime)" where
  "start_initial_user_runtime arch bootstrap rt0 =
     (let rt = runtime_reset rt0 in
      if boot_process_count bootstrap = 0 \<or>
         unat (boot_process_count bootstrap) > USER_RUNTIME_MAX_INITIAL_PROCESSES
      then Inl ''invalid initial process count''
      else if boot_initial_process_index bootstrap \<ge> boot_process_count bootstrap
      then Inl ''invalid initial process index''
      else (case create_initial_processes
                   (take (unat (boot_process_count bootstrap)) (boot_initial_processes bootstrap)) rt of
          Inl message \<Rightarrow> Inl message
        | Inr (pts, rt1) \<Rightarrow>
            (let initial = pts ! unat (boot_initial_process_index bootstrap)
             in Inr (initial, set_current_thread arch (Some (snd initial)) rt1))))"

definition run_initial_user_runtime :: "target_arch \<Rightarrow> initial_user_runtime_bootstrap \<Rightarrow> user_runtime \<Rightarrow>
    string + user_runtime" where
  "run_initial_user_runtime arch bootstrap rt0 = map_sum id snd (start_initial_user_runtime arch bootstrap rt0)"

lemmas boot_sequence_defs = run_initial_user_runtime_def start_initial_user_runtime_def

end
