(* ===== verification/Scheduling.thy ===== *)
theory Scheduling
  imports Kernel_Objects
begin

text \<open>
  The abstract specification of the runtime's thread and call bookkeeping: which state each thread
  is in, which thread is current, and which channel carries which pending call. The step relation
  has one rule per way a system call can move a thread; \<open>Runtime_Refinement\<close> shows that
  \<open>dispatch_syscall\<close> follows it. A pending call is the triple of the client thread, the server
  thread and the state the server had when the call began.
\<close>

section \<open>States and steps\<close>

type_synonym pending_call = "thread_ref \<times> thread_ref \<times> user_thread_state"

record sched =
  st :: "thread_ref \<Rightarrow> user_thread_state"
  cur :: "thread_ref option"
  calls :: "nat \<Rightarrow> pending_call option"

text \<open>The effect of a server's exit on the calls pending on it: one of them fails.\<close>

inductive fail_call :: "thread_ref \<Rightarrow> sched \<Rightarrow> sched \<Rightarrow> bool" where
  fail_none: "(\<And>c a b. calls s c \<noteq> Some (a, t, b)) \<Longrightarrow> fail_call t s s"
| fail_client: "calls s c = Some (a, t, b) \<Longrightarrow> a \<noteq> t \<Longrightarrow>
    fail_call t s (s\<lparr>calls := (calls s)(c := None), st := (st s)(a := USER_THREAD_STATE_READY)\<rparr>)"
| fail_self: "calls s c = Some (t, t, b) \<Longrightarrow> fail_call t s (s\<lparr>calls := (calls s)(c := None)\<rparr>)"

text \<open>What the scheduler does once the current thread has exited.\<close>

inductive reschedule :: "sched \<Rightarrow> sched \<Rightarrow> bool" where
  resched_none: "(\<And>n. st s n \<noteq> USER_THREAD_STATE_READY) \<Longrightarrow> reschedule s (s\<lparr>cur := None\<rparr>)"
| resched_next: "st s n = USER_THREAD_STATE_READY \<Longrightarrow>
    reschedule s (s\<lparr>cur := Some n, st := (st s)(n := USER_THREAD_STATE_RUNNING)\<rparr>)"

inductive sched_step :: "sched \<Rightarrow> sched \<Rightarrow> bool" where
  stay: "sched_step s s"
| yield: "cur s = Some t \<Longrightarrow> st s t = USER_THREAD_STATE_RUNNING \<Longrightarrow> st s n = USER_THREAD_STATE_READY \<Longrightarrow>
    sched_step s (s\<lparr>cur := Some n,
      st := (st s)(t := USER_THREAD_STATE_READY, n := USER_THREAD_STATE_RUNNING)\<rparr>)"
| call: "cur s = Some a \<Longrightarrow> st s a = USER_THREAD_STATE_RUNNING \<Longrightarrow> b \<noteq> a \<Longrightarrow> calls s c = None \<Longrightarrow>
    st s b \<noteq> USER_THREAD_STATE_EXITED \<Longrightarrow> st s b \<noteq> USER_THREAD_STATE_EMPTY \<Longrightarrow>
    sched_step s (s\<lparr>calls := (calls s)(c := Some (a, b, st s b)), cur := Some b,
      st := (st s)(a := USER_THREAD_STATE_BLOCKED,
                   b := if st s b = USER_THREAD_STATE_READY then USER_THREAD_STATE_RUNNING else st s b)\<rparr>)"
| self_call: "cur s = Some a \<Longrightarrow> st s a = USER_THREAD_STATE_RUNNING \<Longrightarrow> calls s c = None \<Longrightarrow>
    sched_step s (s\<lparr>calls := (calls s)(c := Some (a, a, USER_THREAD_STATE_RUNNING))\<rparr>)"
| complete: "cur s = Some b \<Longrightarrow> st s b = USER_THREAD_STATE_RUNNING \<Longrightarrow> calls s c = Some (a, b, saved) \<Longrightarrow>
    a \<noteq> b \<Longrightarrow>
    sched_step s (s\<lparr>calls := (calls s)(c := None), cur := Some a,
      st := (st s)(b := if saved = USER_THREAD_STATE_RUNNING then USER_THREAD_STATE_READY else saved,
                   a := USER_THREAD_STATE_RUNNING)\<rparr>)"
| complete_self: "cur s = Some b \<Longrightarrow> st s b = USER_THREAD_STATE_RUNNING \<Longrightarrow> calls s c = Some (b, b, saved) \<Longrightarrow>
    sched_step s (s\<lparr>calls := (calls s)(c := None), st := (st s)(b := saved)\<rparr>)"
| exit: "cur s = Some t \<Longrightarrow> st s t = USER_THREAD_STATE_RUNNING \<Longrightarrow> fail_call t s s1 \<Longrightarrow>
    reschedule (s1\<lparr>st := (st s1)(t := USER_THREAD_STATE_EXITED)\<rparr>) s2 \<Longrightarrow> sched_step s s2"

inductive_cases sched_stepE: "sched_step s s'"
inductive_cases fail_callE: "fail_call t s s'"
inductive_cases rescheduleE: "reschedule s s'"

section \<open>Invariant\<close>

definition waits_in :: "sched \<Rightarrow> thread_ref \<Rightarrow> nat \<Rightarrow> bool" where
  "waits_in s a c \<longleftrightarrow> (\<exists>b saved. calls s c = Some (a, b, saved) \<and> b \<noteq> a)"

definition sched_inv :: "sched \<Rightarrow> bool" where
  "sched_inv s \<longleftrightarrow>
     (\<forall>t. st s t = USER_THREAD_STATE_RUNNING \<longrightarrow> cur s = Some t) \<and>
     (\<forall>t. cur s = Some t \<longrightarrow> st s t = USER_THREAD_STATE_RUNNING \<or> st s t = USER_THREAD_STATE_BLOCKED) \<and>
     (\<forall>t. st s t = USER_THREAD_STATE_BLOCKED \<longleftrightarrow> (\<exists>c. waits_in s t c)) \<and>
     (\<forall>t c c'. waits_in s t c \<longrightarrow> waits_in s t c' \<longrightarrow> c = c') \<and>
     (\<forall>c a b saved. calls s c = Some (a, b, saved) \<longrightarrow>
        (if a = b then saved = USER_THREAD_STATE_RUNNING
         else saved = USER_THREAD_STATE_READY \<or>
              saved = USER_THREAD_STATE_BLOCKED \<and> cur s = Some b \<and> st s b = USER_THREAD_STATE_BLOCKED))"

lemma sched_invD:
  assumes "sched_inv s"
  shows "st s t = USER_THREAD_STATE_RUNNING \<Longrightarrow> cur s = Some t"
    and "cur s = Some t \<Longrightarrow> st s t = USER_THREAD_STATE_RUNNING \<or> st s t = USER_THREAD_STATE_BLOCKED"
    and "waits_in s t c \<Longrightarrow> st s t = USER_THREAD_STATE_BLOCKED"
    and "st s t = USER_THREAD_STATE_BLOCKED \<Longrightarrow> \<exists>c. waits_in s t c"
    and "waits_in s t c \<Longrightarrow> waits_in s t c' \<Longrightarrow> c = c'"
    and "calls s c = Some (a, a, saved) \<Longrightarrow> saved = USER_THREAD_STATE_RUNNING"
    and "calls s c = Some (a, b, saved) \<Longrightarrow> a \<noteq> b \<Longrightarrow> saved = USER_THREAD_STATE_READY \<or>
      saved = USER_THREAD_STATE_BLOCKED \<and> cur s = Some b \<and> st s b = USER_THREAD_STATE_BLOCKED"
proof -
  note inv = assms[unfolded sched_inv_def]
  show "cur s = Some t" if "st s t = USER_THREAD_STATE_RUNNING" using inv that by blast
  show "st s t = USER_THREAD_STATE_RUNNING \<or> st s t = USER_THREAD_STATE_BLOCKED"
    if "cur s = Some t" using inv that by blast
  show "st s t = USER_THREAD_STATE_BLOCKED" if "waits_in s t c" using inv that by blast
  show "\<exists>c. waits_in s t c" if "st s t = USER_THREAD_STATE_BLOCKED" using inv that by blast
  show "c = c'" if "waits_in s t c" "waits_in s t c'" using inv that by blast
  have saved: "if a = b then saved = USER_THREAD_STATE_RUNNING
     else saved = USER_THREAD_STATE_READY \<or>
       saved = USER_THREAD_STATE_BLOCKED \<and> cur s = Some b \<and> st s b = USER_THREAD_STATE_BLOCKED"
    if "calls s c = Some (a, b, saved)" for a b using inv that by blast
  show "saved = USER_THREAD_STATE_RUNNING" if "calls s c = Some (a, a, saved)" using saved[OF that] by simp
  show "saved = USER_THREAD_STATE_READY \<or>
      saved = USER_THREAD_STATE_BLOCKED \<and> cur s = Some b \<and> st s b = USER_THREAD_STATE_BLOCKED"
    if "calls s c = Some (a, b, saved)" "a \<noteq> b" using saved[OF that(1)] that(2) by simp
qed

lemma sched_invI:
  assumes "\<And>t. st s t = USER_THREAD_STATE_RUNNING \<Longrightarrow> cur s = Some t"
    and "\<And>t. cur s = Some t \<Longrightarrow> st s t = USER_THREAD_STATE_RUNNING \<or> st s t = USER_THREAD_STATE_BLOCKED"
    and "\<And>t c. waits_in s t c \<Longrightarrow> st s t = USER_THREAD_STATE_BLOCKED"
    and "\<And>t. st s t = USER_THREAD_STATE_BLOCKED \<Longrightarrow> \<exists>c. waits_in s t c"
    and "\<And>t c c'. waits_in s t c \<Longrightarrow> waits_in s t c' \<Longrightarrow> c = c'"
    and "\<And>c a saved. calls s c = Some (a, a, saved) \<Longrightarrow> saved = USER_THREAD_STATE_RUNNING"
    and "\<And>c a b saved. calls s c = Some (a, b, saved) \<Longrightarrow> a \<noteq> b \<Longrightarrow> saved = USER_THREAD_STATE_READY \<or>
      saved = USER_THREAD_STATE_BLOCKED \<and> cur s = Some b \<and> st s b = USER_THREAD_STATE_BLOCKED"
  shows "sched_inv s"
  unfolding sched_inv_def using assms by (intro conjI allI impI iffI) (auto split: if_splits)

text \<open>How a step on the pending calls changes who waits where.\<close>

lemma waits_in_update:
  "waits_in (s\<lparr>calls := (calls s)(c := Some (a, b, sv))\<rparr>) t d \<longleftrightarrow>
     (if d = c then t = a \<and> b \<noteq> a else waits_in s t d)"
  "waits_in (s\<lparr>calls := (calls s)(c := None)\<rparr>) t d \<longleftrightarrow> d \<noteq> c \<and> waits_in s t d"
  "waits_in (s\<lparr>st := f\<rparr>) t d \<longleftrightarrow> waits_in s t d"
  "waits_in (s\<lparr>cur := x\<rparr>) t d \<longleftrightarrow> waits_in s t d"
  by (auto simp: waits_in_def)

lemma waits_in_callI: "calls s c = Some (a, b, sv) \<Longrightarrow> a \<noteq> b \<Longrightarrow> waits_in s a c"
  by (auto simp: waits_in_def)

lemma sched_inv_running:
  assumes "sched_inv s" and "cur s = Some t" and "st s t = USER_THREAD_STATE_RUNNING"
  shows "\<not> waits_in s t c"
    and "calls s c = Some (a, b, saved) \<Longrightarrow> a \<noteq> b \<Longrightarrow> saved = USER_THREAD_STATE_READY"
    and "st s u = USER_THREAD_STATE_RUNNING \<Longrightarrow> u = t"
proof -
  note D = sched_invD[OF assms(1)]
  show "\<not> waits_in s t c" using D(3)[of t c] assms(3) by auto
  show "saved = USER_THREAD_STATE_READY" if "calls s c = Some (a, b, saved)" "a \<noteq> b"
    using D(7)[OF that] assms(2,3) by auto
  show "u = t" if "st s u = USER_THREAD_STATE_RUNNING" using D(1)[OF that] assms(2) by simp
qed

lemma sched_inv_not_waiting:
  "sched_inv s \<Longrightarrow> st s t \<noteq> USER_THREAD_STATE_BLOCKED \<Longrightarrow> \<not> waits_in s t c"
  using sched_invD(3) by blast

text \<open>
  A change of the current thread keeps the invariant when it moves threads between READY, RUNNING
  and EXITED only, and leaves at most the new current thread RUNNING.
\<close>

lemma sched_inv_switch:
  assumes inv: "sched_inv s" and run: "cur s = Some t" "st s t = USER_THREAD_STATE_RUNNING"
    and blk: "\<And>u. f u = USER_THREAD_STATE_BLOCKED \<longleftrightarrow> st s u = USER_THREAD_STATE_BLOCKED"
    and one: "\<And>u. f u = USER_THREAD_STATE_RUNNING \<longleftrightarrow> n = Some u"
  shows "sched_inv (s\<lparr>cur := n, st := f\<rparr>)"
proof (rule sched_invI)
  note D = sched_invD[OF inv] and R = sched_inv_running[OF inv run]
  let ?s = "s\<lparr>cur := n, st := f\<rparr>"
  show "cur ?s = Some u" if "st ?s u = USER_THREAD_STATE_RUNNING" for u using that one by simp
  show "st ?s u = USER_THREAD_STATE_RUNNING \<or> st ?s u = USER_THREAD_STATE_BLOCKED" if "cur ?s = Some u" for u
    using that one by simp
  show "st ?s u = USER_THREAD_STATE_BLOCKED" if "waits_in ?s u c" for u c
    using that D(3) blk by (simp add: waits_in_update)
  show "\<exists>c. waits_in ?s u c" if "st ?s u = USER_THREAD_STATE_BLOCKED" for u
    using that D(4) blk by (simp add: waits_in_update)
  show "c = c'" if "waits_in ?s u c" "waits_in ?s u c'" for u c c'
    using that D(5) by (simp add: waits_in_update)
  show "saved = USER_THREAD_STATE_RUNNING" if "calls ?s c = Some (a, a, saved)" for c a saved
    using that D(6) by simp
  show "saved = USER_THREAD_STATE_READY \<or>
      saved = USER_THREAD_STATE_BLOCKED \<and> cur ?s = Some b \<and> st ?s b = USER_THREAD_STATE_BLOCKED"
    if "calls ?s c = Some (a, b, saved)" "a \<noteq> b" for c a b saved
    using R(2)[of c a b saved] that by simp
qed

lemma sched_inv_next:
  assumes inv: "sched_inv s" and run: "cur s = Some t" "st s t = USER_THREAD_STATE_RUNNING"
    and "st s n = USER_THREAD_STATE_READY"
    and "f n = USER_THREAD_STATE_RUNNING" and "f t = USER_THREAD_STATE_READY \<or> f t = USER_THREAD_STATE_EXITED"
    and "\<And>u. u \<noteq> n \<Longrightarrow> u \<noteq> t \<Longrightarrow> f u = st s u"
  shows "sched_inv (s\<lparr>cur := Some n, st := f\<rparr>)"
proof (rule sched_inv_switch[OF inv run])
  fix u
  consider "u = n" | "u = t" "u \<noteq> n" | "u \<noteq> t" "u \<noteq> n" by blast
  then have "(f u = USER_THREAD_STATE_RUNNING \<longleftrightarrow> Some n = Some u) \<and>
    (f u = USER_THREAD_STATE_BLOCKED \<longleftrightarrow> st s u = USER_THREAD_STATE_BLOCKED)"
  proof cases
    case 3
    then show ?thesis using assms(7)[of u] sched_inv_running(3)[OF inv run, of u] by auto
  qed (use assms(4-6) run in auto)
  then show "f u = USER_THREAD_STATE_RUNNING \<longleftrightarrow> Some n = Some u"
    and "f u = USER_THREAD_STATE_BLOCKED \<longleftrightarrow> st s u = USER_THREAD_STATE_BLOCKED" by blast+
qed

text \<open>Beginning a call makes the caller wait in that channel and nowhere else.\<close>

lemma sched_inv_call:
  assumes inv: "sched_inv s" and run: "cur s = Some a" "st s a = USER_THREAD_STATE_RUNNING"
    and "b \<noteq> a" and free: "calls s c = None"
    and sb: "st s b \<noteq> USER_THREAD_STATE_EXITED" "st s b \<noteq> USER_THREAD_STATE_EMPTY"
  shows "sched_inv (s\<lparr>calls := (calls s)(c := Some (a, b, st s b)), cur := Some b,
      st := (st s)(a := USER_THREAD_STATE_BLOCKED,
                   b := if st s b = USER_THREAD_STATE_READY then USER_THREAD_STATE_RUNNING else st s b)\<rparr>)"
    (is "sched_inv ?s")
proof (rule sched_invI)
  note D = sched_invD[OF inv] and R = sched_inv_running[OF inv run]
  have b: "st s b = USER_THREAD_STATE_READY \<or> st s b = USER_THREAD_STATE_BLOCKED"
    using sb R(3)[of b] \<open>b \<noteq> a\<close> by (cases "st s b") auto
  have w: "waits_in ?s u d \<longleftrightarrow> (if d = c then u = a else waits_in s u d)" for u d
    using \<open>b \<noteq> a\<close> by (auto simp: waits_in_def)
  have nc: "\<not> waits_in s u c" for u using free by (simp add: waits_in_def)
  show "cur ?s = Some u" if "st ?s u = USER_THREAD_STATE_RUNNING" for u
    using that b R(3)[of u] by (auto split: if_splits)
  show "st ?s u = USER_THREAD_STATE_RUNNING \<or> st ?s u = USER_THREAD_STATE_BLOCKED" if "cur ?s = Some u" for u
    using that b by auto
  show "st ?s u = USER_THREAD_STATE_BLOCKED" if "waits_in ?s u d" for u d
    using that D(3)[of u d] \<open>b \<noteq> a\<close> by (auto simp: w split: if_splits)
  show "\<exists>d. waits_in ?s u d" if u: "st ?s u = USER_THREAD_STATE_BLOCKED" for u
  proof (cases "u = a")
    case False
    then have "st s u = USER_THREAD_STATE_BLOCKED" using u by (auto split: if_splits)
    then show ?thesis using D(4) nc w by metis
  qed (auto simp: w)
  show "d = d'" if "waits_in ?s u d" "waits_in ?s u d'" for u d d'
    using that D(5)[of u d d'] R(1) by (auto simp: w split: if_splits)
  show "saved = USER_THREAD_STATE_RUNNING" if "calls ?s d = Some (x, x, saved)" for d x saved
    using that D(6)[of d x saved] \<open>b \<noteq> a\<close> by (auto split: if_splits)
  show "saved = USER_THREAD_STATE_READY \<or>
      saved = USER_THREAD_STATE_BLOCKED \<and> cur ?s = Some y \<and> st ?s y = USER_THREAD_STATE_BLOCKED"
    if "calls ?s d = Some (x, y, saved)" "x \<noteq> y" for d x y saved
  proof (cases "d = c")
    case True
    then show ?thesis using that(1) b by auto
  next
    case False
    then show ?thesis using that R(2)[of d x y saved] by simp
  qed
qed

text \<open>Ending a call, by completion or failure, frees its client.\<close>

lemma sched_inv_wake:
  assumes inv: "sched_inv s" and run: "cur s = Some t" "st s t = USER_THREAD_STATE_RUNNING"
    and c: "calls s c = Some (a, t, saved)"
  shows "sched_inv (s\<lparr>calls := (calls s)(c := None),
           st := (if a = t then st s else (st s)(a := USER_THREAD_STATE_READY))\<rparr>)" (is "sched_inv ?s")
proof (rule sched_invI)
  note D = sched_invD[OF inv] and R = sched_inv_running[OF inv run]
  have w: "waits_in ?s u d \<longleftrightarrow> d \<noteq> c \<and> waits_in s u d" for u d by (auto simp: waits_in_def)
  have a: "waits_in s a c" if "a \<noteq> t" using c that by (auto simp: waits_in_def)
  show "cur ?s = Some u" if "st ?s u = USER_THREAD_STATE_RUNNING" for u
    using that D(1)[of u] by (auto split: if_splits)
  show "st ?s u = USER_THREAD_STATE_RUNNING \<or> st ?s u = USER_THREAD_STATE_BLOCKED" if "cur ?s = Some u" for u
    using that run by auto
  show "st ?s u = USER_THREAD_STATE_BLOCKED" if "waits_in ?s u d" for u d
  proof (cases "u = a \<and> a \<noteq> t")
    case True
    then show ?thesis using that w a D(5) by blast
  qed (use that D(3)[of u d] w in \<open>auto split: if_splits\<close>)
  show "\<exists>d. waits_in ?s u d" if u: "st ?s u = USER_THREAD_STATE_BLOCKED" for u
  proof -
    have "st s u = USER_THREAD_STATE_BLOCKED" "u \<noteq> a"
      using u run D(3)[of a c] c by (auto split: if_splits)
    then obtain d where "waits_in s u d" using D(4) by blast
    with c \<open>u \<noteq> a\<close> show ?thesis using w by (metis waits_in_def option.inject prod.inject)
  qed
  show "d = d'" if "waits_in ?s u d" "waits_in ?s u d'" for u d d' using that D(5) unfolding w by blast
  show "sv = USER_THREAD_STATE_RUNNING" if "calls ?s d = Some (x, x, sv)" for d x sv
    using that D(6)[of d x sv] by (auto split: if_splits)
  show "sv = USER_THREAD_STATE_READY \<or>
      sv = USER_THREAD_STATE_BLOCKED \<and> cur ?s = Some y \<and> st ?s y = USER_THREAD_STATE_BLOCKED"
    if "calls ?s d = Some (x, y, sv)" "x \<noteq> y" for d x y sv
    using that R(2)[of d x y sv] by (auto split: if_splits)
qed

lemma sched_inv_self_call:
  assumes inv: "sched_inv s" and run: "cur s = Some a" "st s a = USER_THREAD_STATE_RUNNING"
    and free: "calls s c = None"
  shows "sched_inv (s\<lparr>calls := (calls s)(c := Some (a, a, USER_THREAD_STATE_RUNNING))\<rparr>)"
    (is "sched_inv ?s")
proof (rule sched_invI)
  note D = sched_invD[OF inv]
  have w: "waits_in ?s u d \<longleftrightarrow> waits_in s u d" for u d using free by (auto simp: waits_in_def)
  show "cur ?s = Some u" if "st ?s u = USER_THREAD_STATE_RUNNING" for u using that D(1)[of u] by simp
  show "st ?s u = USER_THREAD_STATE_RUNNING \<or> st ?s u = USER_THREAD_STATE_BLOCKED" if "cur ?s = Some u" for u
    using that D(2)[of u] by simp
  show "st ?s u = USER_THREAD_STATE_BLOCKED" if "waits_in ?s u d" for u d using that D(3)[of u d] w by simp
  show "\<exists>d. waits_in ?s u d" if "st ?s u = USER_THREAD_STATE_BLOCKED" for u using that D(4)[of u] w by simp
  show "d = d'" if "waits_in ?s u d" "waits_in ?s u d'" for u d d' using that D(5) unfolding w by blast
  show "sv = USER_THREAD_STATE_RUNNING" if "calls ?s d = Some (x, x, sv)" for d x sv
    using that D(6)[of d x sv] by (auto split: if_splits)
  show "sv = USER_THREAD_STATE_READY \<or>
      sv = USER_THREAD_STATE_BLOCKED \<and> cur ?s = Some y \<and> st ?s y = USER_THREAD_STATE_BLOCKED"
    if "calls ?s d = Some (x, y, sv)" "x \<noteq> y" for d x y sv
    using that D(7)[of d x y sv] by (auto split: if_splits)
qed

lemma fail_call_inv:
  assumes "fail_call t s s'" and "sched_inv s" and "cur s = Some t" and "st s t = USER_THREAD_STATE_RUNNING"
  shows "sched_inv s' \<and> cur s' = Some t \<and> st s' t = USER_THREAD_STATE_RUNNING"
  using assms(1)
proof cases
  case (fail_client c a b)
  then show ?thesis using sched_inv_wake[OF assms(2-4) fail_client(2)] assms(3,4) by auto
next
  case (fail_self c b)
  then show ?thesis using sched_inv_wake[OF assms(2-4) fail_self(2)] assms(3,4) by auto
qed (use assms in auto)

lemma reschedule_inv:
  assumes "reschedule (s\<lparr>st := (st s)(t := USER_THREAD_STATE_EXITED)\<rparr>) s'"
    and inv: "sched_inv s" and run: "cur s = Some t" "st s t = USER_THREAD_STATE_RUNNING"
  shows "sched_inv s'"
  using assms(1)
proof cases
  case resched_none
  then have "s' = s\<lparr>cur := None, st := (st s)(t := USER_THREAD_STATE_EXITED)\<rparr>" by simp
  moreover have "sched_inv (s\<lparr>cur := None, st := (st s)(t := USER_THREAD_STATE_EXITED)\<rparr>)"
  proof (rule sched_inv_switch[OF inv run])
    show "((st s)(t := USER_THREAD_STATE_EXITED)) u = USER_THREAD_STATE_RUNNING \<longleftrightarrow> None = Some u" for u
      using sched_inv_running(3)[OF inv run, of u] by auto
  qed (use run in simp)
  ultimately show ?thesis by simp
next
  case (resched_next n)
  let ?f = "(st s)(t := USER_THREAD_STATE_EXITED, n := USER_THREAD_STATE_RUNNING)"
  have "n \<noteq> t" "st s n = USER_THREAD_STATE_READY" using resched_next(2) by (auto split: if_splits)
  then have "sched_inv (s\<lparr>cur := Some n, st := ?f\<rparr>)"
    by (intro sched_inv_next[OF inv run]) auto
  then show ?thesis using resched_next(1) by simp
qed

theorem sched_step_inv:
  assumes "sched_step s s'" and inv: "sched_inv s"
  shows "sched_inv s'"
  using assms(1)
proof cases
  case (yield t n)
  let ?f = "(st s)(t := USER_THREAD_STATE_READY, n := USER_THREAD_STATE_RUNNING)"
  have "sched_inv (s\<lparr>cur := Some n, st := ?f\<rparr>)"
    using yield(3,4) by (intro sched_inv_next[OF inv yield(2,3)]) auto
  then show ?thesis using yield(1) by simp
next
  case (call a b c)
  then show ?thesis using sched_inv_call[OF inv call(2-7)] by simp
next
  case (self_call a c)
  then show ?thesis using sched_inv_self_call[OF inv] by simp
next
  case (complete b c a saved)
  have sv: "saved = USER_THREAD_STATE_READY"
    using sched_inv_running(2)[OF inv complete(2,3) complete(4) complete(5)] .
  let ?s1 = "s\<lparr>calls := (calls s)(c := None), st := (st s)(a := USER_THREAD_STATE_READY)\<rparr>"
  let ?f = "(st s)(b := USER_THREAD_STATE_READY, a := USER_THREAD_STATE_RUNNING)"
  have i1: "sched_inv ?s1" using sched_inv_wake[OF inv complete(2,3,4)] complete(5) by simp
  have r1: "cur ?s1 = Some b" "st ?s1 b = USER_THREAD_STATE_RUNNING" using complete(2,3,5) by auto
  have "sched_inv (?s1\<lparr>cur := Some a, st := ?f\<rparr>)"
    using complete(5) sched_inv_next[OF i1 r1, of a ?f] by simp
  then show ?thesis using complete(1) sv by simp
next
  case (complete_self b c saved)
  have "saved = USER_THREAD_STATE_RUNNING" using sched_invD(6)[OF inv complete_self(4)] .
  then have "(st s)(b := saved) = st s" using complete_self(3) by auto
  then show ?thesis using sched_inv_wake[OF inv complete_self(2-4)] complete_self(1) by simp
next
  case (exit t s1)
  then show ?thesis using fail_call_inv[OF exit(3) inv exit(1,2)] reschedule_inv[OF exit(4)] by blast
qed (use inv in simp)

section \<open>Terminal threads\<close>

theorem sched_step_exited:
  assumes "sched_step s s'" and inv: "sched_inv s" and x: "st s t = USER_THREAD_STATE_EXITED"
  shows "st s' t = USER_THREAD_STATE_EXITED"
  using assms(1)
proof cases
  case (complete b c a saved)
  then show ?thesis using x sched_invD(3)[OF inv waits_in_callI[OF complete(4,5)]] by auto
next
  case (exit u s1)
  from exit(3) have "st s1 t = USER_THREAD_STATE_EXITED"
  proof cases
    case (fail_client c a b)
    then show ?thesis using x sched_invD(3)[OF inv waits_in_callI[OF fail_client(2,3)]] by auto
  qed (use x in auto)
  then show ?thesis using exit(4) by (auto elim!: rescheduleE)
qed (use x in auto)

end
