(* ===== verification/Runtime_Refinement.thy ===== *)
theory Runtime_Refinement
  imports User_Runtime Scheduling
begin

text \<open>
  The runtime implements the abstract scheduler: \<open>abs_sched\<close> reads the abstract state off the pools,
  \<open>runtime_wf\<close> says that the pointers the runtime holds are live, and every system call is a step
  of \<open>sched_step\<close> that keeps both \<open>runtime_wf\<close> and \<open>sched_inv\<close>.
\<close>

section \<open>Frames\<close>

lemma get_thread_update_thread [frame_simps]:
  "get_thread (update_thread t f rt) u = (if t = u then map_option f (get_thread rt u) else get_thread rt u)"
  by (simp add: get_thread_def update_thread_def pool_simps)

lemma get_channel_update_channel [frame_simps]:
  "get_channel (update_channel c f rt) d = (if c = d then map_option f (get_channel rt d) else get_channel rt d)"
  by (simp add: get_channel_def update_channel_def pool_simps)

text \<open>A runtime with the same object pools and endpoints, whatever the machine state is.\<close>

lemma get_frames [frame_simps]:
  "get_channel (update_thread t f rt) = get_channel rt"
  "get_process (update_thread t f rt) = get_process rt"
  "get_thread (update_channel c g rt) = get_thread rt"
  "get_process (update_channel c g rt) = get_process rt"
  "get_thread (update_endpoint e h rt) = get_thread rt"
  "get_channel (update_endpoint e h rt) = get_channel rt"
  "get_process (update_endpoint e h rt) = get_process rt"
  "m_current_thread (update_thread t f rt) = m_current_thread rt"
  "m_current_thread (update_channel c g rt) = m_current_thread rt"
  "m_current_thread (update_endpoint e h rt) = m_current_thread rt"
  "m_endpoints (update_thread t f rt) = m_endpoints rt"
  "m_endpoints (update_channel c g rt) = m_endpoints rt"
  "m_endpoints (update_endpoint e h rt) = (m_endpoints rt)[e := h (m_endpoints rt ! e)]"
  "host_memory (update_thread t f rt) = host_memory rt"
  "host_memory (update_channel c g rt) = host_memory rt"
  "host_memory (update_endpoint e h rt) = host_memory rt"
  by (auto simp: get_channel_def get_process_def get_thread_def update_thread_def update_channel_def
      update_endpoint_def)

lemma pool_length_frames [frame_simps]:
  "length (m_items (m_threads (update_thread t f rt))) = length (m_items (m_threads rt))"
  "m_channels (update_thread t f rt) = m_channels rt"
  "m_threads (update_channel c g rt) = m_threads rt"
  "m_threads (update_endpoint e h rt) = m_threads rt"
  "m_channels (update_endpoint e h rt) = m_channels rt"
  by (auto simp: update_thread_def update_channel_def update_endpoint_def)

lemma record_get_frames [frame_simps]:
  "get_thread (rt\<lparr>m_current_thread := x\<rparr>) = get_thread rt"
  "get_thread (rt\<lparr>host_memory := m\<rparr>) = get_thread rt"
  "get_thread (rt\<lparr>m_channels := p\<rparr>) = get_thread rt"
  "get_thread (rt\<lparr>m_endpoints := eps\<rparr>) = get_thread rt"
  "get_thread (rt\<lparr>m_next_handle_value := nh\<rparr>) = get_thread rt"
  "get_thread (rt\<lparr>debug_messages := d\<rparr>) = get_thread rt"
  "get_channel (rt\<lparr>m_current_thread := x\<rparr>) = get_channel rt"
  "get_channel (rt\<lparr>host_memory := m\<rparr>) = get_channel rt"
  "get_channel (rt\<lparr>m_endpoints := eps\<rparr>) = get_channel rt"
  "get_channel (rt\<lparr>m_next_handle_value := nh\<rparr>) = get_channel rt"
  "get_channel (rt\<lparr>debug_messages := d\<rparr>) = get_channel rt"
  "get_channel (rt\<lparr>m_channels := p\<rparr>) = get_by_index p"
  "get_process (rt\<lparr>m_current_thread := x\<rparr>) = get_process rt"
  "get_process (rt\<lparr>host_memory := m\<rparr>) = get_process rt"
  "get_process (rt\<lparr>m_channels := p\<rparr>) = get_process rt"
  "get_process (rt\<lparr>m_endpoints := eps\<rparr>) = get_process rt"
  "get_process (rt\<lparr>m_next_handle_value := nh\<rparr>) = get_process rt"
  "get_process (rt\<lparr>debug_messages := d\<rparr>) = get_process rt"
  by (auto simp: get_thread_def get_channel_def get_process_def)

lemma thread_state_update_thread [frame_simps]:
  "thread_state (update_thread t f rt) u =
     (if t = u then case get_thread rt u of None \<Rightarrow> USER_THREAD_STATE_EMPTY | Some th \<Rightarrow> m_state (f th)
      else thread_state rt u)"
  by (auto simp: thread_state_def frame_simps split: option.split)

lemma thread_state_cong: "get_thread rt = get_thread rt' \<Longrightarrow> thread_state rt = thread_state rt'"
  by (rule ext) (simp add: thread_state_def)

lemma arch_frames [frame_simps]:
  "get_thread (arch_activate_process_address_space arch p rt) = get_thread rt"
  "get_channel (arch_activate_process_address_space arch p rt) = get_channel rt"
  "get_process (arch_activate_process_address_space arch p rt) = get_process rt"
  "m_endpoints (arch_activate_process_address_space arch p rt) = m_endpoints rt"
  "m_current_thread (arch_activate_process_address_space arch p rt) = m_current_thread rt"
  "host_memory (arch_activate_process_address_space arch p rt) = host_memory rt"
  "m_threads (arch_activate_process_address_space arch p rt) = m_threads rt"
  "m_channels (arch_activate_process_address_space arch p rt) = m_channels rt"
  "get_thread (arch_prepare_user_thread arch t rt) = get_thread rt"
  "get_channel (arch_prepare_user_thread arch t rt) = get_channel rt"
  "get_process (arch_prepare_user_thread arch t rt) = get_process rt"
  "m_endpoints (arch_prepare_user_thread arch t rt) = m_endpoints rt"
  "m_current_thread (arch_prepare_user_thread arch t rt) = m_current_thread rt"
  "host_memory (arch_prepare_user_thread arch t rt) = host_memory rt"
  "m_threads (arch_prepare_user_thread arch t rt) = m_threads rt"
  "m_channels (arch_prepare_user_thread arch t rt) = m_channels rt"
  by (auto simp: arch_activate_process_address_space_def arch_prepare_user_thread_def get_thread_def
      get_channel_def get_process_def Let_def split: option.split target_arch.split)

section \<open>Switching threads\<close>

text \<open>The state of thread \<open>u\<close> after \<open>set_current_thread\<close>.\<close>

definition switched_state :: "thread_ref option \<Rightarrow> user_runtime \<Rightarrow> thread_ref \<Rightarrow> user_thread_state" where
  "switched_state t rt u =
     (if t = Some u then (if thread_state rt u = USER_THREAD_STATE_READY then USER_THREAD_STATE_RUNNING
                          else thread_state rt u)
      else if m_current_thread rt = Some u \<and> thread_state rt u = USER_THREAD_STATE_RUNNING
           then USER_THREAD_STATE_READY else thread_state rt u)"

lemma set_state_same [simp]: "set_state (m_state th) th = th"
  by (simp add: set_state_def)

lemma set_state_set_state [simp]: "set_state a (set_state b th) = set_state a th"
  by (simp add: set_state_def)

lemma get_thread_set_current [frame_simps]:
  "get_thread (set_current_thread arch t rt) u = map_option (set_state (switched_state t rt u)) (get_thread rt u)"
  by (cases t; cases "m_current_thread rt"; cases "get_thread rt u")
    (auto simp: set_current_thread_def Let_def frame_simps switched_state_def thread_state_def)

lemma set_current_frames [frame_simps]:
  "get_channel (set_current_thread arch t rt) = get_channel rt"
  "get_process (set_current_thread arch t rt) = get_process rt"
  "m_endpoints (set_current_thread arch t rt) = m_endpoints rt"
  "m_channels (set_current_thread arch t rt) = m_channels rt"
  "host_memory (set_current_thread arch t rt) = host_memory rt"
  "m_current_thread (set_current_thread arch t rt) = t"
  "length (m_items (m_threads (set_current_thread arch t rt))) = length (m_items (m_threads rt))"
  by (cases t; cases "m_current_thread rt"; auto simp: set_current_thread_def Let_def frame_simps)+

lemma thread_state_set_current [frame_simps]:
  "thread_state (set_current_thread arch t rt) u = switched_state t rt u"
  by (cases "get_thread rt u") (auto simp: thread_state_def frame_simps switched_state_def)

section \<open>Well-formedness\<close>

definition wf_thread :: "user_runtime \<Rightarrow> thread \<Rightarrow> bool" where
  "wf_thread rt th \<longleftrightarrow> m_state th \<noteq> USER_THREAD_STATE_EMPTY \<and>
     (\<exists>p. m_process th = Some p \<and> get_process rt p \<noteq> None)"

definition wf_endpoint :: "user_runtime \<Rightarrow> rpc_endpoint \<Rightarrow> bool" where
  "wf_endpoint rt ep \<longleftrightarrow> length (m_name ep) = RPC_ENDPOINT_NAME_BUFFER_SIZE \<and>
     (if m_is_in_use ep
      then \<exists>t p. m_owner_thread ep = Some t \<and> m_owner_process ep = Some p \<and> get_process_context rt t = Some p
      else m_owner_thread ep = None \<and> m_owner_process ep = None)"

definition wf_channel :: "user_runtime \<Rightarrow> rpc_channel \<Rightarrow> bool" where
  "wf_channel rt ch \<longleftrightarrow>
     (\<exists>e. m_endpoint ch = Some e \<and> e < length (m_endpoints rt)) \<and>
     get_process rt (m_client_process ch) \<noteq> None \<and>
     (m_pending_client_thread ch = None \<longleftrightarrow> m_pending_server_thread ch = None) \<and>
     (\<forall>t. m_pending_client_thread ch = Some t \<or> m_pending_server_thread ch = Some t \<longrightarrow> get_thread rt t \<noteq> None) \<and>
     (m_pending_server_thread ch \<noteq> None \<longrightarrow> m_saved_server_state ch \<noteq> USER_THREAD_STATE_EMPTY)"

definition runtime_wf :: "user_runtime \<Rightarrow> bool" where
  "runtime_wf rt \<longleftrightarrow>
     length (m_items (m_threads rt)) = USER_RUNTIME_MAX_THREADS \<and>
     length (m_endpoints rt) = USER_RUNTIME_MAX_RPC_ENDPOINTS \<and>
     (\<forall>t th. get_thread rt t = Some th \<longrightarrow> wf_thread rt th) \<and>
     (\<forall>c ch. get_channel rt c = Some ch \<longrightarrow> wf_channel rt ch) \<and>
     (\<forall>ep \<in> set (m_endpoints rt). wf_endpoint rt ep) \<and>
     (\<forall>t. m_current_thread rt = Some t \<longrightarrow> get_thread rt t \<noteq> None) \<and>
     (\<forall>p pr. get_process rt p = Some pr \<longrightarrow> wf_address_space (m_address_space pr))"

lemma runtime_wfD:
  assumes "runtime_wf rt"
  shows "length (m_items (m_threads rt)) = USER_RUNTIME_MAX_THREADS"
    and "length (m_endpoints rt) = USER_RUNTIME_MAX_RPC_ENDPOINTS"
    and "get_thread rt t = Some th \<Longrightarrow> wf_thread rt th"
    and "get_channel rt c = Some ch \<Longrightarrow> wf_channel rt ch"
    and "e < length (m_endpoints rt) \<Longrightarrow> wf_endpoint rt (m_endpoints rt ! e)"
    and "m_current_thread rt = Some t \<Longrightarrow> get_thread rt t \<noteq> None"
    and "get_process rt p = Some pr \<Longrightarrow> wf_address_space (m_address_space pr)"
  using assms by (simp_all add: runtime_wf_def)

text \<open>
  Well-formedness only depends on the pools, the endpoints and the current thread, and is kept by
  every change of them that keeps the live slots and the owners of threads.
\<close>

lemma runtime_wf_update:
  assumes wf: "runtime_wf rt"
    and "length (m_items (m_threads rt')) = length (m_items (m_threads rt))"
    and "get_process rt' = get_process rt"
    and owner: "\<And>t. get_process_context rt' t = get_process_context rt t"
    and "length (m_endpoints rt') = length (m_endpoints rt)"
    and "\<And>t th. get_thread rt' t = Some th \<Longrightarrow> wf_thread rt th"
    and "\<And>c ch. get_channel rt' c = Some ch \<Longrightarrow> wf_channel rt ch"
    and "\<And>ep. ep \<in> set (m_endpoints rt') \<Longrightarrow> wf_endpoint rt ep"
    and "\<And>t. m_current_thread rt' = Some t \<Longrightarrow> get_thread rt t \<noteq> None"
  shows "runtime_wf rt'"
proof -
  have live: "get_thread rt t \<noteq> None \<Longrightarrow> get_thread rt' t \<noteq> None" for t
    using owner[of t] runtime_wfD(3)[OF wf, of t]
    by (auto simp: get_process_context_def wf_thread_def split: option.splits)
  have th: "wf_thread rt' th \<longleftrightarrow> wf_thread rt th" for th by (simp add: wf_thread_def assms(3))
  have ep: "wf_endpoint rt' ep \<longleftrightarrow> wf_endpoint rt ep" for ep by (simp add: wf_endpoint_def owner)
  have ch: "wf_channel rt ch \<Longrightarrow> wf_channel rt' ch" for ch
    using live by (simp add: wf_channel_def assms(3,5))
  show ?thesis
    unfolding runtime_wf_def
    using assms(6-9) ch live runtime_wfD[OF wf] by (auto simp: assms(2,3,5) th ep)
qed

lemma get_process_context_update_thread [frame_simps]:
  "(\<And>th. m_process (f th) = m_process th) \<Longrightarrow>
    get_process_context (update_thread t f rt) u = get_process_context rt u"
  by (auto simp: get_process_context_def frame_simps split: option.split)

lemma get_process_context_cong:
  "get_thread rt = get_thread rt' \<Longrightarrow> get_process_context rt = get_process_context rt'"
  by (rule ext) (simp add: get_process_context_def)

lemma wf_update_thread:
  assumes "runtime_wf rt" and "\<And>th. m_process (f th) = m_process th"
    and "\<And>th. get_thread rt t = Some th \<Longrightarrow> m_state (f th) \<noteq> USER_THREAD_STATE_EMPTY"
  shows "runtime_wf (update_thread t f rt)"
proof (rule runtime_wf_update[OF assms(1)])
  show "wf_thread rt th" if "get_thread (update_thread t f rt) u = Some th" for u th
    using that assms(2,3) runtime_wfD(3)[OF assms(1)]
    by (auto simp: frame_simps wf_thread_def split: if_splits)
qed (use runtime_wfD[OF assms(1)] assms(2) in \<open>auto simp: frame_simps in_set_conv_nth\<close>)

lemma wf_update_channel:
  assumes "runtime_wf rt" and "\<And>ch. get_channel rt c = Some ch \<Longrightarrow> wf_channel rt (f ch)"
  shows "runtime_wf (update_channel c f rt)"
proof (rule runtime_wf_update[OF assms(1)])
  show "wf_channel rt ch" if "get_channel (update_channel c f rt) d = Some ch" for d ch
    using that assms(2) runtime_wfD(4)[OF assms(1)] by (auto simp: frame_simps split: if_splits)
qed (use runtime_wfD[OF assms(1)] in \<open>auto simp: frame_simps get_process_context_def in_set_conv_nth\<close>)

lemma wf_update_endpoint:
  assumes "runtime_wf rt" and "e < length (m_endpoints rt) \<Longrightarrow> wf_endpoint rt (f (m_endpoints rt ! e))"
  shows "runtime_wf (update_endpoint e f rt)"
proof (rule runtime_wf_update[OF assms(1)])
  show "wf_endpoint rt ep" if ep: "ep \<in> set (m_endpoints (update_endpoint e f rt))" for ep
  proof -
    obtain i where i: "i < length (m_endpoints rt)" "ep = (m_endpoints rt)[e := f (m_endpoints rt ! e)] ! i"
      using ep by (auto simp: frame_simps in_set_conv_nth)
    then show ?thesis using assms(2) runtime_wfD(5)[OF assms(1)] by (cases "i = e") auto
  qed
qed (use runtime_wfD[OF assms(1)] in \<open>auto simp: frame_simps get_process_context_def\<close>)

lemma get_process_context_set_current [frame_simps]:
  "get_process_context (set_current_thread arch t rt) u = get_process_context rt u"
  by (auto simp: get_process_context_def frame_simps split: option.split)

lemma wf_set_current:
  assumes "runtime_wf rt" and "\<And>u. t = Some u \<Longrightarrow> get_thread rt u \<noteq> None"
  shows "runtime_wf (set_current_thread arch t rt)"
proof (rule runtime_wf_update[OF assms(1)])
  show "wf_thread rt th" if "get_thread (set_current_thread arch t rt) u = Some th" for u th
    using that runtime_wfD(3)[OF assms(1)]
    by (auto simp: frame_simps wf_thread_def switched_state_def thread_state_def split: if_splits)
qed (use runtime_wfD[OF assms(1)] assms(2) in \<open>auto simp: frame_simps in_set_conv_nth\<close>)

lemma wf_host_memory: "runtime_wf rt \<Longrightarrow> runtime_wf (rt\<lparr>host_memory := m\<rparr>)"
  by (auto simp: runtime_wf_def frame_simps wf_thread_def wf_channel_def wf_endpoint_def
      get_process_context_def)

section \<open>The abstraction\<close>

definition pending_of :: "rpc_channel \<Rightarrow> pending_call option" where
  "pending_of ch =
     (case (m_pending_client_thread ch, m_pending_server_thread ch) of
        (Some a, Some b) \<Rightarrow> Some (a, b, m_saved_server_state ch) | _ \<Rightarrow> None)"

definition abs_sched :: "user_runtime \<Rightarrow> sched" where
  "abs_sched rt = \<lparr>st = thread_state rt, cur = m_current_thread rt,
     calls = (\<lambda>c. Option.bind (get_channel rt c) pending_of)\<rparr>"

lemma abs_sched_sel [simp]:
  "st (abs_sched rt) = thread_state rt"
  "cur (abs_sched rt) = m_current_thread rt"
  "calls (abs_sched rt) c = Option.bind (get_channel rt c) pending_of"
  by (simp_all add: abs_sched_def)

lemma abs_sched_eqI:
  assumes "\<And>t. thread_state rt t = st s t" and "m_current_thread rt = cur s"
    and "\<And>c. Option.bind (get_channel rt c) pending_of = calls s c"
  shows "abs_sched rt = s"
  using assms by (intro sched.equality) (auto intro: ext)

section \<open>Calls\<close>

lemma set_endpoint_busy_frames [frame_simps]:
  "get_thread (set_endpoint_busy e b rt) = get_thread rt"
  "get_channel (set_endpoint_busy e b rt) = get_channel rt"
  "get_process (set_endpoint_busy e b rt) = get_process rt"
  "m_current_thread (set_endpoint_busy e b rt) = m_current_thread rt"
  "host_memory (set_endpoint_busy e b rt) = host_memory rt"
  "m_channels (set_endpoint_busy e b rt) = m_channels rt"
  by (auto simp: set_endpoint_busy_def frame_simps split: option.split)

lemma wf_endpoint_set_busy [simp]: "wf_endpoint rt (set_busy b ep) = wf_endpoint rt ep"
  by (simp add: wf_endpoint_def set_busy_def)

lemma wf_set_endpoint_busy: "runtime_wf rt \<Longrightarrow> runtime_wf (set_endpoint_busy e b rt)"
  by (auto simp: set_endpoint_busy_def runtime_wfD(5) split: option.split intro!: wf_update_endpoint)

lemma thread_state_frames [frame_simps]:
  "thread_state (set_endpoint_busy e b rt) = thread_state rt"
  "thread_state (update_channel c g rt) = thread_state rt"
  "thread_state (update_endpoint d h rt) = thread_state rt"
  "thread_state (rt\<lparr>host_memory := m\<rparr>) = thread_state rt"
  "thread_state (rt\<lparr>m_current_thread := x\<rparr>) = thread_state rt"
  "thread_state (rt\<lparr>m_channels := p\<rparr>) = thread_state rt"
  "thread_state (rt\<lparr>m_endpoints := eps\<rparr>) = thread_state rt"
  "thread_state (rt\<lparr>m_next_handle_value := nh\<rparr>) = thread_state rt"
  "thread_state (rt\<lparr>debug_messages := d'\<rparr>) = thread_state rt"
  by (auto intro!: thread_state_cong simp: frame_simps)

lemma get_process_context_frames [frame_simps]:
  "get_process_context (set_endpoint_busy e b rt) = get_process_context rt"
  "get_process_context (update_channel c g rt) = get_process_context rt"
  "get_process_context (update_endpoint d h rt) = get_process_context rt"
  "get_process_context (rt\<lparr>host_memory := m\<rparr>) = get_process_context rt"
  by (auto intro!: get_process_context_cong simp: frame_simps)

text \<open>What a channel records when a call begins.\<close>

definition open_call :: "thread_ref \<Rightarrow> thread_ref \<Rightarrow> thread \<Rightarrow> rpc_channel \<Rightarrow> rpc_channel" where
  "open_call client server th ch = ch\<lparr>m_pending_client_thread := Some client,
     m_pending_server_thread := Some server, m_saved_server_state := m_state th,
     m_saved_server_context := m_user_context th,
     m_saved_server_registers := m_arch_preserved_registers th,
     m_saved_server_simd_qwords := m_arch_preserved_simd_qwords th\<rparr>"

lemma begin_call_eq:
  assumes "get_channel rt c = Some ch" and "get_thread rt b = Some th"
  shows "begin_call c a b rt =
     set_endpoint_busy (m_endpoint ch) True (update_channel c (open_call a b th) rt)"
  using assms by (simp add: begin_call_def open_call_def[abs_def])

lemma pending_of_simps [simp]:
  "pending_of (open_call a b th ch) = Some (a, b, m_state th)"
  "pending_of (clear_call ch) = None"
  "m_pending_server_thread ch = None \<Longrightarrow> pending_of ch = None"
  "m_pending_client_thread ch = None \<Longrightarrow> pending_of ch = None"
  by (auto simp: pending_of_def open_call_def clear_call_def split: option.split)

lemma pending_of_Some_iff:
  "pending_of ch = Some (a, b, sv) \<longleftrightarrow> m_pending_client_thread ch = Some a \<and>
     m_pending_server_thread ch = Some b \<and> sv = m_saved_server_state ch"
  by (auto simp: pending_of_def split: option.splits)

lemma wf_open_call:
  assumes "wf_channel rt ch" and "get_thread rt a \<noteq> None" and "get_thread rt b = Some th" and "wf_thread rt th"
  shows "wf_channel rt (open_call a b th ch)"
  using assms by (auto simp: wf_channel_def open_call_def wf_thread_def)

lemma wf_clear_call: "wf_channel rt ch \<Longrightarrow> wf_channel rt (clear_call ch)"
  by (simp add: wf_channel_def clear_call_def)

lemma wf_begin_call:
  assumes "runtime_wf rt" and "get_channel rt c = Some ch" and "get_thread rt b = Some th"
    and "get_thread rt a \<noteq> None"
  shows "runtime_wf (begin_call c a b rt)"
  using runtime_wfD(3,4)[OF assms(1)] assms
  by (auto simp: begin_call_eq[OF assms(2,3)] intro!: wf_set_endpoint_busy wf_update_channel wf_open_call)

lemma cancel_call_eq:
  "get_channel rt c = Some ch \<Longrightarrow>
    cancel_call c rt = update_channel c clear_call (set_endpoint_busy (m_endpoint ch) False rt)"
  by (simp add: cancel_call_def)

lemma wf_cancel_call: "runtime_wf rt \<Longrightarrow> runtime_wf (cancel_call c rt)"
  by (auto simp: cancel_call_def split: option.split intro!: wf_update_channel wf_set_endpoint_busy
      wf_clear_call dest: runtime_wfD(4)[OF wf_set_endpoint_busy])

lemma cancel_call_frames [frame_simps]:
  "get_thread (cancel_call c rt) = get_thread rt"
  "thread_state (cancel_call c rt) = thread_state rt"
  "get_process (cancel_call c rt) = get_process rt"
  "get_process_context (cancel_call c rt) = get_process_context rt"
  "m_current_thread (cancel_call c rt) = m_current_thread rt"
  "host_memory (cancel_call c rt) = host_memory rt"
  "get_channel (cancel_call c rt) d =
     (if d = c then map_option clear_call (get_channel rt d) else get_channel rt d)"
  by (auto simp: cancel_call_def frame_simps split: option.split)

lemma restore_server_frames [frame_simps]:
  "m_state (restore_server ch th) = m_saved_server_state ch"
  "m_process (restore_server ch th) = m_process th"
  "m_handle_value (restore_server ch th) = m_handle_value th"
  "m_user_context (restore_server ch th) = m_saved_server_context ch"
  "m_arch_preserved_registers (restore_server ch th) = m_saved_server_registers ch"
  "m_arch_preserved_simd_qwords (restore_server ch th) = m_saved_server_simd_qwords ch"
  by (simp_all add: restore_server_def frame_simps)

lemma find_pending_SomeD:
  assumes "find_pending_channel_by_server_thread rt b = Some c"
  shows "\<exists>ch. get_channel rt c = Some ch \<and> m_pending_server_thread ch = Some b"
  using find_index_SomeD[OF assms[unfolded find_pending_channel_by_server_thread_def]]
  by (auto simp: has_pending_server_def get_channel_def get_by_index_def split: option.splits)

lemma find_pending_None_iff:
  "find_pending_channel_by_server_thread rt b = None \<longleftrightarrow>
     (\<forall>c ch. get_channel rt c = Some ch \<longrightarrow> m_pending_server_thread ch \<noteq> Some b)"
proof
  assume none: "find_pending_channel_by_server_thread rt b = None"
  show "\<forall>c ch. get_channel rt c = Some ch \<longrightarrow> m_pending_server_thread ch \<noteq> Some b"
  proof (intro allI impI notI)
    fix c ch assume ch: "get_channel rt c = Some ch" "m_pending_server_thread ch = Some b"
    then have "Some ch \<in> set (m_items (m_channels rt))"
      by (metis get_by_index_Some_length get_by_index_def get_channel_def not_le nth_mem)
    then show False
      using none ch(2)
      by (auto simp: find_pending_channel_by_server_thread_def find_index_None_iff has_pending_server_def)
  qed
next
  assume "\<forall>c ch. get_channel rt c = Some ch \<longrightarrow> m_pending_server_thread ch \<noteq> Some b"
  then show "find_pending_channel_by_server_thread rt b = None"
    using find_pending_SomeD by (metis not_None_eq)
qed

text \<open>The pending channel of a server thread, with everything the invariants say about it.\<close>

lemma pending_channelE:
  assumes "runtime_wf rt" and "find_pending_channel_by_server_thread rt b = Some c"
  obtains ch a where "get_channel rt c = Some ch" and "m_pending_server_thread ch = Some b"
    and "m_pending_client_thread ch = Some a" and "get_thread rt a \<noteq> None" and "get_thread rt b \<noteq> None"
    and "m_saved_server_state ch \<noteq> USER_THREAD_STATE_EMPTY"
    and "pending_of ch = Some (a, b, m_saved_server_state ch)"
proof -
  obtain ch where ch: "get_channel rt c = Some ch" "m_pending_server_thread ch = Some b"
    using find_pending_SomeD[OF assms(2)] by blast
  have w: "wf_channel rt ch" using runtime_wfD(4)[OF assms(1) ch(1)] .
  then obtain a where a: "m_pending_client_thread ch = Some a" using ch(2) by (auto simp: wf_channel_def)
  show ?thesis
    using that[OF ch a] w ch(2) a by (simp add: wf_channel_def pending_of_Some_iff)
qed

lemma finish_call_eq:
  assumes "get_channel rt c = Some ch" and "m_pending_server_thread ch = Some b"
  shows "finish_call c rt = cancel_call c (update_thread b (restore_server ch) rt)"
  using assms by (simp add: finish_call_def)

lemma thread_state_live: "get_thread rt t = Some th \<Longrightarrow> thread_state rt t = m_state th"
  by (simp add: thread_state_def)

lemma bind_map_option: "Option.bind (map_option f x) g = Option.bind x (g \<circ> f)"
  by (cases x) auto

lemma complete_call_step:
  assumes wf: "runtime_wf rt" and cur: "m_current_thread rt = Some b"
    and run: "thread_state rt b = USER_THREAD_STATE_RUNNING"
    and "complete_call arch b status rt = (r, rt')"
  shows "sched_step (abs_sched rt) (abs_sched rt') \<and> runtime_wf rt'"
proof (cases "find_pending_channel_by_server_thread rt b")
  case None
  then have "rt' = rt" using assms(4) by (simp add: complete_call_def)
  then show ?thesis using wf sched_step.stay by simp
next
  case (Some c)
  obtain ch a where ch: "get_channel rt c = Some ch" and b: "m_pending_server_thread ch = Some b"
    and a: "m_pending_client_thread ch = Some a" and live: "get_thread rt a \<noteq> None" "get_thread rt b \<noteq> None"
    and sv: "m_saved_server_state ch \<noteq> USER_THREAD_STATE_EMPTY"
    and p: "pending_of ch = Some (a, b, m_saved_server_state ch)"
    using pending_channelE[OF wf Some] by blast
  let ?rt1 = "cancel_call c (update_thread b (restore_server ch) rt)"
  have wf1: "runtime_wf ?rt1"
    using wf sv by (auto simp: frame_simps intro!: wf_cancel_call wf_update_thread)
  have calls: "calls (abs_sched rt) c = Some (a, b, m_saved_server_state ch)" by (simp add: ch p)
  show ?thesis
  proof (cases "a = b")
    case True
    then have rt': "rt' = ?rt1"
      using assms(4) Some ch a by (simp add: complete_call_def finish_call_eq[OF ch b])
    have "abs_sched rt' = (abs_sched rt)\<lparr>calls := (calls (abs_sched rt))(c := None),
        st := (st (abs_sched rt))(b := m_saved_server_state ch)\<rparr>"
      unfolding rt' using live
      by (intro abs_sched_eqI) (auto simp: frame_simps ch bind_map_option split: option.split)
    then show ?thesis
      using sched_step.complete_self[of "abs_sched rt" b c "m_saved_server_state ch"] cur run calls True wf1 rt'
      by simp
  next
    case False
    let ?rt2 = "update_thread a (prepare_syscall_resume arch status \<circ> set_state USER_THREAD_STATE_READY) ?rt1"
    have rt': "rt' = set_current_thread arch (Some a) ?rt2"
      using assms(4) Some ch a False by (simp add: complete_call_def finish_call_eq[OF ch b])
    have wf2: "runtime_wf ?rt2" using wf1 by (auto simp: frame_simps intro!: wf_update_thread)
    have "abs_sched rt' = (abs_sched rt)\<lparr>calls := (calls (abs_sched rt))(c := None), cur := Some a,
        st := (st (abs_sched rt))
          (b := if m_saved_server_state ch = USER_THREAD_STATE_RUNNING then USER_THREAD_STATE_READY
                else m_saved_server_state ch,
           a := USER_THREAD_STATE_RUNNING)\<rparr>"
      unfolding rt' using live False cur
      by (intro abs_sched_eqI)
        (auto simp: frame_simps ch bind_map_option switched_state_def split: option.split)
    moreover have "runtime_wf rt'"
      unfolding rt' using wf2 live False by (auto simp: frame_simps intro!: wf_set_current)
    ultimately show ?thesis
      using sched_step.complete[of "abs_sched rt" b c a "m_saved_server_state ch"] cur run calls False by simp
  qed
qed

text \<open>Preparing the server changes user memory and, when it succeeds, the server's resume state.\<close>

lemma host_memory_self: "\<exists>m. rt = rt\<lparr>host_memory := m\<rparr>"
  by (rule exI[of _ "host_memory rt"]) simp

definition request_address :: "user_runtime \<Rightarrow> thread_ref \<Rightarrow> u64 \<Rightarrow> u64" where
  "request_address rt b n = align_down (user_stack_pointer rt b - n) 16"

definition callback_stack_pointer :: "target_arch \<Rightarrow> u64 \<Rightarrow> u64" where
  "callback_stack_pointer arch x = (case arch of X86_64 \<Rightarrow> x - 8 | AARCH64 \<Rightarrow> x)"

definition redirect :: "target_arch \<Rightarrow> rpc_endpoint \<Rightarrow> u64 \<Rightarrow> u64 \<Rightarrow> thread \<Rightarrow> thread" where
  "redirect arch ep x n =
     prepare_rpc_resume (m_callback_address ep) (m_completion_address ep) x n (callback_stack_pointer arch x)"

lemma prepare_server_thread_cases:
  assumes "prepare_server_thread arch ep b cp ca n rt = (status, rt1)"
  obtains (Fail) m where "status \<noteq> STATUS_OK" and "rt1 = rt\<lparr>host_memory := m\<rparr>"
  | (Ok) m where "status = STATUS_OK"
      and "rt1 = update_thread b (redirect arch ep (request_address rt b n) n) (rt\<lparr>host_memory := m\<rparr>)"
proof -
  from assms have "(\<exists>m. status \<noteq> STATUS_OK \<and> rt1 = rt\<lparr>host_memory := m\<rparr>) \<or>
      (\<exists>m. status = STATUS_OK \<and>
        rt1 = update_thread b (redirect arch ep (request_address rt b n) n) (rt\<lparr>host_memory := m\<rparr>))"
    by (auto simp: prepare_server_thread_def prepare_server_thread_x64_def prepare_server_thread_arm64_def
        copy_request_def push_return_address_def Let_def redirect_def request_address_def
        callback_stack_pointer_def
        split: option.splits if_splits target_arch.splits prod.splits intro: host_memory_self)
  then show thesis using Fail Ok by blast
qed

lemma redirect_frames [frame_simps]:
  "m_state (redirect arch ep x n th) = m_state th"
  "m_process (redirect arch ep x n th) = m_process th"
  "m_handle_value (redirect arch ep x n th) = m_handle_value th"
  "m_user_context (redirect arch ep x n th) = m_user_context th"
  "m_arch_preserved_registers (redirect arch ep x n th) = m_arch_preserved_registers th"
  "m_arch_preserved_simd_qwords (redirect arch ep x n th) = m_arch_preserved_simd_qwords th"
  by (simp_all add: redirect_def frame_simps)

text \<open>A call either fails and changes at most user memory, or begins on a free channel and endpoint.\<close>

lemma rpc_call_cases:
  assumes "rpc_call arch a p sc rt = (r, rt')"
  obtains (Fail) m where "r \<noteq> STATUS_OK" and "rt' = rt\<lparr>host_memory := m\<rparr>"
  | (Ok) c ch e b rt1 where "r = STATUS_OK" and "find_channel_by_handle rt (sc_argument0 sc) = Some c"
      and "get_channel rt c = Some ch" and "is_owned_by p ch" and "m_endpoint ch = Some e"
      and "\<not> channel_is_busy ch" and "m_is_in_use (m_endpoints rt ! e)" and "\<not> m_is_busy (m_endpoints rt ! e)"
      and "m_owner_thread (m_endpoints rt ! e) = Some b" and "thread_state rt b \<noteq> USER_THREAD_STATE_EXITED"
      and "prepare_server_thread arch (m_endpoints rt ! e) b p (sc_argument1 sc) (sc_argument2 sc) rt = (STATUS_OK, rt1)"
      and "rt' = (if b \<noteq> a then set_current_thread arch (Some b)
                (update_thread a (set_state USER_THREAD_STATE_BLOCKED) (begin_call c a b rt1))
              else begin_call c a b rt1)"
proof -
  have "(\<exists>m. r \<noteq> STATUS_OK \<and> rt' = rt\<lparr>host_memory := m\<rparr>) \<or>
    (\<exists>c ch e b rt1. r = STATUS_OK \<and> find_channel_by_handle rt (sc_argument0 sc) = Some c \<and>
      get_channel rt c = Some ch \<and> is_owned_by p ch \<and> m_endpoint ch = Some e \<and> \<not> channel_is_busy ch \<and>
      m_is_in_use (m_endpoints rt ! e) \<and> \<not> m_is_busy (m_endpoints rt ! e) \<and>
      m_owner_thread (m_endpoints rt ! e) = Some b \<and> thread_state rt b \<noteq> USER_THREAD_STATE_EXITED \<and>
      prepare_server_thread arch (m_endpoints rt ! e) b p (sc_argument1 sc) (sc_argument2 sc) rt = (STATUS_OK, rt1) \<and>
      rt' = (if b \<noteq> a then set_current_thread arch (Some b)
              (update_thread a (set_state USER_THREAD_STATE_BLOCKED) (begin_call c a b rt1))
            else begin_call c a b rt1))"
    using assms host_memory_self
    by (auto simp: rpc_call_def Let_def split: if_splits option.splits prod.splits
        elim!: prepare_server_thread_cases)
  then show thesis using that by blast
qed

lemma abs_host_memory: "abs_sched (rt\<lparr>host_memory := m\<rparr>) = abs_sched rt"
  by (intro abs_sched_eqI) (simp_all add: frame_simps)

lemma rpc_call_step:
  assumes wf: "runtime_wf rt" and cur: "m_current_thread rt = Some a"
    and run: "thread_state rt a = USER_THREAD_STATE_RUNNING"
    and "rpc_call arch a p sc rt = (r, rt')"
  shows "sched_step (abs_sched rt) (abs_sched rt') \<and> runtime_wf rt'"
  using assms(4)
proof (cases rule: rpc_call_cases)
  case (Fail m)
  then show ?thesis using sched_step.stay wf_host_memory[OF wf] by (simp add: abs_host_memory)
next
  case (Ok c ch e b rt1)
  have ep: "wf_endpoint rt (m_endpoints rt ! e)"
    using runtime_wfD(4)[OF wf Ok(3)] runtime_wfD(5)[OF wf] Ok(5) by (auto simp: wf_channel_def)
  obtain th where th: "get_thread rt b = Some th"
    using ep Ok(7,9) by (auto simp: wf_endpoint_def get_process_context_def split: option.splits)
  obtain m where rt1: "rt1 = update_thread b
      (redirect arch (m_endpoints rt ! e) (request_address rt b (sc_argument2 sc)) (sc_argument2 sc))
      (rt\<lparr>host_memory := m\<rparr>)"
    using Ok(11) by (rule prepare_server_thread_cases) auto
  define th1 where "th1 =
      redirect arch (m_endpoints rt ! e) (request_address rt b (sc_argument2 sc)) (sc_argument2 sc) th"
  have st1: "m_state th1 = thread_state rt b" by (simp add: th1_def frame_simps thread_state_live[OF th])
  have wfth: "m_state th \<noteq> USER_THREAD_STATE_EMPTY"
    using runtime_wfD(3)[OF wf th] by (simp add: wf_thread_def)
  have rt1th: "get_thread rt1 b = Some th1" and rt1ch: "get_channel rt1 = get_channel rt"
    and rt1cur: "m_current_thread rt1 = Some a" and rt1st: "thread_state rt1 t = thread_state rt t" for t
    using th st1 cur by (auto simp: rt1 frame_simps th1_def thread_state_live)
  have wf1: "runtime_wf rt1"
    unfolding rt1 using wf_host_memory[OF wf] th wfth
    by (auto intro!: wf_update_thread simp: frame_simps)
  have la: "get_thread rt1 a \<noteq> None" using runtime_wfD(6)[OF wf1 rt1cur] .
  have bc: "begin_call c a b rt1 = set_endpoint_busy (m_endpoint ch) True (update_channel c (open_call a b th1) rt1)"
    using begin_call_eq[of rt1 c ch b th1 a] Ok(3) rt1th rt1ch by simp
  have wf2: "runtime_wf (begin_call c a b rt1)" using wf_begin_call[OF wf1 _ rt1th la] Ok(3) rt1ch by simp
  have idle: "pending_of ch = None" using Ok(6) by (simp add: channel_is_busy_def)
  then have free: "calls (abs_sched rt) c = None" by (simp add: Ok(3))
  show ?thesis
  proof (cases "b = a")
    case True
    have "abs_sched rt' = (abs_sched rt)\<lparr>calls := (calls (abs_sched rt))(c := Some (a, a, USER_THREAD_STATE_RUNNING))\<rparr>"
      using st1 run cur Ok(3) bc[unfolded True]
      by (intro abs_sched_eqI) (auto simp: Ok(12) True frame_simps rt1st rt1ch rt1cur bind_map_option)
    then show ?thesis
      using sched_step.self_call[of "abs_sched rt" a c] cur run free wf2 True Ok(12) by simp
  next
    case False
    have live_a: "get_thread rt a \<noteq> None" using runtime_wfD(6)[OF wf cur] .
    have "abs_sched rt' = (abs_sched rt)\<lparr>calls := (calls (abs_sched rt))(c := Some (a, b, st (abs_sched rt) b)),
       cur := Some b, st := (st (abs_sched rt))(a := USER_THREAD_STATE_BLOCKED,
         b := if st (abs_sched rt) b = USER_THREAD_STATE_READY then USER_THREAD_STATE_RUNNING else st (abs_sched rt) b)\<rparr>"
      using False st1 cur Ok(3) la
      by (intro abs_sched_eqI)
        (auto simp: Ok(12) bc frame_simps rt1st rt1ch rt1cur bind_map_option switched_state_def split: option.splits)
    moreover have "runtime_wf rt'"
      using wf2 False th rt1th by (auto simp: Ok(12) bc frame_simps intro!: wf_set_current wf_update_thread)
    ultimately show ?thesis
      using sched_step.call[of "abs_sched rt" a b c] cur run free False Ok(10) wfth
      by (simp add: thread_state_live[OF th])
  qed
qed

section \<open>The round robin\<close>

lemma find_next_ready_SomeD:
  "find_next_ready_thread rt x = Some n \<Longrightarrow> thread_state rt n = USER_THREAD_STATE_READY"
  by (auto simp: find_next_ready_thread_def scan_ready_def Let_def find_Some_iff split: option.splits)

lemma thread_slot_bound: "runtime_wf rt \<Longrightarrow> get_thread rt t \<noteq> None \<Longrightarrow> t < USER_RUNTIME_MAX_THREADS"
  using get_by_index_Some_length[of "m_threads rt" t] by (auto simp: get_thread_def runtime_wf_def)

lemma thread_state_bound:
  "runtime_wf rt \<Longrightarrow> thread_state rt t \<noteq> USER_THREAD_STATE_EMPTY \<Longrightarrow> t < USER_RUNTIME_MAX_THREADS"
  using thread_slot_bound by (auto simp: thread_state_def split: option.splits)

lemma start_index_eq:
  assumes "get_thread rt t \<noteq> None" and "t < USER_RUNTIME_MAX_THREADS"
  shows "find_index (\<lambda>index. thread_pointer rt index = Some t) [0..<USER_RUNTIME_MAX_THREADS] = Some t"
  using assms by (intro find_index_unique) (auto simp: thread_pointer_def split: option.splits)

lemma find_next_ready_scan:
  assumes "get_thread rt t \<noteq> None" and "t < USER_RUNTIME_MAX_THREADS"
  shows "find_next_ready_thread rt (Some t) =
    find (\<lambda>i. thread_state rt i = USER_THREAD_STATE_READY) ([t + 1..<USER_RUNTIME_MAX_THREADS] @ [0..<t + 1])"
  by (simp add: find_next_ready_thread_def start_index_eq[OF assms] Let_def scan_ready_def find_append
      del: upt_Suc split: option.split)

lemma find_next_ready_None_iff:
  assumes wf: "runtime_wf rt" and t: "get_thread rt t \<noteq> None"
  shows "find_next_ready_thread rt (Some t) = None \<longleftrightarrow> (\<forall>n. thread_state rt n \<noteq> USER_THREAD_STATE_READY)"
proof -
  have b: "t < USER_RUNTIME_MAX_THREADS" using thread_slot_bound[OF wf t] .
  have "set ([t + 1..<USER_RUNTIME_MAX_THREADS] @ [0..<t + 1]) = {0..<USER_RUNTIME_MAX_THREADS}" using b by auto
  then have "find_next_ready_thread rt (Some t) = None \<longleftrightarrow>
      (\<forall>n < USER_RUNTIME_MAX_THREADS. thread_state rt n \<noteq> USER_THREAD_STATE_READY)"
    unfolding find_next_ready_scan[OF t b] find_None_iff by auto
  then show ?thesis using thread_state_bound[OF wf] by (metis user_thread_state.distinct(1))
qed

section \<open>The remaining system calls\<close>

lemma abs_update_endpoint: "abs_sched (update_endpoint e f rt) = abs_sched rt"
  by (intro abs_sched_eqI) (simp_all add: frame_simps)

lemma abs_update_thread_same:
  assumes "\<And>th. m_state (f th) = m_state th"
  shows "abs_sched (update_thread t f rt) = abs_sched rt"
  by (intro abs_sched_eqI) (auto simp: frame_simps assms thread_state_def split: option.split)

lemma wf_initialize_endpoint:
  assumes "length (m_name ep) = RPC_ENDPOINT_NAME_BUFFER_SIZE" and "get_process_context rt t = Some p"
  shows "wf_endpoint rt (initialize_endpoint p t name cb cm ep)"
  using assms by (simp add: wf_endpoint_def initialize_endpoint_def clear_endpoint_def Let_def copy_string_def)

lemma switch_step:
  assumes wf: "runtime_wf rt" and cur: "m_current_thread rt = Some a"
    and run: "thread_state rt a = USER_THREAD_STATE_RUNNING" and n: "thread_state rt n = USER_THREAD_STATE_READY"
  shows "sched_step (abs_sched rt) (abs_sched (set_current_thread arch (Some n) rt)) \<and>
    runtime_wf (set_current_thread arch (Some n) rt)"
proof
  have "abs_sched (set_current_thread arch (Some n) rt) = (abs_sched rt)\<lparr>cur := Some n, st := (st (abs_sched rt))
        (a := USER_THREAD_STATE_READY, n := USER_THREAD_STATE_RUNNING)\<rparr>"
    using cur run n by (intro abs_sched_eqI) (auto simp: frame_simps switched_state_def)
  then show "sched_step (abs_sched rt) (abs_sched (set_current_thread arch (Some n) rt))"
    using sched_step.yield[of "abs_sched rt" a n] cur run n by simp
  show "runtime_wf (set_current_thread arch (Some n) rt)"
    using n by (intro wf_set_current[OF wf]) (auto simp: thread_state_def split: option.splits)
qed

lemma rpc_register_cases:
  assumes "rpc_register arch a p sc rt = (r, rt')"
  obtains (Fail) "r \<noteq> STATUS_OK" and "rt' = rt"
  | (Ok) e name rt1 where "r = STATUS_OK" and "find_free_endpoint rt = Some e" and "find_endpoint_by_name rt name = None"
      and "copy_user_string (get_address_space_info rt p) (host_memory rt) (sc_argument0 sc)
             (replicate RPC_ENDPOINT_NAME_BUFFER_SIZE 0) = (STATUS_OK, name)"
      and "rt1 = update_endpoint e (initialize_endpoint p a name (sc_argument1 sc) (sc_argument2 sc)) rt"
      and "rt' = rt1 \<or> (\<exists>n. find_next_ready_thread rt1 (Some a) = Some n \<and>
             rt' = set_current_thread arch (Some n) (update_thread a (prepare_syscall_resume arch STATUS_OK) rt1))"
  using assms
  by (auto simp: rpc_register_def Let_def split: if_splits option.splits prod.splits)

lemma rpc_register_step:
  assumes wf: "runtime_wf rt" and cur: "m_current_thread rt = Some a"
    and run: "thread_state rt a = USER_THREAD_STATE_RUNNING" and p: "get_process_context rt a = Some p"
    and "rpc_register arch a p sc rt = (r, rt')"
  shows "sched_step (abs_sched rt) (abs_sched rt') \<and> runtime_wf rt'"
  using assms(5)
proof (cases rule: rpc_register_cases)
  case Fail
  then show ?thesis using sched_step.stay wf by simp
next
  case (Ok e name rt1)
  have wf1: "runtime_wf rt1"
    unfolding Ok(5) using wf p runtime_wfD(5)[OF wf, of e]
    by (auto intro!: wf_update_endpoint wf_initialize_endpoint simp: wf_endpoint_def)
  have abs1: "abs_sched rt1 = abs_sched rt" by (simp add: Ok(5) abs_update_endpoint)
  from Ok(6) show ?thesis
  proof (elim disjE exE conjE)
    assume "rt' = rt1"
    then show ?thesis using sched_step.stay wf1 abs1 by simp
  next
    fix n assume n: "find_next_ready_thread rt1 (Some a) = Some n"
      and rt': "rt' = set_current_thread arch (Some n) (update_thread a (prepare_syscall_resume arch STATUS_OK) rt1)"
    let ?rt2 = "update_thread a (prepare_syscall_resume arch STATUS_OK) rt1"
    have wf2: "runtime_wf ?rt2"
      using wf1 runtime_wfD(3)[OF wf1, of a] by (auto intro!: wf_update_thread simp: frame_simps wf_thread_def)
    have abs2: "abs_sched ?rt2 = abs_sched rt" by (simp add: abs_update_thread_same frame_simps abs1)
    have nr: "thread_state ?rt2 n = USER_THREAD_STATE_READY"
      using find_next_ready_SomeD[OF n] abs1 abs2 by (metis abs_sched_sel(1))
    have ar: "thread_state ?rt2 a = USER_THREAD_STATE_RUNNING" using run abs2 by (metis abs_sched_sel(1))
    have c2: "m_current_thread ?rt2 = Some a" using cur abs2 by (metis abs_sched_sel(2))
    show ?thesis using switch_step[OF wf2 c2 ar nr, of arch] unfolding rt' abs2 .
  qed
qed

text \<open>\<open>rpc_open\<close> and \<open>rpc_close\<close> add and remove idle channels only.\<close>

lemma wf_channels_update:
  assumes wf: "runtime_wf rt" and "\<And>c ch. get_by_index pool c = Some ch \<Longrightarrow> wf_channel rt ch"
  shows "runtime_wf (rt\<lparr>m_channels := pool\<rparr>)"
  using runtime_wfD[OF wf]
  by (intro runtime_wf_update[OF wf])
    (auto simp: frame_simps get_process_context_def in_set_conv_nth assms(2))

lemma abs_channels_update:
  assumes "\<And>c. Option.bind (get_by_index pool c) pending_of = Option.bind (get_channel rt c) pending_of"
  shows "abs_sched (rt\<lparr>m_channels := pool\<rparr>) = abs_sched rt"
  using assms by (intro abs_sched_eqI) (simp_all add: frame_simps)

lemma emplace_SomeD:
  assumes "emplace pool nh mk = (Some i, pool', nh')"
  shows "i < length (m_items pool)" and "get_by_index pool i = None" and "nh' = nh + 1"
    and "get_by_index pool' j = (if j = i then Some (mk (m_next_object_id pool) nh) else get_by_index pool j)"
  using assms find_index_SomeD[of Option.is_none "m_items pool" i]
  by (auto simp: emplace_def allocate_handle_value_def Let_def get_by_index_def Option.is_none_def
      split: if_splits option.splits)

lemma get_by_index_erase:
  assumes "find_by_handle pool h = Some i"
  shows "get_by_index (snd (erase_by_handle pool h)) j = (if j = i then None else get_by_index pool j)"
  using assms find_index_length[OF assms[unfolded find_by_handle_def]]
  by (simp add: erase_by_handle_def pool_simps)

lemma rpc_close_cases:
  assumes "rpc_close p sc rt = (r, rt')"
  obtains (Fail) "r \<noteq> STATUS_OK" and "rt' = rt"
  | (Ok) c ch where "r = STATUS_OK" and "find_channel_by_handle rt (sc_argument0 sc) = Some c"
      and "get_channel rt c = Some ch" and "is_owned_by p ch" and "\<not> channel_is_busy ch"
      and "rt' = rt\<lparr>m_channels := snd (erase_by_handle (m_channels rt) (sc_argument0 sc))\<rparr>"
proof -
  have "r \<noteq> STATUS_OK \<and> rt' = rt \<or>
    (\<exists>c ch. r = STATUS_OK \<and> find_channel_by_handle rt (sc_argument0 sc) = Some c \<and> get_channel rt c = Some ch \<and>
      is_owned_by p ch \<and> \<not> channel_is_busy ch \<and>
      rt' = rt\<lparr>m_channels := snd (erase_by_handle (m_channels rt) (sc_argument0 sc))\<rparr>)"
    using assms
    by (auto simp: rpc_close_def erase_by_handle_def find_channel_by_handle_def
        split: if_splits option.splits prod.splits)
  then show thesis using that by blast
qed

lemma rpc_close_step:
  assumes wf: "runtime_wf rt" and "rpc_close p sc rt = (r, rt')"
  shows "sched_step (abs_sched rt) (abs_sched rt') \<and> runtime_wf rt'"
  using assms(2)
proof (cases rule: rpc_close_cases)
  case Fail
  then show ?thesis using sched_step.stay wf by simp
next
  case (Ok c ch)
  have g: "get_by_index (snd (erase_by_handle (m_channels rt) (sc_argument0 sc))) d =
      (if d = c then None else get_channel rt d)" for d
    using get_by_index_erase[of "m_channels rt" "sc_argument0 sc" c d] Ok(2)
    by (simp add: find_channel_by_handle_def get_channel_def)
  have "abs_sched rt' = abs_sched rt"
    unfolding Ok(6) using Ok(3,5) by (intro abs_channels_update) (simp add: g channel_is_busy_def)
  moreover have "runtime_wf rt'"
    unfolding Ok(6) using runtime_wfD(4)[OF wf] by (intro wf_channels_update[OF wf]) (auto simp: g split: if_splits)
  ultimately show ?thesis using sched_step.stay by simp
qed

section \<open>Channel handles\<close>

definition channel_handles_ok :: "user_runtime \<Rightarrow> bool" where
  "channel_handles_ok rt \<longleftrightarrow> pool_invar (m_channels rt) (m_next_handle_value rt)"

lemma pool_invar_update_slot:
  assumes "pool_invar pool nh" and "\<And>obj. m_handle_value (f obj) = m_handle_value obj"
  shows "pool_invar (update_slot i f pool) nh"
proof -
  have h: "get_by_index (update_slot i f pool) j = Some x \<Longrightarrow>
      \<exists>y. get_by_index pool j = Some y \<and> m_handle_value x = m_handle_value y" for j x
    using assms(2) by (auto simp: pool_simps split: if_splits)
  show ?thesis unfolding pool_invar_def
  proof (intro conjI allI impI)
    show "m_handle_value obj < nh" if "get_by_index (update_slot i f pool) j = Some obj" for j obj
      using h[OF that] assms(1) by (auto simp: pool_invar_def)
    show "j = k" if j: "get_by_index (update_slot i f pool) j = Some x"
      and k: "get_by_index (update_slot i f pool) k = Some y" and e: "m_handle_value x = m_handle_value y"
      for j k x y
    proof -
      obtain x' y' where "get_by_index pool j = Some x'" "get_by_index pool k = Some y'"
        "m_handle_value x' = m_handle_value y'" using h[OF j] h[OF k] e by auto
      then show ?thesis using assms(1) unfolding pool_invar_def by blast
    qed
  qed
qed

lemma next_handle_frames [frame_simps]:
  "m_next_handle_value (update_thread t f rt) = m_next_handle_value rt"
  "m_next_handle_value (update_channel c g rt) = m_next_handle_value rt"
  "m_next_handle_value (update_endpoint e h rt) = m_next_handle_value rt"
  "m_next_handle_value (set_endpoint_busy e' b rt) = m_next_handle_value rt"
  "m_next_handle_value (set_current_thread arch u rt) = m_next_handle_value rt"
  by (auto simp: update_thread_def update_channel_def update_endpoint_def set_endpoint_busy_def
      set_current_thread_def arch_activate_process_address_space_def arch_prepare_user_thread_def Let_def
      split: option.split target_arch.split)

lemma handles_frames:
  "channel_handles_ok (update_thread t f rt) = channel_handles_ok rt"
  "channel_handles_ok (update_endpoint e h rt) = channel_handles_ok rt"
  "channel_handles_ok (set_endpoint_busy e' b rt) = channel_handles_ok rt"
  "channel_handles_ok (set_current_thread arch u rt) = channel_handles_ok rt"
  "channel_handles_ok (rt\<lparr>host_memory := m\<rparr>) = channel_handles_ok rt"
  "channel_handles_ok (rt\<lparr>m_current_thread := x\<rparr>) = channel_handles_ok rt"
  "channel_handles_ok (rt\<lparr>m_endpoints := eps\<rparr>) = channel_handles_ok rt"
  "channel_handles_ok (rt\<lparr>debug_messages := d\<rparr>) = channel_handles_ok rt"
  by (simp_all add: channel_handles_ok_def frame_simps)

lemma handles_update_channel:
  "channel_handles_ok rt \<Longrightarrow> (\<And>ch. m_handle_value (g ch) = m_handle_value ch) \<Longrightarrow>
    channel_handles_ok (update_channel c g rt)"
  by (simp add: channel_handles_ok_def update_channel_def pool_invar_update_slot)

lemma handles_cancel_call: "channel_handles_ok rt \<Longrightarrow> channel_handles_ok (cancel_call c rt)"
  by (auto simp: cancel_call_def handles_frames clear_call_def intro!: handles_update_channel split: option.split)

lemma handles_finish_call: "channel_handles_ok rt \<Longrightarrow> channel_handles_ok (finish_call c rt)"
  by (auto simp: finish_call_def handles_frames intro!: handles_cancel_call split: option.split)

lemma handles_begin_call: "channel_handles_ok rt \<Longrightarrow> channel_handles_ok (begin_call c a b rt)"
  by (auto simp: begin_call_def handles_frames intro!: handles_update_channel split: option.split)

lemma handles_complete_call:
  "channel_handles_ok rt \<Longrightarrow> complete_call arch b status rt = (r, rt') \<Longrightarrow> channel_handles_ok rt'"
  by (auto simp: complete_call_def handles_frames handles_finish_call Let_def split: option.splits if_splits)

lemma handles_rpc_call:
  assumes "channel_handles_ok rt" and "rpc_call arch a p sc rt = (r, rt')"
  shows "channel_handles_ok rt'"
  using assms(2)
proof (cases rule: rpc_call_cases)
  case (Ok c ch e b rt1)
  have "channel_handles_ok rt1"
    using Ok(11) by (rule prepare_server_thread_cases) (use assms(1) in \<open>simp_all add: handles_frames\<close>)
  then show ?thesis by (simp add: Ok(12) handles_frames handles_begin_call)
qed (use assms(1) in \<open>simp add: handles_frames\<close>)

lemma handles_rpc_register:
  assumes "channel_handles_ok rt" and "rpc_register arch a p sc rt = (r, rt')"
  shows "channel_handles_ok rt'"
  using assms(2)
proof (cases rule: rpc_register_cases)
  case (Ok e name rt1)
  then show ?thesis using assms(1) by (auto simp: handles_frames)
qed (use assms(1) in simp)

lemma handles_rpc_close:
  assumes "channel_handles_ok rt" and "rpc_close p sc rt = (r, rt')"
  shows "channel_handles_ok rt'"
  using assms(2)
proof (cases rule: rpc_close_cases)
  case (Ok c ch)
  then show ?thesis
    using assms(1) erase_by_handle_spec(1)[of "m_channels rt" "m_next_handle_value rt" "sc_argument0 sc"]
    by (simp add: channel_handles_ok_def prod_eq_iff)
qed (use assms(1) in simp)

section \<open>Opening a channel\<close>

definition new_channel_state :: "process_ref \<Rightarrow> endpoint_ref \<Rightarrow> channel_ref \<Rightarrow> user_runtime \<Rightarrow> user_runtime" where
  "new_channel_state p e c rt =
     rt\<lparr>m_channels := update_slot c acquire_process_reference
           (fst (snd (emplace (m_channels rt) (m_next_handle_value rt) (make_rpc_channel p e)))),
        m_next_handle_value := m_next_handle_value rt + 1\<rparr>"

lemma get_channel_new_channel_state:
  assumes "emplace (m_channels rt) (m_next_handle_value rt) (make_rpc_channel p e) = (Some c, pool, nh)"
  shows "get_channel (new_channel_state p e c rt) d = (if d = c
    then Some (acquire_process_reference
           (make_rpc_channel p e (m_next_object_id (m_channels rt)) (m_next_handle_value rt)))
    else get_channel rt d)"
  using emplace_SomeD(4)[OF assms, of d]
  by (auto simp: new_channel_state_def get_channel_def pool_simps assms)

lemma handles_new_channel_state:
  assumes "emplace (m_channels rt) (m_next_handle_value rt) (make_rpc_channel p e) = (Some c, pool, nh)"
    and "channel_handles_ok rt" and "m_next_handle_value rt \<noteq> - 1"
  shows "channel_handles_ok (new_channel_state p e c rt)"
  using emplace_spec(1,2)[OF assms(2)[unfolded channel_handles_ok_def] assms(3) _ assms(1)]
  by (simp add: channel_handles_ok_def new_channel_state_def assms(1) make_rpc_channel_def
      pool_invar_update_slot acquire_process_reference_def)

lemma rpc_open_cases:
  assumes "rpc_open p sc rt = (r, rt')"
  obtains (Fail) "r \<noteq> STATUS_OK" and "rt' = rt"
  | (Placed) e c pool nh m name where
      "emplace (m_channels rt) (m_next_handle_value rt) (make_rpc_channel p e) = (Some c, pool, nh)"
      and "copy_user_string (get_address_space_info rt p) (host_memory rt) (sc_argument0 sc)
             (replicate RPC_ENDPOINT_NAME_BUFFER_SIZE 0) = (STATUS_OK, name)"
      and "find_endpoint_by_name rt name = Some e"
      and "write_user_bytes (get_address_space_info rt p) (host_memory rt) (sc_argument1 sc)
             (le_bytes 8 (m_next_handle_value rt)) = (r, m)"
      and "rt' = (if r = STATUS_OK then (new_channel_state p e c rt)\<lparr>host_memory := m\<rparr>
             else (new_channel_state p e c rt)\<lparr>host_memory := m,
               m_channels := snd (erase_by_handle (m_channels (new_channel_state p e c rt)) (m_next_handle_value rt))\<rparr>)"
proof -
  have h: "get_channel (new_channel_state p e c rt) c = Some (acquire_process_reference
      (make_rpc_channel p e (m_next_object_id (m_channels rt)) (m_next_handle_value rt)))"
    if "fst (emplace (m_channels rt) (m_next_handle_value rt) (make_rpc_channel p e)) = Some c" for e c
    using that by (cases "emplace (m_channels rt) (m_next_handle_value rt) (make_rpc_channel p e)")
      (auto simp: get_channel_new_channel_state)
  have n: "rt\<lparr>m_channels := update_slot c acquire_process_reference pool, m_next_handle_value := nh\<rparr> =
      new_channel_state p e c rt"
    if "emplace (m_channels rt) (m_next_handle_value rt) (make_rpc_channel p e) = (Some c, pool, nh)" for e c pool nh
    using emplace_SomeD(3)[OF that] by (simp add: new_channel_state_def that)
  have a: "get_address_space_info (new_channel_state p e c rt) p = get_address_space_info rt p"
    "host_memory (new_channel_state p e c rt) = host_memory rt" for e c
    by (simp_all add: new_channel_state_def get_address_space_info_def frame_simps)
  have "r \<noteq> STATUS_OK \<and> rt' = rt \<or> (\<exists>e c pool nh m name.
      emplace (m_channels rt) (m_next_handle_value rt) (make_rpc_channel p e) = (Some c, pool, nh) \<and>
      copy_user_string (get_address_space_info rt p) (host_memory rt) (sc_argument0 sc)
             (replicate RPC_ENDPOINT_NAME_BUFFER_SIZE 0) = (STATUS_OK, name) \<and>
      find_endpoint_by_name rt name = Some e \<and>
      write_user_bytes (get_address_space_info rt p) (host_memory rt) (sc_argument1 sc)
             (le_bytes 8 (m_next_handle_value rt)) = (r, m) \<and>
      rt' = (if r = STATUS_OK then (new_channel_state p e c rt)\<lparr>host_memory := m\<rparr>
             else (new_channel_state p e c rt)\<lparr>host_memory := m,
               m_channels := snd (erase_by_handle (m_channels (new_channel_state p e c rt)) (m_next_handle_value rt))\<rparr>))"
    using assms
    by (auto simp: rpc_open_def n h a Let_def acquire_process_reference_def make_rpc_channel_def
        split: if_splits option.splits prod.splits)
  then show thesis using that by blast
qed

lemma new_channel_frames [frame_simps]:
  "get_thread (new_channel_state p e c rt) = get_thread rt"
  "get_process (new_channel_state p e c rt) = get_process rt"
  "m_endpoints (new_channel_state p e c rt) = m_endpoints rt"
  "m_current_thread (new_channel_state p e c rt) = m_current_thread rt"
  "m_threads (new_channel_state p e c rt) = m_threads rt"
  "host_memory (new_channel_state p e c rt) = host_memory rt"
  "m_next_handle_value (new_channel_state p e c rt) = m_next_handle_value rt + 1"
  by (simp_all add: new_channel_state_def frame_simps)

lemma runtime_eqI_channels:
  assumes wf: "runtime_wf rt" and "get_thread rt' = get_thread rt" and "get_process rt' = get_process rt"
    and "m_endpoints rt' = m_endpoints rt" and "m_current_thread rt' = m_current_thread rt"
    and "m_threads rt' = m_threads rt"
    and "\<And>c ch. get_channel rt' c = Some ch \<Longrightarrow> wf_channel rt ch"
    and "\<And>c. Option.bind (get_channel rt' c) pending_of = Option.bind (get_channel rt c) pending_of"
  shows "sched_step (abs_sched rt) (abs_sched rt') \<and> runtime_wf rt'"
proof -
  have "abs_sched rt' = abs_sched rt"
    using assms by (intro abs_sched_eqI) (simp_all add: thread_state_def)
  moreover have "runtime_wf rt'"
    using runtime_wfD[OF wf] assms(2-7)
    by (intro runtime_wf_update[OF wf]) (auto simp: get_process_context_def in_set_conv_nth)
  ultimately show ?thesis using sched_step.stay by simp
qed

text \<open>Undoing the creation of a channel gives back the channels there were.\<close>

lemma erase_new_channel:
  assumes em: "emplace (m_channels rt) (m_next_handle_value rt) (make_rpc_channel p e) = (Some c, pool, nh)"
    and hn: "channel_handles_ok (new_channel_state p e c rt)"
  shows "get_by_index (snd (erase_by_handle (m_channels (new_channel_state p e c rt)) (m_next_handle_value rt))) d =
    get_channel rt d"
proof -
  let ?n = "new_channel_state p e c rt"
  let ?ch = "acquire_process_reference (make_rpc_channel p e (m_next_object_id (m_channels rt)) (m_next_handle_value rt))"
  note g = get_channel_new_channel_state[OF em]
  have old: "get_channel rt c = None" using emplace_SomeD(2)[OF em] by (simp add: get_channel_def)
  have h: "find_by_handle (m_channels ?n) (m_next_handle_value rt) = Some c"
    by (rule find_by_handle_eq[OF hn[unfolded channel_handles_ok_def], of c ?ch])
      (use g[of c] in \<open>simp_all add: get_channel_def acquire_process_reference_def make_rpc_channel_def\<close>)
  show ?thesis using get_by_index_erase[OF h, of d] g[of d] old by (auto simp: get_channel_def)
qed

lemma rpc_open_step:
  assumes wf: "runtime_wf rt" and hs: "channel_handles_ok rt" and nh: "m_next_handle_value rt \<noteq> - 1"
    and p: "get_process rt p \<noteq> None" and "rpc_open p sc rt = (r, rt')"
  shows "sched_step (abs_sched rt) (abs_sched rt') \<and> runtime_wf rt' \<and> channel_handles_ok rt'"
  using assms(5)
proof (cases rule: rpc_open_cases)
  case Fail
  then show ?thesis using sched_step.stay wf hs by simp
next
  case (Placed e c pool nh' m name)
  let ?n = "new_channel_state p e c rt"
  let ?ch = "acquire_process_reference (make_rpc_channel p e (m_next_object_id (m_channels rt)) (m_next_handle_value rt))"
  note g = get_channel_new_channel_state[OF Placed(1)]
  have hn: "channel_handles_ok ?n" using handles_new_channel_state[OF Placed(1) hs nh] .
  have e: "e < length (m_endpoints rt)"
    using find_index_length Placed(3) by (fastforce simp: find_endpoint_by_name_def)
  have wch: "wf_channel rt ?ch"
    using e p by (simp add: wf_channel_def acquire_process_reference_def make_rpc_channel_def)
  have idle: "pending_of ?ch = None" by (simp add: acquire_process_reference_def make_rpc_channel_def)
  have old: "get_channel rt c = None"
    using emplace_SomeD(2)[OF Placed(1)] by (simp add: get_channel_def)
  have erase: "get_by_index (snd (erase_by_handle (m_channels ?n) (m_next_handle_value rt))) d = get_channel rt d"
    for d using erase_new_channel[OF Placed(1) hn] .
  have ghm: "get_channel (?n\<lparr>host_memory := m\<rparr>) = get_channel ?n" by (simp add: frame_simps)
  have "sched_step (abs_sched rt) (abs_sched rt') \<and> runtime_wf rt'"
  proof (cases "r = STATUS_OK")
    case True
    then have rt': "rt' = ?n\<lparr>host_memory := m\<rparr>" by (simp add: Placed(5))
    show ?thesis
      unfolding rt' using runtime_wfD(4)[OF wf] wch idle old
      by (intro runtime_eqI_channels[OF wf]) (auto simp: frame_simps g ghm split: if_splits)
  next
    case False
    then have rt': "rt' = ?n\<lparr>host_memory := m,
        m_channels := snd (erase_by_handle (m_channels ?n) (m_next_handle_value rt))\<rparr>"
      by (simp add: Placed(5))
    show ?thesis
      unfolding rt' using runtime_wfD(4)[OF wf]
      by (intro runtime_eqI_channels[OF wf]) (auto simp: frame_simps erase)
  qed
  moreover have "channel_handles_ok rt'"
    using hn erase_by_handle_spec(1)[OF hn[unfolded channel_handles_ok_def], of "m_next_handle_value rt"]
    by (simp add: Placed(5) channel_handles_ok_def frame_simps prod_eq_iff)
  ultimately show ?thesis by blast
qed

section \<open>Thread exit\<close>

lemma clear_endpoints_frames [frame_simps]:
  "get_thread (clear_endpoints_owned_by t rt) = get_thread rt"
  "thread_state (clear_endpoints_owned_by t rt) = thread_state rt"
  "get_channel (clear_endpoints_owned_by t rt) = get_channel rt"
  "get_process (clear_endpoints_owned_by t rt) = get_process rt"
  "get_process_context (clear_endpoints_owned_by t rt) = get_process_context rt"
  "m_current_thread (clear_endpoints_owned_by t rt) = m_current_thread rt"
  "m_threads (clear_endpoints_owned_by t rt) = m_threads rt"
  "host_memory (clear_endpoints_owned_by t rt) = host_memory rt"
  by (auto simp: clear_endpoints_owned_by_def frame_simps get_process_context_def)

lemma wf_clear_endpoint: "wf_endpoint rt ep \<Longrightarrow> wf_endpoint rt (clear_endpoint ep)"
  by (simp add: wf_endpoint_def clear_endpoint_def)

lemma wf_clear_endpoints: "runtime_wf rt \<Longrightarrow> runtime_wf (clear_endpoints_owned_by t rt)"
proof (rule runtime_wf_update[of rt])
  assume wf: "runtime_wf rt"
  show "wf_endpoint rt ep" if "ep \<in> set (m_endpoints (clear_endpoints_owned_by t rt))" for ep
    using that wf by (auto simp: clear_endpoints_owned_by_def runtime_wf_def intro: wf_clear_endpoint)
  show "length (m_endpoints (clear_endpoints_owned_by t rt)) = length (m_endpoints rt)"
    by (simp add: clear_endpoints_owned_by_def)
qed (auto simp: frame_simps runtime_wf_def)

lemma fail_pending_call_step:
  assumes wf: "runtime_wf rt" and "fail_pending_call arch b status rt = (r, rt')"
  shows "fail_call b (abs_sched rt) (abs_sched rt') \<and> runtime_wf rt' \<and> m_current_thread rt' = m_current_thread rt"
proof (cases "find_pending_channel_by_server_thread rt b")
  case None
  then have "calls (abs_sched rt) c \<noteq> Some (a, b, sv)" for c a sv
    using None by (auto simp: find_pending_None_iff pending_of_Some_iff bind_eq_Some_conv)
  moreover have "rt' = rt" using assms(2) None by (simp add: fail_pending_call_def)
  ultimately show ?thesis using wf fail_none[of "abs_sched rt" b] by simp
next
  case (Some c)
  obtain ch a where ch: "get_channel rt c = Some ch" and b: "m_pending_server_thread ch = Some b"
    and a: "m_pending_client_thread ch = Some a" and live: "get_thread rt a \<noteq> None" "get_thread rt b \<noteq> None"
    and p: "pending_of ch = Some (a, b, m_saved_server_state ch)"
    using pending_channelE[OF wf Some] by blast
  let ?rt2 = "update_thread a (prepare_syscall_resume arch status \<circ> set_state USER_THREAD_STATE_READY) (cancel_call c rt)"
  have rt': "rt' = (if a = b then cancel_call c rt else ?rt2)"
    using assms(2) Some ch a by (auto simp: fail_pending_call_def Let_def)
  have calls: "calls (abs_sched rt) c = Some (a, b, m_saved_server_state ch)" by (simp add: ch p)
  have wf': "runtime_wf rt'"
    unfolding rt' using wf_cancel_call[OF wf] by (auto intro!: wf_update_thread simp: frame_simps)
  have cur: "m_current_thread rt' = m_current_thread rt" by (simp add: rt' frame_simps)
  show ?thesis
  proof (cases "a = b")
    case True
    have "abs_sched rt' = (abs_sched rt)\<lparr>calls := (calls (abs_sched rt))(c := None)\<rparr>"
      unfolding rt' using True by (intro abs_sched_eqI) (auto simp: frame_simps ch bind_map_option)
    then show ?thesis using fail_self[of "abs_sched rt" c b "m_saved_server_state ch"] calls True wf' cur by simp
  next
    case False
    have "abs_sched rt' = (abs_sched rt)\<lparr>calls := (calls (abs_sched rt))(c := None),
        st := (st (abs_sched rt))(a := USER_THREAD_STATE_READY)\<rparr>"
      unfolding rt' using False live
      by (intro abs_sched_eqI) (auto simp: frame_simps ch bind_map_option split: option.split)
    then show ?thesis using fail_client[of "abs_sched rt" c a b "m_saved_server_state ch"] calls False wf' cur by simp
  qed
qed

lemma handles_fail_pending_call:
  "channel_handles_ok rt \<Longrightarrow> fail_pending_call arch b status rt = (r, rt') \<Longrightarrow> channel_handles_ok rt'"
  by (auto simp: fail_pending_call_def handles_frames handles_cancel_call Let_def split: option.splits if_splits)

lemma abs_clear_endpoints: "abs_sched (clear_endpoints_owned_by t rt) = abs_sched rt"
  by (intro abs_sched_eqI) (simp_all add: frame_simps)

lemma schedule_next_step:
  assumes wf: "runtime_wf rt" and cur: "m_current_thread rt = Some t"
    and x: "thread_state rt t = USER_THREAD_STATE_EXITED" and "schedule_next_ready_thread arch rt = (b, rt')"
  shows "reschedule (abs_sched rt) (abs_sched rt') \<and> runtime_wf rt' \<and> (channel_handles_ok rt \<longrightarrow> channel_handles_ok rt')"
proof (cases "find_next_ready_thread rt (m_current_thread rt)")
  case None
  then have rt': "rt' = rt\<lparr>m_current_thread := None\<rparr>" using assms(4) by (simp add: schedule_next_ready_thread_def)
  have "abs_sched rt' = (abs_sched rt)\<lparr>cur := None\<rparr>"
    unfolding rt' by (intro abs_sched_eqI) (simp_all add: frame_simps)
  moreover have "runtime_wf rt'"
    unfolding rt' using runtime_wfD[OF wf]
    by (intro runtime_wf_update[OF wf]) (auto simp: frame_simps get_process_context_def in_set_conv_nth)
  moreover have "thread_state rt n \<noteq> USER_THREAD_STATE_READY" for n
    using None find_next_ready_None_iff[OF wf runtime_wfD(6)[OF wf cur]] cur by simp
  ultimately show ?thesis using resched_none[of "abs_sched rt"] by (simp add: rt' handles_frames)
next
  case (Some n)
  then have rt': "rt' = set_current_thread arch (Some n) rt"
    using assms(4) by (simp add: schedule_next_ready_thread_def)
  have n: "thread_state rt n = USER_THREAD_STATE_READY" using find_next_ready_SomeD[OF Some] .
  have "abs_sched rt' = (abs_sched rt)\<lparr>cur := Some n, st := (st (abs_sched rt))(n := USER_THREAD_STATE_RUNNING)\<rparr>"
    unfolding rt' using n x cur by (intro abs_sched_eqI) (auto simp: frame_simps switched_state_def)
  moreover have "runtime_wf rt'"
    unfolding rt' using n by (intro wf_set_current[OF wf]) (auto simp: thread_state_def split: option.splits)
  ultimately show ?thesis using resched_next[of "abs_sched rt" n] n by (simp add: rt' handles_frames)
qed

lemma terminate_step:
  assumes wf: "runtime_wf rt" and cur: "m_current_thread rt = Some t"
    and run: "thread_state rt t = USER_THREAD_STATE_RUNNING"
    and "terminate_current_thread arch code status rt = (b, rt')"
  shows "sched_step (abs_sched rt) (abs_sched rt') \<and> runtime_wf rt' \<and> (channel_handles_ok rt \<longrightarrow> channel_handles_ok rt')"
proof -
  obtain r rt1 where f: "fail_pending_call arch t status rt = (r, rt1)" by force
  let ?rt2 = "clear_endpoints_owned_by t rt1"
  let ?rt3 = "update_thread t (set_exit_status code \<circ> set_state USER_THREAD_STATE_EXITED) ?rt2"
  have t: "schedule_next_ready_thread arch ?rt3 = (b, rt')"
    using assms(4) cur f by (simp add: terminate_current_thread_def handle_thread_exit_def)
  note F = fail_pending_call_step[OF wf f]
  have wf3: "runtime_wf ?rt3" using F wf_clear_endpoints by (auto intro!: wf_update_thread simp: frame_simps)
  have c3: "m_current_thread ?rt3 = Some t" using F cur by (simp add: frame_simps)
  have live: "get_thread rt1 t \<noteq> None" using F cur runtime_wfD(6)[of rt1 t] by simp
  have x3: "thread_state ?rt3 t = USER_THREAD_STATE_EXITED"
    using live by (auto simp: frame_simps split: option.split)
  have abs3: "abs_sched ?rt3 = (abs_sched rt1)\<lparr>st := (st (abs_sched rt1))(t := USER_THREAD_STATE_EXITED)\<rparr>"
    using x3 by (intro abs_sched_eqI) (auto simp: frame_simps split: option.split)
  note S = schedule_next_step[OF wf3 c3 x3 t]
  have "sched_step (abs_sched rt) (abs_sched rt')"
    using sched_step.exit[of "abs_sched rt" t "abs_sched rt1" "abs_sched rt'"] cur run F S abs3 by simp
  moreover have "channel_handles_ok rt \<Longrightarrow> channel_handles_ok ?rt3"
    using handles_fail_pending_call[OF _ f] by (simp add: handles_frames clear_endpoints_owned_by_def)
  ultimately show ?thesis using S by blast
qed

section \<open>Every system call is a step\<close>

lemma wf_debug_log: "runtime_wf rt \<Longrightarrow> runtime_wf (debug_log s rt)"
  by (auto simp: debug_log_def runtime_wf_def frame_simps wf_thread_def wf_channel_def wf_endpoint_def
      get_process_context_def)

lemma abs_debug_log: "abs_sched (debug_log s rt) = abs_sched rt"
  by (intro abs_sched_eqI) (simp_all add: debug_log_def frame_simps)

lemma dispatch_refines:
  assumes wf: "runtime_wf rt" and hs: "channel_handles_ok rt" and nh: "m_next_handle_value rt \<noteq> - 1"
    and run: "has_runnable_thread rt" and inv: "sched_inv (abs_sched rt)"
    and d: "dispatch_syscall arch sc rt = (r, rt')"
  shows "sched_step (abs_sched rt) (abs_sched rt') \<and> runtime_wf rt' \<and> channel_handles_ok rt'"
proof -
  obtain t where t: "m_current_thread rt = Some t"
    using run by (auto simp: has_runnable_thread_def split: option.splits)
  have tr: "thread_state rt t = USER_THREAD_STATE_RUNNING"
    using sched_invD(2)[OF inv, of t] run t by (auto simp: has_runnable_thread_def)
  obtain th p where th: "get_thread rt t = Some th" and p: "m_process th = Some p" "get_process rt p \<noteq> None"
    using runtime_wfD(3,6)[OF wf] t by (fastforce simp: wf_thread_def)
  have pc: "get_process_context rt t = Some p" by (simp add: get_process_context_def th p)
  let ?rt1 = "update_thread t (set_user_context (make_thread_context_from_syscall sc)) rt"
  have wf1: "runtime_wf ?rt1"
    using wf runtime_wfD(3)[OF wf th] th by (auto intro!: wf_update_thread simp: frame_simps wf_thread_def)
  have abs1: "abs_sched ?rt1 = abs_sched rt" by (simp add: abs_update_thread_same frame_simps)
  have hs1: "channel_handles_ok ?rt1" using hs by (simp add: handles_frames)
  have c1: "m_current_thread ?rt1 = Some t" using t by (simp add: frame_simps)
  have r1: "thread_state ?rt1 t = USER_THREAD_STATE_RUNNING" using tr abs1 by (metis abs_sched_sel(1))
  have p1: "get_process_context ?rt1 t = Some p" using pc by (simp add: frame_simps)
  have g1: "get_process ?rt1 p \<noteq> None" using p(2) by (simp add: frame_simps)
  have n1: "m_next_handle_value ?rt1 \<noteq> - 1" using nh by (simp add: frame_simps)
  have stay: "sched_step (abs_sched rt) (abs_sched ?rt1) \<and> runtime_wf ?rt1 \<and> channel_handles_ok ?rt1"
    using abs1 wf1 hs1 sched_step.stay by simp
  have rpc: "sched_step (abs_sched rt) (abs_sched rt2) \<and> runtime_wf rt2 \<and> channel_handles_ok rt2"
    if "rpc_dispatch_syscall arch t sc ?rt1 = (r2, rt2)" for r2 rt2
  proof (cases "sc_syscall_number sc \<in> {SYSCALL_RPC_REGISTER, SYSCALL_RPC_OPEN, SYSCALL_RPC_CALL,
      SYSCALL_RPC_CLOSE, SYSCALL_RPC_COMPLETE}")
    case True
    then show ?thesis
      using that rpc_register_step[OF wf1 c1 r1 p1] handles_rpc_register[OF hs1] rpc_open_step[OF wf1 hs1 n1 g1]
        rpc_call_step[OF wf1 c1 r1] handles_rpc_call[OF hs1] rpc_close_step[OF wf1] handles_rpc_close[OF hs1]
        complete_call_step[OF wf1 c1 r1] handles_complete_call[OF hs1]
      unfolding abs1 rpc_dispatch_syscall_def p1 by (simp split: if_splits)
  next
    case False
    then have "rt2 = ?rt1" using that by (simp add: rpc_dispatch_syscall_def p1)
    then show ?thesis using stay by simp
  qed
  have exit: "sched_step (abs_sched rt) (abs_sched (snd (terminate_current_thread arch code status ?rt1))) \<and>
      runtime_wf (snd (terminate_current_thread arch code status ?rt1)) \<and>
      channel_handles_ok (snd (terminate_current_thread arch code status ?rt1))" for code status
    using terminate_step[OF wf1 c1 r1 surjective_pairing] hs1 unfolding abs1 by blast
  have log: "sched_step (abs_sched rt) (abs_sched (debug_log s ?rt1)) \<and> runtime_wf (debug_log s ?rt1) \<and>
      channel_handles_ok (debug_log s ?rt1)" for s
  proof -
    have "channel_handles_ok (debug_log s ?rt1)" using hs1 by (simp add: debug_log_def handles_frames)
    then show ?thesis using wf_debug_log[OF wf1] abs1 sched_step.stay by (simp add: abs_debug_log)
  qed
  show ?thesis
    using d stay rpc exit log
    by (auto simp: dispatch_syscall_def t pc Let_def syscall_debug_log_def split: if_splits prod.splits)
qed

end
