(* ===== verification/Syscall_Entry.thy ===== *)
theory Syscall_Entry
  imports User_Runtime
begin

text \<open>
  The two system call entry points: \<open>arch/x64/user_runtime.cpp\<close> and the hardware path of
  \<open>arch/arm64/arm64_initial_user_runtime_platform.cpp\<close>. The trap frame the assembly stub pushes is a
  record; the handler saves the callee-saved registers in the current thread, dispatches, and
  rewrites the frame from the resume state of the thread to run next. The result is whether the
  stub returns to user mode, or a panic.
\<close>

section \<open>x64\<close>

record x64_syscall_frame =
  f_r9 :: u64
  f_r8 :: u64
  f_r10 :: u64
  f_rdx :: u64
  f_rsi :: u64
  f_rdi :: u64
  f_rax :: u64
  f_rcx :: u64
  f_r11 :: u64
  f_user_rsp :: u64
  f_r15 :: u64
  f_r14 :: u64
  f_r13 :: u64
  f_r12 :: u64
  f_rbp :: u64
  f_rbx :: u64
  f_preserved_xmm_qwords :: "u64 list"

definition load_user_thread_frame :: "thread \<Rightarrow> x64_syscall_frame" where
  "load_user_thread_frame th =
     (let r = m_resume_state th; regs = m_arch_preserved_registers th in
      \<lparr>f_r9 = 0, f_r8 = 0, f_r10 = 0, f_rdx = 0,
       f_rsi = (if resume_kind r = USER_THREAD_RESUME_KIND_RPC then resume_argument1 r else regs ! 0),
       f_rdi = (if resume_kind r = USER_THREAD_RESUME_KIND_RPC then resume_argument0 r else regs ! 1),
       f_rax = scast (resume_status_code r), f_rcx = resume_instruction_pointer r,
       f_r11 = resume_flags r, f_user_rsp = resume_stack_pointer r,
       f_r15 = regs ! 7, f_r14 = regs ! 6, f_r13 = regs ! 5, f_r12 = regs ! 4,
       f_rbp = regs ! 3, f_rbx = regs ! 2,
       f_preserved_xmm_qwords = m_arch_preserved_simd_qwords th\<rparr>)"

definition save_x64_preserved :: "x64_syscall_frame \<Rightarrow> thread \<Rightarrow> thread" where
  "save_x64_preserved f th =
     th\<lparr>m_arch_preserved_registers := (m_arch_preserved_registers th)
          [0 := f_rsi f, 1 := f_rdi f, 2 := f_rbx f, 3 := f_rbp f, 4 := f_r12 f, 5 := f_r13 f,
           6 := f_r14 f, 7 := f_r15 f],
        m_arch_preserved_simd_qwords := f_preserved_xmm_qwords f\<rparr>"

definition x64_syscall_context :: "x64_syscall_frame \<Rightarrow> user_syscall_context" where
  "x64_syscall_context f = make_user_syscall_context (f_rax f) (f_rcx f) (f_user_rsp f) (f_r11 f)
     (f_rdi f) (f_rsi f) (f_rdx f) (f_r10 f) (f_r8 f) (f_r9 f)"

definition x64_handle_syscall :: "x64_syscall_frame \<Rightarrow> user_runtime \<Rightarrow>
    string + (bool \<times> x64_syscall_frame \<times> user_runtime)" where
  "x64_handle_syscall frame rt =
     (case m_current_thread rt of None \<Rightarrow> Inl ''x64 syscall without current thread''
      | Some current_thread \<Rightarrow>
        (case dispatch_syscall X86_64 (x64_syscall_context frame)
                (update_thread current_thread (save_x64_preserved frame) rt) of
           (syscall_status, rt1) \<Rightarrow>
             if \<not> has_runnable_thread rt1 then Inr (False, frame, rt1)
             else (case m_current_thread rt1 of None \<Rightarrow> Inr (False, frame, rt1)
               | Some resume_thread \<Rightarrow>
                  (let rt2 = (if resume_thread = current_thread
                              then update_thread resume_thread (prepare_syscall_resume X86_64 syscall_status) rt1
                              else rt1)
                   in case get_thread rt2 resume_thread of None \<Rightarrow> Inr (False, frame, rt2)
                      | Some th \<Rightarrow> Inr (has_runnable_thread rt2, load_user_thread_frame th, rt2)))))"

section \<open>arm64\<close>

record arm64_syscall_frame =
  f_x0 :: u64
  f_x1 :: u64
  f_x2 :: u64
  f_x3 :: u64
  f_x4 :: u64
  f_x5 :: u64
  f_x6 :: u64
  f_x7 :: u64
  f_x8 :: u64
  f_elr :: u64
  f_spsr :: u64
  f_sp_el0 :: u64
  f_esr :: u64
  f_x19_x30 :: "u64 list" \<comment> \<open>the twelve fields \<open>x19\<close> to \<open>x30\<close> in order\<close>

definition load_arm64_syscall_frame :: "thread \<Rightarrow> arm64_syscall_frame" where
  "load_arm64_syscall_frame th =
     (let r = m_resume_state th; regs = m_arch_preserved_registers th;
          is_rpc = (resume_kind r = USER_THREAD_RESUME_KIND_RPC) in
      \<lparr>f_x0 = resume_argument0 r, f_x1 = (if is_rpc then resume_argument1 r else 0),
       f_x2 = 0, f_x3 = 0, f_x4 = 0, f_x5 = 0, f_x6 = 0, f_x7 = 0, f_x8 = 0,
       f_elr = resume_instruction_pointer r, f_spsr = resume_flags r,
       f_sp_el0 = resume_stack_pointer r, f_esr = 0,
       f_x19_x30 = [regs ! 0, regs ! 1, regs ! 2, regs ! 3, regs ! 4, regs ! 5, regs ! 6, regs ! 7,
                    regs ! 8, regs ! 9, regs ! 10,
                    if is_rpc then resume_rpc_completion_address r else regs ! 11]\<rparr>)"

definition save_arm64_preserved :: "arm64_syscall_frame \<Rightarrow> thread \<Rightarrow> thread" where
  "save_arm64_preserved f th =
     (let x = f_x19_x30 f in
      th\<lparr>m_arch_preserved_registers := (m_arch_preserved_registers th)
          [0 := x ! 0, 1 := x ! 1, 2 := x ! 2, 3 := x ! 3, 4 := x ! 4, 5 := x ! 5, 6 := x ! 6,
           7 := x ! 7, 8 := x ! 8, 9 := x ! 9, 10 := x ! 10, 11 := x ! 11]\<rparr>)"

definition arm64_syscall_context :: "arm64_syscall_frame \<Rightarrow> user_syscall_context" where
  "arm64_syscall_context f = make_user_syscall_context (f_x8 f) (f_elr f) (f_sp_el0 f) (f_spsr f)
     (f_x0 f) (f_x1 f) (f_x2 f) (f_x3 f) (f_x4 f) (f_x5 f)"

definition ESR_EXCEPTION_CLASS_SVC64 :: u64 where "ESR_EXCEPTION_CLASS_SVC64 = 0x15"

definition get_process_execution_backend :: "user_runtime \<Rightarrow> process_ref \<Rightarrow> process_execution_backend" where
  "get_process_execution_backend rt p =
     (case get_process rt p of None \<Rightarrow> PROCESS_EXECUTION_BACKEND_UNKNOWN
      | Some pr \<Rightarrow> execution_backend (m_metadata pr))"

definition arm64_handle_syscall :: "arm64_syscall_frame \<Rightarrow> user_runtime \<Rightarrow>
    string + (bool \<times> arm64_syscall_frame \<times> user_runtime)" where
  "arm64_handle_syscall frame rt =
     (if drop_bit 26 (f_esr frame) AND 0x3F \<noteq> ESR_EXCEPTION_CLASS_SVC64
      then Inl ''arm64 lower-el sync was not an svc64 syscall''
      else (case m_current_thread rt of None \<Rightarrow> Inl ''arm64 syscall without current thread''
        | Some current_thread \<Rightarrow>
         (case get_process_context rt current_thread of None \<Rightarrow> Inl ''arm64 syscall without an owning process''
          | Some current_process \<Rightarrow>
            if get_process_execution_backend rt current_process = PROCESS_EXECUTION_BACKEND_X64_EMULATOR
            then Inl ''arm64 hardware syscall path is disabled while an emulated user thread is active''
            else if get_process_execution_backend rt current_process \<noteq> PROCESS_EXECUTION_BACKEND_NATIVE
            then Inl ''arm64 syscall path was entered without a native arm64 user thread''
            else (case dispatch_syscall AARCH64 (arm64_syscall_context frame)
                     (update_thread current_thread (save_arm64_preserved frame) rt) of
              (syscall_status, rt1) \<Rightarrow>
                if \<not> has_runnable_thread rt1 then Inr (False, frame, rt1)
                else (case m_current_thread rt1 of None \<Rightarrow> Inr (False, frame, rt1)
                 | Some resume_thread \<Rightarrow>
                   (case get_process_context rt1 resume_thread of
                      None \<Rightarrow> Inl ''arm64 scheduled thread has no owning process''
                    | Some resume_process \<Rightarrow>
                      (let rt2 = (if resume_thread = current_thread
                            then update_thread resume_thread (prepare_syscall_resume AARCH64 syscall_status) rt1
                            else rt1)
                       in if get_process_execution_backend rt2 resume_process \<noteq> PROCESS_EXECUTION_BACKEND_NATIVE
                          then Inr (False, frame, rt2)
                          else (case get_thread rt2 resume_thread of None \<Rightarrow> Inr (False, frame, rt2)
                            | Some th \<Rightarrow> Inr (has_runnable_thread rt2, load_arm64_syscall_frame th, rt2)))))))))"

end
