(* ===== verification/X64_Context.thy ===== *)
theory X64_Context
  imports Host_Memory
begin

text \<open>
  The execution context of the x64 emulator: the types of \<open>emulator/include/x64_emulator.h\<close> and
  \<open>emulator/x64/x64_instruction.h\<close> and every operation of \<open>emulator/x64/x64_execution_context.cpp\<close>.
  The C++ object holds references to the guest state, the guest memory descriptor, the callbacks,
  the options and the result; here it is a record of those values together with the host memory
  the descriptor points into and the state the system call callback keeps behind its \<open>void*\<close>. An
  operation that returns false after recording a fault is a pair of an option and the new context.
  The callback is a function of its own state, the host memory and the guest state, because the
  emulator calls through a function pointer; it may change the first two.
\<close>

section \<open>Types\<close>

datatype x64_emulator_engine = X64_EMULATOR_ENGINE_INTERPRETER | X64_EMULATOR_ENGINE_JIT

datatype x64_emulator_completion =
    X64_EMULATOR_COMPLETION_THREAD_EXITED
  | X64_EMULATOR_COMPLETION_YIELDED
  | X64_EMULATOR_COMPLETION_INSTRUCTION_LIMIT_REACHED
  | X64_EMULATOR_COMPLETION_INVALID_MEMORY_ACCESS
  | X64_EMULATOR_COMPLETION_UNSUPPORTED_INSTRUCTION
  | X64_EMULATOR_COMPLETION_INVALID_ARGUMENT
  | X64_EMULATOR_COMPLETION_UNSUPPORTED_ENGINE

datatype x64_emulator_guest_stop_reason =
    X64_EMULATOR_GUEST_STOP_REASON_NONE
  | X64_EMULATOR_GUEST_STOP_REASON_THREAD_EXITED
  | X64_EMULATOR_GUEST_STOP_REASON_YIELDED
  | X64_EMULATOR_GUEST_STOP_REASON_INVALID_MEMORY_ACCESS
  | X64_EMULATOR_GUEST_STOP_REASON_UNSUPPORTED_INSTRUCTION

datatype x64_emulator_syscall_action =
    X64_EMULATOR_SYSCALL_ACTION_CONTINUE
  | X64_EMULATOR_SYSCALL_ACTION_YIELD
  | X64_EMULATOR_SYSCALL_ACTION_EXIT_THREAD

datatype x64_emulator_backend_failure =
    X64_EMULATOR_BACKEND_FAILURE_NONE
  | X64_EMULATOR_BACKEND_FAILURE_INSTRUCTION_LIMIT_REACHED
  | X64_EMULATOR_BACKEND_FAILURE_INVALID_ARGUMENT
  | X64_EMULATOR_BACKEND_FAILURE_UNSUPPORTED_ENGINE

record x64_emulator_syscall_result =
  sr_status :: i32
  sr_action :: x64_emulator_syscall_action

text \<open>The array \<open>bytes[16]\<close> of a SIMD register.\<close>

type_synonym x64_simd_register = "u8 list"

record x64_emulator_state =
  general_registers :: "u64 list"
  simd_registers :: "x64_simd_register list"
  e_instruction_pointer :: u64
  e_flags :: u64

text \<open>\<open>mem_bytes\<close> is a host pointer; the null pointer is 0.\<close>

record x64_emulator_memory =
  mem_base_address :: u64
  mem_bytes :: u64
  mem_size :: u64

record x64_emulator_options =
  opt_engine :: x64_emulator_engine
  opt_instruction_budget :: u64

record x64_emulator_fault =
  fault_instruction_pointer :: u64
  fault_memory_address :: u64
  fault_byte :: u8

record x64_emulator_result =
  completion :: x64_emulator_completion
  guest_stop_reason :: x64_emulator_guest_stop_reason
  backend_failure :: x64_emulator_backend_failure
  retired_instructions :: u64
  fault_address :: u64
  fault_opcode :: u8
  fault :: x64_emulator_fault

datatype x64_instruction_outcome =
    X64_INSTRUCTION_OUTCOME_CONTINUE_RUNNING
  | X64_INSTRUCTION_OUTCOME_RETIRE_AND_STOP
  | X64_INSTRUCTION_OUTCOME_STOP_RUNNING

record x64_decoded_instruction =
  i_address :: u64
  i_opcode_address :: u64
  i_next_address :: u64
  i_opcode :: u8
  prefix_66 :: bool
  prefix_f2 :: bool
  prefix_f3 :: bool
  rex_w :: bool
  rex_r :: bool
  rex_x :: bool
  rex_b :: bool

type_synonym 'k x64_syscall_handler =
  "'k \<Rightarrow> hmem \<Rightarrow> x64_emulator_state \<Rightarrow> x64_emulator_syscall_result \<times> 'k \<times> hmem"

record 'k x64_execution_context =
  x_state :: x64_emulator_state
  x_memory :: x64_emulator_memory
  x_handle_syscall :: "'k x64_syscall_handler option"
  x_options :: x64_emulator_options
  x_result :: x64_emulator_result
  x_host :: hmem
  x_env :: 'k

type_synonym ('k, 'a) x64_op = "'k x64_execution_context \<Rightarrow> 'a \<times> 'k x64_execution_context"

text \<open>
  \<open>attempt m bad good\<close>: the shape \<open>if (!m(&v)) { bad } good(v)\<close> of the sources.
\<close>

definition attempt :: "('k, 'a option) x64_op \<Rightarrow> ('k, 'b) x64_op \<Rightarrow> ('a \<Rightarrow> ('k, 'b) x64_op) \<Rightarrow> ('k, 'b) x64_op" where
  "attempt m bad good c = (case m c of (None, c') \<Rightarrow> bad c' | (Some v, c') \<Rightarrow> good v c')"

section \<open>Flags and register numbers\<close>

definition RFLAGS_CARRY :: u64 where "RFLAGS_CARRY = 1"
definition RFLAGS_RESERVED :: u64 where "RFLAGS_RESERVED = 2"
definition RFLAGS_ZERO :: u64 where "RFLAGS_ZERO = 64"
definition RFLAGS_SIGN :: u64 where "RFLAGS_SIGN = 128"
definition RFLAGS_OVERFLOW :: u64 where "RFLAGS_OVERFLOW = 2048"

definition X64_GENERAL_REGISTER_RAX :: nat where "X64_GENERAL_REGISTER_RAX = 0"
definition X64_GENERAL_REGISTER_RCX :: nat where "X64_GENERAL_REGISTER_RCX = 1"
definition X64_GENERAL_REGISTER_RDX :: nat where "X64_GENERAL_REGISTER_RDX = 2"
definition X64_GENERAL_REGISTER_RBX :: nat where "X64_GENERAL_REGISTER_RBX = 3"
definition X64_GENERAL_REGISTER_RSP :: nat where "X64_GENERAL_REGISTER_RSP = 4"
definition X64_GENERAL_REGISTER_RBP :: nat where "X64_GENERAL_REGISTER_RBP = 5"
definition X64_GENERAL_REGISTER_RSI :: nat where "X64_GENERAL_REGISTER_RSI = 6"
definition X64_GENERAL_REGISTER_RDI :: nat where "X64_GENERAL_REGISTER_RDI = 7"

section \<open>Invocation\<close>

definition initialize_result :: "'k x64_execution_context \<Rightarrow> 'k x64_execution_context" where
  "initialize_result c =
     (let ip = e_instruction_pointer (x_state c) in
      c\<lparr>x_state := (x_state c)\<lparr>e_flags := e_flags (x_state c) OR RFLAGS_RESERVED\<rparr>,
        x_result := \<lparr>completion = X64_EMULATOR_COMPLETION_INSTRUCTION_LIMIT_REACHED,
          guest_stop_reason = X64_EMULATOR_GUEST_STOP_REASON_NONE,
          backend_failure = X64_EMULATOR_BACKEND_FAILURE_INSTRUCTION_LIMIT_REACHED,
          retired_instructions = 0, fault_address = ip, fault_opcode = 0,
          fault = \<lparr>fault_instruction_pointer = ip, fault_memory_address = 0, fault_byte = 0\<rparr>\<rparr>\<rparr>)"

definition is_valid_invocation :: "'k x64_execution_context \<Rightarrow> bool" where
  "is_valid_invocation c \<longleftrightarrow> x_handle_syscall c \<noteq> None \<and> mem_bytes (x_memory c) \<noteq> 0 \<and>
     opt_instruction_budget (x_options c) \<noteq> 0"

section \<open>Faults and completion\<close>

definition set_fault :: "x64_decoded_instruction \<Rightarrow> 'k x64_execution_context \<Rightarrow> 'k x64_execution_context" where
  "set_fault i c = c\<lparr>x_result := (x_result c)\<lparr>
     fault := (fault (x_result c))\<lparr>fault_instruction_pointer := i_address i, fault_memory_address := 0,
       fault_byte := i_opcode i\<rparr>,
     fault_address := i_address i, fault_opcode := i_opcode i\<rparr>\<rparr>"

definition set_fault_opcode :: "u8 \<Rightarrow> 'k x64_execution_context \<Rightarrow> 'k x64_execution_context" where
  "set_fault_opcode opc c = c\<lparr>x_result := (x_result c)\<lparr>
     fault := (fault (x_result c))\<lparr>fault_byte := opc\<rparr>, fault_opcode := opc\<rparr>\<rparr>"

definition set_invalid_memory_access :: "u64 \<Rightarrow> u8 \<Rightarrow> 'k x64_execution_context \<Rightarrow> 'k x64_execution_context" where
  "set_invalid_memory_access address opc c = c\<lparr>x_result := (x_result c)\<lparr>
     completion := X64_EMULATOR_COMPLETION_INVALID_MEMORY_ACCESS,
     guest_stop_reason := X64_EMULATOR_GUEST_STOP_REASON_INVALID_MEMORY_ACCESS,
     backend_failure := X64_EMULATOR_BACKEND_FAILURE_NONE,
     fault := (fault (x_result c))\<lparr>fault_memory_address := address, fault_byte := opc\<rparr>,
     fault_address := address, fault_opcode := opc\<rparr>\<rparr>"

definition set_unsupported_instruction :: "u8 \<Rightarrow> 'k x64_execution_context \<Rightarrow> 'k x64_execution_context" where
  "set_unsupported_instruction opc c = c\<lparr>x_result := (x_result c)\<lparr>
     completion := X64_EMULATOR_COMPLETION_UNSUPPORTED_INSTRUCTION,
     guest_stop_reason := X64_EMULATOR_GUEST_STOP_REASON_UNSUPPORTED_INSTRUCTION,
     backend_failure := X64_EMULATOR_BACKEND_FAILURE_NONE,
     fault := (fault (x_result c))\<lparr>fault_memory_address := 0, fault_byte := opc\<rparr>,
     fault_opcode := opc\<rparr>\<rparr>"

definition set_thread_exited :: "'k x64_execution_context \<Rightarrow> 'k x64_execution_context" where
  "set_thread_exited c = c\<lparr>x_result := (x_result c)\<lparr>
     completion := X64_EMULATOR_COMPLETION_THREAD_EXITED,
     guest_stop_reason := X64_EMULATOR_GUEST_STOP_REASON_THREAD_EXITED,
     backend_failure := X64_EMULATOR_BACKEND_FAILURE_NONE\<rparr>\<rparr>"

definition set_yielded :: "'k x64_execution_context \<Rightarrow> 'k x64_execution_context" where
  "set_yielded c = c\<lparr>x_result := (x_result c)\<lparr>
     completion := X64_EMULATOR_COMPLETION_YIELDED,
     guest_stop_reason := X64_EMULATOR_GUEST_STOP_REASON_YIELDED,
     backend_failure := X64_EMULATOR_BACKEND_FAILURE_NONE\<rparr>\<rparr>"

definition set_backend_failure :: "x64_emulator_backend_failure \<Rightarrow> 'k x64_execution_context \<Rightarrow> 'k x64_execution_context" where
  "set_backend_failure failure c = c\<lparr>x_result := (x_result c)\<lparr>
     guest_stop_reason := X64_EMULATOR_GUEST_STOP_REASON_NONE, backend_failure := failure,
     completion := (case failure of
        X64_EMULATOR_BACKEND_FAILURE_INSTRUCTION_LIMIT_REACHED \<Rightarrow> X64_EMULATOR_COMPLETION_INSTRUCTION_LIMIT_REACHED
      | X64_EMULATOR_BACKEND_FAILURE_INVALID_ARGUMENT \<Rightarrow> X64_EMULATOR_COMPLETION_INVALID_ARGUMENT
      | X64_EMULATOR_BACKEND_FAILURE_UNSUPPORTED_ENGINE \<Rightarrow> X64_EMULATOR_COMPLETION_UNSUPPORTED_ENGINE
      | X64_EMULATOR_BACKEND_FAILURE_NONE \<Rightarrow> completion (x_result c))\<rparr>\<rparr>"

text \<open>The assignment \<open>get_result().completion = X64_EMULATOR_COMPLETION_INVALID_MEMORY_ACCESS\<close> of the handlers.\<close>

definition complete_invalid_memory :: "'k x64_execution_context \<Rightarrow> 'k x64_execution_context" where
  "complete_invalid_memory c = c\<lparr>x_result := (x_result c)\<lparr>
     completion := X64_EMULATOR_COMPLETION_INVALID_MEMORY_ACCESS\<rparr>\<rparr>"

section \<open>Registers\<close>

definition get_register64 :: "'k x64_execution_context \<Rightarrow> nat \<Rightarrow> u64" where
  "get_register64 c r = general_registers (x_state c) ! r"

definition set_register64 :: "nat \<Rightarrow> u64 \<Rightarrow> 'k x64_execution_context \<Rightarrow> 'k x64_execution_context" where
  "set_register64 r v c = c\<lparr>x_state := (x_state c)\<lparr>general_registers := (general_registers (x_state c))[r := v]\<rparr>\<rparr>"

definition get_register32 :: "'k x64_execution_context \<Rightarrow> nat \<Rightarrow> u32" where
  "get_register32 c r = ucast (get_register64 c r)"

definition get_register8_low :: "'k x64_execution_context \<Rightarrow> nat \<Rightarrow> u8" where
  "get_register8_low c r = ucast (get_register64 c r AND 0xFF)"

definition set_register8_low :: "nat \<Rightarrow> u8 \<Rightarrow> 'k x64_execution_context \<Rightarrow> 'k x64_execution_context" where
  "set_register8_low r v c = set_register64 r ((get_register64 c r AND NOT 0xFF) OR ucast v) c"

definition get_simd_register :: "'k x64_execution_context \<Rightarrow> nat \<Rightarrow> x64_simd_register" where
  "get_simd_register c r = simd_registers (x_state c) ! r"

definition set_simd_register :: "nat \<Rightarrow> x64_simd_register \<Rightarrow> 'k x64_execution_context \<Rightarrow> 'k x64_execution_context" where
  "set_simd_register r v c = c\<lparr>x_state := (x_state c)\<lparr>simd_registers := (simd_registers (x_state c))[r := v]\<rparr>\<rparr>"

definition set_register32 :: "nat \<Rightarrow> u32 \<Rightarrow> 'k x64_execution_context \<Rightarrow> 'k x64_execution_context" where
  "set_register32 r v c = set_register64 r (ucast v) c"

definition set_instruction_pointer :: "u64 \<Rightarrow> 'k x64_execution_context \<Rightarrow> 'k x64_execution_context" where
  "set_instruction_pointer ip c = c\<lparr>x_state := (x_state c)\<lparr>e_instruction_pointer := ip\<rparr>\<rparr>"

definition set_flags :: "u64 \<Rightarrow> 'k x64_execution_context \<Rightarrow> 'k x64_execution_context" where
  "set_flags f c = c\<lparr>x_state := (x_state c)\<lparr>e_flags := f\<rparr>\<rparr>"

section \<open>Guest memory\<close>

definition translate_guest_pointer :: "u64 \<Rightarrow> u64 \<Rightarrow> ('k, u64 option) x64_op" where
  "translate_guest_pointer guest_address len c =
     (let mm = x_memory c; invalid = (None, set_invalid_memory_access guest_address (fault_byte (fault (x_result c))) c) in
      if mem_bytes mm = 0 then (None, c)
      else if guest_address < mem_base_address mm then invalid
      else (let guest_offset = guest_address - mem_base_address mm in
        if guest_offset > mem_size mm then invalid
        else if len > mem_size mm - guest_offset then invalid
        else (Some (mem_bytes mm + guest_offset), c)))"

definition read_u8 :: "u64 \<Rightarrow> ('k, u8 option) x64_op" where
  "read_u8 a = attempt (translate_guest_pointer a 1) (\<lambda>c. (None, c)) (\<lambda>source c. (Some (x_host c source), c))"

definition read_i8 :: "u64 \<Rightarrow> ('k, u8 option) x64_op" where
  "read_i8 a = read_u8 a"

definition read_u32 :: "u64 \<Rightarrow> ('k, u32 option) x64_op" where
  "read_u32 a = attempt (translate_guest_pointer a 4) (\<lambda>c. (None, c))
     (\<lambda>source c. (Some (ucast (le_word (load_bytes (x_host c) source 4))), c))"

definition read_i32 :: "u64 \<Rightarrow> ('k, u32 option) x64_op" where
  "read_i32 a = read_u32 a"

definition read_u64 :: "u64 \<Rightarrow> ('k, u64 option) x64_op" where
  "read_u64 a = attempt (translate_guest_pointer a 8) (\<lambda>c. (None, c))
     (\<lambda>source c. (Some (le_word (load_bytes (x_host c) source 8)), c))"

definition read_u128 :: "u64 \<Rightarrow> ('k, x64_simd_register option) x64_op" where
  "read_u128 a = attempt (translate_guest_pointer a 16) (\<lambda>c. (None, c))
     (\<lambda>source c. (Some (load_bytes (x_host c) source 16), c))"

definition write_bytes :: "u64 \<Rightarrow> u8 list \<Rightarrow> ('k, unit option) x64_op" where
  "write_bytes a bs = attempt (translate_guest_pointer a (of_nat (length bs))) (\<lambda>c. (None, c))
     (\<lambda>destination c. (Some (), c\<lparr>x_host := store_bytes (x_host c) destination bs\<rparr>))"

definition write_u8 :: "u64 \<Rightarrow> u8 \<Rightarrow> ('k, unit option) x64_op" where
  "write_u8 a v = write_bytes a [v]"

definition write_u32 :: "u64 \<Rightarrow> u32 \<Rightarrow> ('k, unit option) x64_op" where
  "write_u32 a v = write_bytes a (le_bytes 4 (ucast v))"

definition write_u64 :: "u64 \<Rightarrow> u64 \<Rightarrow> ('k, unit option) x64_op" where
  "write_u64 a v = write_bytes a (le_bytes 8 v)"

definition write_u128 :: "u64 \<Rightarrow> x64_simd_register \<Rightarrow> ('k, unit option) x64_op" where
  "write_u128 a v = write_bytes a (take 16 v)"

section \<open>Flags\<close>

definition sign_mask :: "bool \<Rightarrow> u64" where
  "sign_mask is_64_bit = (if is_64_bit then push_bit 63 1 else push_bit 31 1)"

definition width_mask :: "bool \<Rightarrow> u64" where
  "width_mask is_64_bit = (if is_64_bit then 0xFFFFFFFFFFFFFFFF else 0xFFFFFFFF)"

definition cleared_flags :: "u64 \<Rightarrow> u64" where
  "cleared_flags f = f AND NOT (RFLAGS_CARRY OR RFLAGS_ZERO OR RFLAGS_SIGN OR RFLAGS_OVERFLOW) OR RFLAGS_RESERVED"

definition flag_if :: "bool \<Rightarrow> u64 \<Rightarrow> u64 \<Rightarrow> u64" where
  "flag_if b bits f = (if b then f OR bits else f)"

definition set_logic_flags :: "u64 \<Rightarrow> bool \<Rightarrow> 'k x64_execution_context \<Rightarrow> 'k x64_execution_context" where
  "set_logic_flags v is_64_bit c =
     (let masked_value = (if is_64_bit then v else ucast (ucast v :: u32)) in
      set_flags (flag_if (masked_value AND sign_mask is_64_bit \<noteq> 0) RFLAGS_SIGN
        (flag_if (masked_value = 0) RFLAGS_ZERO (cleared_flags (e_flags (x_state c))))) c)"

definition set_compare_flags :: "u64 \<Rightarrow> u64 \<Rightarrow> u64 \<Rightarrow> bool \<Rightarrow> 'k x64_execution_context \<Rightarrow> 'k x64_execution_context" where
  "set_compare_flags lhs rhs result is_64_bit c =
     (let masked_lhs = lhs AND width_mask is_64_bit; masked_rhs = rhs AND width_mask is_64_bit;
          masked_result = result AND width_mask is_64_bit;
          lhs_sign = (masked_lhs AND sign_mask is_64_bit \<noteq> 0);
          rhs_sign = (masked_rhs AND sign_mask is_64_bit \<noteq> 0);
          result_sign = (masked_result AND sign_mask is_64_bit \<noteq> 0) in
      set_flags
        (flag_if (lhs_sign \<noteq> rhs_sign \<and> lhs_sign \<noteq> result_sign) RFLAGS_OVERFLOW
        (flag_if (masked_lhs < masked_rhs) RFLAGS_CARRY
        (flag_if result_sign RFLAGS_SIGN
        (flag_if (masked_result = 0) RFLAGS_ZERO (cleared_flags (e_flags (x_state c))))))) c)"

definition set_add_flags :: "u64 \<Rightarrow> u64 \<Rightarrow> u64 \<Rightarrow> bool \<Rightarrow> 'k x64_execution_context \<Rightarrow> 'k x64_execution_context" where
  "set_add_flags lhs rhs result is_64_bit c =
     (let masked_lhs = lhs AND width_mask is_64_bit; masked_rhs = rhs AND width_mask is_64_bit;
          masked_result = result AND width_mask is_64_bit;
          lhs_sign = (masked_lhs AND sign_mask is_64_bit \<noteq> 0);
          rhs_sign = (masked_rhs AND sign_mask is_64_bit \<noteq> 0);
          result_sign = (masked_result AND sign_mask is_64_bit \<noteq> 0) in
      set_flags
        (flag_if (lhs_sign = rhs_sign \<and> lhs_sign \<noteq> result_sign) RFLAGS_OVERFLOW
        (flag_if (masked_result < masked_lhs) RFLAGS_CARRY
        (flag_if result_sign RFLAGS_SIGN
        (flag_if (masked_result = 0) RFLAGS_ZERO (cleared_flags (e_flags (x_state c))))))) c)"

section \<open>The stack\<close>

definition push_u64 :: "u64 \<Rightarrow> ('k, unit option) x64_op" where
  "push_u64 v c =
     (let stack_pointer = get_register64 c X64_GENERAL_REGISTER_RSP in
      if stack_pointer < mem_base_address (x_memory c) + 8
      then (None, set_invalid_memory_access stack_pointer (fault_byte (fault (x_result c))) c)
      else write_u64 (stack_pointer - 8) v (set_register64 X64_GENERAL_REGISTER_RSP (stack_pointer - 8) c))"

definition pop_u64 :: "('k, u64 option) x64_op" where
  "pop_u64 c = attempt (read_u64 (get_register64 c X64_GENERAL_REGISTER_RSP)) (\<lambda>c. (None, c))
     (\<lambda>v c. (Some v, set_register64 X64_GENERAL_REGISTER_RSP (get_register64 c X64_GENERAL_REGISTER_RSP + 8) c)) c"

end
