(* ===== verification/Emulated_Syscall.thy ===== *)
theory Emulated_Syscall
  imports Syscall_Entry X64_Context
begin

text \<open>
  The system call path of an x64 thread that the arm64 kernel runs in the emulator:
  \<open>dispatch_x64_syscall\<close> of \<open>arch/arm64/arm64_initial_user_runtime_platform.cpp\<close>, which is the
  callback of the emulator, and the two functions that move the callee-saved guest registers between
  the emulator and the kernel's thread object. The \<open>void*\<close> of the callback is the kernel's
  runtime, never null. The runtime and the emulator see the same host memory: the callback gets it
  from the emulator and hands it back.
\<close>

definition X64_GENERAL_REGISTER_R8 :: nat where "X64_GENERAL_REGISTER_R8 = 8"
definition X64_GENERAL_REGISTER_R9 :: nat where "X64_GENERAL_REGISTER_R9 = 9"
definition X64_GENERAL_REGISTER_R10 :: nat where "X64_GENERAL_REGISTER_R10 = 10"
definition X64_GENERAL_REGISTER_R12 :: nat where "X64_GENERAL_REGISTER_R12 = 12"
definition X64_GENERAL_REGISTER_R13 :: nat where "X64_GENERAL_REGISTER_R13 = 13"
definition X64_GENERAL_REGISTER_R14 :: nat where "X64_GENERAL_REGISTER_R14 = 14"
definition X64_GENERAL_REGISTER_R15 :: nat where "X64_GENERAL_REGISTER_R15 = 15"

lemmas register_numbers = X64_GENERAL_REGISTER_RAX_def X64_GENERAL_REGISTER_RCX_def X64_GENERAL_REGISTER_RDX_def
  X64_GENERAL_REGISTER_RBX_def X64_GENERAL_REGISTER_RSP_def X64_GENERAL_REGISTER_RBP_def
  X64_GENERAL_REGISTER_RSI_def X64_GENERAL_REGISTER_RDI_def X64_GENERAL_REGISTER_R8_def
  X64_GENERAL_REGISTER_R9_def X64_GENERAL_REGISTER_R10_def X64_GENERAL_REGISTER_R12_def
  X64_GENERAL_REGISTER_R13_def X64_GENERAL_REGISTER_R14_def X64_GENERAL_REGISTER_R15_def

text \<open>
  The \<open>memcpy\<close> between \<open>simd_registers[6]\<close> up to \<open>simd_registers[15]\<close> and the array of quad words.
\<close>

definition simd_to_qwords :: "x64_simd_register list \<Rightarrow> u64 list" where
  "simd_to_qwords regs = concat (map (\<lambda>r. [le_word (take 8 r), le_word (take 8 (drop 8 r))]) (take 10 (drop 6 regs)))"

definition qwords_to_simd :: "u64 list \<Rightarrow> x64_simd_register list \<Rightarrow> x64_simd_register list" where
  "qwords_to_simd qs regs =
     take 6 regs @ map (\<lambda>k. le_bytes 8 (qs ! (2 * k)) @ le_bytes 8 (qs ! (2 * k + 1))) [0..<10] @
     drop 16 regs"

definition store_x64_emulator_preserved_state :: "x64_emulator_state \<Rightarrow> thread \<Rightarrow> thread" where
  "store_x64_emulator_preserved_state s th =
     (let g = general_registers s in
      th\<lparr>m_arch_preserved_registers := (m_arch_preserved_registers th)
          [0 := g ! X64_GENERAL_REGISTER_RSI, 1 := g ! X64_GENERAL_REGISTER_RDI,
           2 := g ! X64_GENERAL_REGISTER_RBX, 3 := g ! X64_GENERAL_REGISTER_RBP,
           4 := g ! X64_GENERAL_REGISTER_R12, 5 := g ! X64_GENERAL_REGISTER_R13,
           6 := g ! X64_GENERAL_REGISTER_R14, 7 := g ! X64_GENERAL_REGISTER_R15],
         m_arch_preserved_simd_qwords := simd_to_qwords (simd_registers s)\<rparr>)"

definition load_x64_emulator_resume_state :: "thread \<Rightarrow> x64_emulator_state \<Rightarrow> x64_emulator_state" where
  "load_x64_emulator_resume_state th s =
     (let r = m_resume_state th; regs = m_arch_preserved_registers th;
          is_rpc = (resume_kind r = USER_THREAD_RESUME_KIND_RPC) in
      s\<lparr>e_instruction_pointer := resume_instruction_pointer r, e_flags := resume_flags r,
        general_registers := (general_registers s)
          [X64_GENERAL_REGISTER_RAX := scast (resume_status_code r),
           X64_GENERAL_REGISTER_RSP := resume_stack_pointer r,
           X64_GENERAL_REGISTER_RSI := (if is_rpc then resume_argument1 r else regs ! 0),
           X64_GENERAL_REGISTER_RDI := (if is_rpc then resume_argument0 r else regs ! 1),
           X64_GENERAL_REGISTER_RBX := regs ! 2, X64_GENERAL_REGISTER_RBP := regs ! 3,
           X64_GENERAL_REGISTER_R12 := regs ! 4, X64_GENERAL_REGISTER_R13 := regs ! 5,
           X64_GENERAL_REGISTER_R14 := regs ! 6, X64_GENERAL_REGISTER_R15 := regs ! 7],
        simd_registers := qwords_to_simd (m_arch_preserved_simd_qwords th) (simd_registers s)\<rparr>)"

definition emulated_syscall_context :: "x64_emulator_state \<Rightarrow> user_syscall_context" where
  "emulated_syscall_context s =
     (let g = general_registers s in
      make_user_syscall_context (g ! X64_GENERAL_REGISTER_RAX) (e_instruction_pointer s)
        (g ! X64_GENERAL_REGISTER_RSP) (e_flags s) (g ! X64_GENERAL_REGISTER_RDI) (g ! X64_GENERAL_REGISTER_RSI)
        (g ! X64_GENERAL_REGISTER_RDX) (g ! X64_GENERAL_REGISTER_R10) (g ! X64_GENERAL_REGISTER_R8)
        (g ! X64_GENERAL_REGISTER_R9))"

definition dispatch_x64_syscall :: "user_runtime x64_syscall_handler" where
  "dispatch_x64_syscall rt m s =
     (let rt0 = rt\<lparr>host_memory := m\<rparr> in
      case m_current_thread rt0 of
        None \<Rightarrow> (\<lparr>sr_status = STATUS_BAD_STATE, sr_action = X64_EMULATOR_SYSCALL_ACTION_EXIT_THREAD\<rparr>, rt0, host_memory rt0)
      | Some current_thread \<Rightarrow>
          (case dispatch_syscall AARCH64 (emulated_syscall_context s)
                  (update_thread current_thread (store_x64_emulator_preserved_state s) rt0) of
             (syscall_status, rt1) \<Rightarrow>
               if m_current_thread rt1 = Some current_thread
               then (let rt2 = update_thread current_thread (prepare_syscall_resume AARCH64 syscall_status) rt1 in
                     (\<lparr>sr_status = (case get_thread rt2 current_thread of None \<Rightarrow> syscall_status
                                    | Some th \<Rightarrow> m_pending_syscall_status th),
                       sr_action = X64_EMULATOR_SYSCALL_ACTION_CONTINUE\<rparr>, rt2, host_memory rt2))
               else if thread_state rt1 current_thread = USER_THREAD_STATE_EXITED
               then (\<lparr>sr_status = syscall_status, sr_action = X64_EMULATOR_SYSCALL_ACTION_EXIT_THREAD\<rparr>, rt1, host_memory rt1)
               else (\<lparr>sr_status = syscall_status, sr_action = X64_EMULATOR_SYSCALL_ACTION_YIELD\<rparr>, rt1, host_memory rt1)))"

end
