(* ===== verification/Runtime_Invariant.thy ===== *)
theory Runtime_Invariant
  imports Runtime_Refinement Emulated_Syscall
begin

text \<open>
  The invariant of the running system: the boot sequence establishes it and every step of the
  machine keeps it. A step is a computation of the current user thread (which may change memory in
  any way), a system call through the trap handler of the architecture, or, on arm64, a system call
  of an emulated thread through the emulator's callback or the termination of an emulated thread
  that faulted. The number of steps bounds the 64-bit handle counter, which is why runs are counted.
\<close>

section \<open>The invariant\<close>

definition runtime_inv :: "user_runtime \<Rightarrow> bool" where
  "runtime_inv rt \<longleftrightarrow> runtime_wf rt \<and> channel_handles_ok rt \<and> sched_inv (abs_sched rt)"

lemma dispatch_inv:
  assumes "runtime_inv rt" and "has_runnable_thread rt" and "m_next_handle_value rt \<noteq> - 1"
  shows "runtime_inv (snd (dispatch_syscall arch sc rt))"
  using dispatch_refines[OF _ _ assms(3,2) _ surjective_pairing[of "dispatch_syscall arch sc rt"]]
    sched_step_inv assms(1) unfolding runtime_inv_def by blast

text \<open>Changes of a thread that the invariant does not see.\<close>

lemma inv_update_thread:
  assumes "runtime_inv rt" and "\<And>th. m_state (f th) = m_state th" and "\<And>th. m_process (f th) = m_process th"
  shows "runtime_inv (update_thread t f rt)"
proof -
  have "runtime_wf (update_thread t f rt)"
    using assms runtime_wfD(3)[of rt t] unfolding runtime_inv_def
    by (intro wf_update_thread) (auto simp: wf_thread_def)
  then show ?thesis
    using assms by (simp add: runtime_inv_def handles_frames abs_update_thread_same)
qed

lemma inv_host_memory: "runtime_inv rt \<Longrightarrow> runtime_inv (rt\<lparr>host_memory := m\<rparr>)"
  by (simp add: runtime_inv_def handles_frames wf_host_memory abs_host_memory)

lemma runnable_update_thread:
  "(\<And>th. m_state (f th) = m_state th) \<Longrightarrow> has_runnable_thread (update_thread t f rt) = has_runnable_thread rt"
  by (auto simp: has_runnable_thread_def frame_simps thread_state_def split: option.split)

lemma save_frames [frame_simps]:
  "m_state (save_x64_preserved f th) = m_state th"
  "m_process (save_x64_preserved f th) = m_process th"
  "m_state (save_arm64_preserved g th) = m_state th"
  "m_process (save_arm64_preserved g th) = m_process th"
  by (simp_all add: save_x64_preserved_def save_arm64_preserved_def Let_def)

lemma update_thread_id: "rt = update_thread u id rt"
  by (cases "u < length (m_items (m_threads rt))")
    (simp_all add: update_thread_def update_slot_def list_update_beyond option.map_id0)

text \<open>The state a trap handler leaves is the dispatcher's, up to the resume state of the thread.\<close>

lemma x64_handle_syscall_state:
  assumes "x64_handle_syscall frame rt = Inr (b, frame', rt')"
  obtains t u f where "m_current_thread rt = Some t"
    and "rt' = update_thread u f (snd (dispatch_syscall X86_64 (x64_syscall_context frame)
           (update_thread t (save_x64_preserved frame) rt)))"
    and "\<And>th. m_state (f th) = m_state th" and "\<And>th. m_process (f th) = m_process th"
proof -
  obtain t where t: "m_current_thread rt = Some t"
    using assms by (auto simp: x64_handle_syscall_def split: option.splits)
  obtain st1 rt1 where d: "dispatch_syscall X86_64 (x64_syscall_context frame)
      (update_thread t (save_x64_preserved frame) rt) = (st1, rt1)" by force
  have "rt' = rt1 \<or> (\<exists>u. rt' = update_thread u (prepare_syscall_resume X86_64 st1) rt1)"
    using assms by (auto simp: x64_handle_syscall_def t d Let_def split: if_splits option.splits)
  then show thesis
    using that[OF t, of _ id] that[OF t, of _ "prepare_syscall_resume X86_64 st1"] update_thread_id[of rt1]
    by (auto simp: d frame_simps)
qed

lemma arm64_handle_syscall_state:
  assumes "arm64_handle_syscall frame rt = Inr (b, frame', rt')"
  obtains t u f where "m_current_thread rt = Some t"
    and "rt' = update_thread u f (snd (dispatch_syscall AARCH64 (arm64_syscall_context frame)
           (update_thread t (save_arm64_preserved frame) rt)))"
    and "\<And>th. m_state (f th) = m_state th" and "\<And>th. m_process (f th) = m_process th"
proof -
  obtain t where t: "m_current_thread rt = Some t"
    using assms by (auto simp: arm64_handle_syscall_def split: option.splits if_splits)
  obtain st1 rt1 where d: "dispatch_syscall AARCH64 (arm64_syscall_context frame)
      (update_thread t (save_arm64_preserved frame) rt) = (st1, rt1)" by force
  have "rt' = rt1 \<or> (\<exists>u. rt' = update_thread u (prepare_syscall_resume AARCH64 st1) rt1)"
    using assms by (auto simp: arm64_handle_syscall_def t d Let_def split: if_splits option.splits)
  then show thesis
    using that[OF t, of _ id] that[OF t, of _ "prepare_syscall_resume AARCH64 st1"] update_thread_id[of rt1]
    by (auto simp: d frame_simps)
qed

lemma emulated_frames [frame_simps]:
  "m_state (store_x64_emulator_preserved_state s th) = m_state th"
  "m_process (store_x64_emulator_preserved_state s th) = m_process th"
  by (simp_all add: store_x64_emulator_preserved_state_def Let_def)

lemma dispatch_x64_syscall_state:
  assumes "dispatch_x64_syscall rt m s = (r, rt', m')" and t: "m_current_thread rt = Some t"
  obtains u f where "rt' = update_thread u f (snd (dispatch_syscall AARCH64 (emulated_syscall_context s)
           (update_thread t (store_x64_emulator_preserved_state s) (rt\<lparr>host_memory := m\<rparr>))))"
    and "\<And>th. m_state (f th) = m_state th" and "\<And>th. m_process (f th) = m_process th"
    and "m' = host_memory rt'"
    and "sr_action r = (if m_current_thread rt' = Some t then X64_EMULATOR_SYSCALL_ACTION_CONTINUE
      else if thread_state rt' t = USER_THREAD_STATE_EXITED then X64_EMULATOR_SYSCALL_ACTION_EXIT_THREAD
      else X64_EMULATOR_SYSCALL_ACTION_YIELD)"
proof -
  obtain st1 rt1 where d: "dispatch_syscall AARCH64 (emulated_syscall_context s)
      (update_thread t (store_x64_emulator_preserved_state s) (rt\<lparr>host_memory := m\<rparr>)) = (st1, rt1)" by force
  show thesis
  proof (cases "m_current_thread rt1 = Some t")
    case True
    then have "rt' = update_thread t (prepare_syscall_resume AARCH64 st1) rt1" "m' = host_memory rt'"
      "sr_action r = X64_EMULATOR_SYSCALL_ACTION_CONTINUE"
      using assms(1) by (auto simp: dispatch_x64_syscall_def Let_def t d)
    then show thesis
      using True that[of t "prepare_syscall_resume AARCH64 st1"] by (simp add: d frame_simps)
  next
    case False
    then have "rt' = rt1 \<and> m' = host_memory rt1 \<and> sr_action r =
        (if thread_state rt1 t = USER_THREAD_STATE_EXITED then X64_EMULATOR_SYSCALL_ACTION_EXIT_THREAD
         else X64_EMULATOR_SYSCALL_ACTION_YIELD)"
      using assms(1) by (auto simp: dispatch_x64_syscall_def Let_def t d split: if_splits)
    then show thesis using False that[of t id] by (simp add: d frame_simps update_thread_id)
  qed
qed

section \<open>Steps of the machine\<close>

inductive kernel_step :: "target_arch \<Rightarrow> user_runtime \<Rightarrow> user_runtime \<Rightarrow> bool" for arch where
  user: "has_runnable_thread rt \<Longrightarrow> kernel_step arch rt (rt\<lparr>host_memory := m\<rparr>)"
| x64_syscall: "arch = X86_64 \<Longrightarrow> has_runnable_thread rt \<Longrightarrow>
    x64_handle_syscall frame rt = Inr (b, frame', rt') \<Longrightarrow> kernel_step arch rt rt'"
| arm64_syscall: "arch = AARCH64 \<Longrightarrow> has_runnable_thread rt \<Longrightarrow>
    arm64_handle_syscall frame' rt = Inr (b', frame'', rt') \<Longrightarrow> kernel_step arch rt rt'"
| emulated_syscall: "arch = AARCH64 \<Longrightarrow> has_runnable_thread rt \<Longrightarrow>
    dispatch_x64_syscall rt m s = (r, rt', m') \<Longrightarrow> kernel_step arch rt rt'"
| emulated_fault: "arch = AARCH64 \<Longrightarrow> has_runnable_thread rt \<Longrightarrow>
    kernel_step arch rt (snd (terminate_current_thread arch (scast status) status rt))"
| kernel_message: "has_runnable_thread rt \<Longrightarrow> kernel_step arch rt (debug_log message rt)"
| activate: "has_runnable_thread rt \<Longrightarrow> kernel_step arch rt (arch_activate_process_address_space arch p rt)"

inductive kernel_run :: "target_arch \<Rightarrow> user_runtime \<Rightarrow> nat \<Rightarrow> user_runtime \<Rightarrow> bool" for arch rt0 where
  start: "kernel_run arch rt0 0 rt0"
| step: "kernel_run arch rt0 n rt \<Longrightarrow> kernel_step arch rt rt' \<Longrightarrow> kernel_run arch rt0 (Suc n) rt'"

lemma running_current:
  assumes "sched_inv (abs_sched rt)" and "has_runnable_thread rt"
  obtains t where "m_current_thread rt = Some t" and "thread_state rt t = USER_THREAD_STATE_RUNNING"
  using sched_invD(2)[OF assms(1)] assms(2) by (fastforce simp: has_runnable_thread_def split: option.splits)

lemma terminate_sched:
  assumes inv: "runtime_inv rt" and "has_runnable_thread rt"
  shows "sched_step (abs_sched rt) (abs_sched (snd (terminate_current_thread arch code status rt))) \<and>
    runtime_inv (snd (terminate_current_thread arch code status rt))"
proof -
  obtain t where t: "m_current_thread rt = Some t" "thread_state rt t = USER_THREAD_STATE_RUNNING"
    using running_current[OF _ assms(2)] inv by (auto simp: runtime_inv_def)
  show ?thesis
    using terminate_step[OF _ t surjective_pairing[of "terminate_current_thread arch code status rt"]]
      sched_step_inv inv unfolding runtime_inv_def by blast
qed

text \<open>A trap handler's step, whatever it saves before the dispatch and prepares after it.\<close>

lemma handler_sched:
  assumes inv: "runtime_inv rt" and nh: "m_next_handle_value rt \<noteq> - 1" and run: "has_runnable_thread rt"
    and g: "\<And>th. m_state (g th) = m_state th" "\<And>th. m_process (g th) = m_process th"
    and f: "\<And>th. m_state (f th) = m_state th" "\<And>th. m_process (f th) = m_process th"
    and rt': "rt' = update_thread u f (snd (dispatch_syscall arch sc (update_thread t g rt)))"
  shows "sched_step (abs_sched rt) (abs_sched rt') \<and> runtime_inv rt'"
proof -
  let ?rt1 = "update_thread t g rt"
  have i1: "runtime_inv ?rt1" using inv g by (rule inv_update_thread)
  have n1: "m_next_handle_value ?rt1 \<noteq> - 1" using nh by (simp add: frame_simps)
  have r1: "has_runnable_thread ?rt1" using run by (simp add: runnable_update_thread g)
  note D = dispatch_refines[OF _ _ n1 r1 _ surjective_pairing[of "dispatch_syscall arch sc ?rt1"]]
  have "sched_step (abs_sched rt) (abs_sched (snd (dispatch_syscall arch sc ?rt1)))"
    using D i1 unfolding runtime_inv_def abs_update_thread_same[OF g(1)] by blast
  moreover have "runtime_inv rt'" unfolding rt' by (rule inv_update_thread[OF dispatch_inv[OF i1 r1 n1] f])
  ultimately show ?thesis by (simp add: rt' abs_update_thread_same[OF f(1)])
qed

lemma emulated_syscall_sched:
  assumes inv: "runtime_inv rt" and nh: "m_next_handle_value rt \<noteq> - 1" and run: "has_runnable_thread rt"
    and d: "dispatch_x64_syscall rt m s = (r, rt', m')"
  shows "sched_step (abs_sched rt) (abs_sched rt') \<and> runtime_inv rt'"
proof -
  obtain t where t: "m_current_thread rt = Some t" using run by (auto simp: has_runnable_thread_def split: option.splits)
  have run': "has_runnable_thread (rt\<lparr>host_memory := m\<rparr>)"
    using run by (simp add: has_runnable_thread_def thread_state_def frame_simps cong: option.case_cong)
  obtain u f where rt': "rt' = update_thread u f (snd (dispatch_syscall AARCH64 (emulated_syscall_context s)
           (update_thread t (store_x64_emulator_preserved_state s) (rt\<lparr>host_memory := m\<rparr>))))"
    and f: "\<And>th. m_state (f th) = m_state th" "\<And>th. m_process (f th) = m_process th"
    using d t by (rule dispatch_x64_syscall_state) blast
  have "sched_step (abs_sched (rt\<lparr>host_memory := m\<rparr>)) (abs_sched rt') \<and> runtime_inv rt'"
    by (rule handler_sched[OF inv_host_memory[OF inv] _ run' emulated_frames f rt']) (simp add: nh)
  then show ?thesis by (simp add: abs_host_memory)
qed

lemma inv_debug_log: "runtime_inv rt \<Longrightarrow> runtime_inv (debug_log s rt)"
  unfolding runtime_inv_def abs_debug_log by (auto simp: debug_log_def handles_frames intro: wf_debug_log[unfolded debug_log_def])

lemma activate_frames [frame_simps]:
  "thread_state (arch_activate_process_address_space arch p rt) t = thread_state rt t"
  "get_process_context (arch_activate_process_address_space arch p rt) t = get_process_context rt t"
  "m_next_handle_value (arch_activate_process_address_space arch p rt) = m_next_handle_value rt"
  by (simp_all add: thread_state_def get_process_context_def frame_simps)
    (simp add: arch_activate_process_address_space_def Let_def split: option.split target_arch.split)

lemma abs_activate: "abs_sched (arch_activate_process_address_space arch p rt) = abs_sched rt"
  by (intro abs_sched_eqI) (simp_all add: frame_simps)

lemma inv_activate: "runtime_inv rt \<Longrightarrow> runtime_inv (arch_activate_process_address_space arch p rt)"
  unfolding runtime_inv_def abs_activate
  by (auto simp: channel_handles_ok_def frame_simps runtime_wf_def wf_thread_def wf_channel_def wf_endpoint_def)

lemma kernel_step_sched:
  assumes "kernel_step arch rt rt'" and inv: "runtime_inv rt" and nh: "m_next_handle_value rt \<noteq> - 1"
  shows "sched_step (abs_sched rt) (abs_sched rt') \<and> runtime_inv rt'"
  using assms(1)
proof cases
  case (user m)
  then show ?thesis using inv_host_memory[OF inv] sched_step.stay by (simp add: abs_host_memory)
next
  case (x64_syscall frame b frame')
  from x64_syscall(3) show ?thesis
    by (rule x64_handle_syscall_state)
      (rule handler_sched[OF inv nh x64_syscall(2)], simp_all add: frame_simps)
next
  case (arm64_syscall frame b frame')
  from arm64_syscall(3) show ?thesis
    by (rule arm64_handle_syscall_state)
      (rule handler_sched[OF inv nh arm64_syscall(2)], simp_all add: frame_simps)
next
  case (emulated_syscall m s r m')
  then show ?thesis by (intro emulated_syscall_sched[OF inv nh])
next
  case (emulated_fault status)
  then show ?thesis using terminate_sched[OF inv] by simp
next
  case (kernel_message message)
  then show ?thesis using inv_debug_log[OF inv] sched_step.stay by (simp add: abs_debug_log)
next
  case (activate p)
  then show ?thesis using inv_activate[OF inv] sched_step.stay by (simp add: abs_activate)
qed

section \<open>The handle counter\<close>

lemma next_handle_call_frames [frame_simps]:
  "m_next_handle_value (cancel_call c rt) = m_next_handle_value rt"
  "m_next_handle_value (finish_call c rt) = m_next_handle_value rt"
  "m_next_handle_value (begin_call c a b rt) = m_next_handle_value rt"
  "m_next_handle_value (clear_endpoints_owned_by t rt) = m_next_handle_value rt"
  "m_next_handle_value (debug_log s rt) = m_next_handle_value rt"
  by (auto simp: cancel_call_def finish_call_def begin_call_def clear_endpoints_owned_by_def debug_log_def
      frame_simps split: option.split)

lemma next_handle_terminate [frame_simps]:
  "m_next_handle_value (snd (terminate_current_thread arch code status rt)) = m_next_handle_value rt"
  by (auto simp: terminate_current_thread_def schedule_next_ready_thread_def handle_thread_exit_def
      fail_pending_call_def Let_def frame_simps split: option.split)

lemma next_handle_rpc_call:
  "rpc_call arch a p sc rt = (r, rt') \<Longrightarrow> m_next_handle_value rt' = m_next_handle_value rt"
  by (erule rpc_call_cases; (elim prepare_server_thread_cases)?) (auto simp: frame_simps)

lemma next_handle_dispatch:
  assumes "dispatch_syscall arch sc rt = (r, rt')"
  shows "m_next_handle_value rt' = m_next_handle_value rt \<or> m_next_handle_value rt' = m_next_handle_value rt + 1"
proof -
  have rpc: "m_next_handle_value rt2 = m_next_handle_value rt1 \<or> m_next_handle_value rt2 = m_next_handle_value rt1 + 1"
    if "rpc_dispatch_syscall arch t sc rt1 = (r2, rt2)" for t rt1 r2 rt2
  proof -
    have "m_next_handle_value rt2 = m_next_handle_value rt1 \<or> m_next_handle_value rt2 = m_next_handle_value rt1 + 1"
      if "rpc_open p sc rt1 = (r2, rt2)" for p
      using that by (cases rule: rpc_open_cases) (auto simp: frame_simps)
    moreover have "m_next_handle_value rt2 = m_next_handle_value rt1" if "rpc_close p sc rt1 = (r2, rt2)" for p
      using that by (cases rule: rpc_close_cases) auto
    moreover have "m_next_handle_value rt2 = m_next_handle_value rt1" if "rpc_register arch t p sc rt1 = (r2, rt2)" for p
      using that by (cases rule: rpc_register_cases) (auto simp: frame_simps)
    moreover have "m_next_handle_value rt2 = m_next_handle_value rt1" if "complete_call arch t x rt1 = (r2, rt2)" for x
      using that by (auto simp: complete_call_def Let_def frame_simps split: option.splits if_splits)
    ultimately show ?thesis
      using that next_handle_rpc_call unfolding rpc_dispatch_syscall_def by (simp split: if_splits option.splits)
  qed
  show ?thesis
    using assms
    by (auto simp: dispatch_syscall_def syscall_debug_log_def Let_def frame_simps dest!: rpc
        split: if_splits option.splits prod.splits)
qed

lemma kernel_step_next_handle:
  assumes "kernel_step arch rt rt'"
  shows "unat (m_next_handle_value rt') \<le> Suc (unat (m_next_handle_value rt))"
proof -
  have inc: "unat (h + 1) \<le> Suc (unat h)" for h :: u64 by (metis Suc_eq_plus1 le_refl less_imp_le_nat unat_1 unat_add_u64 mod_less_eq_dividend)
  have "m_next_handle_value rt' = m_next_handle_value rt \<or> m_next_handle_value rt' = m_next_handle_value rt + 1"
    using assms
  proof cases
    case (x64_syscall frame b frame')
    then show ?thesis
      using next_handle_dispatch[OF surjective_pairing] by (elim x64_handle_syscall_state) (metis next_handle_frames(1))
  next
    case (arm64_syscall frame b frame')
    then show ?thesis
      using next_handle_dispatch[OF surjective_pairing] by (elim arm64_handle_syscall_state) (metis next_handle_frames(1))
  next
    case (emulated_syscall m s r m')
    then obtain t where t: "m_current_thread rt = Some t" by (auto simp: has_runnable_thread_def split: option.splits)
    show ?thesis
      using emulated_syscall(3) t
    proof (rule dispatch_x64_syscall_state)
      fix u f
      let ?rt1 = "update_thread t (store_x64_emulator_preserved_state s) (rt\<lparr>host_memory := m\<rparr>)"
      assume "rt' = update_thread u f (snd (dispatch_syscall AARCH64 (emulated_syscall_context s) ?rt1))"
      then show ?thesis
        using next_handle_dispatch[OF surjective_pairing, of AARCH64 "emulated_syscall_context s" ?rt1] by (simp add: frame_simps)
    qed
  qed (simp_all add: frame_simps)
  then show ?thesis using inc by auto
qed

section \<open>Boot\<close>

lemma replicate_4: "replicate 4 x = [x, x, x, x]"
  by (simp add: numeral_eq_Suc)

lemma pool_reset_fresh: "pool_reset (empty_pool 4) = \<lparr>m_items = [None, None, None, None], m_next_object_id = 1, m_bound = True\<rparr>"
  by (simp add: pool_reset_def destroy_occupied_items_def empty_pool_def replicate_4)

definition boot_thread :: "process_ref \<Rightarrow> thread_context \<Rightarrow> u32 \<Rightarrow> handle_t \<Rightarrow> thread" where
  "boot_thread p ctx k h = acquire_process_reference (make_thread p ctx k h)"

definition boot_process :: "initial_process_configuration \<Rightarrow> u32 \<Rightarrow> handle_t \<Rightarrow> process" where
  "boot_process cfg k h = acquire_process_reference (make_process (cfg_metadata cfg) (cfg_address_space cfg) k h)"

text \<open>The runtime after the creation of one or two initial processes.\<close>

definition boot_runtime :: "hmem \<Rightarrow> u64 \<Rightarrow> process option list \<Rightarrow> thread option list \<Rightarrow> u32 \<Rightarrow> handle_t \<Rightarrow> user_runtime" where
  "boot_runtime m root procs thrs k nh =
     (runtime_reset (g_user_runtime m root))
       \<lparr>m_processes := \<lparr>m_items = procs, m_next_object_id = k, m_bound = True\<rparr>,
        m_threads := \<lparr>m_items = thrs, m_next_object_id = k, m_bound = True\<rparr>,
        m_next_handle_value := nh\<rparr>"

lemmas boot_defs = create_process_def create_thread_def emplace_def allocate_handle_value_def
  update_slot_def get_thread_def get_by_index_def Option.is_none_def boot_runtime_def boot_thread_def
  boot_process_def acquire_process_reference_def make_thread_def make_process_def

lemma runtime_reset_fresh:
  "runtime_reset (g_user_runtime m root) =
     boot_runtime m root [None, None, None, None] [None, None, None, None] 1 1"
  by (simp add: runtime_reset_def rpc_runtime_reset_def g_user_runtime_def boot_runtime_def pool_reset_fresh
      USER_RUNTIME_MAX_PROCESSES_def USER_RUNTIME_MAX_THREADS_def Let_def)

lemma create_first:
  "create_initial_processes [cfg] (boot_runtime m root [None, None, None, None] [None, None, None, None] 1 1) =
     Inr ([(0, 0)], boot_runtime m root [Some (boot_process cfg 1 1), None, None, None]
       [Some (boot_thread 0 (cfg_thread_context cfg) 1 2), None, None, None] 2 3)"
  by (simp add: boot_defs)

lemma create_both:
  "create_initial_processes [cfg, cfg'] (boot_runtime m root [None, None, None, None] [None, None, None, None] 1 1) =
     Inr ([(0, 0), (1, 1)], boot_runtime m root
       [Some (boot_process cfg 1 1), Some (boot_process cfg' 2 3), None, None]
       [Some (boot_thread 0 (cfg_thread_context cfg) 1 2), Some (boot_thread 1 (cfg_thread_context cfg') 2 4), None, None] 3 5)"
  by (simp add: boot_defs)

lemma boot_runtime_sel [simp]:
  "get_thread (boot_runtime m root procs thrs k nh) t = (if t < length thrs then thrs ! t else None)"
  "get_process (boot_runtime m root procs thrs k nh) p = (if p < length procs then procs ! p else None)"
  "get_channel (boot_runtime m root procs thrs k nh) c = None"
  "m_endpoints (boot_runtime m root procs thrs k nh) = replicate USER_RUNTIME_MAX_RPC_ENDPOINTS empty_endpoint"
  "m_current_thread (boot_runtime m root procs thrs k nh) = None"
  "m_items (m_threads (boot_runtime m root procs thrs k nh)) = thrs"
  "m_next_handle_value (boot_runtime m root procs thrs k nh) = nh"
  by (auto simp: boot_runtime_def get_thread_def get_process_def get_channel_def get_by_index_def runtime_reset_def
      rpc_runtime_reset_def g_user_runtime_def Let_def pool_reset_def destroy_occupied_items_def empty_pool_def
      empty_endpoint_def clear_endpoint_def)

lemma boot_runtime_wf:
  assumes "length thrs = USER_RUNTIME_MAX_THREADS"
    and "\<And>th. Some th \<in> set thrs \<Longrightarrow> m_state th = USER_THREAD_STATE_READY \<and>
      (\<exists>p < length procs. m_process th = Some p \<and> procs ! p \<noteq> None)"
    and "\<And>pr. Some pr \<in> set procs \<Longrightarrow> wf_address_space (m_address_space pr)"
  shows "runtime_wf (boot_runtime m root procs thrs k nh)"
proof -
  have "wf_thread (boot_runtime m root procs thrs k nh) th" if "t < length thrs" "thrs ! t = Some th" for t th
    using assms(2)[of th] nth_mem[OF that(1)] that(2) by (auto simp: wf_thread_def)
  moreover have "wf_address_space (m_address_space pr)" if "p < length procs" "procs ! p = Some pr" for p pr
    using assms(3)[of pr] nth_mem[OF that(1)] that(2) by simp
  ultimately show ?thesis
    unfolding runtime_wf_def using assms(1)
    by (auto simp: wf_endpoint_def empty_endpoint_def in_set_replicate split: if_splits)
qed

lemma boot_runtime_handles: "channel_handles_ok (boot_runtime m root procs thrs k nh)"
proof -
  have "get_by_index (m_channels (boot_runtime m root procs thrs k nh)) c = None" for c
    using boot_runtime_sel(3)[of m root procs thrs k nh c] by (simp add: get_channel_def)
  then show ?thesis by (simp add: channel_handles_ok_def pool_invar_def)
qed

text \<open>Entering the first thread from a state in which every thread is ready and no call is pending.\<close>

lemma enter_first_inv:
  assumes wf: "runtime_wf rt" and "channel_handles_ok rt" and cur: "m_current_thread rt = None"
    and rdy: "\<And>t th. get_thread rt t = Some th \<Longrightarrow> m_state th = USER_THREAD_STATE_READY"
    and idle: "\<And>c. get_channel rt c = None" and i: "get_thread rt i \<noteq> None"
  shows "runtime_inv (set_current_thread arch (Some i) rt) \<and>
    has_runnable_thread (set_current_thread arch (Some i) rt) \<and>
    (\<forall>t. thread_state (set_current_thread arch (Some i) rt) t = (if t = i then USER_THREAD_STATE_RUNNING
      else if get_thread rt t = None then USER_THREAD_STATE_EMPTY else USER_THREAD_STATE_READY))"
proof -
  let ?rt = "set_current_thread arch (Some i) rt"
  have st: "switched_state (Some i) rt t = (if t = i then USER_THREAD_STATE_RUNNING
      else if get_thread rt t = None then USER_THREAD_STATE_EMPTY else USER_THREAD_STATE_READY)" for t
    using rdy[of t] i cur by (auto simp: frame_simps switched_state_def thread_state_def split: option.split)
  have "sched_inv (abs_sched ?rt)"
    by (rule sched_invI) (auto simp: st frame_simps idle waits_in_def split: if_splits)
  moreover have "runtime_wf ?rt" using i by (intro wf_set_current[OF wf]) auto
  ultimately show ?thesis
    using assms(2) by (auto simp: runtime_inv_def handles_frames has_runnable_thread_def frame_simps st)
qed

lemma boot_spec:
  assumes n: "unat (boot_process_count bs) = 1 \<or> unat (boot_process_count bs) = 2"
    and i: "boot_initial_process_index bs < boot_process_count bs"
    and l: "length (boot_initial_processes bs) = USER_RUNTIME_MAX_INITIAL_PROCESSES"
    and w: "\<forall>cfg \<in> set (boot_initial_processes bs). wf_address_space (cfg_address_space cfg)"
  shows "\<exists>rt. run_initial_user_runtime arch bs (g_user_runtime m root) = Inr rt \<and> runtime_inv rt \<and>
    has_runnable_thread rt \<and> m_current_thread rt = Some (unat (boot_initial_process_index bs)) \<and>
    unat (m_next_handle_value rt) = 1 + 2 * unat (boot_process_count bs) \<and>
    (\<forall>t. thread_state rt t = (if t = unat (boot_initial_process_index bs) then USER_THREAD_STATE_RUNNING
      else if t < unat (boot_process_count bs) then USER_THREAD_STATE_READY else USER_THREAD_STATE_EMPTY))"
proof -
  obtain c0 c1 where cs: "boot_initial_processes bs = [c0, c1]"
    using l by (auto simp: USER_RUNTIME_MAX_INITIAL_PROCESSES_def numeral_2_eq_2 length_Suc_conv)
  have nz: "boot_process_count bs \<noteq> 0" using n by auto
  have ii: "unat (boot_initial_process_index bs) < unat (boot_process_count bs)" using i by (simp add: word_less_nat_alt)
  have wc: "wf_address_space (cfg_address_space c0)" "wf_address_space (cfg_address_space c1)" using w cs by auto
  show ?thesis
  proof (cases "unat (boot_process_count bs) = 1")
    case True
    let ?rt = "boot_runtime m root [Some (boot_process c0 1 1), None, None, None]
       [Some (boot_thread 0 (cfg_thread_context c0) 1 2), None, None, None] 2 3"
    have r: "run_initial_user_runtime arch bs (g_user_runtime m root) = Inr (set_current_thread arch (Some 0) ?rt)"
      using True nz i ii cs
      by (simp add: boot_sequence_defs runtime_reset_fresh create_first USER_RUNTIME_MAX_INITIAL_PROCESSES_def
          del: create_initial_processes.simps)
    have wf: "runtime_wf ?rt"
      using wc by (intro boot_runtime_wf)
        (auto simp: USER_RUNTIME_MAX_THREADS_def boot_thread_def boot_process_def acquire_process_reference_def
          make_thread_def make_process_def)
    have live: "get_thread ?rt t = None \<longleftrightarrow> \<not> t < 1" for t by (auto simp: nth_Cons')
    have rdy: "m_state th = USER_THREAD_STATE_READY" if "get_thread ?rt t = Some th" for t th
      using that by (auto simp: boot_thread_def acquire_process_reference_def make_thread_def nth_Cons' split: if_splits)
    have "runtime_inv (set_current_thread arch (Some 0) ?rt) \<and> has_runnable_thread (set_current_thread arch (Some 0) ?rt) \<and>
      (\<forall>t. thread_state (set_current_thread arch (Some 0) ?rt) t = (if t = 0 then USER_THREAD_STATE_RUNNING
        else if t < 1 then USER_THREAD_STATE_READY else USER_THREAD_STATE_EMPTY))"
      using enter_first_inv[where i = 0 and arch = arch, OF wf boot_runtime_handles _ rdy] unfolding live by auto
    then show ?thesis using r True ii by (simp add: frame_simps)
  next
    case False
    with n have two: "unat (boot_process_count bs) = 2" by simp
    let ?rt = "boot_runtime m root [Some (boot_process c0 1 1), Some (boot_process c1 2 3), None, None]
       [Some (boot_thread 0 (cfg_thread_context c0) 1 2), Some (boot_thread 1 (cfg_thread_context c1) 2 4), None, None] 3 5"
    let ?i = "unat (boot_initial_process_index bs)"
    have i01: "?i = 0 \<or> ?i = 1" using ii two by auto
    have r: "run_initial_user_runtime arch bs (g_user_runtime m root) = Inr (set_current_thread arch (Some ?i) ?rt)"
      using two nz i i01 cs
      by (auto simp: boot_sequence_defs runtime_reset_fresh create_both USER_RUNTIME_MAX_INITIAL_PROCESSES_def
          simp del: create_initial_processes.simps)
    have wf: "runtime_wf ?rt"
      using wc by (intro boot_runtime_wf)
        (auto simp: USER_RUNTIME_MAX_THREADS_def boot_thread_def boot_process_def acquire_process_reference_def
          make_thread_def make_process_def)
    have live: "get_thread ?rt t = None \<longleftrightarrow> \<not> t < 2" for t by (auto simp: nth_Cons')
    have rdy: "m_state th = USER_THREAD_STATE_READY" if "get_thread ?rt t = Some th" for t th
      using that by (auto simp: boot_thread_def acquire_process_reference_def make_thread_def nth_Cons' split: if_splits)
    have "runtime_inv (set_current_thread arch (Some ?i) ?rt) \<and> has_runnable_thread (set_current_thread arch (Some ?i) ?rt) \<and>
      (\<forall>t. thread_state (set_current_thread arch (Some ?i) ?rt) t = (if t = ?i then USER_THREAD_STATE_RUNNING
        else if t < 2 then USER_THREAD_STATE_READY else USER_THREAD_STATE_EMPTY))"
      using enter_first_inv[where i = ?i and arch = arch, OF wf boot_runtime_handles _ rdy] i01 unfolding live by auto
    then show ?thesis using r two by (simp add: frame_simps)
  qed
qed

section \<open>Reachable states\<close>

definition valid_bootstrap :: "initial_user_runtime_bootstrap \<Rightarrow> bool" where
  "valid_bootstrap bs \<longleftrightarrow> boot_process_count bs \<in> {1, 2} \<and>
     boot_initial_process_index bs < boot_process_count bs \<and>
     length (boot_initial_processes bs) = USER_RUNTIME_MAX_INITIAL_PROCESSES \<and>
     (\<forall>cfg \<in> set (boot_initial_processes bs). wf_address_space (cfg_address_space cfg))"

text \<open>The states a system booted from a valid bootstrap can be in after \<open>n\<close> steps.\<close>

definition reachable :: "target_arch \<Rightarrow> nat \<Rightarrow> user_runtime \<Rightarrow> bool" where
  "reachable arch n rt \<longleftrightarrow> (\<exists>bs m root rt0. valid_bootstrap bs \<and>
     run_initial_user_runtime arch bs (g_user_runtime m root) = Inr rt0 \<and> kernel_run arch rt0 n rt)"

lemma handle_counter_small: "unat (h :: u64) \<le> 5 + n \<Longrightarrow> n < 2 ^ 63 \<Longrightarrow> h \<noteq> - 1"
  using unat_max_u64 by auto

lemma kernel_run_inv:
  assumes "kernel_run arch rt0 n rt" and "runtime_inv rt0" and "unat (m_next_handle_value rt0) \<le> 5" and "n < 2 ^ 63"
  shows "runtime_inv rt \<and> unat (m_next_handle_value rt) \<le> 5 + n"
  using assms
proof (induction rule: kernel_run.induct)
  case (step n rt rt')
  have IH: "runtime_inv rt" "unat (m_next_handle_value rt) \<le> 5 + n"
    using step.IH step.prems by (simp_all add: power_def)
  have "m_next_handle_value rt \<noteq> - 1" using handle_counter_small[OF IH(2)] step.prems(3) by simp
  then show ?case
    using kernel_step_sched[OF step.hyps(2) IH(1)] kernel_step_next_handle[OF step.hyps(2)] IH(2) by simp
qed simp

lemma valid_bootstrapD:
  assumes "valid_bootstrap bs"
  shows "\<exists>rt. run_initial_user_runtime arch bs (g_user_runtime m root) = Inr rt \<and> runtime_inv rt \<and>
    has_runnable_thread rt \<and> m_current_thread rt = Some (unat (boot_initial_process_index bs)) \<and>
    unat (m_next_handle_value rt) = 1 + 2 * unat (boot_process_count bs) \<and>
    (\<forall>t. thread_state rt t = (if t = unat (boot_initial_process_index bs) then USER_THREAD_STATE_RUNNING
      else if t < unat (boot_process_count bs) then USER_THREAD_STATE_READY else USER_THREAD_STATE_EMPTY))"
  using assms boot_spec[of bs arch m root] by (auto simp: valid_bootstrap_def)

lemma reachable_state:
  assumes "reachable arch n rt" and "n < 2 ^ 63"
  shows "runtime_inv rt" and "m_next_handle_value rt \<noteq> - 1"
proof -
  obtain bs m root rt0 where bs: "valid_bootstrap bs"
    and b: "run_initial_user_runtime arch bs (g_user_runtime m root) = Inr rt0" and k: "kernel_run arch rt0 n rt"
    using assms(1) unfolding reachable_def by blast
  have "unat (boot_process_count bs) \<le> 2" using bs by (auto simp: valid_bootstrap_def)
  then have "runtime_inv rt0" "unat (m_next_handle_value rt0) \<le> 5"
    using valid_bootstrapD[OF bs, of arch m root] b by auto
  note K = kernel_run_inv[OF k this assms(2)]
  show "runtime_inv rt" using K by simp
  show "m_next_handle_value rt \<noteq> - 1" using handle_counter_small K assms(2) by blast
qed

text \<open>A concrete boot for the witnesses: two processes, the first of which runs.\<close>

definition example_configuration :: initial_process_configuration where
  "example_configuration = \<lparr>cfg_metadata = \<lparr>guest_architecture = PROCESS_GUEST_ARCHITECTURE_X64,
       personality = PROCESS_PERSONALITY_RINGOS, execution_backend = PROCESS_EXECUTION_BACKEND_NATIVE\<rparr>,
     cfg_address_space = example_asp, cfg_thread_context = empty_thread_context\<lparr>ctx_stack_pointer := 0x1010\<rparr>\<rparr>"

definition example_bootstrap :: initial_user_runtime_bootstrap where
  "example_bootstrap = \<lparr>boot_process_count = 2, boot_initial_process_index = 0,
     boot_initial_processes = [example_configuration, example_configuration]\<rparr>"

lemma example_bootstrap_valid: "valid_bootstrap example_bootstrap"
  by (simp add: valid_bootstrap_def example_bootstrap_def example_configuration_def example_asp_wf
      USER_RUNTIME_MAX_INITIAL_PROCESSES_def)

lemma example_reachable:
  "\<exists>rt. reachable arch 0 rt \<and> has_runnable_thread rt \<and> m_current_thread rt = Some 0 \<and>
     thread_state rt 1 = USER_THREAD_STATE_READY"
proof -
  obtain rt where rt: "run_initial_user_runtime arch example_bootstrap (g_user_runtime (\<lambda>_. 0) 0) = Inr rt"
    "has_runnable_thread rt" "m_current_thread rt = Some 0" "thread_state rt 1 = USER_THREAD_STATE_READY"
    using valid_bootstrapD[OF example_bootstrap_valid, of arch "\<lambda>_. 0" 0] by (auto simp: example_bootstrap_def)
  then have "reachable arch 0 rt" unfolding reachable_def using example_bootstrap_valid kernel_run.start by blast
  with rt show ?thesis by blast
qed

lemma terminate_spec:
  assumes inv: "runtime_inv rt" and run: "has_runnable_thread rt" and cur: "m_current_thread rt = Some t"
    and tm: "terminate_current_thread arch code status rt = (b, rt')"
  shows "thread_state rt' t = USER_THREAD_STATE_EXITED" and "b \<longleftrightarrow> has_runnable_thread rt'"
    and "thread_state rt u = USER_THREAD_STATE_READY \<Longrightarrow> b"
proof -
  have wf: "runtime_wf rt" using inv by (simp add: runtime_inv_def)
  have tr: "thread_state rt t = USER_THREAD_STATE_RUNNING"
    using inv run cur by (auto simp: runtime_inv_def elim: running_current)
  obtain r rt1 where f: "fail_pending_call arch t status rt = (r, rt1)" by force
  let ?rt3 = "update_thread t (set_exit_status code \<circ> set_state USER_THREAD_STATE_EXITED) (clear_endpoints_owned_by t rt1)"
  have s: "schedule_next_ready_thread arch ?rt3 = (b, rt')"
    using tm cur f by (simp add: terminate_current_thread_def handle_thread_exit_def)
  note F = fail_pending_call_step[OF wf f]
  have wf3: "runtime_wf ?rt3" using F wf_clear_endpoints by (auto intro!: wf_update_thread simp: frame_simps)
  have c3: "m_current_thread ?rt3 = Some t" using F cur by (simp add: frame_simps)
  have live: "get_thread rt1 t \<noteq> None" using F cur runtime_wfD(6)[of rt1 t] by simp
  have st3: "thread_state ?rt3 v = (if v = t then USER_THREAD_STATE_EXITED else thread_state rt1 v)" for v
    using live by (auto simp: frame_simps split: option.split)
  have l3: "get_thread ?rt3 t \<noteq> None" using live by (simp add: frame_simps)
  have keep: "thread_state rt1 u = USER_THREAD_STATE_READY" if "thread_state rt u = USER_THREAD_STATE_READY" for u
    using F that by (auto elim!: fail_callE simp: abs_sched_def)
  have "thread_state rt' t = USER_THREAD_STATE_EXITED \<and> (b \<longleftrightarrow> has_runnable_thread rt') \<and>
      (thread_state rt u = USER_THREAD_STATE_READY \<longrightarrow> b)"
  proof (cases "find_next_ready_thread ?rt3 (Some t)")
    case None
    then have none: "thread_state ?rt3 v \<noteq> USER_THREAD_STATE_READY" for v
      using find_next_ready_None_iff[OF wf3 l3] by simp
    have rt': "rt' = ?rt3\<lparr>m_current_thread := None\<rparr>" and "\<not> b"
      using s None c3 by (auto simp: schedule_next_ready_thread_def)
    have "thread_state rt' t = USER_THREAD_STATE_EXITED" unfolding rt' thread_state_frames st3 by simp
    moreover have "thread_state rt u \<noteq> USER_THREAD_STATE_READY"
      using none[of u] keep[of u] tr unfolding st3 by (auto split: if_splits)
    ultimately show ?thesis using \<open>\<not> b\<close> by (simp add: rt' has_runnable_thread_def)
  next
    case (Some n)
    have "rt' = set_current_thread arch (Some n) ?rt3" "b"
      using s Some c3 by (auto simp: schedule_next_ready_thread_def)
    then show ?thesis using st3 find_next_ready_SomeD[OF Some] c3
      by (auto simp: set_current_frames thread_state_set_current switched_state_def has_runnable_thread_def)
  qed
  then show "thread_state rt' t = USER_THREAD_STATE_EXITED" "b \<longleftrightarrow> has_runnable_thread rt'"
    "thread_state rt u = USER_THREAD_STATE_READY \<Longrightarrow> b" by blast+
qed

section \<open>Properties\<close>

text \<open>
  The boot sequence never panics on a valid bootstrap: it returns a runtime that satisfies the
  kernel invariant, with the configured initial thread current and runnable.
\<close>

lemma boot_establishes_invariant:
  assumes "valid_bootstrap bs"
  shows "\<exists>rt. run_initial_user_runtime arch bs (g_user_runtime m root) = Inr rt \<and> runtime_inv rt \<and>
    has_runnable_thread rt \<and> m_current_thread rt = Some (unat (boot_initial_process_index bs))"
  using valid_bootstrapD[OF assms, of arch m root] by blast

text \<open>
  C7. Every system call refines the abstract scheduler: from a state that satisfies the kernel
  invariant and has a runnable thread, \<open>dispatch_syscall\<close> makes one step of \<open>sched_step\<close> on the
  abstraction of the runtime and ends in a state that satisfies the invariant again.
\<close>

theorem dispatch_syscall_refines:
  assumes "runtime_inv rt" and "has_runnable_thread rt" and "m_next_handle_value rt \<noteq> - 1"
    and "dispatch_syscall arch sc rt = (status, rt')"
  shows "sched_step (abs_sched rt) (abs_sched rt') \<and> runtime_inv rt'"
  using dispatch_refines[OF _ _ assms(3,2) _ assms(4)] sched_step_inv assms(1) unfolding runtime_inv_def by blast

theorem dispatch_syscall_refines_witness:
  "\<exists>rt sc. runtime_inv rt \<and> has_runnable_thread rt \<and>
     sched_step (abs_sched rt) (abs_sched (snd (dispatch_syscall X86_64 sc rt)))"
proof -
  obtain rt where r: "reachable X86_64 0 rt" and run: "has_runnable_thread rt" using example_reachable by blast
  note i = reachable_state[OF r]
  have "sched_step (abs_sched rt) (abs_sched (snd (dispatch_syscall X86_64 sc rt)))" for sc
    using dispatch_syscall_refines[OF i(1) run i(2) surjective_pairing[of "dispatch_syscall X86_64 sc rt"]] by simp
  then show ?thesis using i run by auto
qed

text \<open>
  C8. In every state that a booted system reaches within \<open>2 ^ 63\<close> steps, a thread is RUNNING exactly
  when it is the current thread of a system that has a runnable thread, so no two threads run.
\<close>

theorem running_iff_current:
  assumes "reachable arch n rt" and "n < 2 ^ 63"
  shows "thread_state rt t = USER_THREAD_STATE_RUNNING \<longleftrightarrow> m_current_thread rt = Some t \<and> has_runnable_thread rt"
proof -
  have inv: "sched_inv (abs_sched rt)" using reachable_state(1)[OF assms] by (simp add: runtime_inv_def)
  show ?thesis
    using sched_invD(1,2)[OF inv, of t] by (auto simp: has_runnable_thread_def)
qed

theorem running_iff_current_witness:
  "\<exists>rt. reachable X86_64 0 rt \<and> thread_state rt 0 = USER_THREAD_STATE_RUNNING"
proof -
  obtain rt where r: "reachable X86_64 0 rt" "has_runnable_thread rt" "m_current_thread rt = Some 0"
    using example_reachable by blast
  then show ?thesis using running_iff_current[OF r(1), of 0] by auto
qed

text \<open>
  C9. In every reachable state a thread is BLOCKED exactly when it is the client of one pending
  call to another thread, and then of exactly one: no thread is blocked without a call that can
  wake it, and no call waits on a thread that is not blocked.
\<close>

theorem blocked_iff_one_pending_call:
  assumes "reachable arch n rt" and "n < 2 ^ 63"
  shows "thread_state rt t = USER_THREAD_STATE_BLOCKED \<longleftrightarrow>
    (\<exists>!c. \<exists>ch. get_channel rt c = Some ch \<and> m_pending_client_thread ch = Some t \<and>
       m_pending_server_thread ch \<noteq> None \<and> m_pending_server_thread ch \<noteq> Some t)"
proof -
  have inv: "sched_inv (abs_sched rt)" using reachable_state(1)[OF assms] by (simp add: runtime_inv_def)
  have w: "waits_in (abs_sched rt) t c \<longleftrightarrow> (\<exists>ch. get_channel rt c = Some ch \<and> m_pending_client_thread ch = Some t \<and>
       m_pending_server_thread ch \<noteq> None \<and> m_pending_server_thread ch \<noteq> Some t)" for c
    by (auto simp: waits_in_def bind_eq_Some_conv pending_of_Some_iff)
  show ?thesis
    using sched_invD(3,4,5)[OF inv, unfolded abs_sched_sel] unfolding w[symmetric] by metis
qed

theorem blocked_iff_one_pending_call_witness:
  "\<exists>rt. reachable X86_64 0 rt \<and> \<not> (\<exists>c ch. get_channel rt c = Some ch \<and> m_pending_client_thread ch = Some 0 \<and>
     m_pending_server_thread ch \<noteq> None \<and> m_pending_server_thread ch \<noteq> Some 0 \<and>
     (\<forall>d dh. get_channel rt d = Some dh \<and> m_pending_client_thread dh = Some 0 \<and>
     m_pending_server_thread dh \<noteq> None \<and> m_pending_server_thread dh \<noteq> Some 0 \<longrightarrow> d = c))"
proof -
  obtain rt where r: "reachable X86_64 0 rt" "has_runnable_thread rt" "m_current_thread rt = Some 0"
    using example_reachable by blast
  have "thread_state rt 0 \<noteq> USER_THREAD_STATE_BLOCKED" using r(2,3) by (simp add: has_runnable_thread_def)
  then have "\<not> (\<exists>!c. \<exists>ch. get_channel rt c = Some ch \<and> m_pending_client_thread ch = Some 0 \<and>
       m_pending_server_thread ch \<noteq> None \<and> m_pending_server_thread ch \<noteq> Some 0)"
    using blocked_iff_one_pending_call[OF r(1), of 0] by simp
  then show ?thesis using r(1) by blast
qed

text \<open>
  C10. EXITED is final: from a reachable state, no step of the machine revives an exited thread.
\<close>

theorem exited_is_final:
  assumes "reachable arch n rt" and "n < 2 ^ 63" and "kernel_step arch rt rt'"
    and "thread_state rt t = USER_THREAD_STATE_EXITED"
  shows "thread_state rt' t = USER_THREAD_STATE_EXITED"
  using sched_step_exited[of "abs_sched rt" "abs_sched rt'" t] kernel_step_sched[OF assms(3)]
    reachable_state[OF assms(1,2)] assms(4) by (simp add: runtime_inv_def)

theorem exited_is_final_witness:
  "\<exists>rt rt'. reachable AARCH64 1 rt \<and> kernel_step AARCH64 rt rt' \<and> thread_state rt' 0 = USER_THREAD_STATE_EXITED"
proof -
  obtain rt where r: "reachable AARCH64 0 rt" "has_runnable_thread rt" "m_current_thread rt = Some 0"
    "thread_state rt 1 = USER_THREAD_STATE_READY"
    using example_reachable by blast
  let ?rt1 = "snd (terminate_current_thread AARCH64 (scast STATUS_FAULT) STATUS_FAULT rt)"
  have k: "kernel_step AARCH64 rt ?rt1" using r(2) by (rule kernel_step.emulated_fault[OF refl])
  have "reachable AARCH64 1 ?rt1" using r(1) k unfolding reachable_def by (metis One_nat_def kernel_run.step)
  moreover have "thread_state ?rt1 0 = USER_THREAD_STATE_EXITED" "has_runnable_thread ?rt1"
    using terminate_spec(1,2)[OF reachable_state(1)[OF r(1)] r(2,3) surjective_pairing]
      terminate_spec(3)[OF reachable_state(1)[OF r(1)] r(2,3) surjective_pairing r(4)] by auto
  ultimately show ?thesis
    using exited_is_final[of AARCH64 1 ?rt1 "?rt1\<lparr>host_memory := \<lambda>_. 0\<rparr>" 0] kernel_step.user[of ?rt1 AARCH64 "\<lambda>_. 0"]
    by auto
qed

text \<open>
  C11. When the current thread exits (by the system call or because it faulted in the emulator), it
  is EXITED afterwards; the runtime reports a next thread exactly when one is runnable; and it does
  find one whenever another thread was READY.
\<close>

theorem thread_exit_schedules:
  assumes "runtime_inv rt" and "has_runnable_thread rt" and "m_current_thread rt = Some t"
    and "terminate_current_thread arch code status rt = (scheduled, rt')"
  shows "thread_state rt' t = USER_THREAD_STATE_EXITED \<and> (scheduled \<longleftrightarrow> has_runnable_thread rt') \<and>
    ((\<exists>u. thread_state rt u = USER_THREAD_STATE_READY) \<longrightarrow> scheduled)"
  using terminate_spec[OF assms] by blast

theorem thread_exit_schedules_witness:
  "\<exists>rt. m_current_thread rt = Some 0 \<and> fst (terminate_current_thread X86_64 7 STATUS_PEER_CLOSED rt)"
proof -
  obtain rt where r: "reachable X86_64 0 rt" "has_runnable_thread rt" "m_current_thread rt = Some 0"
    "thread_state rt 1 = USER_THREAD_STATE_READY"
    using example_reachable by blast
  show ?thesis
    using thread_exit_schedules[OF reachable_state(1)[OF r(1)] r(2,3) surjective_pairing] r(3,4) by (metis zero_less_numeral zero_less_power)
qed

text \<open>
  Scheduling is round robin: the next thread after a live thread \<open>t\<close> is the first READY one in
  the cyclic order \<open>t + 1, t + 2, ...\<close> of the slots, with \<open>t\<close> itself last; there is none exactly
  when no thread is READY.
\<close>

lemma find_next_ready_round_robin:
  assumes "runtime_inv rt" and "get_thread rt t \<noteq> None"
  shows "find_next_ready_thread rt (Some t) =
      find (\<lambda>i. thread_state rt i = USER_THREAD_STATE_READY)
        (map (\<lambda>k. (t + 1 + k) mod USER_RUNTIME_MAX_THREADS) [0..<USER_RUNTIME_MAX_THREADS]) \<and>
    (find_next_ready_thread rt (Some t) = None \<longleftrightarrow> (\<forall>n. thread_state rt n \<noteq> USER_THREAD_STATE_READY))"
proof
  have wf: "runtime_wf rt" using assms(1) by (simp add: runtime_inv_def)
  have t: "t < 4" using thread_slot_bound[OF wf assms(2)] by (simp add: USER_RUNTIME_MAX_THREADS_def)
  have "[t + 1..<4] @ [0..<t + 1] = map (\<lambda>k. (t + 1 + k) mod 4) [0..<4]"
  proof -
    have "t = 0 \<or> t = 1 \<or> t = 2 \<or> t = 3" using t by auto
    then show ?thesis by (elim disjE) (simp_all add: upt_rec)
  qed
  then show "find_next_ready_thread rt (Some t) = find (\<lambda>i. thread_state rt i = USER_THREAD_STATE_READY)
        (map (\<lambda>k. (t + 1 + k) mod USER_RUNTIME_MAX_THREADS) [0..<USER_RUNTIME_MAX_THREADS])"
    using find_next_ready_scan[OF assms(2)] t by (simp add: USER_RUNTIME_MAX_THREADS_def)
  show "find_next_ready_thread rt (Some t) = None \<longleftrightarrow> (\<forall>n. thread_state rt n \<noteq> USER_THREAD_STATE_READY)"
    using find_next_ready_None_iff[OF wf assms(2)] .
qed

end
