(* ===== verification/Rpc_Properties.thy ===== *)
theory Rpc_Properties
  imports Runtime_Invariant
begin

text \<open>
  What an RPC promises to its two ends: where the request lands and how the server enters its
  callback, what a failing call leaves alone, that completion restores the server and resumes the
  client with the callback's status, that no system call touches memory of a third process, and
  the corner cases in which the runtime does not keep these promises.
\<close>

section \<open>A call that begins\<close>

text \<open>The server thread of a channel's endpoint, as \<open>rpc_call\<close> finds it.\<close>

lemma rpc_call_ok:
  assumes wf: "runtime_wf rt" and cur: "m_current_thread rt = Some a"
    and "rpc_call arch a p sc rt = (STATUS_OK, rt')"
  obtains c ch e b th m where "find_channel_by_handle rt (sc_argument0 sc) = Some c"
    and "get_channel rt c = Some ch" and "is_owned_by p ch" and "\<not> channel_is_busy ch"
    and "m_endpoint ch = Some e" and "e < length (m_endpoints rt)"
    and "m_is_in_use (m_endpoints rt ! e)" and "\<not> m_is_busy (m_endpoints rt ! e)"
    and "m_owner_thread (m_endpoints rt ! e) = Some b" and "get_thread rt b = Some th"
    and "m_state th \<noteq> USER_THREAD_STATE_EXITED"
    and "prepare_server_thread arch (m_endpoints rt ! e) b p (sc_argument1 sc) (sc_argument2 sc) rt =
      (STATUS_OK, update_thread b (redirect arch (m_endpoints rt ! e) (request_address rt b (sc_argument2 sc))
        (sc_argument2 sc)) (rt\<lparr>host_memory := m\<rparr>))"
    and "get_channel rt' c = Some (open_call a b th ch)"
    and "m_endpoints rt' = (m_endpoints rt)[e := set_busy True (m_endpoints rt ! e)]"
    and "m_current_thread rt' = Some b" and "host_memory rt' = m"
    and "get_thread rt' b = Some (set_state (if a \<noteq> b \<and> m_state th = USER_THREAD_STATE_READY
           then USER_THREAD_STATE_RUNNING else m_state th)
        (redirect arch (m_endpoints rt ! e) (request_address rt b (sc_argument2 sc)) (sc_argument2 sc) th))"
    and "a \<noteq> b \<Longrightarrow> thread_state rt' a = USER_THREAD_STATE_BLOCKED"
    and "\<And>d. d \<noteq> c \<Longrightarrow> get_channel rt' d = get_channel rt d"
  using assms(3)
proof (cases rule: rpc_call_cases)
  case (Ok c ch e b rt1)
  have el: "e < length (m_endpoints rt)"
    using runtime_wfD(4)[OF wf Ok(3)] Ok(5) by (auto simp: wf_channel_def)
  have ep: "wf_endpoint rt (m_endpoints rt ! e)" using runtime_wfD(5)[OF wf el] .
  obtain th where th: "get_thread rt b = Some th"
    using ep Ok(7,9) by (auto simp: wf_endpoint_def get_process_context_def split: option.splits)
  let ?red = "redirect arch (m_endpoints rt ! e) (request_address rt b (sc_argument2 sc)) (sc_argument2 sc)"
  obtain m where rt1: "rt1 = update_thread b ?red (rt\<lparr>host_memory := m\<rparr>)"
    using Ok(11) by (rule prepare_server_thread_cases) auto
  have la: "get_thread rt a \<noteq> None" using runtime_wfD(6)[OF wf cur] .
  have oc: "open_call a b (?red th) = open_call a b th" by (rule ext) (simp add: open_call_def frame_simps)
  have bc: "begin_call c a b rt1 = set_endpoint_busy (Some e) True (update_channel c (open_call a b th) rt1)"
    using begin_call_eq[of rt1 c ch b "?red th" a] Ok(3,5) th oc by (simp add: rt1 frame_simps)
  note rt' = Ok(12)[unfolded bc, unfolded rt1]
  have endp: "m_endpoints rt' = (m_endpoints rt)[e := set_busy True (m_endpoints rt ! e)]"
    by (simp add: rt' set_endpoint_busy_def frame_simps)
  have sb: "thread_state rt b = m_state th" by (simp add: thread_state_live th)
  show thesis
  proof (rule that[OF Ok(2,3,4,6,5) el Ok(7,8,9) th])
    show "m_state th \<noteq> USER_THREAD_STATE_EXITED" using Ok(10) sb by simp
    show "prepare_server_thread arch (m_endpoints rt ! e) b p (sc_argument1 sc) (sc_argument2 sc) rt =
      (STATUS_OK, update_thread b ?red (rt\<lparr>host_memory := m\<rparr>))" using Ok(11) rt1 by simp
    show "get_channel rt' c = Some (open_call a b th ch)"
      using Ok(3) by (simp add: rt' frame_simps)
    show "m_endpoints rt' = (m_endpoints rt)[e := set_busy True (m_endpoints rt ! e)]" by (rule endp)
    show "m_current_thread rt' = Some b" using cur by (simp add: rt' frame_simps)
    show "host_memory rt' = m" by (simp add: rt' frame_simps)
    show "get_thread rt' b = Some (set_state (if a \<noteq> b \<and> m_state th = USER_THREAD_STATE_READY
           then USER_THREAD_STATE_RUNNING else m_state th) (?red th))"
      using cur th by (auto simp: rt' frame_simps switched_state_def thread_state_def set_state_def)
    show "a \<noteq> b \<Longrightarrow> thread_state rt' a = USER_THREAD_STATE_BLOCKED"
      using la by (auto simp: rt' frame_simps switched_state_def split: option.splits)
    show "\<And>d. d \<noteq> c \<Longrightarrow> get_channel rt' d = get_channel rt d" by (simp add: rt' frame_simps)
  qed
qed simp

section \<open>Completion\<close>

lemma complete_call_cross:
  assumes f: "find_pending_channel_by_server_thread rt b = Some c" and ch: "get_channel rt c = Some ch"
    and a: "m_pending_client_thread ch = Some a" and ab: "a \<noteq> b"
    and tha: "get_thread rt a = Some tha" and thb: "get_thread rt b = Some thb"
    and "complete_call arch b status rt = (r, rt')"
  shows "r = STATUS_OK" and "m_current_thread rt' = Some a"
    and "get_thread rt' a = Some (set_state USER_THREAD_STATE_RUNNING
           (prepare_syscall_resume arch status (set_state USER_THREAD_STATE_READY tha)))"
    and "get_thread rt' b = Some (set_state (if m_current_thread rt = Some b \<and> m_saved_server_state ch = USER_THREAD_STATE_RUNNING
           then USER_THREAD_STATE_READY else m_saved_server_state ch) (restore_server ch thb))"
    and "get_channel rt' c = Some (clear_call ch)"
    and "host_memory rt' = host_memory rt"
proof -
  have b: "m_pending_server_thread ch = Some b" using find_pending_SomeD[OF f] ch by auto
  have rt': "rt' = set_current_thread arch (Some a) (update_thread a
      (prepare_syscall_resume arch status \<circ> set_state USER_THREAD_STATE_READY)
      (cancel_call c (update_thread b (restore_server ch) rt)))" and r: "r = STATUS_OK"
    using assms(7) f ch a ab by (simp_all add: complete_call_def finish_call_eq[OF ch b])
  show "r = STATUS_OK" by (rule r)
  show "m_current_thread rt' = Some a" by (simp add: rt' frame_simps)
  show "get_thread rt' a = Some (set_state USER_THREAD_STATE_RUNNING
           (prepare_syscall_resume arch status (set_state USER_THREAD_STATE_READY tha)))"
    using tha ab by (auto simp: rt' frame_simps switched_state_def thread_state_def)
  show "get_thread rt' b = Some (set_state (if m_current_thread rt = Some b \<and> m_saved_server_state ch = USER_THREAD_STATE_RUNNING
           then USER_THREAD_STATE_READY else m_saved_server_state ch) (restore_server ch thb))"
    using thb ab by (auto simp: rt' frame_simps switched_state_def thread_state_def)
  show "get_channel rt' c = Some (clear_call ch)" using ch by (simp add: rt' frame_simps)
  show "host_memory rt' = host_memory rt" by (simp add: rt' frame_simps)
qed

text \<open>
  C19. Round trip of an RPC between two threads. Let \<open>rpc_call\<close> on channel \<open>c\<close> succeed and hand the
  processor to the server thread \<open>b\<close>. Whatever the system does until \<open>b\<close> completes that call (the
  channel record is unchanged and is the pending call of \<open>b\<close> that the lookup finds), completion
  succeeds, gives \<open>b\<close> back the user context, the preserved general and SIMD registers and the
  scheduling state it had before the call, makes the channel idle, and makes the client the
  running thread, resuming after its system call with the callback's status.
\<close>

theorem rpc_call_complete_roundtrip:
  assumes "runtime_inv rt" and "has_runnable_thread rt" and "m_current_thread rt = Some a"
    and "rpc_call arch a p sc rt = (STATUS_OK, rt1)" and "m_current_thread rt1 = Some b" and "b \<noteq> a"
    and "find_channel_by_handle rt (sc_argument0 sc) = Some c"
    and "get_channel rt2 c = get_channel rt1 c"
    and "find_pending_channel_by_server_thread rt2 b = Some c"
    and "get_thread rt2 a = Some tha" and "get_thread rt2 b = Some thb"
    and "complete_call arch b status rt2 = (r, rt3)"
  shows "\<exists>th tha' thb' ch'. get_thread rt b = Some th \<and> get_thread rt3 b = Some thb' \<and> get_thread rt3 a = Some tha' \<and>
    get_channel rt3 c = Some ch' \<and> r = STATUS_OK \<and> m_current_thread rt3 = Some a \<and>
    m_user_context thb' = m_user_context th \<and> m_state thb' = m_state th \<and>
    m_arch_preserved_registers thb' = m_arch_preserved_registers th \<and>
    m_arch_preserved_simd_qwords thb' = m_arch_preserved_simd_qwords th \<and>
    \<not> channel_is_busy ch' \<and> m_state tha' = USER_THREAD_STATE_RUNNING \<and>
    resume_kind (m_resume_state tha') = USER_THREAD_RESUME_KIND_SYSCALL \<and>
    resume_status_code (m_resume_state tha') = status \<and>
    resume_instruction_pointer (m_resume_state tha') = ctx_instruction_pointer (m_user_context tha) \<and>
    resume_stack_pointer (m_resume_state tha') = ctx_stack_pointer (m_user_context tha) \<and>
    resume_flags (m_resume_state tha') = ctx_flags (m_user_context tha)"
proof -
  have wf: "runtime_wf rt" and inv: "sched_inv (abs_sched rt)" using assms(1) by (simp_all add: runtime_inv_def)
  have ra: "thread_state rt a = USER_THREAD_STATE_RUNNING"
    using running_current[OF inv assms(2)] assms(3) by auto
  obtain ch th where th: "get_thread rt b = Some th" and ch: "get_channel rt1 c = Some (open_call a b th ch)"
  proof (rule rpc_call_ok[OF wf assms(3,4)])
    fix c' ch e b' th m
    assume "find_channel_by_handle rt (sc_argument0 sc) = Some c'" "get_thread rt b' = Some th"
      "get_channel rt1 c' = Some (open_call a b' th ch)" "m_current_thread rt1 = Some b'"
    then show thesis using that[of th ch] assms(5,7) by simp
  qed
  have nr: "m_state th \<noteq> USER_THREAD_STATE_RUNNING"
    using sched_inv_running(3)[OF inv _ _, of a b] assms(3,6) ra th by (auto simp: thread_state_def)
  have ch2: "get_channel rt2 c = Some (open_call a b th ch)" using ch assms(8) by simp
  have pa: "m_pending_client_thread (open_call a b th ch) = Some a" by (simp add: open_call_def)
  note C = complete_call_cross[OF assms(9) ch2 pa _ assms(10,11,12)]
  have nb: "\<not> channel_is_busy (clear_call (open_call a b th ch))" by (simp add: channel_is_busy_def clear_call_def)
  show ?thesis
    using C assms(6) th nr nb
    by (simp add: frame_simps) (simp add: open_call_def thread_op_defs Let_def split: target_arch.split)
qed

section \<open>A concrete system for the witnesses\<close>

text \<open>
  Two processes with one thread each. Thread 1 has registered endpoint 0 with its callback and
  completion routine; process 0 has opened channel 0 to it, under handle 5; thread 0 runs.
\<close>

definition example_endpoint :: rpc_endpoint where
  "example_endpoint = \<lparr>m_is_in_use = True, m_is_busy = False,
     m_name = 0x74 # replicate 31 0, m_owner_process = Some 1, m_owner_thread = Some 1,
     m_callback_address = 0x1004, m_completion_address = 0x1008\<rparr>"

definition example_thread :: "process_ref \<Rightarrow> user_thread_state \<Rightarrow> u32 \<Rightarrow> handle_t \<Rightarrow> thread" where
  "example_thread p s k h =
     set_state s (boot_thread p (empty_thread_context\<lparr>ctx_stack_pointer := 0x1010\<rparr>) k h)"

definition example_process :: "u32 \<Rightarrow> handle_t \<Rightarrow> process" where
  "example_process k h = boot_process example_configuration k h"

definition example_channel :: rpc_channel where
  "example_channel = make_rpc_channel 0 0 1 5"

definition example_runtime :: user_runtime where
  "example_runtime =
     (boot_runtime (\<lambda>_. 0) 0 [Some (example_process 1 1), Some (example_process 2 3), None, None]
        [Some (example_thread 0 USER_THREAD_STATE_RUNNING 1 2),
         Some (example_thread 1 USER_THREAD_STATE_READY 2 4), None, None] 3 6)
       \<lparr>m_endpoints := example_endpoint # replicate 7 empty_endpoint,
        m_channels := \<lparr>m_items = Some example_channel # replicate 7 None, m_next_object_id = 2, m_bound = True\<rparr>,
        m_current_thread := Some 0\<rparr>"

lemma example_runtime_sel [simp]:
  "get_thread example_runtime t = (if t = 0 then Some (example_thread 0 USER_THREAD_STATE_RUNNING 1 2)
     else if t = 1 then Some (example_thread 1 USER_THREAD_STATE_READY 2 4) else None)"
  "get_process example_runtime p = (if p = 0 then Some (example_process 1 1)
     else if p = 1 then Some (example_process 2 3) else None)"
  "get_channel example_runtime c = (if c = 0 then Some example_channel else None)"
  "m_endpoints example_runtime = example_endpoint # replicate 7 empty_endpoint"
  "m_current_thread example_runtime = Some 0"
  "length (m_items (m_threads example_runtime)) = 4"
  "host_memory example_runtime = (\<lambda>_. 0)"
  "m_next_handle_value example_runtime = 6"
  by (auto simp: example_runtime_def get_thread_def get_process_def get_channel_def get_by_index_def boot_runtime_def
      nth_Cons' runtime_reset_def rpc_runtime_reset_def g_user_runtime_def Let_def)

lemma example_sel [simp]:
  "m_state (example_thread p s k h) = s"
  "m_process (example_thread p s k h) = Some p"
  "ctx_stack_pointer (m_user_context (example_thread p s k h)) = 0x1010"
  "m_address_space (example_process k h) = example_asp"
  by (simp_all add: example_thread_def example_process_def boot_thread_def boot_process_def example_configuration_def
      set_state_def acquire_process_reference_def make_thread_def make_process_def)

lemma example_runtime_wf: "runtime_wf example_runtime"
  by (auto simp: runtime_wf_def USER_RUNTIME_MAX_THREADS_def USER_RUNTIME_MAX_RPC_ENDPOINTS_def wf_thread_def
      wf_channel_def example_channel_def make_rpc_channel_def wf_endpoint_def example_endpoint_def empty_endpoint_def
      RPC_ENDPOINT_NAME_BUFFER_SIZE_def RINGOS_RPC_ENDPOINT_NAME_MAX_LENGTH_def get_process_context_def
      in_set_replicate example_asp_wf split: if_splits)

lemma example_runtime_inv: "runtime_inv example_runtime"
proof -
  have ts: "thread_state example_runtime t = (if t = 0 then USER_THREAD_STATE_RUNNING
      else if t = 1 then USER_THREAD_STATE_READY else USER_THREAD_STATE_EMPTY)" for t
    by (simp add: thread_state_def)
  have idle: "calls (abs_sched example_runtime) c = None" for c
    by (simp add: example_channel_def make_rpc_channel_def)
  have "sched_inv (abs_sched example_runtime)"
    by (rule sched_invI) (auto simp: ts idle waits_in_def simp del: abs_sched_sel(3) split: if_splits)
  moreover have "channel_handles_ok example_runtime"
  proof -
    have "get_by_index (m_channels example_runtime) c = (if c = 0 then Some example_channel else None)" for c
      using example_runtime_sel(3)[of c] by (simp add: get_channel_def)
    then show ?thesis
      by (auto simp: channel_handles_ok_def pool_invar_def example_channel_def make_rpc_channel_def split: if_splits)
  qed
  ultimately show ?thesis using example_runtime_wf by (simp add: runtime_inv_def)
qed

lemma example_runnable: "has_runnable_thread example_runtime"
  by (simp add: has_runnable_thread_def thread_state_def)

definition example_call :: user_syscall_context where
  "example_call = make_user_syscall_context SYSCALL_RPC_CALL 0 0 0 5 0x1008 8 0 0 0"

lemma example_xlate_at:
  "k < 16 \<Longrightarrow> xlate example_asp (0x1000 + of_nat k) = Some (0x8000 + of_nat k)"
proof -
  assume "k < 16"
  then have "unat (0x1000 + of_nat k :: u64) = 0x1000 + k" by (simp add: unat_add_u64 unat_of_nat_u64)
  then show ?thesis using \<open>k < 16\<close> by (simp add: example_asp_xlate)
qed

lemma example_xlate_below: "k < 8 \<Longrightarrow> xlate example_asp (0xFF8 + of_nat k) = None"
proof -
  assume "k < 8"
  then have "unat (0xFF8 + of_nat k :: u64) = 0xFF8 + k" by (simp add: unat_add_u64 unat_of_nat_u64)
  then show ?thesis using \<open>k < 8\<close> by (simp add: example_asp_xlate)
qed

lemma example_xlate_high: "k < 8 \<Longrightarrow> xlate example_asp (0x1008 + of_nat k) = Some (0x8008 + of_nat k)"
  using example_xlate_at[of "8 + k"] by (simp add: add.assoc[symmetric])

lemma example_mapped: "as_chunks.mapped example_asp 0x1000 8" "as_chunks.mapped example_asp 0x1008 8"
  using example_xlate_at example_xlate_high by (auto simp: as_chunks.mapped_def)

lemma example_validate:
  assumes "get_address_space_info rt q = example_asp"
  shows "validate_user_range rt q 0x1004 1" and "validate_user_range rt q 0x1008 1"
  using assms by (simp_all add: validate_user_range_def validate_address_space_range_def
      validate_range_loop_mapped[OF example_asp_wf] as_chunks.mapped_def example_asp_xlate)

lemma example_find_channel: "find_channel_by_handle example_runtime 5 = Some 0"
  by (simp add: find_channel_by_handle_def find_by_handle_def example_runtime_def slot_has_handle_def
      example_channel_def make_rpc_channel_def)

lemma example_channel_sel [simp]:
  "m_endpoint example_channel = Some 0" "is_owned_by p example_channel \<longleftrightarrow> p = 0" "\<not> channel_is_busy example_channel"
  by (auto simp: example_channel_def make_rpc_channel_def is_owned_by_def channel_is_busy_def)

text \<open>The example call succeeds on every system that agrees with the example on what it reads.\<close>

lemma example_prepare:
  assumes asp: "get_address_space_info rt 0 = example_asp" "get_address_space_info rt q = example_asp"
    and ep: "m_owner_process ep = Some q" "m_callback_address ep = 0x1004" "m_completion_address ep = 0x1008"
    and sp: "user_stack_pointer rt b = 0x1010"
  shows "\<exists>rt1. prepare_server_thread AARCH64 ep b 0 0x1008 8 rt = (STATUS_OK, rt1)"
proof -
  have al: "align_down 0x1008 16 = (0x1000 :: u64)" by (simp add: align_down_def)
  obtain s m where c: "copy_between_loop example_asp example_asp (host_memory rt) 0x1008 0x1000 8 = (s, m)" by force
  have "unat (8 :: u64) = 8" by simp
  then have "s = STATUS_OK"
    using copy_between_status[OF example_asp_wf example_asp_wf, of "host_memory rt" "0x1008" "0x1000" 8]
      example_mapped unfolding c by simp
  then show ?thesis
    using c example_validate[OF asp(2)]
    by (simp add: prepare_server_thread_def prepare_server_thread_arm64_def ep sp
        RINGOS_RPC_MAX_REQUEST_SIZE_def copy_request_def copy_between_user_processes_def asp al)
qed

lemma example_call_sel [simp]:
  "sc_argument0 example_call = 5" "sc_argument1 example_call = 0x1008" "sc_argument2 example_call = 8"
  "sc_syscall_number example_call = SYSCALL_RPC_CALL"
  by (simp_all add: example_call_def make_user_syscall_context_def)

lemma example_call_succeeds:
  assumes "get_address_space_info rt 0 = example_asp" and "get_address_space_info rt q = example_asp"
    and "find_channel_by_handle rt (sc_argument0 sc) = Some 0" and "get_channel rt 0 = Some example_channel"
    and ep: "m_endpoints rt ! 0 = ep" "m_owner_process ep = Some q" "m_owner_thread ep = Some b"
      "m_callback_address ep = 0x1004" "m_completion_address ep = 0x1008" "m_is_in_use ep" "\<not> m_is_busy ep"
    and "user_stack_pointer rt b = 0x1010" and "thread_state rt b \<noteq> USER_THREAD_STATE_EXITED"
    and "sc_argument0 sc = 5" and "sc_argument1 sc = 0x1008" and "sc_argument2 sc = 8"
  shows "\<exists>rt1. rpc_call AARCH64 a 0 sc rt = (STATUS_OK, rt1)"
proof -
  obtain rt1 where p: "prepare_server_thread AARCH64 ep b 0 0x1008 8 rt = (STATUS_OK, rt1)"
    using example_prepare[OF assms(1,2) ep(2,4,5) assms(12)] by blast
  show ?thesis using assms(3) by (simp add: rpc_call_def assms(4,13-) RINGOS_RPC_MAX_REQUEST_SIZE_def ep p Let_def)
qed

lemma example_call_ok: "\<exists>rt1. rpc_call AARCH64 0 0 example_call example_runtime = (STATUS_OK, rt1)"
  by (rule example_call_succeeds[where q = 1 and b = 1 and ep = example_endpoint])
    (simp_all add: get_address_space_info_def example_find_channel example_endpoint_def user_stack_pointer_def
      thread_state_def)

lemma example_call_reaches:
  assumes wf: "runtime_wf rt" and cur: "m_current_thread rt = Some 0" and f: "find_channel_by_handle rt 5 = Some 0"
    and ch: "get_channel rt 0 = Some example_channel" and ep: "m_owner_thread (m_endpoints rt ! 0) = Some 1"
    and c: "rpc_call AARCH64 0 0 example_call rt = (STATUS_OK, rt1)"
  shows "m_current_thread rt1 = Some 1 \<and> get_thread rt1 1 \<noteq> None \<and> get_thread rt1 0 \<noteq> None \<and>
      find_pending_channel_by_server_thread rt1 1 = Some 0"
proof (rule rpc_call_ok[OF wf cur c])
  fix c' ch' e b th m
  assume *: "find_channel_by_handle rt (sc_argument0 example_call) = Some c'"
    "get_channel rt c' = Some ch'" "m_endpoint ch' = Some e"
    "m_owner_thread (m_endpoints rt ! e) = Some b" "m_current_thread rt1 = Some b"
    "get_channel rt1 c' = Some (open_call 0 b th ch')" "0 \<noteq> b \<Longrightarrow> thread_state rt1 0 = USER_THREAD_STATE_BLOCKED"
    "get_thread rt1 b = Some (set_state (if 0 \<noteq> b \<and> m_state th = USER_THREAD_STATE_READY
         then USER_THREAD_STATE_RUNNING else m_state th)
      (redirect AARCH64 (m_endpoints rt ! e) (request_address rt b (sc_argument2 example_call))
         (sc_argument2 example_call) th))"
  have "c' = 0" "e = 0"
    using *(1-3) f ch by auto
  then have "b = 1" using *(4) ep by simp
  moreover have "get_thread rt1 0 \<noteq> None" using *(7) \<open>b = 1\<close> by (auto simp: thread_state_def split: option.splits)
  moreover have "find_pending_channel_by_server_thread rt1 1 = Some 0"
    using *(6) \<open>c' = 0\<close> \<open>b = 1\<close> by (auto simp: find_pending_channel_by_server_thread_def find_index_Some_iff has_pending_server_def
        get_channel_def get_by_index_def open_call_def split: if_splits)
  ultimately show ?thesis using *(5,8) by simp
qed

lemma example_call_state:
  assumes "rpc_call AARCH64 0 0 example_call example_runtime = (STATUS_OK, rt1)"
  shows "m_current_thread rt1 = Some 1 \<and> get_thread rt1 1 \<noteq> None \<and> get_thread rt1 0 \<noteq> None \<and>
      find_pending_channel_by_server_thread rt1 1 = Some 0"
  by (rule example_call_reaches[OF example_runtime_wf _ _ _ _ assms])
    (simp_all add: example_find_channel, simp add: example_endpoint_def)

theorem rpc_call_complete_roundtrip_witness:
  "\<exists>rt1 rt3. rpc_call AARCH64 0 0 example_call example_runtime = (STATUS_OK, rt1) \<and>
     complete_call AARCH64 1 STATUS_NOT_FOUND rt1 = (STATUS_OK, rt3) \<and> m_current_thread rt3 = Some 0"
proof -
  obtain rt1 where c: "rpc_call AARCH64 0 0 example_call example_runtime = (STATUS_OK, rt1)"
    using example_call_ok by blast
  have f: "find_channel_by_handle example_runtime (sc_argument0 example_call) = Some 0"
    by (simp add: example_find_channel)
  note r1 = example_call_state[OF c]
  then obtain tha thb where t: "get_thread rt1 0 = Some tha" "get_thread rt1 1 = Some thb"
    and pd: "find_pending_channel_by_server_thread rt1 1 = Some 0" by auto
  obtain r rt3 where k: "complete_call AARCH64 1 STATUS_NOT_FOUND rt1 = (r, rt3)" by force
  show ?thesis
    using rpc_call_complete_roundtrip[OF example_runtime_inv example_runnable _ c _ _ f refl pd t(1,2) k] r1 c k by auto
qed

section \<open>Delivery of the request\<close>

lemma align_down_16:
  shows "align_down v 16 \<le> v" and "align_down v 16 AND 15 = 0"
proof -
  show "align_down v 16 \<le> v" by (simp add: align_down_def word_and_le2)
  have "(v AND NOT 15) AND 15 = v AND (NOT 15 AND 15)" by (simp add: and.assoc)
  then show "align_down v 16 AND 15 = 0" by (simp add: align_down_def)
qed

text \<open>What a successful preparation has checked and written, on either architecture.\<close>

lemma prepare_server_thread_memory:
  assumes "prepare_server_thread arch ep b cp ca n rt = (STATUS_OK, rt1)"
  obtains q m1 where "m_owner_process ep = Some q" and "n < user_stack_pointer rt b"
    and "copy_between_user_processes (get_address_space_info rt cp) ca (get_address_space_info rt q)
           (request_address rt b n) n (host_memory rt) = (STATUS_OK, m1)"
    and "arch = AARCH64 \<Longrightarrow> host_memory rt1 = m1"
    and "arch = X86_64 \<Longrightarrow> write_user_bytes (get_address_space_info rt q) m1 (request_address rt b n - 8)
           (le_bytes 8 (m_completion_address ep)) = (STATUS_OK, host_memory rt1)"
proof -
  have sp: "n < s" if "\<not> s \<le> n + 8" "\<not> RINGOS_RPC_MAX_REQUEST_SIZE < n" for s :: u64
  proof -
    have "unat (n + 8) = unat n + 8"
      using that(2) unat_add_no_wrap[of n 8] by (simp add: RINGOS_RPC_MAX_REQUEST_SIZE_def word_less_nat_alt)
    then show ?thesis using that(1) by (simp add: word_less_nat_alt word_le_nat_alt)
  qed
  have gas: "get_address_space_info (rt\<lparr>host_memory := m\<rparr>) q = get_address_space_info rt q" for m q
    by (simp add: get_address_space_info_def frame_simps)
  have "\<exists>q m1. m_owner_process ep = Some q \<and> n < user_stack_pointer rt b \<and>
    copy_between_user_processes (get_address_space_info rt cp) ca (get_address_space_info rt q)
      (request_address rt b n) n (host_memory rt) = (STATUS_OK, m1) \<and> (arch = AARCH64 \<longrightarrow> host_memory rt1 = m1) \<and>
    (arch = X86_64 \<longrightarrow> write_user_bytes (get_address_space_info rt q) m1 (request_address rt b n - 8)
           (le_bytes 8 (m_completion_address ep)) = (STATUS_OK, host_memory rt1))"
    using assms
    by (auto simp: prepare_server_thread_def prepare_server_thread_x64_def prepare_server_thread_arm64_def
        copy_request_def push_return_address_def Let_def request_address_def frame_simps gas not_le intro: sp
        split: option.splits if_splits target_arch.splits prod.splits)
  then show thesis using that by blast
qed

lemma get_address_space_wf:
  "runtime_wf rt \<Longrightarrow> wf_address_space (get_address_space_info rt p)"
  by (auto simp: get_address_space_info_def runtime_wf_def wf_empty_address_space split: option.split)

lemma request_below_stack:
  assumes "n < user_stack_pointer rt b"
  shows "request_address rt b n AND 15 = 0"
    and "unat (request_address rt b n) + unat n \<le> unat (user_stack_pointer rt b)"
proof -
  have "unat (request_address rt b n) \<le> unat (user_stack_pointer rt b - n)"
    using align_down_16(1) by (simp add: request_address_def word_le_nat_alt[symmetric])
  also have "\<dots> = unat (user_stack_pointer rt b) - unat n"
    using assms by (simp add: unat_sub word_le_nat_alt word_less_nat_alt)
  finally show "unat (request_address rt b n) + unat n \<le> unat (user_stack_pointer rt b)"
    using assms by (simp add: word_less_nat_alt)
  show "request_address rt b n AND 15 = 0" using align_down_16(2) by (simp add: request_address_def)
qed

text \<open>The return address that the x64 path pushes below a delivered request leaves the request alone.\<close>

lemma push_below_request:
  assumes wf: "wf_address_space dp" and un: "unaliased dp (x - 8) (8 + n)" and r: "user_range dp x n bs m1"
    and w: "write_user_bytes dp m1 (x - 8) (le_bytes 8 v) = (STATUS_OK, m)"
  shows "user_range dp (x - 8) 8 (le_bytes 8 v) m" and "user_range dp x n bs m"
proof -
  have u8: "unat (8 :: u64) = 8" by simp
  have w': "write_user_bytes_loop dp m1 (x - 8) (le_bytes 8 v) 8 = (STATUS_OK, m)"
    using w by (simp add: write_user_bytes_def length_le_bytes)
  have ux: "unaliased dp (x - 8) 8" and dj: "host_range dp (x - 8) 8 \<inter> host_range dp x n = {}"
    using unaliased_split[of dp "x - 8" 8 n] un by simp_all
  have mp: "as_chunks.mapped dp (x - 8) (unat (8 :: u64))"
    using write_loop_status[OF wf, of m1 "x - 8" "le_bytes 8 v" 8] unfolding w' by (simp split: if_splits)
  show "user_range dp (x - 8) 8 (le_bytes 8 v) m"
    using write_loop_stores[OF wf mp, of "le_bytes 8 v" m1] ux unfolding w' u8 by (simp add: length_le_bytes)
  have "m y = m1 y" if "y \<in> host_range dp x n" for y
    using write_loop_confined[OF wf, of y "x - 8" 8 m1 "le_bytes 8 v"] dj that unfolding w' u8 by auto
  then show "user_range dp x n bs m" using user_range_cong[OF r] by blast
qed

lemma copy_delivers:
  assumes wf: "wf_address_space sp" "wf_address_space dp"
    and cp: "copy_between_user_processes sp s dp x n m = (STATUS_OK, m1)" and un: "unaliased dp x (unat n)"
    and dj: "host_range sp s (unat n) \<inter> host_range dp x (unat n) = {}" and r: "user_range sp s (unat n) bs m"
  shows "user_range dp x (unat n) bs m1"
proof -
  have c: "copy_between_loop sp dp m s x n = (STATUS_OK, m1)" using cp by (simp add: copy_between_user_processes_def)
  have "as_chunks.mapped dp x (unat n)" using copy_between_status[OF wf, of m s x n] c by (simp split: if_splits)
  from copy_between_stores[OF wf this un dj r] show ?thesis by (simp add: c)
qed

text \<open>What the server finds when a call has begun.\<close>

lemma call_delivers:
  assumes "runtime_inv rt" and "m_current_thread rt = Some a"
    and "rpc_call arch a p sc rt = (STATUS_OK, rt')" and "m_current_thread rt' = Some b"
    and "get_process_context rt b = Some q"
    and "x = request_address rt b (sc_argument2 sc)" and "n = unat (sc_argument2 sc)"
    and "user_range (get_address_space_info rt p) (sc_argument1 sc) n bs (host_memory rt)"
    and "unaliased (get_address_space_info rt q) (x - 8) (8 + n)"
    and "host_range (get_address_space_info rt p) (sc_argument1 sc) n \<inter>
           host_range (get_address_space_info rt q) (x - 8) (8 + n) = {}"
  shows "user_range (get_address_space_info rt q) x n bs (host_memory rt') \<and> x AND 15 = 0 \<and>
    unat x + n \<le> unat (user_stack_pointer rt b) \<and>
    (\<exists>th ep. get_thread rt' b = Some th \<and> ep \<in> set (m_endpoints rt) \<and> m_owner_thread ep = Some b \<and>
       m_owner_process ep = Some q \<and> resume_kind (m_resume_state th) = USER_THREAD_RESUME_KIND_RPC \<and>
       resume_instruction_pointer (m_resume_state th) = m_callback_address ep \<and>
       resume_argument0 (m_resume_state th) = x \<and> resume_argument1 (m_resume_state th) = sc_argument2 sc \<and>
       resume_stack_pointer (m_resume_state th) = callback_stack_pointer arch x \<and>
       (arch = X86_64 \<longrightarrow> user_range (get_address_space_info rt q) (x - 8) 8 (le_bytes 8 (m_completion_address ep))
          (host_memory rt')))"
proof (rule rpc_call_ok[OF _ assms(2,3)])
  show wf: "runtime_wf rt" using assms(1) by (simp add: runtime_inv_def)
  fix c ch e b' th m
  let ?ep = "m_endpoints rt ! e" and ?n = "sc_argument2 sc" and ?sp = "get_address_space_info rt p"
    and ?dp = "get_address_space_info rt q"
  assume e: "e < length (m_endpoints rt)" and use: "m_is_in_use ?ep" and ow: "m_owner_thread ?ep = Some b'"
    and cur: "m_current_thread rt' = Some b'" and hm: "host_memory rt' = m"
    and prep: "prepare_server_thread arch ?ep b' p (sc_argument1 sc) ?n rt =
      (STATUS_OK, update_thread b' (redirect arch ?ep (request_address rt b' ?n) ?n) (rt\<lparr>host_memory := m\<rparr>))"
    and th: "get_thread rt' b' = Some (set_state (if a \<noteq> b' \<and> m_state th = USER_THREAD_STATE_READY
           then USER_THREAD_STATE_RUNNING else m_state th) (redirect arch ?ep (request_address rt b' ?n) ?n th))"
  have b: "b' = b" using cur assms(4) by simp
  have op: "m_owner_process ?ep = Some q"
    using runtime_wfD(5)[OF wf e] use ow assms(5) b by (auto simp: wf_endpoint_def)
  have wfs: "wf_address_space ?sp" "wf_address_space ?dp" using get_address_space_wf[OF wf] by blast+
  obtain q' m1 where q': "m_owner_process ?ep = Some q'" and lt: "?n < user_stack_pointer rt b'"
    and cp: "copy_between_user_processes ?sp (sc_argument1 sc) (get_address_space_info rt q')
      (request_address rt b' ?n) ?n (host_memory rt) = (STATUS_OK, m1)"
    and arm: "arch = AARCH64 \<Longrightarrow> m = m1"
    and x64: "arch = X86_64 \<Longrightarrow> write_user_bytes (get_address_space_info rt q') m1 (request_address rt b' ?n - 8)
           (le_bytes 8 (m_completion_address ?ep)) = (STATUS_OK, m)"
    using prep by (rule prepare_server_thread_memory) (auto simp: frame_simps)
  have ux: "unaliased ?dp x n" using unaliased_split(2)[of ?dp "x - 8" 8 n] assms(9) by simp
  have hr: "host_range ?dp x n \<subseteq> host_range ?dp (x - 8) (8 + n)"
    using host_range_split[of ?dp "x - 8" 8 n] by simp
  have m1: "user_range ?dp x n bs m1"
    using copy_delivers[OF wfs, of "sc_argument1 sc" x ?n "host_memory rt" m1 bs] cp q' op b assms(6-8,10) ux hr by auto
  have ret: "user_range ?dp (x - 8) 8 (le_bytes 8 (m_completion_address ?ep)) m \<and> user_range ?dp x n bs m" if "arch = X86_64"
    using push_below_request[OF wfs(2) assms(9) m1] x64[OF that] q' op b assms(6) by auto
  have deliver: "user_range ?dp x n bs (host_memory rt')" using ret m1 arm hm by (cases arch) auto
  have le: "unat x + n \<le> unat (user_stack_pointer rt b)" and al: "x AND 15 = 0"
    using request_below_stack[OF lt] b assms(6,7) by simp_all
  show ?thesis
    using deliver le al op ow b e th ret assms(6) hm
    by (auto simp: redirect_def prepare_rpc_resume_def set_state_def intro!: exI[of _ ?ep])
qed

text \<open>
  C20. A call that begins delivers the request. The server process \<open>q\<close> of the endpoint holds the
  client's bytes at the request address, which is aligned to 16 bytes and lies with the whole
  request at or below the server thread's stack pointer; on x64 the slot below it holds the
  completion address as the callback's return address. The server thread will enter its callback with
  the address and size of the request. The hypotheses name the bytes the client sends and exclude
  only that the two processes alias each other's or their own memory in these ranges.
\<close>

theorem rpc_call_delivers_request:
  assumes "runtime_inv rt" and "m_current_thread rt = Some a"
    and "rpc_call arch a p sc rt = (STATUS_OK, rt')" and "m_current_thread rt' = Some b"
    and "get_process_context rt b = Some q"
    and "x = request_address rt b (sc_argument2 sc)" and "n = unat (sc_argument2 sc)"
    and "user_range (get_address_space_info rt p) (sc_argument1 sc) n bs (host_memory rt)"
    and "unaliased (get_address_space_info rt q) (x - 8) (8 + n)"
    and "host_range (get_address_space_info rt p) (sc_argument1 sc) n \<inter>
           host_range (get_address_space_info rt q) (x - 8) (8 + n) = {}"
  shows "user_range (get_address_space_info rt q) x n bs (host_memory rt') \<and> x AND 15 = 0 \<and>
    unat x + n \<le> unat (user_stack_pointer rt b) \<and>
    (\<exists>th ep. get_thread rt' b = Some th \<and> ep \<in> set (m_endpoints rt) \<and> m_owner_thread ep = Some b \<and>
       m_owner_process ep = Some q \<and> resume_kind (m_resume_state th) = USER_THREAD_RESUME_KIND_RPC \<and>
       resume_instruction_pointer (m_resume_state th) = m_callback_address ep \<and>
       resume_argument0 (m_resume_state th) = x \<and> resume_argument1 (m_resume_state th) = sc_argument2 sc \<and>
       resume_stack_pointer (m_resume_state th) = callback_stack_pointer arch x \<and>
       (arch = X86_64 \<longrightarrow> user_range (get_address_space_info rt q) (x - 8) 8 (le_bytes 8 (m_completion_address ep))
          (host_memory rt')))"
  by (rule call_delivers[OF assms])

lemma example_xlate_low:
  assumes "i < 16"
  shows "xlate example_asp (0xFF8 + of_nat i) = (if i < 8 then None else Some (0x8000 + of_nat (i - 8)))"
proof (cases "i < 8")
  case False
  then have "0xFF8 + of_nat i = (0x1000 + of_nat (i - 8) :: u64)" by (simp add: of_nat_diff)
  then show ?thesis using False assms example_xlate_at[of "i - 8"] by simp
qed (simp add: example_xlate_below)

lemma small_of_nat_inj: "i < 16 \<Longrightarrow> j < 16 \<Longrightarrow> of_nat i = (of_nat j :: u64) \<longleftrightarrow> i = j"
proof -
  assume "i < 16" "j < 16"
  then have "unat (of_nat i :: u64) = i" "unat (of_nat j :: u64) = j" by (simp_all add: unat_of_nat_u64)
  then show ?thesis by metis
qed

lemma example_ranges:
  "unaliased example_asp 0xFF8 16" "host_range example_asp 0x1008 8 \<inter> host_range example_asp 0xFF8 16 = {}"
proof -
  show "unaliased example_asp 0xFF8 16"
    unfolding unaliased_def
  proof (intro allI impI)
    fix i j h
    assume ij: "i < 16" "j < 16" and h: "xlate example_asp (0xFF8 + of_nat i) = Some h" "xlate example_asp (0xFF8 + of_nat j) = Some h"
    then have "\<not> i < 8" "\<not> j < 8" "of_nat (i - 8) = (of_nat (j - 8) :: u64)"
      by (auto simp: example_xlate_low split: if_splits)
    moreover have "i - 8 < 16" "j - 8 < 16" using ij by auto
    ultimately have "i - 8 = j - 8" using small_of_nat_inj by blast
    with \<open>\<not> i < 8\<close> \<open>\<not> j < 8\<close> show "i = j" by simp
  qed
  show "host_range example_asp 0x1008 8 \<inter> host_range example_asp 0xFF8 16 = {}"
  proof (intro equalityI subsetI)
    fix h assume "h \<in> host_range example_asp 0x1008 8 \<inter> host_range example_asp 0xFF8 16"
    then obtain i j where i: "i < 8" "h = 0x8008 + of_nat i" and j: "j < 16" "xlate example_asp (0xFF8 + of_nat j) = Some h"
      by (auto simp: host_range_def example_xlate_high)
    then have "\<not> j < 8" "h = 0x8000 + of_nat (j - 8)" by (auto simp: example_xlate_low split: if_splits)
    then have "of_nat (8 + i) = (of_nat (j - 8) :: u64)" using i(2) by (simp add: add.assoc[symmetric])
    moreover have "8 + i < 16" "j - 8 < 16" using i(1) j(1) by auto
    ultimately have "8 + i = j - 8" using small_of_nat_inj by blast
    then show "h \<in> {}" using j(1) by simp
  qed simp
qed

theorem rpc_call_delivers_request_witness:
  "\<exists>rt'. rpc_call AARCH64 0 0 example_call example_runtime = (STATUS_OK, rt') \<and>
     user_range example_asp 0x1000 8 (replicate 8 0) (host_memory rt')"
proof -
  obtain rt1 where c: "rpc_call AARCH64 0 0 example_call example_runtime = (STATUS_OK, rt1)"
    using example_call_ok by blast
  have cur: "m_current_thread rt1 = Some 1" using example_call_state[OF c] by blast
  have pc: "get_process_context example_runtime 1 = Some 1" by (simp add: get_process_context_def)
  have ra: "request_address example_runtime 1 (sc_argument2 example_call) = 0x1000"
    by (simp add: request_address_def user_stack_pointer_def align_down_def)
  have asp: "get_address_space_info example_runtime 0 = example_asp" "get_address_space_info example_runtime 1 = example_asp"
    by (simp_all add: get_address_space_info_def)
  have sc: "sc_argument1 example_call = 0x1008" "unat (sc_argument2 example_call) = 8" by simp_all
  have src: "user_range example_asp 0x1008 8 (replicate 8 0) (\<lambda>_. 0)"
    using example_xlate_high by (auto simp: user_range_def)
  show ?thesis
    using rpc_call_delivers_request[OF example_runtime_inv _ c cur pc ra[symmetric] sc(2)[symmetric], of "replicate 8 0"]
      example_ranges src c by (simp add: asp asp(2)[unfolded One_nat_def] sc(1))
qed

end
