(* ===== verification/Rpc_Safety.thy ===== *)
theory Rpc_Safety
  imports Rpc_Properties
begin

text \<open>
  Isolation and failure: what a system call can change, what a failing one leaves alone, the name
  service, and the corner cases in which a call is lost.
\<close>

section \<open>Failing calls\<close>

text \<open>
  C21. An RPC system call that fails has no effect on the runtime: after \<open>rpc_register\<close>,
  \<open>rpc_open\<close>, \<open>rpc_call\<close> or \<open>rpc_close\<close> returns an error, every thread, every channel, every
  endpoint and the current thread are as before; a channel that \<open>rpc_open\<close> had created is gone.
\<close>

theorem failed_rpc_leaves_runtime:
  assumes "runtime_inv rt" and "m_next_handle_value rt \<noteq> - 1" and "get_process_context rt t = Some p"
    and "sc_syscall_number sc \<in> {SYSCALL_RPC_REGISTER, SYSCALL_RPC_OPEN, SYSCALL_RPC_CALL, SYSCALL_RPC_CLOSE}"
    and "rpc_dispatch_syscall arch t sc rt = (status, rt')" and "status \<noteq> STATUS_OK"
  shows "get_thread rt' = get_thread rt \<and> get_channel rt' = get_channel rt \<and> m_endpoints rt' = m_endpoints rt \<and>
    m_current_thread rt' = m_current_thread rt"
proof -
  have hs: "channel_handles_ok rt" using assms(1) by (simp add: runtime_inv_def)
  have reg: ?thesis if "rpc_register arch t p sc rt = (status, rt')"
    using that assms(6) by (elim rpc_register_cases) auto
  have call: ?thesis if "rpc_call arch t p sc rt = (status, rt')"
    using that assms(6) by (elim rpc_call_cases) (auto simp: frame_simps)
  have close: ?thesis if "rpc_close p sc rt = (status, rt')"
    using that assms(6) by (elim rpc_close_cases) auto
  have opn: ?thesis if "rpc_open p sc rt = (status, rt')"
    using that
  proof (cases rule: rpc_open_cases)
    case (Placed e c pool nh m name)
    have hn: "channel_handles_ok (new_channel_state p e c rt)"
      using handles_new_channel_state[OF Placed(1) hs assms(2)] .
    have "get_channel rt' = get_channel rt"
    proof
      fix d
      show "get_channel rt' d = get_channel rt d"
        using erase_new_channel[OF Placed(1) hn, of d] assms(6) by (simp add: Placed(5) frame_simps)
    qed
    then show ?thesis using assms(6) by (simp add: Placed(5) frame_simps)
  qed simp
  show ?thesis
    using assms(3-5) reg call close opn by (auto simp: rpc_dispatch_syscall_def split: if_splits)
qed

theorem failed_rpc_leaves_runtime_witness:
  "get_channel (snd (rpc_dispatch_syscall X86_64 0 (make_user_syscall_context SYSCALL_RPC_CLOSE 0 0 0 99 0 0 0 0 0)
     example_runtime)) = get_channel example_runtime"
proof -
  let ?sc = "make_user_syscall_context SYSCALL_RPC_CLOSE 0 0 0 99 0 0 0 0 0"
  have pc: "get_process_context example_runtime 0 = Some 0" by (simp add: get_process_context_def)
  have none: "find_channel_by_handle example_runtime 99 = None"
    by (simp add: find_channel_by_handle_def find_by_handle_def example_runtime_def slot_has_handle_def
        example_channel_def make_rpc_channel_def find_index_None_iff)
  have num: "sc_syscall_number ?sc = SYSCALL_RPC_CLOSE" "sc_argument0 ?sc = 99"
    by (simp_all add: make_user_syscall_context_def)
  have d: "rpc_dispatch_syscall X86_64 0 ?sc example_runtime = rpc_close 0 ?sc example_runtime"
    using num by (simp add: rpc_dispatch_syscall_def pc syscall_defs)
  have "fst (rpc_dispatch_syscall X86_64 0 ?sc example_runtime) \<noteq> STATUS_OK"
    unfolding d by (simp add: rpc_close_def num none)
  then show ?thesis
    using failed_rpc_leaves_runtime[OF example_runtime_inv _ pc _ surjective_pairing, of ?sc X86_64] num by simp
qed

section \<open>Memory isolation\<close>

definition maps_to :: "address_space \<Rightarrow> u64 \<Rightarrow> bool" where
  "maps_to asp x \<longleftrightarrow> (\<exists>a. xlate asp a = Some x)"

lemma host_range_maps_to: "x \<in> host_range asp a n \<Longrightarrow> maps_to asp x"
  by (auto simp: host_range_def maps_to_def)

lemma write_confined:
  assumes "wf_address_space asp" and "write_user_bytes asp m a bs = (s, m')" and "m' x \<noteq> m x"
  shows "maps_to asp x"
  using write_loop_confined[OF assms(1), of x a "of_nat (length bs)" m bs] assms(2,3) host_range_maps_to
  by (auto simp: write_user_bytes_def)

lemma copy_confined:
  assumes "wf_address_space sp" and "wf_address_space dp"
    and "copy_between_user_processes sp a dp b n m = (s, m')" and "m' x \<noteq> m x"
  shows "maps_to dp x"
  using copy_between_confined[OF assms(1,2), of x b n m a] assms(3,4) host_range_maps_to
  by (auto simp: copy_between_user_processes_def)

lemma prepare_confined:
  assumes wf: "runtime_wf rt" and "prepare_server_thread arch ep b cp ca n rt = (s, rt1)"
    and "host_memory rt1 x \<noteq> host_memory rt x"
  shows "\<exists>q. m_owner_process ep = Some q \<and> maps_to (get_address_space_info rt q) x"
proof (cases "m_owner_process ep")
  case None
  then show ?thesis using assms(2,3) by (simp add: prepare_server_thread_def)
next
  case (Some q)
  note w = get_address_space_wf[OF wf]
  have gas: "get_address_space_info (rt\<lparr>host_memory := m\<rparr>) q = get_address_space_info rt q" for m q
    by (simp add: get_address_space_info_def frame_simps)
  have "maps_to (get_address_space_info rt q) x"
  proof (rule ccontr)
    assume no: "\<not> maps_to (get_address_space_info rt q) x"
    have c: "m' x = m x" if "copy_between_user_processes (get_address_space_info rt cp) a (get_address_space_info rt q) b n m = (s', m')"
      for a b n m s' m' using copy_confined[OF w w that, of x] no by blast
    have p: "m' x = m x" if "write_user_bytes (get_address_space_info rt q) m a bs = (s', m')" for a bs m s' m'
      using write_confined[OF w that, of x] no by blast
    show False
      using assms(2,3) Some
      by (auto simp: prepare_server_thread_def prepare_server_thread_x64_def prepare_server_thread_arm64_def
          copy_request_def push_return_address_def Let_def frame_simps gas dest!: c p
          split: if_splits target_arch.splits prod.splits)
  qed
  then show ?thesis using Some by blast
qed

lemma rpc_call_memory:
  assumes wf: "runtime_wf rt" and "rpc_call arch t p sc rt = (s, rt')" and x: "host_memory rt' x \<noteq> host_memory rt x"
  shows "\<exists>c ch e q. find_channel_by_handle rt (sc_argument0 sc) = Some c \<and> get_channel rt c = Some ch \<and>
    m_client_process ch = p \<and> m_endpoint ch = Some e \<and> m_owner_process (m_endpoints rt ! e) = Some q \<and>
    maps_to (get_address_space_info rt q) x"
proof -
  have bm: "host_memory (begin_call c a b r) = host_memory r" for c a b r
    by (auto simp: begin_call_def frame_simps split: option.split)
  have "\<exists>c ch e b. find_channel_by_handle rt (sc_argument0 sc) = Some c \<and> get_channel rt c = Some ch \<and>
    m_client_process ch = p \<and> m_endpoint ch = Some e \<and> m_owner_thread (m_endpoints rt ! e) = Some b \<and>
    host_memory rt' = host_memory (snd (prepare_server_thread arch (m_endpoints rt ! e) b p (sc_argument1 sc)
      (sc_argument2 sc) rt))"
    using assms(2) x
    by (auto simp: rpc_call_def Let_def is_owned_by_def frame_simps bm split: if_splits option.splits prod.splits)
  then show ?thesis using prepare_confined[OF wf surjective_pairing] x by metis
qed

lemma terminate_memory: "host_memory (snd (terminate_current_thread arch code status rt)) = host_memory rt"
  by (auto simp: terminate_current_thread_def schedule_next_ready_thread_def handle_thread_exit_def
      fail_pending_call_def Let_def frame_simps split: option.split)

lemma complete_call_memory: "complete_call arch t status rt = (s, rt') \<Longrightarrow> host_memory rt' = host_memory rt"
  by (auto simp: complete_call_def finish_call_def Let_def frame_simps split: option.splits if_splits)

lemma rpc_open_memory:
  assumes wf: "runtime_wf rt" and "rpc_open p sc rt = (s, rt')" and x: "host_memory rt' x \<noteq> host_memory rt x"
  shows "maps_to (get_address_space_info rt p) x"
  using assms(2)
proof (cases rule: rpc_open_cases)
  case (Placed e c pool nh m name)
  have "host_memory rt' = m" by (simp add: Placed(5))
  then show ?thesis using write_confined[OF get_address_space_wf[OF wf] Placed(4)] x by simp
qed (use x in simp)

text \<open>
  C22. Memory isolation. Whatever a thread of process \<open>p\<close> passes to the kernel, a system call leaves
  every byte of host memory alone that neither \<open>p\<close> maps nor the process that owns the endpoint of
  a channel which \<open>p\<close> opened and names in the call. No system call writes kernel memory or memory
  of a third process.
\<close>

theorem syscall_memory_confined:
  assumes "runtime_inv rt" and "m_current_thread rt = Some t" and "get_process_context rt t = Some p"
    and "dispatch_syscall arch sc rt = (status, rt')" and "\<not> maps_to (get_address_space_info rt p) x"
    and "\<And>c ch e q. find_channel_by_handle rt (sc_argument0 sc) = Some c \<Longrightarrow> get_channel rt c = Some ch \<Longrightarrow>
      m_client_process ch = p \<Longrightarrow> m_endpoint ch = Some e \<Longrightarrow> m_owner_process (m_endpoints rt ! e) = Some q \<Longrightarrow>
      \<not> maps_to (get_address_space_info rt q) x"
  shows "host_memory rt' x = host_memory rt x"
proof -
  let ?rt1 = "update_thread t (set_user_context (make_thread_context_from_syscall sc)) rt"
  have wf1: "runtime_wf ?rt1"
    using inv_update_thread[OF assms(1), of "set_user_context (make_thread_context_from_syscall sc)" t]
    by (simp add: frame_simps runtime_inv_def)
  have same: "get_address_space_info ?rt1 = get_address_space_info rt" "host_memory ?rt1 = host_memory rt"
    "find_channel_by_handle ?rt1 = find_channel_by_handle rt" "get_channel ?rt1 = get_channel rt"
    "m_endpoints ?rt1 = m_endpoints rt" "get_process_context ?rt1 t = Some p"
    using assms(3) by (auto simp: get_address_space_info_def find_channel_by_handle_def frame_simps)
  have reg: "host_memory rt2 = host_memory rt1" if "rpc_register arch t p sc rt1 = (s, rt2)" for rt1 rt2 s
    using that by (elim rpc_register_cases) (auto simp: frame_simps)
  have close: "host_memory rt2 = host_memory rt1" if "rpc_close p sc rt1 = (s, rt2)" for rt1 rt2 s
    using that by (elim rpc_close_cases) auto
  have dl: "host_memory (debug_log b r) = host_memory r" for b r by (simp add: debug_log_def)
  have opn: "host_memory rt2 x = host_memory rt x" if "rpc_open p sc ?rt1 = (s, rt2)" for s rt2
    using rpc_open_memory[OF wf1 that, of x] assms(5) unfolding same by blast
  have cl: "host_memory rt2 x = host_memory rt x" if "rpc_call arch t p sc ?rt1 = (s, rt2)" for s rt2
    using rpc_call_memory[OF wf1 that, of x] assms(6) unfolding same by blast
  show ?thesis
    using assms(2-4)
    by (auto simp: dispatch_syscall_def rpc_dispatch_syscall_def syscall_debug_log_def Let_def same dl terminate_memory
        dest!: reg close complete_call_memory opn cl split: if_splits prod.splits)
qed

lemma example_not_mapped: "\<not> maps_to example_asp 0"
proof
  assume "maps_to example_asp 0"
  then obtain a where "xlate example_asp a = Some 0" by (auto simp: maps_to_def)
  then have a: "unat a < 0x1010" "a + 0x7000 = 0" by (auto simp: example_asp_xlate add.commute split: if_splits)
  then have "unat a + 0x7000 = unat (0 :: u64)" using unat_add_no_wrap[of a "0x7000"] by simp
  then show False by simp
qed

theorem syscall_memory_confined_witness:
  "host_memory (snd (dispatch_syscall AARCH64 example_call example_runtime)) 0 = host_memory example_runtime 0"
proof -
  have pc: "get_process_context example_runtime 0 = Some 0" by (simp add: get_process_context_def)
  have asp: "\<not> maps_to (get_address_space_info example_runtime p) 0" for p
  proof (cases "p = 0 \<or> p = 1")
    case False
    then have "get_address_space_info example_runtime p = empty_address_space 0" by (simp add: get_address_space_info_def)
    moreover have "xlate (empty_address_space 0) a = None" for a
      by (simp add: xlate_def live_mappings_def empty_address_space_def)
    ultimately show ?thesis by (simp add: maps_to_def)
  qed (auto simp: get_address_space_info_def example_not_mapped)
  show ?thesis
    using syscall_memory_confined[OF example_runtime_inv _ pc surjective_pairing[of "dispatch_syscall AARCH64 example_call example_runtime"] asp asp]
    by simp
qed

section \<open>The name service\<close>

lemma strings_equal_iff: "strings_equal l r \<longleftrightarrow> c_string l = c_string r"
  by (induction l r rule: strings_equal.induct) (auto simp: c_string_def)

text \<open>
  C23. Names are unique and found. A successful \<open>rpc_register\<close> takes an endpoint that was not in use
  and whose name no endpoint in use had; afterwards the lookup of that name yields exactly this
  endpoint, owned by the calling thread and process with the given callback and completion
  addresses, not busy; all other endpoints are unchanged.
\<close>

theorem rpc_register_then_lookup:
  assumes "runtime_inv rt" and "rpc_register arch t p sc rt = (STATUS_OK, rt')"
  shows "\<exists>e name bs. user_string (get_address_space_info rt p) (host_memory rt) (sc_argument0 sc) bs \<and> length bs \<le> 31 \<and>
    c_string name = bs \<and> find_endpoint_by_name rt name = None \<and> find_endpoint_by_name rt' name = Some e \<and>
    \<not> m_is_in_use (m_endpoints rt ! e) \<and> m_owner_thread (m_endpoints rt' ! e) = Some t \<and>
    m_owner_process (m_endpoints rt' ! e) = Some p \<and> m_callback_address (m_endpoints rt' ! e) = sc_argument1 sc \<and>
    m_completion_address (m_endpoints rt' ! e) = sc_argument2 sc \<and> \<not> m_is_busy (m_endpoints rt' ! e) \<and>
    (\<forall>d. d \<noteq> e \<longrightarrow> m_endpoints rt' ! d = m_endpoints rt ! d)"
  using assms(2)
proof (cases rule: rpc_register_cases)
  case (Ok e name rt1)
  have wf: "runtime_wf rt" using assms(1) by (simp add: runtime_inv_def)
  let ?ep = "initialize_endpoint p t name (sc_argument1 sc) (sc_argument2 sc) (m_endpoints rt ! e)"
  have e: "e < length (m_endpoints rt)" "\<not> m_is_in_use (m_endpoints rt ! e)"
    using find_index_SomeD[OF Ok(2)[unfolded find_free_endpoint_def]] by auto
  have eps: "m_endpoints rt' = (m_endpoints rt)[e := ?ep]"
    using Ok(6) by (auto simp: Ok(5) frame_simps)
  obtain bs where bs: "user_string (get_address_space_info rt p) (host_memory rt) (sc_argument0 sc) bs"
    "length bs < RPC_ENDPOINT_NAME_BUFFER_SIZE"
    "name = bs @ [0] @ drop (Suc (length bs)) (replicate RPC_ENDPOINT_NAME_BUFFER_SIZE 0)"
    using copy_user_string_OK[OF get_address_space_wf[OF wf] Ok(4)] by auto
  have nz: "c_string name = bs" using bs(1) by (auto simp: bs(3) c_string_def user_string_def takeWhile_append)
  have len: "length (m_name (m_endpoints rt ! e)) = RPC_ENDPOINT_NAME_BUFFER_SIZE"
    using runtime_wfD(5)[OF wf e(1)] by (simp add: wf_endpoint_def)
  have m: "matches_name name ?ep"
    using len bs(2) nz
    by (simp add: matches_name_def initialize_endpoint_def clear_endpoint_def Let_def copy_string_def strings_equal_iff
        c_string_copy_string_loop)
  have none: "\<not> matches_name name (m_endpoints rt ! d)" if "d < length (m_endpoints rt)" for d
    using Ok(3) that by (simp add: find_endpoint_by_name_def find_index_None_iff)
  have "find_endpoint_by_name rt' name = Some e"
    unfolding find_endpoint_by_name_def eps using e(1) m none
    by (intro find_index_unique) (auto simp: nth_list_update split: if_splits)
  then show ?thesis
    using bs(1,2) nz Ok(3) e eps
    by (intro exI[of _ e] exI[of _ name] exI[of _ bs])
      (auto simp: initialize_endpoint_def clear_endpoint_def Let_def RPC_ENDPOINT_NAME_BUFFER_SIZE_def
        RINGOS_RPC_ENDPOINT_NAME_MAX_LENGTH_def)
qed simp

text \<open>Registering the empty name at \<open>0x1000\<close> succeeds on every system that agrees with the example on what it reads.\<close>

lemma example_register:
  assumes asp: "get_address_space_info rt p = example_asp" and m: "host_memory rt = (\<lambda>_. 0)"
    and eps: "m_endpoints rt = m_endpoints example_runtime"
    and sc: "sc_argument0 sc = 0x1000" "sc_argument1 sc = 0x1004" "sc_argument2 sc = 0x1008"
  obtains name where "find_endpoint_by_name rt name = None" and "rpc_register arch a p sc rt =
    (let rt1 = update_endpoint 1 (initialize_endpoint p a name 0x1004 0x1008) rt in
     (STATUS_OK, if find_next_ready_thread rt1 (Some a) \<noteq> None \<and> find_pending_channel_by_server_thread rt1 a = None
      then set_current_thread arch (find_next_ready_thread rt1 (Some a)) (update_thread a (prepare_syscall_resume arch STATUS_OK) rt1)
      else rt1))"
proof -
  have us: "user_string example_asp (\<lambda>_. 0) 0x1000 []"
    by (simp add: user_string_def user_range_def example_asp_xlate)
  obtain s name where c: "copy_user_string example_asp (\<lambda>_. 0) 0x1000 (replicate RPC_ENDPOINT_NAME_BUFFER_SIZE 0) = (s, name)"
    by force
  have buf: "length (replicate RPC_ENDPOINT_NAME_BUFFER_SIZE (0 :: u8)) = 32"
    by (simp add: RPC_ENDPOINT_NAME_BUFFER_SIZE_def RINGOS_RPC_ENDPOINT_NAME_MAX_LENGTH_def)
  have s: "s = STATUS_OK"
    using copy_user_string_loop_complete[OF example_asp_wf us, of "replicate RPC_ENDPOINT_NAME_BUFFER_SIZE 0" 0 32] c buf
    by (auto simp: copy_user_string_def split: if_splits)
  obtain bs where bs: "user_string example_asp (\<lambda>_. 0) 0x1000 bs"
      "name = bs @ [0] @ drop (Suc (length bs)) (replicate RPC_ENDPOINT_NAME_BUFFER_SIZE 0)"
    using copy_user_string_OK[OF example_asp_wf c[unfolded s]] by auto
  have "c_string name \<noteq> [0x74]"
  proof
    assume "c_string name = [0x74]"
    then have "bs = [0x74]" using bs by (auto simp: c_string_def user_string_def takeWhile_append split: if_splits)
    then show False using bs(1) by (force simp: user_string_def user_range_def)
  qed
  then have none: "find_endpoint_by_name rt name = None"
    by (auto simp: find_endpoint_by_name_def eps find_index_None_iff matches_name_def strings_equal_iff example_endpoint_def
        empty_endpoint_def c_string_def)
  have free: "find_free_endpoint rt = Some 1"
    by (simp add: find_free_endpoint_def eps example_endpoint_def empty_endpoint_def replicate_Suc[of 6, simplified])
  show thesis
    by (rule that[OF none]) (use none free c s in \<open>simp add: rpc_register_def sc asp m example_validate[OF asp] Let_def\<close>)
qed

theorem rpc_register_then_lookup_witness:
  "\<exists>rt'. rpc_register AARCH64 0 0 (make_user_syscall_context SYSCALL_RPC_REGISTER 0 0 0 0x1000 0x1004 0x1008 0 0 0)
     example_runtime = (STATUS_OK, rt') \<and> (\<exists>name. find_endpoint_by_name rt' name \<noteq> None \<and> find_endpoint_by_name example_runtime name = None)"
proof -
  let ?sc = "make_user_syscall_context SYSCALL_RPC_REGISTER 0 0 0 0x1000 0x1004 0x1008 0 0 0"
  have "\<exists>rt'. rpc_register AARCH64 0 0 ?sc example_runtime = (STATUS_OK, rt')"
    by (rule example_register[of example_runtime 0 ?sc AARCH64 0])
      (simp_all add: get_address_space_info_def make_user_syscall_context_def Let_def)
  then obtain rt' where r: "rpc_register AARCH64 0 0 ?sc example_runtime = (STATUS_OK, rt')" by blast
  show ?thesis
    using rpc_register_then_lookup[OF example_runtime_inv r] r by fastforce
qed

section \<open>Lost calls and lost results\<close>

text \<open>The thread that a registration deschedules, prepared to resume with STATUS_OK.\<close>

lemma register_yields:
  assumes cur: "m_current_thread rt0 = Some b" and wf: "runtime_wf rt0" and num: "sc_syscall_number sc0 = SYSCALL_RPC_REGISTER"
    and d: "dispatch_syscall arch sc0 rt0 = (s0, rt1)" and away: "m_current_thread rt1 \<noteq> Some b"
  obtains th0 u where "get_thread rt0 b = Some th0" and "s0 = STATUS_OK" and "sc_argument0 sc0 \<noteq> 0"
    and "get_thread rt1 b = Some (set_state u
      (prepare_syscall_resume arch STATUS_OK (set_user_context (make_thread_context_from_syscall sc0) th0)))"
proof -
  obtain th0 where th0: "get_thread rt0 b = Some th0" using runtime_wfD(6)[OF wf cur] by auto
  let ?rt = "update_thread b (set_user_context (make_thread_context_from_syscall sc0)) rt0"
  obtain p where p: "get_process_context rt0 b = Some p"
    using d cur away by (cases "get_process_context rt0 b") (auto simp: dispatch_syscall_def)
  have p': "get_process_context ?rt b = Some p" using p by (simp add: frame_simps)
  have r: "rpc_register arch b p sc0 ?rt = (s0, rt1)"
    using d cur p p' num by (simp add: dispatch_syscall_def rpc_dispatch_syscall_def syscall_defs Let_def)
  have cur': "m_current_thread ?rt = Some b" using cur by (simp add: frame_simps)
  have a0: "sc_argument0 sc0 \<noteq> 0"
    using r cur' away by (auto simp: rpc_register_def split: if_splits)
  from r show thesis
  proof (cases rule: rpc_register_cases)
    case Fail
    then show thesis using away cur' by simp
  next
    case (Ok e name rt2)
    have "m_current_thread rt2 = Some b" using cur' by (simp add: Ok(5) frame_simps)
    then obtain n where "rt1 = set_current_thread arch (Some n) (update_thread b (prepare_syscall_resume arch STATUS_OK) rt2)"
      using Ok(6) away by auto
    then show thesis using that[OF th0 Ok(1) a0] th0 by (simp add: Ok(5) frame_simps)
  qed
qed

text \<open>The example system with the server thread running, and its registration of a second endpoint.\<close>

definition server_runtime :: user_runtime where
  "server_runtime = set_current_thread AARCH64 (Some 1) example_runtime"

definition example_registration :: user_syscall_context where
  "example_registration = make_user_syscall_context SYSCALL_RPC_REGISTER 0x1001 0x1010 0 0x1000 0x1004 0x1008 0 0 0"

lemma server_runtime_state:
  "thread_state server_runtime t = (if t = 0 then USER_THREAD_STATE_READY else if t = 1 then USER_THREAD_STATE_RUNNING
     else USER_THREAD_STATE_EMPTY)"
  by (auto simp: server_runtime_def frame_simps switched_state_def thread_state_def)

lemma server_runtime_sel [simp]:
  "m_current_thread server_runtime = Some 1" "get_channel server_runtime = get_channel example_runtime"
  "m_endpoints server_runtime = m_endpoints example_runtime" "get_process server_runtime = get_process example_runtime"
  "host_memory server_runtime = (\<lambda>_. 0)" "m_next_handle_value server_runtime = 6"
  "m_channels server_runtime = m_channels example_runtime" "get_process_context server_runtime (Suc 0) = Some 1"
  "get_thread server_runtime t = None \<longleftrightarrow> t \<noteq> 0 \<and> t \<noteq> 1"
  by (auto simp: server_runtime_def frame_simps get_process_context_def)

lemma server_runtime_inv: "runtime_inv server_runtime"
proof -
  have idle: "calls (abs_sched server_runtime) c = None" for c
    by (simp add: example_channel_def make_rpc_channel_def)
  have "sched_inv (abs_sched server_runtime)"
    by (rule sched_invI) (auto simp: server_runtime_state idle waits_in_def simp del: abs_sched_sel(3) split: if_splits)
  moreover have "runtime_wf server_runtime"
    unfolding server_runtime_def by (rule wf_set_current[OF example_runtime_wf]) simp
  moreover have "channel_handles_ok server_runtime"
    using example_runtime_inv by (simp add: runtime_inv_def server_runtime_def handles_frames)
  ultimately show ?thesis by (simp add: runtime_inv_def)
qed

lemma example_registered:
  obtains rt1 where "dispatch_syscall AARCH64 example_registration server_runtime = (STATUS_OK, rt1)"
    and "m_current_thread rt1 = Some 0" and "runtime_inv rt1"
    and "\<exists>rt2. rpc_call AARCH64 0 0 example_call rt1 = (STATUS_OK, rt2)"
    and "find_channel_by_handle rt1 5 = Some 0" and "get_channel rt1 0 = Some example_channel"
    and "m_endpoints rt1 ! 0 = example_endpoint"
proof -
  let ?rt = "update_thread 1 (set_user_context (make_thread_context_from_syscall example_registration)) server_runtime"
  have sc: "sc_argument0 example_registration = 0x1000" "sc_argument1 example_registration = 0x1004"
    "sc_argument2 example_registration = 0x1008" "sc_syscall_number example_registration = SYSCALL_RPC_REGISTER"
    by (simp_all add: example_registration_def make_user_syscall_context_def)
  have asp: "get_address_space_info ?rt 1 = example_asp" and m: "host_memory ?rt = (\<lambda>_. 0)"
    and eps: "m_endpoints ?rt = m_endpoints example_runtime" and cur: "m_current_thread ?rt = Some 1"
    by (simp_all add: get_address_space_info_def frame_simps)
  obtain name where r: "rpc_register AARCH64 1 1 example_registration ?rt =
    (let rt1 = update_endpoint 1 (initialize_endpoint 1 1 name 0x1004 0x1008) ?rt in
     (STATUS_OK, if find_next_ready_thread rt1 (Some 1) \<noteq> None \<and> find_pending_channel_by_server_thread rt1 1 = None
      then set_current_thread AARCH64 (find_next_ready_thread rt1 (Some 1)) (update_thread 1 (prepare_syscall_resume AARCH64 STATUS_OK) rt1)
      else rt1))" by (rule example_register[OF asp m eps sc(1-3), of AARCH64 1])
  let ?rt1 = "update_endpoint 1 (initialize_endpoint 1 1 name 0x1004 0x1008) ?rt"
  let ?rt2 = "set_current_thread AARCH64 (Some 0) (update_thread 1 (prepare_syscall_resume AARCH64 STATUS_OK) ?rt1)"
  have st: "thread_state ?rt1 t = thread_state server_runtime t" for t
    by (simp add: frame_simps) (simp add: thread_state_def thread_op_defs Let_def split: option.split)
  have "find_next_ready_thread ?rt1 (Some 1) = Some 0"
    by (subst find_next_ready_scan) (simp_all add: frame_simps USER_RUNTIME_MAX_THREADS_def st server_runtime_state upt_rec)
  moreover have "find_pending_channel_by_server_thread ?rt1 1 = None"
    by (auto simp: find_pending_None_iff frame_simps example_channel_def make_rpc_channel_def)
  moreover have "get_process_context ?rt 1 = Some 1" by (simp add: frame_simps)
  ultimately have d: "dispatch_syscall AARCH64 example_registration server_runtime = (STATUS_OK, ?rt2)"
    using r by (simp add: dispatch_syscall_def rpc_dispatch_syscall_def syscall_defs sc frame_simps Let_def)
  have "has_runnable_thread server_runtime" using server_runtime_state[of 1] by (auto simp: has_runnable_thread_def)
  then have inv: "runtime_inv ?rt2"
    using dispatch_inv[OF server_runtime_inv, of AARCH64 example_registration] d by simp
  have asps: "get_address_space_info ?rt2 0 = example_asp" "get_address_space_info ?rt2 1 = example_asp"
    by (simp_all add: get_address_space_info_def frame_simps)
  have f: "find_channel_by_handle ?rt2 5 = Some 0" and ch: "get_channel ?rt2 0 = Some example_channel"
    and ep: "m_endpoints ?rt2 ! 0 = example_endpoint" and cur2: "m_current_thread ?rt2 = Some 0"
    using example_find_channel by (simp_all add: find_channel_by_handle_def frame_simps)
  obtain th where th: "get_thread server_runtime (Suc 0) = Some th" by fastforce
  then have sp: "user_stack_pointer ?rt2 1 = 0x1010"
    by (simp add: user_stack_pointer_def frame_simps thread_op_defs Let_def make_thread_context_from_syscall_def
        example_registration_def make_user_syscall_context_def)
  have st2: "thread_state ?rt2 1 \<noteq> USER_THREAD_STATE_EXITED"
    using server_runtime_state[of "Suc 0"] th
    by (simp add: frame_simps switched_state_def thread_state_def thread_op_defs Let_def)
  have "\<exists>rt3. rpc_call AARCH64 0 0 example_call ?rt2 = (STATUS_OK, rt3)"
    by (rule example_call_succeeds[OF asps, where b = 1 and ep = example_endpoint])
      (use f ch ep sp st2 in \<open>simp_all add: example_endpoint_def\<close>)
  then show thesis using that[OF d cur2 inv _ f ch ep] by blast
qed

text \<open>
  C24. A server loses the result of its own system call when it serves a call before it runs again. Let thread \<open>b\<close> register an
  endpoint and be descheduled inside that call, to resume with STATUS_OK. Before it runs, a client's \<open>rpc_call\<close>
  redirects it to a callback, and the callback completes. The thread then resumes at the same address, but on arm64
  with the address of the endpoint's name, which is not zero, in the result register \<open>x0\<close>, because \<open>finish_call\<close> goes
  through \<open>set_user_context\<close>, which reloads \<open>x0\<close> from the saved argument. On x64 \<open>rax\<close> has the status that was
  pending when the callback completed, which is STATUS_OK if the callback made no system call of its own.
\<close>

theorem restored_server_result:
  assumes "runtime_inv rt0" and "m_current_thread rt0 = Some b" and "sc_syscall_number sc0 = SYSCALL_RPC_REGISTER"
    and "dispatch_syscall arch sc0 rt0 = (s0, rt1)" and "m_current_thread rt1 \<noteq> Some b"
    and "runtime_inv rt" and "m_current_thread rt = Some a" and "b \<noteq> a" and "get_thread rt b = get_thread rt1 b"
    and "rpc_call arch a p sc rt = (STATUS_OK, rt2)" and "m_current_thread rt2 = Some b"
    and "find_channel_by_handle rt (sc_argument0 sc) = Some c" and "get_channel rt3 c = get_channel rt2 c"
    and "find_pending_channel_by_server_thread rt3 b = Some c"
    and "get_thread rt3 a = Some tha" and "get_thread rt3 b = Some thb"
    and "complete_call arch b status rt3 = (r, rt4)"
  shows "\<exists>th th'. get_thread rt b = Some th \<and> get_thread rt4 b = Some th' \<and> s0 = STATUS_OK \<and> r = STATUS_OK \<and>
    resume_instruction_pointer (m_resume_state th) = sc_trap_instruction_pointer sc0 \<and>
    resume_instruction_pointer (m_resume_state th') = sc_trap_instruction_pointer sc0 \<and>
    (case arch of
       AARCH64 \<Rightarrow> f_x0 (load_arm64_syscall_frame th) = 0 \<and> f_x0 (load_arm64_syscall_frame th') = sc_argument0 sc0 \<and>
         sc_argument0 sc0 \<noteq> 0
     | X86_64 \<Rightarrow> f_rax (load_user_thread_frame th) = 0 \<and>
         f_rax (load_user_thread_frame th') = scast (m_pending_syscall_status thb))"
proof -
  have wf: "runtime_wf rt0" "runtime_wf rt" using assms(1,6) by (simp_all add: runtime_inv_def)
  obtain th0 u where s0: "s0 = STATUS_OK" "sc_argument0 sc0 \<noteq> 0" and "get_thread rt1 b = Some (set_state u
      (prepare_syscall_resume arch STATUS_OK (set_user_context (make_thread_context_from_syscall sc0) th0)))"
    by (rule register_yields[OF assms(2) wf(1) assms(3-5)])
  then have th: "get_thread rt b = Some (set_state u
      (prepare_syscall_resume arch STATUS_OK (set_user_context (make_thread_context_from_syscall sc0) th0)))"
    using assms(9) by simp
  obtain ch where ch: "get_channel rt2 c = Some (open_call a b (set_state u
      (prepare_syscall_resume arch STATUS_OK (set_user_context (make_thread_context_from_syscall sc0) th0))) ch)"
  proof (rule rpc_call_ok[OF wf(2) assms(7,10)])
    fix c' ch e b' th' m
    assume "find_channel_by_handle rt (sc_argument0 sc) = Some c'" "get_thread rt b' = Some th'"
      "get_channel rt2 c' = Some (open_call a b' th' ch)" "m_current_thread rt2 = Some b'"
    then show thesis using that[of ch] assms(11,12) th by simp
  qed
  have ch3: "get_channel rt3 c = Some (open_call a b (set_state u
      (prepare_syscall_resume arch STATUS_OK (set_user_context (make_thread_context_from_syscall sc0) th0))) ch)"
    using ch assms(13) by simp
  have pa: "m_pending_client_thread (open_call a b t ch) = Some a" for t by (simp add: open_call_def)
  note C = complete_call_cross[OF assms(14) ch3 pa assms(8)[symmetric] assms(15,16,17)]
  show ?thesis
    using C(1,4) th s0
    by (cases arch) (simp_all add: load_arm64_syscall_frame_def load_user_thread_frame_def restore_server_def open_call_def
        thread_op_defs Let_def make_thread_context_from_syscall_def STATUS_OK_def)
qed

theorem restored_server_result_witness:
  "\<exists>rt1 rt2 rt4 th'. dispatch_syscall AARCH64 example_registration server_runtime = (STATUS_OK, rt1) \<and>
     rpc_call AARCH64 0 0 example_call rt1 = (STATUS_OK, rt2) \<and> complete_call AARCH64 1 STATUS_OK rt2 = (STATUS_OK, rt4) \<and>
     get_thread rt4 1 = Some th' \<and> f_x0 (load_arm64_syscall_frame th') = 0x1000"
proof -
  obtain rt1 rt2 where r: "dispatch_syscall AARCH64 example_registration server_runtime = (STATUS_OK, rt1)"
    "m_current_thread rt1 = Some 0" "runtime_inv rt1" "rpc_call AARCH64 0 0 example_call rt1 = (STATUS_OK, rt2)"
    "find_channel_by_handle rt1 5 = Some 0" "get_channel rt1 0 = Some example_channel" "m_endpoints rt1 ! 0 = example_endpoint"
    using example_registered by metis
  have wf: "runtime_wf rt1" and ow: "m_owner_thread (m_endpoints rt1 ! 0) = Some 1"
    using r(3,7) by (simp_all add: runtime_inv_def example_endpoint_def)
  note r2 = example_call_reaches[OF wf r(2,5,6) ow r(4)]
  then obtain tha thb where t: "get_thread rt2 0 = Some tha" "get_thread rt2 1 = Some thb" by auto
  obtain s rt4 where c: "complete_call AARCH64 1 STATUS_OK rt2 = (s, rt4)" by force
  have num: "sc_syscall_number example_registration = SYSCALL_RPC_REGISTER" and a0: "sc_argument0 example_registration = 0x1000"
    by (simp_all add: example_registration_def make_user_syscall_context_def)
  show ?thesis
    using restored_server_result[OF server_runtime_inv _ num r(1) _ r(3,2) _ refl r(4) _ _ refl _ t c] r r2 c a0 by auto
qed

text \<open>
  C25. A call to an endpoint that the calling thread owns never runs the callback. The runtime marks
  the channel and the endpoint busy and reports success, but the trap handler finds the same
  thread current and overwrites the redirection with \<open>prepare_syscall_resume\<close>: the frame it
  returns resumes the caller at its own return address with status \<open>STATUS_OK\<close>. (Shown for the arm64
  handler; the x64 handler has the same statement.)
\<close>

theorem self_call_skips_callback:
  assumes "runtime_inv rt" and "m_current_thread rt = Some a"
    and "get_process_context rt a = Some p" and "f_x8 frame = SYSCALL_RPC_CALL"
    and "rpc_call AARCH64 a p (arm64_syscall_context frame)
      (update_thread a (set_user_context (make_thread_context_from_syscall (arm64_syscall_context frame)))
        (update_thread a (save_arm64_preserved frame) rt)) = (STATUS_OK, rt1)"
    and "m_current_thread rt1 = Some a" and "has_runnable_thread rt1"
    and "arm64_handle_syscall frame rt = Inr (True, frame', rt')"
  shows "f_elr frame' = f_elr frame \<and> f_x0 frame' = 0 \<and>
    (\<exists>c ch e. get_channel rt' c = Some ch \<and> m_pending_client_thread ch = Some a \<and> m_pending_server_thread ch = Some a \<and>
       m_endpoint ch = Some e \<and> m_is_busy (m_endpoints rt' ! e))"
proof -
  let ?rt0 = "update_thread a (save_arm64_preserved frame) rt" and ?sc = "arm64_syscall_context frame"
  let ?rtc = "update_thread a (set_user_context (make_thread_context_from_syscall ?sc)) ?rt0"
  have num: "sc_syscall_number ?sc = SYSCALL_RPC_CALL"
    using assms(4) by (simp add: arm64_syscall_context_def make_user_syscall_context_def)
  have pc: "get_process_context ?rt0 a = Some p" "get_process_context ?rtc a = Some p"
    using assms(3) by (simp_all add: frame_simps)
  have d: "dispatch_syscall AARCH64 ?sc ?rt0 = (STATUS_OK, rt1)"
    using assms(2,5) num pc by (simp add: dispatch_syscall_def rpc_dispatch_syscall_def frame_simps syscall_defs Let_def)
  have wfc: "runtime_wf ?rtc"
    using inv_update_thread[OF inv_update_thread[OF assms(1)]] by (simp add: frame_simps runtime_inv_def)
  have curc: "m_current_thread ?rtc = Some a" using assms(2) by (simp add: frame_simps)
  obtain th0 where th0: "get_thread rt a = Some th0"
    using assms(1,2) by (auto simp: runtime_inv_def runtime_wf_def)
  obtain c ch e th th1 where ch: "get_channel rt1 c = Some (open_call a a th1 ch)" "m_endpoint ch = Some e"
    and eps: "m_endpoints rt1 ! e = set_busy True (m_endpoints ?rtc ! e)"
    and th: "get_thread rt1 a = Some th" "m_user_context th = make_thread_context_from_syscall ?sc"
  proof (rule rpc_call_ok[OF wfc curc assms(5)])
    fix c ch e b th m
    assume *: "m_endpoint ch = Some e" "e < length (m_endpoints ?rtc)" "get_thread ?rtc b = Some th"
      "get_channel rt1 c = Some (open_call a b th ch)" "m_current_thread rt1 = Some b"
      "m_endpoints rt1 = (m_endpoints ?rtc)[e := set_busy True (m_endpoints ?rtc ! e)]"
      "get_thread rt1 b = Some (set_state (if a \<noteq> b \<and> m_state th = USER_THREAD_STATE_READY
           then USER_THREAD_STATE_RUNNING else m_state th)
        (redirect AARCH64 (m_endpoints ?rtc ! e) (request_address ?rtc b (sc_argument2 ?sc)) (sc_argument2 ?sc) th))"
    have "b = a" using *(5) assms(6) by simp
    then show thesis
      using that[of c th ch e "set_state (m_state th) (redirect AARCH64 (m_endpoints ?rtc ! e)
        (request_address ?rtc a (sc_argument2 ?sc)) (sc_argument2 ?sc) th)"] * th0 by (auto simp: frame_simps)
  qed
  let ?rt2 = "update_thread a (prepare_syscall_resume AARCH64 STATUS_OK) rt1"
  have "frame' = load_arm64_syscall_frame (prepare_syscall_resume AARCH64 STATUS_OK th) \<and> rt' = ?rt2"
    using assms(2,6,7,8) d th(1)
    by (auto simp: arm64_handle_syscall_def frame_simps Let_def split: if_splits option.splits)
  then show ?thesis
    using th(2) ch eps
    by (auto simp: load_arm64_syscall_frame_def prepare_syscall_resume_def sync_resume_to_user_context_def Let_def
        make_thread_context_from_syscall_def arm64_syscall_context_def make_user_syscall_context_def STATUS_OK_def
        frame_simps open_call_def set_busy_def intro!: exI[of _ c])
qed

text \<open>The example system in which thread 0 owns the endpoint it calls, and the frame of that call.\<close>

definition self_runtime :: user_runtime where
  "self_runtime = update_endpoint 0 (\<lambda>ep. ep\<lparr>m_owner_process := Some 0, m_owner_thread := Some 0\<rparr>) example_runtime"

definition self_frame :: arm64_syscall_frame where
  "self_frame = \<lparr>f_x0 = 5, f_x1 = 0x1008, f_x2 = 8, f_x3 = 0, f_x4 = 0, f_x5 = 0, f_x6 = 0, f_x7 = 0,
     f_x8 = SYSCALL_RPC_CALL, f_elr = 0x1001, f_spsr = 0, f_sp_el0 = 0x1010, f_esr = push_bit 26 0x15,
     f_x19_x30 = replicate 12 0\<rparr>"

lemma self_runtime_inv: "runtime_inv self_runtime"
proof -
  have "runtime_wf self_runtime"
    unfolding self_runtime_def using example_runtime_wf runtime_wfD(5)[OF example_runtime_wf, of 0]
    by (intro wf_update_endpoint) (auto simp: wf_endpoint_def get_process_context_def example_endpoint_def)
  then show ?thesis
    using example_runtime_inv by (simp add: runtime_inv_def self_runtime_def abs_update_endpoint handles_frames)
qed

lemma self_call_dispatch:
  assumes "rtc = update_thread 0 (set_user_context (make_thread_context_from_syscall (arm64_syscall_context self_frame)))
    (update_thread 0 (save_arm64_preserved self_frame) self_runtime)"
  shows "\<exists>rt1. rpc_call AARCH64 0 0 (arm64_syscall_context self_frame) rtc = (STATUS_OK, rt1) \<and>
    m_current_thread rt1 = Some 0 \<and> has_runnable_thread rt1 \<and> get_thread rt1 0 \<noteq> None \<and>
    get_process_context rt1 0 = Some 0 \<and> get_process rt1 = get_process self_runtime"
proof -
  let ?ep = "example_endpoint\<lparr>m_owner_process := Some 0, m_owner_thread := Some 0\<rparr>"
  have wf: "runtime_wf rtc"
    using inv_update_thread[OF inv_update_thread[OF self_runtime_inv]] by (simp add: assms frame_simps runtime_inv_def)
  have cur: "m_current_thread rtc = Some 0" by (simp add: assms self_runtime_def frame_simps)
  have asp: "get_address_space_info rtc 0 = example_asp"
    by (simp add: assms self_runtime_def get_address_space_info_def frame_simps)
  have fc: "find_channel_by_handle rtc 5 = Some 0"
    using example_find_channel by (simp add: assms self_runtime_def find_channel_by_handle_def frame_simps)
  have args: "sc_argument0 (arm64_syscall_context self_frame) = 5" "sc_argument1 (arm64_syscall_context self_frame) = 0x1008"
    "sc_argument2 (arm64_syscall_context self_frame) = 8"
    by (simp_all add: arm64_syscall_context_def self_frame_def make_user_syscall_context_def)
  have sp: "user_stack_pointer rtc 0 = 0x1010"
    by (simp add: assms self_runtime_def user_stack_pointer_def frame_simps make_thread_context_from_syscall_def
        arm64_syscall_context_def self_frame_def make_user_syscall_context_def)
  have st: "thread_state rtc 0 = USER_THREAD_STATE_RUNNING"
    by (simp add: assms self_runtime_def thread_state_def frame_simps)
  obtain rt1 where r: "rpc_call AARCH64 0 0 (arm64_syscall_context self_frame) rtc = (STATUS_OK, rt1)"
    using example_call_succeeds[of rtc 0 "arm64_syscall_context self_frame" ?ep 0 0] asp fc args sp st
    by (auto simp: assms self_runtime_def frame_simps example_endpoint_def)
  have s: "sched_step (abs_sched rtc) (abs_sched rt1) \<and> runtime_wf rt1" by (rule rpc_call_step[OF wf cur st r])
  have "m_current_thread rt1 = Some 0 \<and> thread_state rt1 0 = USER_THREAD_STATE_RUNNING \<and>
      get_process_context rt1 0 = Some 0 \<and> get_process rt1 = get_process self_runtime"
    using r
  proof (cases rule: rpc_call_cases)
    case (Ok c ch e b rt2)
    have "b = 0" using Ok(2,3,5,9) fc args by (auto simp: assms self_runtime_def frame_simps)
    obtain m where rt2: "rt2 = update_thread b (redirect AARCH64 (m_endpoints rtc ! e)
        (request_address rtc b 8) 8) (rtc\<lparr>host_memory := m\<rparr>)"
      using Ok(11) args by (auto elim: prepare_server_thread_cases)
    have bc: "get_thread (begin_call c a b r) = get_thread r" "get_process (begin_call c a b r) = get_process r"
      "m_current_thread (begin_call c a b r) = m_current_thread r" for a b r
      by (auto simp: begin_call_def frame_simps split: option.split)
    show ?thesis
      using Ok(12) \<open>b = 0\<close> st cur
      by (auto simp: rt2 thread_state_def get_process_context_def bc frame_simps assms self_runtime_def split: option.splits)
  qed simp
  then show ?thesis using r by (auto simp: has_runnable_thread_def thread_state_def split: option.splits)
qed

theorem self_call_skips_callback_witness:
  "\<exists>frame' rt'. arm64_handle_syscall self_frame self_runtime = Inr (True, frame', rt') \<and>
     f_elr frame' = 0x1001 \<and> f_x0 frame' = 0"
proof -
  let ?rt0 = "update_thread 0 (save_arm64_preserved self_frame) self_runtime"
  let ?rtc = "update_thread 0 (set_user_context (make_thread_context_from_syscall (arm64_syscall_context self_frame))) ?rt0"
  obtain rt1 where r: "rpc_call AARCH64 0 0 (arm64_syscall_context self_frame) ?rtc = (STATUS_OK, rt1)"
    and c1: "m_current_thread rt1 = Some 0" and run: "has_runnable_thread rt1" and live: "get_thread rt1 0 \<noteq> None"
    and pc1: "get_process_context rt1 0 = Some 0" and ps: "get_process rt1 = get_process self_runtime"
    using self_call_dispatch[OF refl] by blast
  have cur: "m_current_thread self_runtime = Some 0" "get_process_context self_runtime 0 = Some 0"
    by (simp_all add: self_runtime_def get_process_context_def frame_simps)
  have num: "f_x8 self_frame = SYSCALL_RPC_CALL" by (simp add: self_frame_def)
  have d: "dispatch_syscall AARCH64 (arm64_syscall_context self_frame) ?rt0 = (STATUS_OK, rt1)"
    using r cur by (simp add: dispatch_syscall_def rpc_dispatch_syscall_def frame_simps syscall_defs Let_def
        arm64_syscall_context_def make_user_syscall_context_def self_frame_def)
  have nat: "get_process_execution_backend self_runtime 0 = PROCESS_EXECUTION_BACKEND_NATIVE"
    by (simp add: get_process_execution_backend_def self_runtime_def frame_simps example_process_def boot_process_def
        acquire_process_reference_def make_process_def example_configuration_def)
  let ?rt2 = "update_thread 0 (prepare_syscall_resume AARCH64 STATUS_OK) rt1"
  have nat2: "get_process_execution_backend ?rt2 0 = PROCESS_EXECUTION_BACKEND_NATIVE"
    using nat by (simp add: get_process_execution_backend_def frame_simps ps)
  have run2: "has_runnable_thread ?rt2" using run by (simp add: runnable_update_thread frame_simps)
  have esr: "drop_bit 26 (f_esr self_frame) AND 0x3F = ESR_EXCEPTION_CLASS_SVC64"
    by (simp add: self_frame_def ESR_EXCEPTION_CLASS_SVC64_def)
  obtain frame' where h: "arm64_handle_syscall self_frame self_runtime = Inr (True, frame', ?rt2)"
    using esr cur nat nat2 d run run2 c1 pc1 live
    by (auto simp: arm64_handle_syscall_def Let_def frame_simps split: option.splits)
  show ?thesis
    using self_call_skips_callback[OF self_runtime_inv cur num r c1 run h] h by (auto simp: self_frame_def)
qed

text \<open>
  C26. A call to an endpoint whose server thread is itself waiting in a call stops the system: the
  runtime accepts the call, blocks the caller and makes the blocked server current, and no thread is
  runnable any more, whatever other threads are READY.
\<close>

theorem call_to_blocked_server_halts:
  assumes "runtime_wf rt" and "m_current_thread rt = Some a" and "rpc_call arch a p sc rt = (STATUS_OK, rt')"
    and "m_current_thread rt' = Some b" and "b \<noteq> a" and "thread_state rt b = USER_THREAD_STATE_BLOCKED"
  shows "\<not> has_runnable_thread rt' \<and> thread_state rt' a = USER_THREAD_STATE_BLOCKED"
proof (rule rpc_call_ok[OF assms(1,2,3)])
  fix c ch e b' th m
  assume *: "m_current_thread rt' = Some b'" "get_thread rt b' = Some th"
    "get_thread rt' b' = Some (set_state (if a \<noteq> b' \<and> m_state th = USER_THREAD_STATE_READY
           then USER_THREAD_STATE_RUNNING else m_state th)
        (redirect arch (m_endpoints rt ! e) (request_address rt b' (sc_argument2 sc)) (sc_argument2 sc) th))"
    "a \<noteq> b' \<Longrightarrow> thread_state rt' a = USER_THREAD_STATE_BLOCKED"
  have "b' = b" using *(1) assms(4) by simp
  then show ?thesis
    using * assms(5,6) by (auto simp: has_runnable_thread_def thread_state_def set_state_def)
qed

theorem call_to_blocked_server_halts_witness:
  "\<exists>rt'. rpc_call AARCH64 0 0 example_call (update_thread 1 (set_state USER_THREAD_STATE_BLOCKED) example_runtime) =
     (STATUS_OK, rt') \<and> \<not> has_runnable_thread rt'"
proof -
  let ?rt = "update_thread 1 (set_state USER_THREAD_STATE_BLOCKED) example_runtime"
  have asp: "get_address_space_info ?rt q = get_address_space_info example_runtime q" for q
    by (simp add: get_address_space_info_def frame_simps)
  have fc: "find_channel_by_handle ?rt 5 = Some 0"
    using example_find_channel by (simp add: find_channel_by_handle_def frame_simps)
  have wf: "runtime_wf ?rt"
    using example_runtime_wf by (rule wf_update_thread) (simp_all add: frame_simps)
  have cur: "m_current_thread ?rt = Some 0" by (simp add: frame_simps)
  obtain rt' where r: "rpc_call AARCH64 0 0 example_call ?rt = (STATUS_OK, rt')"
    using example_call_succeeds[of ?rt 1 example_call example_endpoint 1 0] fc
    by (auto simp: asp get_address_space_info_def example_endpoint_def user_stack_pointer_def frame_simps)
  have "m_current_thread rt' = Some 1"
  proof (rule rpc_call_ok[OF wf cur r])
    fix c ch e b th m
    assume *: "find_channel_by_handle ?rt (sc_argument0 example_call) = Some c" "get_channel ?rt c = Some ch"
      "m_endpoint ch = Some e" "m_owner_thread (m_endpoints ?rt ! e) = Some b" "m_current_thread rt' = Some b"
    then show ?thesis using fc by (auto simp: frame_simps example_endpoint_def)
  qed
  then show ?thesis
    using call_to_blocked_server_halts[OF wf cur r] r by (auto simp: frame_simps)
qed

end
