(* ===== verification/X64_Alu.thy ===== *)
theory X64_Alu
  imports X64_Context
begin

text \<open>
  The arithmetic and logic instructions: \<open>emulator/x64/x64_alu_instructions.cpp\<close>, one definition per
  handler, after the vocabulary the handlers of all the files share (the fields of a ModRM byte, the
  ways a handler ends). Sums of a signed 64-bit value and a displacement wrap, as on the targets.
\<close>

section \<open>Shared vocabulary of the handlers\<close>

type_synonym 'k x64_instruction_handler = "x64_decoded_instruction \<Rightarrow> ('k, x64_instruction_outcome) x64_op"

definition stop_unsupported :: "u8 \<Rightarrow> ('k, x64_instruction_outcome) x64_op" where
  "stop_unsupported opc c = (X64_INSTRUCTION_OUTCOME_STOP_RUNNING, set_unsupported_instruction opc c)"

definition fail_invalid_memory :: "('k, x64_instruction_outcome) x64_op" where
  "fail_invalid_memory c = (X64_INSTRUCTION_OUTCOME_STOP_RUNNING, complete_invalid_memory c)"

definition continue_at :: "u64 \<Rightarrow> ('k, x64_instruction_outcome) x64_op" where
  "continue_at ip c = (X64_INSTRUCTION_OUTCOME_CONTINUE_RUNNING, set_instruction_pointer ip c)"

definition fails :: "('k, 'a option) x64_op" where
  "fails c = (None, c)"

text \<open>\<open>reject_rex_w i k\<close>: the guard of that name, followed by the rest \<open>k\<close> of the handler.\<close>

definition reject_rex_w :: "x64_decoded_instruction \<Rightarrow> ('k, x64_instruction_outcome) x64_op \<Rightarrow>
    ('k, x64_instruction_outcome) x64_op" where
  "reject_rex_w i k c = (if \<not> rex_w i then k c else stop_unsupported (i_opcode i) c)"

definition modrm_mod :: "u8 \<Rightarrow> u8" where "modrm_mod modrm = drop_bit 6 modrm AND 3"
definition modrm_reg :: "u8 \<Rightarrow> u8" where "modrm_reg modrm = drop_bit 3 modrm AND 7"
definition modrm_rm :: "u8 \<Rightarrow> u8" where "modrm_rm modrm = modrm AND 7"

definition extended_index :: "u8 \<Rightarrow> bool \<Rightarrow> nat" where
  "extended_index field rex = unat field + (if rex then 8 else 0)"

section \<open>Operands\<close>

record x64_decoded_rm_operand =
  o_mod :: u8
  o_operation :: u8
  o_rm_index :: nat
  o_rm_is_register :: bool
  o_rm_address :: u64
  o_next_instruction :: u64

definition sib_index_value :: "x64_decoded_instruction \<Rightarrow> u8 \<Rightarrow> 'k x64_execution_context \<Rightarrow> u64" where
  "sib_index_value i sib c =
     (if modrm_reg sib \<noteq> 4 \<or> rex_x i then get_register64 c (extended_index (modrm_reg sib) (rex_x i)) else 0)"

definition try_read_sib_operand_address ::
  "x64_decoded_instruction \<Rightarrow> u64 \<Rightarrow> u8 \<Rightarrow> ('k, (u64 \<times> u64) option) x64_op" where
  "try_read_sib_operand_address i modrm_address mod_field =
     attempt (read_u8 (modrm_address + 1)) fails (\<lambda>sib c.
       let scale = push_bit (unat (modrm_mod sib)) (1 :: u64); base_field = modrm_rm sib;
           displacement_address = modrm_address + 2; index_value = sib_index_value i sib c;
           base_value = get_register64 c (extended_index base_field (rex_b i)) in
       if mod_field = 0 then
         if base_field = 5 \<and> \<not> rex_b i
         then attempt (read_i32 displacement_address) fails
                (\<lambda>displacement32 c. (Some (index_value * scale + scast displacement32, displacement_address + 4), c)) c
         else (Some (base_value + index_value * scale, displacement_address), c)
       else if mod_field = 1 then
         attempt (read_i8 displacement_address) fails
           (\<lambda>displacement8 c. (Some (base_value + index_value * scale + scast displacement8, displacement_address + 1), c)) c
       else if mod_field = 2 then
         attempt (read_i32 displacement_address) fails
           (\<lambda>displacement32 c. (Some (base_value + index_value * scale + scast displacement32, displacement_address + 4), c)) c
       else fails c)"

definition try_decode_rm_operand ::
  "x64_decoded_instruction \<Rightarrow> u64 \<Rightarrow> ('k, x64_decoded_rm_operand option) x64_op" where
  "try_decode_rm_operand i modrm_address =
     attempt (read_u8 modrm_address) fails (\<lambda>modrm c.
       let mod_field = modrm_mod modrm; rm = modrm_rm modrm; rm_index = extended_index rm (rex_b i);
           operand = \<lparr>o_mod = mod_field, o_operation = modrm_reg modrm, o_rm_index = rm_index,
             o_rm_is_register = (mod_field = 3), o_rm_address = 0, o_next_instruction = modrm_address + 1\<rparr> in
       if mod_field = 3 then (Some operand, c)
       else if rm = 4 then
         attempt (try_read_sib_operand_address i modrm_address mod_field) fails
           (\<lambda>(address, next_instruction) c.
              (Some (operand\<lparr>o_rm_address := address, o_next_instruction := next_instruction\<rparr>), c)) c
       else if mod_field = 0 then
         if rm = 5 \<and> \<not> rex_b i
         then attempt (read_i32 (modrm_address + 1)) fails
                (\<lambda>displacement c. (Some (operand\<lparr>o_rm_address := modrm_address + 5 + scast displacement,
                   o_next_instruction := modrm_address + 5\<rparr>), c)) c
         else (Some (operand\<lparr>o_rm_address := get_register64 c rm_index\<rparr>), c)
       else if mod_field = 1 then
         attempt (read_i8 (modrm_address + 1)) fails
           (\<lambda>displacement c. (Some (operand\<lparr>o_rm_address := get_register64 c rm_index + scast displacement,
              o_next_instruction := modrm_address + 2\<rparr>), c)) c
       else if mod_field = 2 then
         attempt (read_i32 (modrm_address + 1)) fails
           (\<lambda>displacement c. (Some (operand\<lparr>o_rm_address := get_register64 c rm_index + scast displacement,
              o_next_instruction := modrm_address + 5\<rparr>), c)) c
       else fails c)"

text \<open>The reads and writes of an operand that is a register or memory, as the handlers repeat them.\<close>

definition read_rm64 :: "x64_decoded_rm_operand \<Rightarrow> ('k, u64 option) x64_op" where
  "read_rm64 operand c =
     (if o_rm_is_register operand then (Some (get_register64 c (o_rm_index operand)), c)
      else read_u64 (o_rm_address operand) c)"

definition read_rm32 :: "x64_decoded_rm_operand \<Rightarrow> ('k, u32 option) x64_op" where
  "read_rm32 operand c =
     (if o_rm_is_register operand then (Some (get_register32 c (o_rm_index operand)), c)
      else read_u32 (o_rm_address operand) c)"

definition write_rm64 :: "x64_decoded_rm_operand \<Rightarrow> u64 \<Rightarrow> ('k, unit option) x64_op" where
  "write_rm64 operand v c =
     (if o_rm_is_register operand then (Some (), set_register64 (o_rm_index operand) v c)
      else write_u64 (o_rm_address operand) v c)"

definition write_rm32 :: "x64_decoded_rm_operand \<Rightarrow> u32 \<Rightarrow> ('k, unit option) x64_op" where
  "write_rm32 operand v c =
     (if o_rm_is_register operand then (Some (), set_register32 (o_rm_index operand) v c)
      else write_u32 (o_rm_address operand) v c)"

section \<open>Logic\<close>

definition execute_x64_xor_register :: "'k x64_instruction_handler" where
  "execute_x64_xor_register i c =
     (if rex_w i then stop_unsupported (i_opcode i) c
      else attempt (read_u8 (i_next_address i)) fail_invalid_memory (\<lambda>modrm c.
        let source_register = extended_index (modrm_reg modrm) (rex_r i);
            destination_register = extended_index (modrm_rm modrm) (rex_b i) in
        if modrm_mod modrm \<noteq> 3 then stop_unsupported (i_opcode i) c
        else (let result_value = get_register32 c destination_register XOR get_register32 c source_register in
          continue_at (i_next_address i + 1)
            (set_logic_flags (ucast result_value) False (set_register32 destination_register result_value c)))) c)"

definition execute_x64_or_register_byte :: "'k x64_instruction_handler" where
  "execute_x64_or_register_byte i =
     attempt (read_u8 (i_next_address i)) fail_invalid_memory (\<lambda>modrm c.
       let source_register = extended_index (modrm_reg modrm) (rex_r i);
           destination_register = extended_index (modrm_rm modrm) (rex_b i) in
       if modrm_mod modrm \<noteq> 3 then stop_unsupported (i_opcode i) c
       else (let result_value = get_register8_low c destination_register OR get_register8_low c source_register in
         continue_at (i_next_address i + 1)
           (set_logic_flags (ucast result_value) False (set_register8_low destination_register result_value c))))"

definition execute_x64_or_rm_to_register :: "'k x64_instruction_handler" where
  "execute_x64_or_rm_to_register i =
     attempt (read_u8 (i_next_address i)) fail_invalid_memory (\<lambda>modrm.
     attempt (try_decode_rm_operand i (i_next_address i)) fail_invalid_memory (\<lambda>operand.
       let destination_register = extended_index (modrm_reg modrm) (rex_r i) in
       if rex_w i then
         attempt (read_rm64 operand) fail_invalid_memory (\<lambda>rhs c.
           let result_value = get_register64 c destination_register OR rhs in
           continue_at (o_next_instruction operand)
             (set_logic_flags result_value True (set_register64 destination_register result_value c)))
       else
         attempt (read_rm32 operand) fail_invalid_memory (\<lambda>rhs c.
           let result_value = get_register32 c destination_register OR rhs in
           continue_at (o_next_instruction operand)
             (set_logic_flags (ucast result_value) False (set_register32 destination_register result_value c)))))"

definition execute_x64_test_register :: "'k x64_instruction_handler" where
  "execute_x64_test_register i =
     attempt (read_u8 (i_next_address i)) fail_invalid_memory (\<lambda>modrm c.
       let source_register = extended_index (modrm_reg modrm) (rex_r i);
           destination_register = extended_index (modrm_rm modrm) (rex_b i) in
       if modrm_mod modrm \<noteq> 3 then stop_unsupported (i_opcode i) c
       else continue_at (i_next_address i + 1)
         (if rex_w i
          then set_logic_flags (get_register64 c destination_register AND get_register64 c source_register) True c
          else set_logic_flags (ucast (get_register32 c destination_register AND get_register32 c source_register)) False c))"

definition execute_x64_test_accumulator_immediate :: "'k x64_instruction_handler" where
  "execute_x64_test_accumulator_immediate i =
     attempt (read_u32 (i_next_address i)) fail_invalid_memory (\<lambda>immediate c.
       continue_at (i_next_address i + 4)
         (if rex_w i
          then set_logic_flags (get_register64 c X64_GENERAL_REGISTER_RAX AND scast immediate) True c
          else set_logic_flags (ucast (get_register32 c X64_GENERAL_REGISTER_RAX AND immediate)) False c))"

definition execute_x64_group_f6 :: "'k x64_instruction_handler" where
  "execute_x64_group_f6 i =
     attempt (try_decode_rm_operand i (i_next_address i)) fail_invalid_memory (\<lambda>operand.
     attempt (read_u8 (o_next_instruction operand)) fail_invalid_memory (\<lambda>immediate.
       if o_operation operand \<noteq> 0 then stop_unsupported (i_opcode i)
       else attempt
         (\<lambda>c. if o_rm_is_register operand then (Some (get_register8_low c (o_rm_index operand)), c)
              else read_u8 (o_rm_address operand) c)
         fail_invalid_memory (\<lambda>lhs c.
           continue_at (o_next_instruction operand + 1) (set_logic_flags (ucast (lhs AND immediate)) False c))))"

section \<open>Arithmetic\<close>

definition execute_x64_group_f7 :: "'k x64_instruction_handler" where
  "execute_x64_group_f7 i =
     attempt (try_decode_rm_operand i (i_next_address i)) fail_invalid_memory (\<lambda>operand.
       if o_operation operand \<noteq> 3 then stop_unsupported (i_opcode i)
       else if rex_w i then
         attempt (read_rm64 operand) fail_invalid_memory (\<lambda>rhs.
           let result_value = 0 - rhs in
           attempt (write_rm64 operand result_value) fail_invalid_memory (\<lambda>_ c.
             continue_at (o_next_instruction operand) (set_compare_flags 0 rhs result_value True c)))
       else
         attempt (read_rm32 operand) fail_invalid_memory (\<lambda>rhs.
           let result_value = 0 - rhs in
           attempt (write_rm32 operand result_value) fail_invalid_memory (\<lambda>_ c.
             continue_at (o_next_instruction operand) (set_compare_flags 0 (ucast rhs) (ucast result_value) False c))))"

text \<open>
  The body \<open>group83\<close> and \<open>group81\<close> share: \<open>add\<close>, \<open>sub\<close> and \<open>cmp\<close> of an operand and a sign-extended
  immediate, at both widths. \<open>next_address\<close> is the address after the immediate.
\<close>

definition execute_arithmetic64 :: "x64_decoded_instruction \<Rightarrow> x64_decoded_rm_operand \<Rightarrow> u64 \<Rightarrow> u64 \<Rightarrow>
    ('k, x64_instruction_outcome) x64_op" where
  "execute_arithmetic64 i operand rhs next_address =
     attempt (read_rm64 operand) fail_invalid_memory (\<lambda>lhs.
       if o_operation operand = 0 then
         let sum = lhs + rhs in
         attempt (write_rm64 operand sum) fail_invalid_memory (\<lambda>_ c.
           continue_at next_address (set_add_flags lhs rhs sum True c))
       else if o_operation operand = 5 then
         let difference = lhs - rhs in
         attempt (write_rm64 operand difference) fail_invalid_memory (\<lambda>_ c.
           continue_at next_address (set_compare_flags lhs rhs difference True c))
       else if o_operation operand = 7 then
         (\<lambda>c. continue_at next_address (set_compare_flags lhs rhs (lhs - rhs) True c))
       else stop_unsupported (i_opcode i))"

definition execute_arithmetic32 :: "x64_decoded_instruction \<Rightarrow> x64_decoded_rm_operand \<Rightarrow> u32 \<Rightarrow> u64 \<Rightarrow>
    ('k, x64_instruction_outcome) x64_op" where
  "execute_arithmetic32 i operand rhs next_address =
     attempt (read_rm32 operand) fail_invalid_memory (\<lambda>lhs.
       if o_operation operand = 0 then
         let sum = lhs + rhs in
         attempt (write_rm32 operand sum) fail_invalid_memory (\<lambda>_ c.
           continue_at next_address (set_add_flags (ucast lhs) (ucast rhs) (ucast sum) False c))
       else if o_operation operand = 5 then
         let difference = lhs - rhs in
         attempt (write_rm32 operand difference) fail_invalid_memory (\<lambda>_ c.
           continue_at next_address (set_compare_flags (ucast lhs) (ucast rhs) (ucast difference) False c))
       else if o_operation operand = 7 then
         (\<lambda>c. continue_at next_address (set_compare_flags (ucast lhs) (ucast rhs) (ucast (lhs - rhs)) False c))
       else stop_unsupported (i_opcode i))"

definition execute_x64_group83 :: "'k x64_instruction_handler" where
  "execute_x64_group83 i =
     attempt (try_decode_rm_operand i (i_next_address i)) fail_invalid_memory (\<lambda>operand.
     attempt (read_i8 (o_next_instruction operand)) fail_invalid_memory (\<lambda>immediate.
       if rex_w i then execute_arithmetic64 i operand (scast immediate) (o_next_instruction operand + 1)
       else execute_arithmetic32 i operand (scast immediate) (o_next_instruction operand + 1)))"

definition execute_x64_compare_rm_with_register :: "'k x64_instruction_handler" where
  "execute_x64_compare_rm_with_register i =
     attempt (read_u8 (i_next_address i)) fail_invalid_memory (\<lambda>modrm.
     attempt (try_decode_rm_operand i (i_next_address i)) fail_invalid_memory (\<lambda>operand.
       let source_register = extended_index (modrm_reg modrm) (rex_r i) in
       if rex_w i then
         (\<lambda>c0. let rhs = get_register64 c0 source_register in
           attempt (read_rm64 operand) fail_invalid_memory (\<lambda>lhs c.
             continue_at (o_next_instruction operand) (set_compare_flags lhs rhs (lhs - rhs) True c)) c0)
       else
         (\<lambda>c0. let rhs = get_register32 c0 source_register in
           attempt (read_rm32 operand) fail_invalid_memory (\<lambda>lhs c.
             continue_at (o_next_instruction operand)
               (set_compare_flags (ucast lhs) (ucast rhs) (ucast (lhs - rhs)) False c)) c0)))"

definition execute_x64_group81 :: "'k x64_instruction_handler" where
  "execute_x64_group81 i =
     attempt (try_decode_rm_operand i (i_next_address i)) fail_invalid_memory (\<lambda>operand.
     attempt (read_i32 (o_next_instruction operand)) fail_invalid_memory (\<lambda>immediate.
       if rex_w i then execute_arithmetic64 i operand (scast immediate) (o_next_instruction operand + 4)
       else execute_arithmetic32 i operand immediate (o_next_instruction operand + 4)))"

end
