(* ===== verification/X64_Data_Movement.thy ===== *)
theory X64_Data_Movement
  imports X64_Alu
begin

text \<open>
  The instructions of \<open>emulator/x64/x64_data_movement_instructions.cpp\<close>. The file decodes memory
  operands on its own: \<open>try_get_memory_operand_address\<close> writes the completion before it fails, and
  the handlers look at the completion to tell a fault from an unsupported form.
\<close>

section \<open>Memory operands\<close>

definition fails_invalid_memory :: "('k, 'a option) x64_op" where
  "fails_invalid_memory c = (None, complete_invalid_memory c)"

definition try_read_sib_address ::
  "x64_decoded_instruction \<Rightarrow> u64 \<Rightarrow> u8 \<Rightarrow> ('k, (u64 \<times> u64) option) x64_op" where
  "try_read_sib_address i modrm_address mod_field =
     attempt (read_u8 (modrm_address + 1)) fails_invalid_memory (\<lambda>sib c.
       let scale = push_bit (unat (modrm_mod sib)) (1 :: u64); base_field = modrm_rm sib;
           displacement_address = modrm_address + 2; index_value = sib_index_value i sib c;
           base_value = get_register64 c (extended_index base_field (rex_b i)) in
       if mod_field = 0 then
         if base_field = 5 \<and> \<not> rex_b i
         then attempt (read_i32 displacement_address) fails_invalid_memory
                (\<lambda>displacement32 c. (Some (index_value * scale + scast displacement32, displacement_address + 4), c)) c
         else (Some (base_value + index_value * scale, displacement_address), c)
       else if mod_field = 1 then
         attempt (read_i8 displacement_address) fails_invalid_memory
           (\<lambda>displacement8 c. (Some (base_value + index_value * scale + scast displacement8, displacement_address + 1), c)) c
       else if mod_field = 2 then
         attempt (read_i32 displacement_address) fails_invalid_memory
           (\<lambda>displacement32 c. (Some (base_value + index_value * scale + scast displacement32, displacement_address + 4), c)) c
       else fails c)"

definition try_get_memory_operand_address ::
  "x64_decoded_instruction \<Rightarrow> u64 \<Rightarrow> u8 \<Rightarrow> ('k, (u64 \<times> u64) option) x64_op" where
  "try_get_memory_operand_address i modrm_address modrm c =
     (let mod_field = modrm_mod modrm; rm = modrm_rm modrm; base_register_index = extended_index rm (rex_b i) in
      if mod_field = 0 then
        if rm = 4 then try_read_sib_address i modrm_address mod_field c
        else if rm = 5 \<and> \<not> rex_b i then
          attempt (read_i32 (modrm_address + 1)) fails_invalid_memory
            (\<lambda>displacement c. (Some (modrm_address + 5 + scast displacement, modrm_address + 5), c)) c
        else (Some (get_register64 c base_register_index, modrm_address + 1), c)
      else if mod_field = 1 then
        if rm = 4 then try_read_sib_address i modrm_address mod_field c
        else attempt (read_i8 (modrm_address + 1)) fails_invalid_memory
          (\<lambda>displacement c. (Some (get_register64 c base_register_index + scast displacement, modrm_address + 2), c)) c
      else if mod_field = 2 then
        if rm = 4 then try_read_sib_address i modrm_address mod_field c
        else attempt (read_i32 (modrm_address + 1)) fails_invalid_memory
          (\<lambda>displacement c. (Some (get_register64 c base_register_index + scast displacement, modrm_address + 5), c)) c
      else fails c)"

text \<open>What the handlers do when the operand cannot be decoded.\<close>

definition operand_failure :: "u8 \<Rightarrow> ('k, x64_instruction_outcome) x64_op" where
  "operand_failure opc c =
     (if completion (x_result c) = X64_EMULATOR_COMPLETION_INVALID_MEMORY_ACCESS
      then (X64_INSTRUCTION_OUTCOME_STOP_RUNNING, c)
      else stop_unsupported opc c)"

section \<open>Moves\<close>

definition execute_x64_mov_immediate32 :: "'k x64_instruction_handler" where
  "execute_x64_mov_immediate32 i = reject_rex_w i
     (let register_index = unat (i_opcode i - 0xB8) + (if rex_b i then 8 else 0) in
      attempt (read_u32 (i_next_address i)) fail_invalid_memory (\<lambda>immediate c.
        continue_at (i_next_address i + 4) (set_register32 register_index immediate c)))"

definition execute_x64_mov_immediate_to_rm :: "'k x64_instruction_handler" where
  "execute_x64_mov_immediate_to_rm i =
     attempt (read_u8 (i_next_address i)) fail_invalid_memory (\<lambda>modrm.
       let rm_register_index = extended_index (modrm_rm modrm) (rex_b i) in
       if modrm_reg modrm \<noteq> 0 then stop_unsupported (i_opcode i)
       else if modrm_mod modrm = 3 then
         attempt (read_u32 (i_next_address i + 1)) fail_invalid_memory (\<lambda>immediate c.
           continue_at (i_next_address i + 1 + 4)
             (if rex_w i then set_register64 rm_register_index (scast immediate) c
              else set_register32 rm_register_index immediate c))
       else
         attempt (try_get_memory_operand_address i (i_next_address i) modrm) (operand_failure (i_opcode i))
           (\<lambda>(memory_address, next_instruction).
             attempt (read_u32 next_instruction) fail_invalid_memory (\<lambda>immediate.
               attempt (if rex_w i then write_u64 memory_address (scast immediate)
                        else write_u32 memory_address immediate)
                 fail_invalid_memory (\<lambda>_. continue_at (next_instruction + 4)))))"

definition execute_x64_mov_register :: "'k x64_instruction_handler" where
  "execute_x64_mov_register i =
     attempt (read_u8 (i_next_address i)) fail_invalid_memory (\<lambda>modrm.
       let register_index = extended_index (modrm_reg modrm) (rex_r i);
           rm_register_index = extended_index (modrm_rm modrm) (rex_b i) in
       if modrm_mod modrm = 3 then
         (\<lambda>c. if i_opcode i = 0x89 then
               continue_at (i_next_address i + 1)
                 (if rex_w i then set_register64 rm_register_index (get_register64 c register_index) c
                  else set_register32 rm_register_index (get_register32 c register_index) c)
             else if i_opcode i = 0x8B then
               continue_at (i_next_address i + 1)
                 (if rex_w i then set_register64 register_index (get_register64 c rm_register_index) c
                  else set_register32 register_index (get_register32 c rm_register_index) c)
             else stop_unsupported (i_opcode i) c)
       else
         attempt (try_get_memory_operand_address i (i_next_address i) modrm) (operand_failure (i_opcode i))
           (\<lambda>(memory_address, next_instruction).
             if rex_w i then
               if i_opcode i = 0x89 then
                 attempt (\<lambda>c. write_u64 memory_address (get_register64 c register_index) c) fail_invalid_memory
                   (\<lambda>_. continue_at next_instruction)
               else if i_opcode i = 0x8B then
                 attempt (read_u64 memory_address) fail_invalid_memory
                   (\<lambda>v c. continue_at next_instruction (set_register64 register_index v c))
               else stop_unsupported (i_opcode i)
             else
               if i_opcode i = 0x89 then
                 attempt (\<lambda>c. write_u32 memory_address (get_register32 c register_index) c) fail_invalid_memory
                   (\<lambda>_. continue_at next_instruction)
               else if i_opcode i = 0x8B then
                 attempt (read_u32 memory_address) fail_invalid_memory
                   (\<lambda>v c. continue_at next_instruction (set_register32 register_index v c))
               else stop_unsupported (i_opcode i)))"

definition execute_x64_lea :: "'k x64_instruction_handler" where
  "execute_x64_lea i =
     attempt (read_u8 (i_next_address i)) fail_invalid_memory (\<lambda>modrm.
       let register_index = extended_index (modrm_reg modrm) (rex_r i) in
       if modrm_mod modrm = 3 then stop_unsupported (i_opcode i)
       else
         attempt (try_get_memory_operand_address i (i_next_address i) modrm) (operand_failure (i_opcode i))
           (\<lambda>(memory_address, next_instruction) c.
             continue_at next_instruction
               (if rex_w i then set_register64 register_index memory_address c
                else set_register32 register_index (ucast memory_address) c)))"

section \<open>Byte compare, conditions, zero extension\<close>

text \<open>The byte a \<open>mod = 3\<close> operand or a memory operand holds, with the address after the operand.\<close>

definition read_byte_operand :: "x64_decoded_instruction \<Rightarrow> u64 \<Rightarrow> u8 \<Rightarrow> u8 \<Rightarrow>
    (u8 \<Rightarrow> u64 \<Rightarrow> ('k, x64_instruction_outcome) x64_op) \<Rightarrow> ('k, x64_instruction_outcome) x64_op" where
  "read_byte_operand i modrm_address modrm opc k c =
     (if modrm_mod modrm = 3
      then k (get_register8_low c (extended_index (modrm_rm modrm) (rex_b i))) (modrm_address + 1) c
      else attempt (try_get_memory_operand_address i modrm_address modrm) (operand_failure opc)
        (\<lambda>(memory_address, next_instruction).
          attempt (read_u8 memory_address) fail_invalid_memory (\<lambda>v. k v next_instruction)) c)"

definition execute_x64_group80 :: "'k x64_instruction_handler" where
  "execute_x64_group80 i =
     attempt (read_u8 (i_next_address i)) fail_invalid_memory (\<lambda>modrm.
       if modrm_reg modrm \<noteq> 7 then stop_unsupported (i_opcode i)
       else read_byte_operand i (i_next_address i) modrm (i_opcode i) (\<lambda>lhs next_instruction.
         attempt (read_u8 next_instruction) fail_invalid_memory (\<lambda>immediate c.
           continue_at (next_instruction + 1)
             (set_compare_flags (ucast lhs) (ucast immediate) (ucast (lhs - immediate)) False c))))"

definition execute_x64_secondary_setcc :: "'k x64_instruction_handler" where
  "execute_x64_secondary_setcc i =
     attempt (read_u8 (i_next_address i)) fail_invalid_memory (\<lambda>secondary_opcode.
     attempt (read_u8 (i_next_address i + 1)) fail_invalid_memory (\<lambda>modrm c.
       if modrm_mod modrm \<noteq> 3 \<or> (secondary_opcode \<noteq> 0x94 \<and> secondary_opcode \<noteq> 0x95)
       then stop_unsupported secondary_opcode c
       else (let zero_flag_set = (e_flags (x_state c) AND RFLAGS_ZERO \<noteq> 0);
                 set_condition = (if secondary_opcode = 0x94 then zero_flag_set else \<not> zero_flag_set) in
         continue_at (i_next_address i + 2)
           (set_register8_low (extended_index (modrm_rm modrm) (rex_b i)) (if set_condition then 1 else 0) c))))"

definition execute_x64_secondary_movzx_byte :: "'k x64_instruction_handler" where
  "execute_x64_secondary_movzx_byte i =
     attempt (read_u8 (i_next_address i + 1)) fail_invalid_memory (\<lambda>modrm.
       read_byte_operand i (i_next_address i + 1) modrm 0xB6 (\<lambda>v next_instruction c.
         continue_at next_instruction
           (set_register32 (extended_index (modrm_reg modrm) (rex_r i)) (ucast v) c)))"

definition execute_x64_nop :: "'k x64_instruction_handler" where
  "execute_x64_nop i = reject_rex_w i (continue_at (i_next_address i))"

end
