(* ===== verification/X64_Control_Flow.thy ===== *)
theory X64_Control_Flow
  imports X64_Alu
begin

text \<open>
  Stack, control flow and system instructions: \<open>x64_stack_instructions.cpp\<close>,
  \<open>x64_control_flow_instructions.cpp\<close> and \<open>x64_system_instructions.cpp\<close> under \<open>emulator/x64\<close>. A
  displacement is sign-extended to the width of the instruction pointer. The system call handler is
  the one place where the emulator leaves its own code: it calls the callback with the guest state.
\<close>

section \<open>Stack\<close>

definition execute_x64_push_register :: "'k x64_instruction_handler" where
  "execute_x64_push_register i = reject_rex_w i
     (let register_index = unat (i_opcode i - 0x50) + (if rex_b i then 8 else 0) in
      attempt (\<lambda>c. push_u64 (get_register64 c register_index) c) fail_invalid_memory
        (\<lambda>_. continue_at (i_next_address i)))"

definition execute_x64_pop_register :: "'k x64_instruction_handler" where
  "execute_x64_pop_register i = reject_rex_w i
     (let register_index = unat (i_opcode i - 0x58) + (if rex_b i then 8 else 0) in
      attempt pop_u64 fail_invalid_memory
        (\<lambda>v c. continue_at (i_next_address i) (set_register64 register_index v c)))"

section \<open>Control flow\<close>

definition set_inc_dec_flags :: "u64 \<Rightarrow> u64 \<Rightarrow> bool \<Rightarrow> bool \<Rightarrow> 'k x64_execution_context \<Rightarrow> 'k x64_execution_context" where
  "set_inc_dec_flags lhs result is_decrement is_64_bit c =
     (let masked_lhs = lhs AND width_mask is_64_bit; masked_result = result AND width_mask is_64_bit;
          lhs_sign = (masked_lhs AND sign_mask is_64_bit \<noteq> 0);
          result_sign = (masked_result AND sign_mask is_64_bit \<noteq> 0);
          overflow = (if is_decrement then lhs_sign \<and> \<not> result_sign else \<not> lhs_sign \<and> result_sign) in
      set_flags
        (flag_if overflow RFLAGS_OVERFLOW
        (flag_if result_sign RFLAGS_SIGN
        (flag_if (masked_result = 0) RFLAGS_ZERO
          ((e_flags (x_state c) AND RFLAGS_CARRY) OR RFLAGS_RESERVED)))) c)"

definition execute_x64_return :: "'k x64_instruction_handler" where
  "execute_x64_return i = reject_rex_w i
     (attempt pop_u64 fail_invalid_memory (\<lambda>return_address. continue_at return_address))"

definition execute_x64_call_relative :: "'k x64_instruction_handler" where
  "execute_x64_call_relative i = reject_rex_w i
     (attempt (read_i32 (i_next_address i)) fail_invalid_memory (\<lambda>displacement.
       let return_address = i_next_address i + 4 in
       attempt (push_u64 return_address) fail_invalid_memory
         (\<lambda>_. continue_at (return_address + scast displacement))))"

text \<open>The end of an indirect call: push the return address and go to the target.\<close>

definition call_target :: "u64 \<Rightarrow> u64 \<Rightarrow> ('k, x64_instruction_outcome) x64_op" where
  "call_target target_address return_address =
     attempt (push_u64 return_address) fail_invalid_memory (\<lambda>_. continue_at target_address)"

definition execute_x64_group_ff :: "'k x64_instruction_handler" where
  "execute_x64_group_ff i =
     attempt (read_u8 (i_next_address i)) fail_invalid_memory (\<lambda>modrm c.
       let mod_field = modrm_mod modrm; operation = modrm_reg modrm; rm = modrm_rm modrm;
           rm_register_index = extended_index rm (rex_b i) in
       if operation = 0 \<or> operation = 1 then
         if mod_field \<noteq> 3 then stop_unsupported (i_opcode i) c
         else continue_at (i_next_address i + 1)
           (if rex_w i
            then (let lhs = get_register64 c rm_register_index; result = (if operation = 0 then lhs + 1 else lhs - 1)
                  in set_inc_dec_flags lhs result (operation = 1) True (set_register64 rm_register_index result c))
            else (let lhs = get_register32 c rm_register_index; result = (if operation = 0 then lhs + 1 else lhs - 1)
                  in set_inc_dec_flags (ucast lhs) (ucast result) (operation = 1) False
                       (set_register32 rm_register_index result c)))
       else if operation \<noteq> 2 then stop_unsupported (i_opcode i) c
       else if mod_field = 3 then call_target (get_register64 c rm_register_index) (i_next_address i + 1) c
       else if mod_field = 0 \<and> rm = 5 \<and> \<not> rex_b i then
         attempt (read_i32 (i_next_address i + 1)) fail_invalid_memory (\<lambda>displacement.
         attempt (read_u64 (i_next_address i + 5 + scast displacement)) fail_invalid_memory (\<lambda>loaded_target.
           call_target loaded_target (i_next_address i + 5))) c
       else stop_unsupported (i_opcode i) c)"

definition execute_x64_jump_relative_near :: "'k x64_instruction_handler" where
  "execute_x64_jump_relative_near i = reject_rex_w i
     (attempt (read_i32 (i_next_address i)) fail_invalid_memory
       (\<lambda>displacement. continue_at (i_next_address i + 4 + scast displacement)))"

definition execute_x64_jump_relative_short :: "'k x64_instruction_handler" where
  "execute_x64_jump_relative_short i = reject_rex_w i
     (attempt (read_i8 (i_next_address i)) fail_invalid_memory
       (\<lambda>displacement. continue_at (i_next_address i + 1 + scast displacement)))"

definition execute_x64_jump_short_condition :: "'k x64_instruction_handler" where
  "execute_x64_jump_short_condition i = reject_rex_w i
     (attempt (read_i8 (i_next_address i)) fail_invalid_memory (\<lambda>displacement c.
       let zero_flag_set = (e_flags (x_state c) AND RFLAGS_ZERO \<noteq> 0);
           take_branch = (if i_opcode i = 0x74 then zero_flag_set else \<not> zero_flag_set) in
       continue_at (if take_branch then i_next_address i + 1 + scast displacement else i_next_address i + 1) c))"

definition execute_x64_jump_near_condition :: "'k x64_instruction_handler" where
  "execute_x64_jump_near_condition i =
     attempt (read_u8 (i_next_address i)) fail_invalid_memory (\<lambda>secondary_opcode.
     attempt (read_i32 (i_next_address i + 1)) fail_invalid_memory (\<lambda>displacement c.
       let zero_flag_set = (e_flags (x_state c) AND RFLAGS_ZERO \<noteq> 0);
           take_branch = (if secondary_opcode = 0x84 then zero_flag_set else \<not> zero_flag_set) in
       continue_at (if take_branch then i_next_address i + 1 + 4 + scast displacement
                    else i_next_address i + 1 + 4) c))"

section \<open>System\<close>

text \<open>The displacement that follows a ModRM byte and its SIB byte; only the address after it matters.\<close>

definition skip_displacement :: "u8 \<Rightarrow> u64 \<Rightarrow> ('k, u64 option) x64_op" where
  "skip_displacement mod_field next_instruction =
     (if mod_field = 1 then attempt (read_u8 next_instruction) fails (\<lambda>_ c. (Some (next_instruction + 1), c))
      else if mod_field = 2 then attempt (read_u32 next_instruction) fails (\<lambda>_ c. (Some (next_instruction + 4), c))
      else (\<lambda>c. (Some next_instruction, c)))"

definition try_skip_modrm_operand :: "x64_decoded_instruction \<Rightarrow> u64 \<Rightarrow> ('k, u64 option) x64_op" where
  "try_skip_modrm_operand i modrm_address =
     attempt (read_u8 modrm_address) fails (\<lambda>modrm.
       let mod_field = modrm_mod modrm; rm = modrm_rm modrm; next_instruction = modrm_address + 1 in
       if modrm_reg modrm \<noteq> 0 then fails
       else if mod_field = 3 then (\<lambda>c. (Some next_instruction, c))
       else if rm = 4 then
         attempt (read_u8 next_instruction) fails (\<lambda>sib.
           if mod_field = 0 \<and> modrm_rm sib = 5 \<and> \<not> rex_b i
           then attempt (read_u32 (next_instruction + 1)) fails
                  (\<lambda>_. skip_displacement mod_field (next_instruction + 1 + 4))
           else skip_displacement mod_field (next_instruction + 1))
       else if mod_field = 0 \<and> rm = 5 \<and> \<not> rex_b i then
         attempt (read_u32 next_instruction) fails (\<lambda>_. skip_displacement mod_field (next_instruction + 4))
       else skip_displacement mod_field next_instruction)"

definition execute_x64_unsupported :: "'k x64_instruction_handler" where
  "execute_x64_unsupported i = stop_unsupported (i_opcode i)"

text \<open>
  The callback of an invocation that \<open>is_valid_invocation\<close> accepted is never null; without one the
  call through the pointer has no meaning and the context is left as it is.
\<close>

definition call_handle_syscall :: "('k, x64_emulator_syscall_result) x64_op" where
  "call_handle_syscall c =
     (case x_handle_syscall c of
        None \<Rightarrow> (\<lparr>sr_status = 0, sr_action = X64_EMULATOR_SYSCALL_ACTION_EXIT_THREAD\<rparr>, c)
      | Some handle_syscall \<Rightarrow>
          (case handle_syscall (x_env c) (x_host c) (x_state c) of
             (r, env, m) \<Rightarrow> (r, c\<lparr>x_host := m, x_env := env\<rparr>)))"

definition execute_x64_syscall :: "'k x64_instruction_handler" where
  "execute_x64_syscall i c =
     (case call_handle_syscall (set_instruction_pointer (i_next_address i + 1) c) of
        (syscall_result, c1) \<Rightarrow>
          (let c2 = set_register64 X64_GENERAL_REGISTER_RAX (scast (sr_status syscall_result)) c1 in
           case sr_action syscall_result of
             X64_EMULATOR_SYSCALL_ACTION_EXIT_THREAD \<Rightarrow>
               (X64_INSTRUCTION_OUTCOME_RETIRE_AND_STOP, set_thread_exited c2)
           | X64_EMULATOR_SYSCALL_ACTION_YIELD \<Rightarrow> (X64_INSTRUCTION_OUTCOME_RETIRE_AND_STOP, set_yielded c2)
           | X64_EMULATOR_SYSCALL_ACTION_CONTINUE \<Rightarrow> (X64_INSTRUCTION_OUTCOME_CONTINUE_RUNNING, c2)))"

definition execute_x64_secondary_nop :: "'k x64_instruction_handler" where
  "execute_x64_secondary_nop i =
     attempt (try_skip_modrm_operand i (i_next_address i + 1)) (stop_unsupported 0x1F)
       (\<lambda>next_instruction. continue_at next_instruction)"

end
