(* ===== verification/X64_Simd.thy ===== *)
theory X64_Simd
  imports X64_Alu
begin

text \<open>
  The SIMD instructions: \<open>emulator/x64/x64_simd_instructions.cpp\<close>. The file repeats the operand
  decoding of the arithmetic instructions word for word; its operand also carries the register
  number of the ModRM byte.
\<close>

section \<open>Operands\<close>

record x64_decoded_modrm_operand =
  s_mod :: u8
  s_reg_index :: nat
  s_rm_index :: nat
  s_rm_is_register :: bool
  s_rm_address :: u64
  s_next_instruction :: u64

definition try_decode_modrm_operand ::
  "x64_decoded_instruction \<Rightarrow> u64 \<Rightarrow> ('k, x64_decoded_modrm_operand option) x64_op" where
  "try_decode_modrm_operand i modrm_address =
     attempt (read_u8 modrm_address) fails (\<lambda>modrm c.
       let mod_field = modrm_mod modrm; rm = modrm_rm modrm; rm_index = extended_index rm (rex_b i);
           operand = \<lparr>s_mod = mod_field, s_reg_index = extended_index (modrm_reg modrm) (rex_r i),
             s_rm_index = rm_index, s_rm_is_register = (mod_field = 3), s_rm_address = 0,
             s_next_instruction = modrm_address + 1\<rparr> in
       if mod_field = 3 then (Some operand, c)
       else if rm = 4 then
         attempt (try_read_sib_operand_address i modrm_address mod_field) fails
           (\<lambda>(address, next_instruction) c.
              (Some (operand\<lparr>s_rm_address := address, s_next_instruction := next_instruction\<rparr>), c)) c
       else if mod_field = 0 then
         if rm = 5 \<and> \<not> rex_b i
         then attempt (read_i32 (modrm_address + 1)) fails
                (\<lambda>displacement c. (Some (operand\<lparr>s_rm_address := modrm_address + 5 + scast displacement,
                   s_next_instruction := modrm_address + 5\<rparr>), c)) c
         else (Some (operand\<lparr>s_rm_address := get_register64 c rm_index\<rparr>), c)
       else if mod_field = 1 then
         attempt (read_i8 (modrm_address + 1)) fails
           (\<lambda>displacement c. (Some (operand\<lparr>s_rm_address := get_register64 c rm_index + scast displacement,
              s_next_instruction := modrm_address + 2\<rparr>), c)) c
       else if mod_field = 2 then
         attempt (read_i32 (modrm_address + 1)) fails
           (\<lambda>displacement c. (Some (operand\<lparr>s_rm_address := get_register64 c rm_index + scast displacement,
              s_next_instruction := modrm_address + 5\<rparr>), c)) c
       else fails c)"

definition try_read_simd_operand :: "x64_decoded_modrm_operand \<Rightarrow> ('k, x64_simd_register option) x64_op" where
  "try_read_simd_operand operand c =
     (if s_rm_is_register operand then (Some (get_simd_register c (s_rm_index operand)), c)
      else read_u128 (s_rm_address operand) c)"

definition try_read_rm32_operand :: "x64_decoded_modrm_operand \<Rightarrow> ('k, u32 option) x64_op" where
  "try_read_rm32_operand operand c =
     (if s_rm_is_register operand then (Some (get_register32 c (s_rm_index operand)), c)
      else read_u32 (s_rm_address operand) c)"

definition has_prefix :: "x64_decoded_instruction \<Rightarrow> bool" where
  "has_prefix i \<longleftrightarrow> prefix_66 i \<or> prefix_f2 i \<or> prefix_f3 i"

text \<open>\<open>memcpy(bytes + position, source, n)\<close> into an array of bytes.\<close>

definition overwrite :: "u8 list \<Rightarrow> nat \<Rightarrow> u8 list \<Rightarrow> u8 list" where
  "overwrite bytes position source = take position bytes @ source @ drop (position + length source) bytes"

section \<open>Moves\<close>

definition execute_x64_secondary_mov_xmm :: "'k x64_instruction_handler" where
  "execute_x64_secondary_mov_xmm i =
     (if has_prefix i then stop_unsupported 0x10
      else attempt (try_decode_modrm_operand i (i_next_address i + 1)) fail_invalid_memory (\<lambda>operand.
        attempt (try_read_simd_operand operand) fail_invalid_memory (\<lambda>source c.
          continue_at (s_next_instruction operand) (set_simd_register (s_reg_index operand) source c))))"

definition execute_x64_secondary_store_xmm :: "'k x64_instruction_handler" where
  "execute_x64_secondary_store_xmm i =
     attempt (read_u8 (i_next_address i)) fail_invalid_memory (\<lambda>secondary_opcode.
       let is_movups = (secondary_opcode = 0x11 \<and> \<not> has_prefix i);
           is_movaps = (secondary_opcode = 0x29 \<and> \<not> has_prefix i);
           is_movdqu = (secondary_opcode = 0x7F \<and> prefix_f3 i \<and> \<not> prefix_66 i \<and> \<not> prefix_f2 i) in
       if \<not> is_movups \<and> \<not> is_movaps \<and> \<not> is_movdqu then stop_unsupported secondary_opcode
       else attempt (try_decode_modrm_operand i (i_next_address i + 1)) fail_invalid_memory (\<lambda>operand c.
         if s_rm_is_register operand
         then continue_at (s_next_instruction operand)
                (set_simd_register (s_rm_index operand) (get_simd_register c (s_reg_index operand)) c)
         else attempt (write_u128 (s_rm_address operand) (get_simd_register c (s_reg_index operand)))
                fail_invalid_memory (\<lambda>_. continue_at (s_next_instruction operand)) c))"

section \<open>Lane operations\<close>

definition execute_x64_secondary_xorps :: "'k x64_instruction_handler" where
  "execute_x64_secondary_xorps i =
     (if has_prefix i then stop_unsupported 0x57
      else attempt (try_decode_modrm_operand i (i_next_address i + 1)) fail_invalid_memory (\<lambda>operand.
        attempt (try_read_simd_operand operand) fail_invalid_memory (\<lambda>source c.
          continue_at (s_next_instruction operand)
            (set_simd_register (s_reg_index operand)
              (map2 (XOR) (get_simd_register c (s_reg_index operand)) source) c))))"

definition execute_x64_secondary_movd :: "'k x64_instruction_handler" where
  "execute_x64_secondary_movd i =
     (if \<not> prefix_66 i \<or> prefix_f2 i \<or> prefix_f3 i then stop_unsupported 0x6E
      else attempt (try_decode_modrm_operand i (i_next_address i + 1)) fail_invalid_memory (\<lambda>operand.
        attempt (try_read_rm32_operand operand) fail_invalid_memory (\<lambda>source c.
          continue_at (s_next_instruction operand)
            (set_simd_register (s_reg_index operand)
              (overwrite (replicate 16 0) 0 (le_bytes 4 (ucast source))) c))))"

definition interleave_low :: "u8 list \<Rightarrow> u8 list \<Rightarrow> u8 list" where
  "interleave_low destination source = concat (map (\<lambda>k. [destination ! k, source ! k]) [0..<8])"

definition execute_x64_secondary_punpcklbw :: "'k x64_instruction_handler" where
  "execute_x64_secondary_punpcklbw i =
     (if \<not> prefix_66 i \<or> prefix_f2 i \<or> prefix_f3 i then stop_unsupported 0x60
      else attempt (try_decode_modrm_operand i (i_next_address i + 1)) fail_invalid_memory (\<lambda>operand.
        attempt (try_read_simd_operand operand) fail_invalid_memory (\<lambda>source c.
          continue_at (s_next_instruction operand)
            (set_simd_register (s_reg_index operand)
              (interleave_low (get_simd_register c (s_reg_index operand)) source) c))))"

text \<open>The loop both shuffles run, with lanes of \<open>w\<close> bytes.\<close>

definition shuffle_lanes :: "nat \<Rightarrow> u8 \<Rightarrow> u8 list \<Rightarrow> u8 list" where
  "shuffle_lanes w immediate source =
     foldl (\<lambda>result index.
        let source_index = unat (drop_bit (index * 2) immediate AND 3) in
        overwrite result (index * w) (take w (drop (source_index * w) source))) source [0..<4]"

definition execute_x64_secondary_shuffle :: "'k x64_instruction_handler" where
  "execute_x64_secondary_shuffle i =
     (let is_pshufd = (prefix_66 i \<and> \<not> prefix_f2 i \<and> \<not> prefix_f3 i);
          is_pshuflw = (prefix_f2 i \<and> \<not> prefix_66 i \<and> \<not> prefix_f3 i) in
      if \<not> is_pshufd \<and> \<not> is_pshuflw then stop_unsupported 0x70
      else attempt (try_decode_modrm_operand i (i_next_address i + 1)) fail_invalid_memory (\<lambda>operand.
        attempt (read_u8 (s_next_instruction operand)) fail_invalid_memory (\<lambda>immediate.
        attempt (try_read_simd_operand operand) fail_invalid_memory (\<lambda>source c.
          continue_at (s_next_instruction operand + 1)
            (set_simd_register (s_reg_index operand)
              (shuffle_lanes (if is_pshufd then 4 else 2) immediate source) c)))))"

definition execute_x64_secondary_movq_store :: "'k x64_instruction_handler" where
  "execute_x64_secondary_movq_store i =
     (if \<not> prefix_66 i \<or> prefix_f2 i \<or> prefix_f3 i then stop_unsupported 0xD6
      else attempt (try_decode_modrm_operand i (i_next_address i + 1)) fail_invalid_memory (\<lambda>operand.
        if s_rm_is_register operand then stop_unsupported 0xD6
        else (\<lambda>c. let low_qword = le_word (take 8 (get_simd_register c (s_reg_index operand))) in
          attempt (write_u64 (s_rm_address operand) low_qword) fail_invalid_memory
            (\<lambda>_. continue_at (s_next_instruction operand)) c)))"

end
