(* ===== verification/X64_Dispatch.thy ===== *)
theory X64_Dispatch
  imports X64_Data_Movement X64_Control_Flow X64_Simd
begin

text \<open>
  The decoder of \<open>emulator/x64/x64_decoder.cpp\<close> and the opcode tables of
  \<open>x64_instruction_dispatch.cpp\<close>. The decoder loops over prefix bytes; it ends because some address
  is outside the guest memory, which spans less than the whole 64-bit space.
\<close>

section \<open>Reads leave the context alone or record a fault\<close>

lemma translate_frame:
  "translate_guest_pointer a n c = (r, c') \<Longrightarrow>
   x_memory c' = x_memory c \<and> x_host c' = x_host c \<and> (r \<noteq> None \<longrightarrow> c' = c)"
  by (auto simp: translate_guest_pointer_def set_invalid_memory_access_def Let_def split: if_splits)

lemma read_u8_SomeD:
  assumes "read_u8 a c = (Some v, c')"
  shows "c' = c" and "a - mem_base_address (x_memory c) < mem_size (x_memory c)"
proof -
  have "\<exists>p. translate_guest_pointer a 1 c = (Some p, c) \<and> c' = c"
    using assms translate_frame[of a 1 c] by (auto simp: read_u8_def attempt_def split: prod.splits option.splits)
  then show "c' = c" and "a - mem_base_address (x_memory c) < mem_size (x_memory c)"
    by (auto simp: translate_guest_pointer_def Let_def word_le_less_eq split: if_splits)
qed

section \<open>Decoder\<close>

text \<open>
  The distance from an address to the first address past it that guest memory never holds, the one
  just below the base.
\<close>

definition prefix_room :: "x64_emulator_memory \<Rightarrow> u64 \<Rightarrow> nat" where
  "prefix_room mm a = (if a + 1 = mem_base_address mm then 2 ^ 64 else unat (mem_base_address mm - 1 - a))"

lemma prefix_room_step:
  assumes "a + 1 - mem_base_address mm < mem_size mm"
  shows "prefix_room mm (a + 1) < prefix_room mm a"
proof -
  let ?b = "mem_base_address mm"
  have "?b - 1 - (a + 1) \<noteq> 0"
  proof
    assume "?b - 1 - (a + 1) = 0"
    then have "a + 1 - ?b = - 1" by (simp add: algebra_simps)
    with assms show False by (metis word_order.extremum_strict)
  qed
  then have step: "unat (?b - 1 - (a + 1)) < unat (?b - 1 - a)" if "?b - 1 - a \<noteq> 0"
    using unat_sub[of 1 "?b - 1 - a"] that
    by (simp add: algebra_simps word_le_nat_alt unat_gt_0 Suc_le_eq)
  have "a + 1 + 1 \<noteq> ?b" using \<open>?b - 1 - (a + 1) \<noteq> 0\<close> by (auto simp: algebra_simps)
  moreover have "?b - 1 - a \<noteq> 0 \<or> a + 1 = ?b" by auto
  ultimately show ?thesis
    using step unat_lt_u64[of "?b - 1 - (a + 1)"] by (auto simp: prefix_room_def)
qed

text \<open>What one prefix byte sets; \<open>None\<close> when the byte is not a prefix.\<close>

definition apply_prefix :: "x64_decoded_instruction \<Rightarrow> x64_decoded_instruction option" where
  "apply_prefix i =
     (if i_opcode i = 0x66 then Some (i\<lparr>prefix_66 := True\<rparr>)
      else if i_opcode i = 0xF2 then Some (i\<lparr>prefix_f2 := True\<rparr>)
      else if i_opcode i = 0xF3 then Some (i\<lparr>prefix_f3 := True\<rparr>)
      else if i_opcode i = 0x2E then Some i
      else if i_opcode i AND 0xF0 = 0x40
      then Some (i\<lparr>rex_w := (i_opcode i AND 0x08 \<noteq> 0), rex_r := (i_opcode i AND 0x04 \<noteq> 0),
                   rex_x := (i_opcode i AND 0x02 \<noteq> 0), rex_b := (i_opcode i AND 0x01 \<noteq> 0)\<rparr>)
      else None)"

lemma apply_prefix_address: "apply_prefix i = Some j \<Longrightarrow> i_opcode_address j = i_opcode_address i"
  by (auto simp: apply_prefix_def split: if_splits)

lemma decode_step_smaller:
  assumes "read_u8 (a + 1) c = (Some v, c')"
  shows "prefix_room (x_memory c') (a + 1) < prefix_room (x_memory c) a"
  using read_u8_SomeD[OF assms] by (simp add: prefix_room_step)

function decode_prefixes :: "x64_decoded_instruction \<Rightarrow> ('k, x64_decoded_instruction option) x64_op" where
  "decode_prefixes i c =
     (case apply_prefix i of
        None \<Rightarrow> (Some (i\<lparr>i_next_address := i_opcode_address i + 1\<rparr>), c)
      | Some j \<Rightarrow>
          (case read_u8 (i_opcode_address j + 1) c of
             (None, c') \<Rightarrow> (None, set_invalid_memory_access (i_opcode_address j + 1) 0 c')
           | (Some opc, c') \<Rightarrow>
               decode_prefixes (j\<lparr>i_opcode_address := i_opcode_address j + 1, i_opcode := opc\<rparr>) c'))"
  by pat_completeness auto
termination
  by (relation "measure (\<lambda>(i, c). prefix_room (x_memory c) (i_opcode_address i))")
    (auto dest!: apply_prefix_address intro: decode_step_smaller[OF sym])

declare decode_prefixes.simps [simp del]

definition decode_x64_instruction :: "('k, x64_decoded_instruction option) x64_op" where
  "decode_x64_instruction c =
     (let ip = e_instruction_pointer (x_state c);
          i = \<lparr>i_address = ip, i_opcode_address = ip, i_next_address = ip, i_opcode = 0,
               prefix_66 = False, prefix_f2 = False, prefix_f3 = False,
               rex_w = False, rex_r = False, rex_x = False, rex_b = False\<rparr> in
      case read_u8 ip c of
        (None, c') \<Rightarrow> (None, set_invalid_memory_access ip 0 c')
      | (Some opc, c') \<Rightarrow> decode_prefixes (i\<lparr>i_opcode := opc\<rparr>) c')"

section \<open>Opcode tables\<close>

definition primary_opcode_handler :: "u8 \<Rightarrow> 'k x64_instruction_handler" where
  "primary_opcode_handler opc =
     (if opc = 0x80 then execute_x64_group80
      else if opc = 0x81 then execute_x64_group81
      else if opc = 0x08 then execute_x64_or_register_byte
      else if opc = 0x0B then execute_x64_or_rm_to_register
      else if opc = 0x89 then execute_x64_mov_register
      else if opc = 0x8B then execute_x64_mov_register
      else if opc = 0x39 then execute_x64_compare_rm_with_register
      else if opc = 0x31 then execute_x64_xor_register
      else if opc = 0x85 then execute_x64_test_register
      else if opc = 0xA9 then execute_x64_test_accumulator_immediate
      else if opc = 0x83 then execute_x64_group83
      else if opc = 0x8D then execute_x64_lea
      else if opc = 0x90 then execute_x64_nop
      else if opc = 0xC7 then execute_x64_mov_immediate_to_rm
      else if opc = 0xF6 then execute_x64_group_f6
      else if opc = 0xF7 then execute_x64_group_f7
      else if opc = 0xC3 then execute_x64_return
      else if opc = 0xE8 then execute_x64_call_relative
      else if opc = 0xE9 then execute_x64_jump_relative_near
      else if opc = 0xEB then execute_x64_jump_relative_short
      else if opc = 0x74 \<or> opc = 0x75 then execute_x64_jump_short_condition
      else if opc = 0xFF then execute_x64_group_ff
      else if 0x50 \<le> opc \<and> opc \<le> 0x57 then execute_x64_push_register
      else if 0x58 \<le> opc \<and> opc \<le> 0x5F then execute_x64_pop_register
      else if 0xB8 \<le> opc \<and> opc \<le> 0xBF then execute_x64_mov_immediate32
      else execute_x64_unsupported)"

definition secondary_opcode_handler :: "u8 \<Rightarrow> 'k x64_instruction_handler" where
  "secondary_opcode_handler opc =
     (if opc = 0x10 then execute_x64_secondary_mov_xmm
      else if opc = 0x11 then execute_x64_secondary_store_xmm
      else if opc = 0x05 then execute_x64_syscall
      else if opc = 0x29 then execute_x64_secondary_store_xmm
      else if opc = 0x84 \<or> opc = 0x85 then execute_x64_jump_near_condition
      else if opc = 0x94 \<or> opc = 0x95 then execute_x64_secondary_setcc
      else if opc = 0xB6 then execute_x64_secondary_movzx_byte
      else if opc = 0x57 then execute_x64_secondary_xorps
      else if opc = 0x60 then execute_x64_secondary_punpcklbw
      else if opc = 0x6E then execute_x64_secondary_movd
      else if opc = 0x70 then execute_x64_secondary_shuffle
      else if opc = 0x7F then execute_x64_secondary_store_xmm
      else if opc = 0xD6 then execute_x64_secondary_movq_store
      else if opc = 0x1F then execute_x64_secondary_nop
      else execute_x64_unsupported)"

definition dispatch_secondary_opcode :: "'k x64_instruction_handler" where
  "dispatch_secondary_opcode i c =
     (if rex_w i then stop_unsupported (i_opcode i) c
      else (case read_u8 (i_next_address i) c of
          (None, c') \<Rightarrow> (X64_INSTRUCTION_OUTCOME_STOP_RUNNING, set_invalid_memory_access (i_next_address i) 0 c')
        | (Some secondary_opcode, c') \<Rightarrow>
            secondary_opcode_handler secondary_opcode i (set_fault_opcode secondary_opcode c')))"

definition x64_dispatch :: "'k x64_instruction_handler" where
  "x64_dispatch i c =
     (if i_opcode i = 0x0F then dispatch_secondary_opcode i (set_fault i c)
      else primary_opcode_handler (i_opcode i) i (set_fault i c))"

end
