(* ===== verification/X64_Frames.thy ===== *)
theory X64_Frames
  imports X64_Dispatch
begin

text \<open>
  What every instruction keeps. The locale \<open>context_ops\<close> is the interface between the execution
  context and the instruction handlers: a relation between contexts that every operation of the
  context respects is respected by every handler but the system call. \<open>context_relation\<close> extends it
  by what the system call does, and covers the dispatcher. The proofs walk through the
  handlers once, inside the locales; the interpretations give that the descriptors of the invocation
  never change, that the register file keeps its shape, and that memory changes stay inside a region.
\<close>

named_theorems step_intros \<open>steps of a handler respect a relation\<close>

definition wf_state :: "x64_emulator_state \<Rightarrow> bool" where
  "wf_state s \<longleftrightarrow> length (general_registers s) = 16 \<and> length (simd_registers s) = 16 \<and>
     (\<forall>r \<in> set (simd_registers s). length r = 16)"

section \<open>Shapes of SIMD results\<close>

lemma extended_index_bound: "extended_index (x AND 7) b < 16"
proof -
  have "x AND 7 \<le> (7 :: u8)" by (rule word_and_le1)
  then have "unat (x AND 7) \<le> 7" by (simp add: word_le_nat_alt)
  then show ?thesis by (simp add: extended_index_def)
qed

lemma modrm_index_bound: "extended_index (modrm_reg m) b < 16" "extended_index (modrm_rm m) b < 16"
  by (simp_all add: modrm_reg_def modrm_rm_def extended_index_bound)

lemma decoded_modrm_bounds:
  assumes "try_decode_modrm_operand i a c = (Some operand, c')"
  shows "s_reg_index operand < 16" and "s_rm_index operand < 16"
  using assms
  by (auto simp: try_decode_modrm_operand_def attempt_def fails_def Let_def modrm_index_bound
      extended_index_bound[of 4, simplified] extended_index_bound[of 5, simplified]
      split: prod.splits option.splits if_splits)

lemma wf_simd_length: "wf_state s \<Longrightarrow> r < 16 \<Longrightarrow> length (simd_registers s ! r) = 16"
  by (simp add: wf_state_def)

lemma simd_operand_length:
  assumes "try_read_simd_operand operand c = (Some v, c')" and "s_rm_index operand < 16" and "wf_state (x_state c')"
  shows "length v = 16"
  using assms
  by (auto simp: try_read_simd_operand_def read_u128_def attempt_def get_simd_register_def wf_simd_length
      split: if_splits prod.splits option.splits)

lemma decoded_simd_lengths:
  assumes "try_decode_modrm_operand i a c = (Some operand, c')" and "wf_state (x_state c'')"
  shows "length (get_simd_register c'' (s_reg_index operand)) = 16"
    and "try_read_simd_operand operand d = (Some v, c'') \<Longrightarrow> length v = 16"
  using decoded_modrm_bounds[OF assms(1)] assms(2)
  by (simp_all add: get_simd_register_def wf_simd_length simd_operand_length)

lemma length_overwrite [simp]:
  "p + length s \<le> length b \<Longrightarrow> length (overwrite b p s) = length b"
  by (simp add: overwrite_def)

lemma length_interleave_low [simp]: "length (interleave_low d s) = 16"
  by (simp add: interleave_low_def upt_rec[of _ 8] numeral_eq_Suc)

lemma length_shuffle_lanes:
  assumes "length s = 16" and "w = 2 \<or> w = 4"
  shows "length (shuffle_lanes w imm s) = 16"
proof -
  have "unat (x AND 3) \<le> 3" for x :: u8
    using word_and_le1[of x 3] by (simp add: word_le_nat_alt)
  then have "unat (x AND 3) * w + w \<le> 16" for x :: u8
    using assms(2) le_trans[of "unat (x AND 3)" 3 7] by auto
  then have "length (take w (drop (unat (x AND 3) * w) s)) = w" for x :: u8
    using assms(1) add_le_imp_le_diff[of w "unat (x AND 3) * w" 16] by (simp add: add.commute min_absorb2)
  moreover have "[0..<4] = [0, 1, 2, 3 :: nat]" by (simp add: upt_rec)
  ultimately show ?thesis using assms by (auto simp: shuffle_lanes_def Let_def)
qed

section \<open>The interface\<close>

locale context_ops =
  fixes R :: "'k x64_execution_context \<Rightarrow> 'k x64_execution_context \<Rightarrow> bool"
  assumes refl: "R c c"
    and trans: "R c0 c \<Longrightarrow> R c c' \<Longrightarrow> R c0 c'"
    and fault_step: "R c (set_fault i c)"
    and fault_opcode_step: "R c (set_fault_opcode opc c)"
    and invalid_step: "R c (set_invalid_memory_access a opc c)"
    and unsupported_step: "R c (set_unsupported_instruction opc c)"
    and complete_step: "R c (complete_invalid_memory c)"
    and register_step: "R c (set_register64 r v c)"
    and simd_step: "(wf_state (x_state c) \<Longrightarrow> length bs = 16) \<Longrightarrow> R c (set_simd_register r bs c)"
    and ip_step: "R c (set_instruction_pointer v c)"
    and flags_step: "R c (set_flags v c)"
    and store_step: "translate_guest_pointer a (of_nat (length bs)) c = (Some p, c) \<Longrightarrow> length bs \<le> 16 \<Longrightarrow>
      R c (c\<lparr>x_host := store_bytes (x_host c) p bs\<rparr>)"
begin

lemma set_steps [step_intros]:
  assumes "R c0 c"
  shows "R c0 (set_fault i c)" "R c0 (set_fault_opcode opc c)" "R c0 (set_invalid_memory_access a opc c)"
    "R c0 (set_unsupported_instruction opc c)"
    "R c0 (complete_invalid_memory c)" "R c0 (set_register64 r v c)" "R c0 (set_instruction_pointer v c)"
    "R c0 (set_flags v c)" "R c0 (set_register32 r w c)" "R c0 (set_register8_low r b c)"
    "R c0 (set_logic_flags v wide c)" "R c0 (set_compare_flags lhs rhs res wide c)"
    "R c0 (set_add_flags lhs rhs res wide c)" "R c0 (set_inc_dec_flags lhs res dec wide c)"
  by (rule trans[OF assms]; simp add: fault_step fault_opcode_step invalid_step unsupported_step
      complete_step register_step ip_step flags_step set_register32_def
      set_register8_low_def set_logic_flags_def set_compare_flags_def set_add_flags_def set_inc_dec_flags_def Let_def)+

lemma simd_steps [step_intros]:
  "R c0 c \<Longrightarrow> (wf_state (x_state c) \<Longrightarrow> length bs = 16) \<Longrightarrow> R c0 (set_simd_register r bs c)"
  by (rule trans[OF _ simd_step])

lemma attempt_step [step_intros]:
  assumes "\<And>c. R c (snd (m c))" and "R c0 c" and "\<And>c. R c0 c \<Longrightarrow> R c0 (snd (bad c))"
    and "\<And>c v c'. R c0 c' \<Longrightarrow> m c = (Some v, c') \<Longrightarrow> R c0 (snd (good v c'))"
  shows "R c0 (snd (attempt m bad good c))"
proof (cases "m c")
  case (Pair r c')
  then have "R c0 c'" using trans[OF assms(2), of c'] assms(1)[of c] by simp
  then show ?thesis
    using Pair assms(3)[of c'] assms(4)[of c' c] by (auto simp: attempt_def split: option.split)
qed

lemma control_steps [step_intros]:
  "(b \<Longrightarrow> R c0 (snd f)) \<Longrightarrow> (\<not> b \<Longrightarrow> R c0 (snd g)) \<Longrightarrow> R c0 (snd (if b then f else g))"
  "(b \<Longrightarrow> R c0 (snd (h c))) \<Longrightarrow> (\<not> b \<Longrightarrow> R c0 (snd (k c))) \<Longrightarrow> R c0 (snd ((if b then h else k) c))"
  "(b \<Longrightarrow> R c0 x) \<Longrightarrow> (\<not> b \<Longrightarrow> R c0 y) \<Longrightarrow> R c0 (if b then x else y)"
  by simp_all

lemma pair_step [step_intros]: "(\<And>x y. p = (x, y) \<Longrightarrow> R c0 (snd (g x y c))) \<Longrightarrow> R c0 (snd ((case p of (x, y) \<Rightarrow> g x y) c))"
  by (cases p) simp

lemma end_steps [step_intros]:
  assumes "R c0 c"
  shows "R c0 (snd (r, c))" "R c0 (snd (fails c))" "R c0 (snd (fails_invalid_memory c))"
    "R c0 (snd (stop_unsupported opc c))" "R c0 (snd (fail_invalid_memory c))" "R c0 (snd (continue_at ip c))"
    "R c0 (snd (operand_failure opc c))"
  using assms
  by (simp_all add: fails_def fails_invalid_memory_def stop_unsupported_def fail_invalid_memory_def
      continue_at_def operand_failure_def set_steps)

lemma reject_step [step_intros]: "R c0 c \<Longrightarrow> R c0 (snd (k c)) \<Longrightarrow> R c0 (snd (reject_rex_w i k c))"
  by (simp add: reject_rex_w_def end_steps)

lemma memory_steps [step_intros]:
  shows "R c (snd (translate_guest_pointer a n c))" and "R c (snd (read_u8 a c))" and "R c (snd (read_i8 a c))"
    and "R c (snd (read_u32 a c))" and "R c (snd (read_i32 a c))" and "R c (snd (read_u64 a c))"
    and "R c (snd (read_u128 a c))"
proof -
  show t: "R c (snd (translate_guest_pointer a n c))" for a n c
    by (simp add: translate_guest_pointer_def Let_def refl invalid_step)
  show "R c (snd (read_u8 a c))" "R c (snd (read_u32 a c))" "R c (snd (read_u64 a c))" "R c (snd (read_u128 a c))"
    "R c (snd (read_i8 a c))" "R c (snd (read_i32 a c))"
    by (auto simp: read_u8_def read_u32_def read_u64_def read_u128_def read_i8_def read_i32_def
        intro!: attempt_step t refl)
qed

lemma write_bytes_step: "length bs \<le> 16 \<Longrightarrow> R c (snd (write_bytes a bs c))"
proof -
  assume n: "length bs \<le> 16"
  obtain r c' where t: "translate_guest_pointer a (of_nat (length bs)) c = (r, c')" by fastforce
  show ?thesis
  proof (cases r)
    case None
    then show ?thesis
      using memory_steps(1)[of c a "of_nat (length bs)"] by (simp add: write_bytes_def attempt_def t)
  next
    case (Some p)
    then have "c' = c" using translate_frame[OF t] by simp
    then show ?thesis using store_step[of a bs c p] n t Some by (simp add: write_bytes_def attempt_def)
  qed
qed

lemma write_steps [step_intros]:
  "R c (snd (write_u8 a b c))" "R c (snd (write_u32 a w c))" "R c (snd (write_u64 a v c))"
  "R c (snd (write_u128 a q c))"
  by (simp_all add: write_u8_def write_u32_def write_u64_def write_u128_def write_bytes_step)

lemma stack_steps [step_intros]: "R c (snd (push_u64 v c))" "R c (snd (pop_u64 c))"
proof -
  show "R c (snd (push_u64 v c))"
    using trans[OF register_step write_steps(3)] by (simp add: push_u64_def Let_def invalid_step)
  show "R c (snd (pop_u64 c))"
    unfolding pop_u64_def by (rule attempt_step) (simp_all add: memory_steps refl set_steps)
qed

lemma rm_steps [step_intros]:
  "R c (snd (read_rm64 opd c))" "R c (snd (read_rm32 opd c))" "R c (snd (write_rm64 opd v c))" "R c (snd (write_rm32 opd w c))"
  by (simp_all add: read_rm64_def read_rm32_def write_rm64_def write_rm32_def memory_steps write_steps
      refl set_steps)

lemma sib_steps [step_intros]:
  "R c (snd (try_read_sib_operand_address i a m c))" "R c (snd (try_read_sib_address i a m c))"
  unfolding try_read_sib_operand_address_def try_read_sib_address_def Let_def
  by (intro step_intros refl; assumption)+

lemma operand_steps [step_intros]:
  "R c (snd (try_decode_rm_operand i a c))" "R c (snd (try_get_memory_operand_address i a m c))"
  "R c (snd (try_decode_modrm_operand i a c))" "R c (snd (skip_displacement m a c))"
  unfolding try_decode_rm_operand_def try_get_memory_operand_address_def try_decode_modrm_operand_def
    skip_displacement_def Let_def
  by (intro step_intros refl; assumption)+

lemma skip_operand_step [step_intros]: "R c (snd (try_skip_modrm_operand i a c))"
  unfolding try_skip_modrm_operand_def Let_def
  by (intro step_intros refl trans[OF _ operand_steps(4)]; assumption)

lemma byte_operand_step [step_intros]:
  "R c0 c \<Longrightarrow> (\<And>v n c. R c0 c \<Longrightarrow> R c0 (snd (k v n c))) \<Longrightarrow> R c0 (snd (read_byte_operand i a m opc k c))"
  unfolding read_byte_operand_def by (intro step_intros; blast)

lemma arithmetic_steps [step_intros]:
  "R c0 c \<Longrightarrow> R c0 (snd (execute_arithmetic64 i opd v n c))"
  "R c0 c \<Longrightarrow> R c0 (snd (execute_arithmetic32 i opd w n c))"
  unfolding execute_arithmetic64_def execute_arithmetic32_def Let_def
  by (intro step_intros; assumption)+

lemma call_target_step [step_intros]: "R c0 c \<Longrightarrow> R c0 (snd (call_target t a c))"
  unfolding call_target_def by (intro step_intros; assumption)

lemma simd_read_steps [step_intros]:
  "R c (snd (try_read_simd_operand opd c))" "R c (snd (try_read_rm32_operand opd c))"
  by (simp_all add: try_read_simd_operand_def try_read_rm32_operand_def memory_steps refl)

lemma alu_steps:
  "R c (snd (execute_x64_xor_register i c))" "R c (snd (execute_x64_or_register_byte i c))"
  "R c (snd (execute_x64_or_rm_to_register i c))" "R c (snd (execute_x64_test_register i c))"
  "R c (snd (execute_x64_test_accumulator_immediate i c))" "R c (snd (execute_x64_group_f6 i c))"
  "R c (snd (execute_x64_group_f7 i c))" "R c (snd (execute_x64_group83 i c))"
  "R c (snd (execute_x64_compare_rm_with_register i c))" "R c (snd (execute_x64_group81 i c))"
  unfolding execute_x64_xor_register_def execute_x64_or_register_byte_def execute_x64_or_rm_to_register_def
    execute_x64_test_register_def execute_x64_test_accumulator_immediate_def execute_x64_group_f6_def
    execute_x64_group_f7_def execute_x64_group83_def execute_x64_compare_rm_with_register_def
    execute_x64_group81_def Let_def
  by (intro step_intros refl; assumption)+

lemma data_movement_steps:
  "R c (snd (execute_x64_mov_immediate32 i c))" "R c (snd (execute_x64_mov_immediate_to_rm i c))"
  "R c (snd (execute_x64_mov_register i c))" "R c (snd (execute_x64_lea i c))"
  "R c (snd (execute_x64_group80 i c))" "R c (snd (execute_x64_secondary_setcc i c))"
  "R c (snd (execute_x64_secondary_movzx_byte i c))" "R c (snd (execute_x64_nop i c))"
  unfolding execute_x64_mov_immediate32_def execute_x64_mov_immediate_to_rm_def execute_x64_mov_register_def
    execute_x64_lea_def execute_x64_group80_def execute_x64_secondary_setcc_def
    execute_x64_secondary_movzx_byte_def execute_x64_nop_def Let_def
  by (intro step_intros refl; assumption)+

lemma control_flow_steps:
  "R c (snd (execute_x64_push_register i c))" "R c (snd (execute_x64_pop_register i c))"
  "R c (snd (execute_x64_return i c))" "R c (snd (execute_x64_call_relative i c))"
  "R c (snd (execute_x64_group_ff i c))" "R c (snd (execute_x64_jump_relative_near i c))"
  "R c (snd (execute_x64_jump_relative_short i c))" "R c (snd (execute_x64_jump_short_condition i c))"
  "R c (snd (execute_x64_jump_near_condition i c))" "R c (snd (execute_x64_unsupported i c))"
  "R c (snd (execute_x64_secondary_nop i c))"
  unfolding execute_x64_push_register_def execute_x64_pop_register_def execute_x64_return_def
    execute_x64_call_relative_def execute_x64_group_ff_def execute_x64_jump_relative_near_def
    execute_x64_jump_relative_short_def execute_x64_jump_short_condition_def
    execute_x64_jump_near_condition_def execute_x64_unsupported_def execute_x64_secondary_nop_def Let_def
  by (intro step_intros refl; assumption)+

lemma simd_handler_steps:
  "R c (snd (execute_x64_secondary_mov_xmm i c))" "R c (snd (execute_x64_secondary_store_xmm i c))"
  "R c (snd (execute_x64_secondary_xorps i c))" "R c (snd (execute_x64_secondary_movd i c))"
  "R c (snd (execute_x64_secondary_punpcklbw i c))" "R c (snd (execute_x64_secondary_shuffle i c))"
  "R c (snd (execute_x64_secondary_movq_store i c))"
  unfolding execute_x64_secondary_mov_xmm_def execute_x64_secondary_store_xmm_def execute_x64_secondary_xorps_def
    execute_x64_secondary_movd_def execute_x64_secondary_punpcklbw_def execute_x64_secondary_shuffle_def
    execute_x64_secondary_movq_store_def Let_def
  by (intro step_intros refl;
      (assumption | simp add: decoded_simd_lengths length_shuffle_lanes))+

lemma secondary_step: "opc \<noteq> 0x05 \<Longrightarrow> R c (snd (secondary_opcode_handler opc i c))"
  by (simp add: secondary_opcode_handler_def simd_handler_steps control_flow_steps data_movement_steps)

lemma primary_step: "R c (snd (primary_opcode_handler opc i c))"
  by (simp add: primary_opcode_handler_def alu_steps control_flow_steps data_movement_steps)

text \<open>An instruction respects the relation, or it is a system call after steps that do.\<close>

lemma dispatch_secondary_cases:
  "R c (snd (dispatch_secondary_opcode i c)) \<or>
   (\<exists>c'. R c c' \<and> dispatch_secondary_opcode i c = execute_x64_syscall i c')"
proof -
  obtain r c' where r: "read_u8 (i_next_address i) c = (r, c')" by fastforce
  then have rc: "R c c'" using memory_steps(2)[of c "i_next_address i"] by simp
  show ?thesis
  proof (cases r)
    case None
    then show ?thesis using rc by (simp add: dispatch_secondary_opcode_def r step_intros refl)
  next
    case (Some opc)
    have f: "R c (set_fault_opcode opc c')" using rc by (rule set_steps)
    show ?thesis
    proof (cases "rex_w i \<or> opc \<noteq> 0x05")
      case True
      then show ?thesis
        using trans[OF f secondary_step[of opc "set_fault_opcode opc c'" i]] Some
        by (auto simp: dispatch_secondary_opcode_def r step_intros refl)
    next
      case False
      then show ?thesis
        using f Some by (auto simp: dispatch_secondary_opcode_def r secondary_opcode_handler_def)
    qed
  qed
qed

lemma dispatch_cases:
  "R c (snd (x64_dispatch i c)) \<or> (\<exists>c'. R c c' \<and> x64_dispatch i c = execute_x64_syscall i c')"
proof (cases "i_opcode i = 0x0F")
  case True
  have "R (set_fault i c) c' \<Longrightarrow> R c c'" for c' by (rule trans[OF fault_step])
  then show ?thesis using dispatch_secondary_cases[of "set_fault i c" i] True by (simp add: x64_dispatch_def) blast
next
  case False
  then show ?thesis using trans[OF fault_step primary_step] by (simp add: x64_dispatch_def)
qed

lemma prefixes_step: "R c (snd (decode_prefixes i c))"
proof (induction i c rule: decode_prefixes.induct)
  case (1 i c)
  obtain r c' where r: "read_u8 (i_opcode_address i + 1) c = (r, c')" by fastforce
  then have *: "R c c'" using memory_steps(2)[of c "i_opcode_address i + 1"] by simp
  show ?case
  proof (cases "apply_prefix i")
    case None
    then show ?thesis by (simp add: decode_prefixes.simps refl)
  next
    case (Some j)
    then have j: "i_opcode_address j = i_opcode_address i" by (rule apply_prefix_address)
    show ?thesis
    proof (cases r)
      case None
      then show ?thesis using Some r j * by (simp add: decode_prefixes.simps[of i c] set_steps)
    next
      case (Some opc)
      have "R c' (snd (decode_prefixes (j\<lparr>i_opcode_address := i_opcode_address j + 1, i_opcode := opc\<rparr>) c'))"
        by (rule 1[OF \<open>apply_prefix i = Some j\<close> _ Some]) (simp add: r j)
      then show ?thesis
        using \<open>apply_prefix i = Some j\<close> r j Some trans[OF *] by (simp add: decode_prefixes.simps[of i c])
    qed
  qed
qed

lemma decode_step: "R c (snd (decode_x64_instruction c))"
proof -
  let ?a = "e_instruction_pointer (x_state c)"
  obtain r c' where r: "read_u8 ?a c = (r, c')" by fastforce
  then have "R c c'" using memory_steps(2)[of c ?a] by simp
  then show ?thesis
    using trans[OF _ prefixes_step]
    by (auto simp: decode_x64_instruction_def Let_def r intro: step_intros split: option.split)
qed

end

text \<open>A relation that the system call respects too is respected by every instruction.\<close>

locale context_relation = context_ops +
  assumes exited_step: "R c (set_thread_exited c)"
    and yielded_step: "R c (set_yielded c)"
    and syscall_step: "R c (snd (call_handle_syscall c))"
begin

lemma syscall_steps: "R c (snd (execute_x64_syscall i c))"
proof -
  obtain r c1 where "call_handle_syscall (set_instruction_pointer (i_next_address i + 1) c) = (r, c1)" by fastforce
  moreover from this have "R c c1" using trans[OF ip_step syscall_step, of c "i_next_address i + 1"] by simp
  ultimately show ?thesis
    by (cases "sr_action r")
      (simp_all add: execute_x64_syscall_def Let_def set_steps trans[OF set_steps(6) exited_step] trans[OF set_steps(6) yielded_step])
qed

lemma dispatch_step: "R c (snd (x64_dispatch i c))"
  using dispatch_cases[of c i] trans[OF _ syscall_steps] by metis

end

section \<open>Interpretations\<close>

text \<open>The descriptors of the invocation and the count of retired instructions.\<close>

definition same_invocation :: "'k x64_execution_context \<Rightarrow> 'k x64_execution_context \<Rightarrow> bool" where
  "same_invocation c c' \<longleftrightarrow> x_memory c' = x_memory c \<and> x_handle_syscall c' = x_handle_syscall c \<and>
     x_options c' = x_options c \<and> retired_instructions (x_result c') = retired_instructions (x_result c)"

lemmas context_op_defs = set_fault_def set_fault_opcode_def set_invalid_memory_access_def
  set_unsupported_instruction_def set_thread_exited_def set_yielded_def complete_invalid_memory_def
  set_register64_def set_simd_register_def set_instruction_pointer_def set_flags_def call_handle_syscall_def

interpretation invocation: context_relation same_invocation
  by unfold_locales (auto simp: same_invocation_def context_op_defs split: option.splits prod.splits)

text \<open>The shape of the register file.\<close>

definition keeps_shape :: "'k x64_execution_context \<Rightarrow> 'k x64_execution_context \<Rightarrow> bool" where
  "keeps_shape c c' \<longleftrightarrow> (wf_state (x_state c) \<longrightarrow> wf_state (x_state c'))"

lemma wf_state_updates [simp]:
  "wf_state (s\<lparr>e_flags := v\<rparr>) = wf_state s" "wf_state (s\<lparr>e_instruction_pointer := v\<rparr>) = wf_state s"
  "wf_state (s\<lparr>general_registers := (general_registers s)[r := v]\<rparr>) = wf_state s"
  by (simp_all add: wf_state_def)

lemma shape_simd_update:
  "(wf_state (x_state c) \<Longrightarrow> length bs = 16) \<Longrightarrow> keeps_shape c (set_simd_register r bs c)"
  using set_update_subset_insert[of "simd_registers (x_state c)" r bs]
  by (auto simp: keeps_shape_def wf_state_def set_simd_register_def)

interpretation shape: context_relation keeps_shape
proof
  fix c :: "'a x64_execution_context"
  show "keeps_shape c (snd (call_handle_syscall c))"
    by (auto simp: keeps_shape_def call_handle_syscall_def split: option.split prod.split)
next
  fix c :: "'a x64_execution_context" and bs :: "u8 list" and r :: nat
  assume "wf_state (x_state c) \<Longrightarrow> length bs = 16"
  then show "keeps_shape c (set_simd_register r bs c)" by (rule shape_simd_update)
qed (auto simp: keeps_shape_def context_op_defs)

text \<open>
  Changes of host memory stay inside a set of addresses that holds the guest memory and everything
  the system call callback may write.
\<close>

definition guest_region :: "x64_emulator_memory \<Rightarrow> u64 set" where
  "guest_region mm = {p. unat (p - mem_bytes mm) < unat (mem_size mm)}"

definition callback_confined :: "u64 set \<Rightarrow> 'k x64_execution_context \<Rightarrow> bool" where
  "callback_confined S c \<longleftrightarrow>
     (\<forall>h env m s x. x_handle_syscall c = Some h \<longrightarrow> x \<notin> S \<longrightarrow> snd (snd (h env m s)) x = m x)"

definition confined :: "u64 set \<Rightarrow> 'k x64_execution_context \<Rightarrow> 'k x64_execution_context \<Rightarrow> bool" where
  "confined S c c' \<longleftrightarrow> x_memory c' = x_memory c \<and> x_handle_syscall c' = x_handle_syscall c \<and>
     (guest_region (x_memory c) \<subseteq> S \<longrightarrow> callback_confined S c \<longrightarrow> (\<forall>x. x \<notin> S \<longrightarrow> x_host c' x = x_host c x))"

lemma translate_range:
  assumes "translate_guest_pointer a n c = (Some p, c')"
  shows "c' = c" and "p = mem_bytes (x_memory c) + (a - mem_base_address (x_memory c))"
    and "mem_base_address (x_memory c) \<le> a"
    and "unat (a - mem_base_address (x_memory c)) + unat n \<le> unat (mem_size (x_memory c))"
    and "mem_bytes (x_memory c) \<noteq> 0"
proof -
  let ?o = "a - mem_base_address (x_memory c)" and ?s = "mem_size (x_memory c)"
  have *: "c' = c" "p = mem_bytes (x_memory c) + ?o" "mem_base_address (x_memory c) \<le> a" "?o \<le> ?s" "n \<le> ?s - ?o"
    "mem_bytes (x_memory c) \<noteq> 0"
    using assms by (auto simp: translate_guest_pointer_def Let_def not_less split: if_splits)
  then show "c' = c" "p = mem_bytes (x_memory c) + ?o" "mem_base_address (x_memory c) \<le> a"
    "mem_bytes (x_memory c) \<noteq> 0" by blast+
  show "unat ?o + unat n \<le> unat ?s"
    using *(4,5) by (simp add: word_le_nat_alt unat_sub)
qed

lemma translated_in_region:
  assumes "translate_guest_pointer a (of_nat n) c = (Some p, c)" and "n \<le> 16" and "i < n"
  shows "p + of_nat i \<in> guest_region (x_memory c)"
proof -
  let ?o = "a - mem_base_address (x_memory c)"
  have "unat (of_nat n :: u64) = n" "unat (of_nat i :: u64) = i"
    using assms(2,3) by (simp_all add: unat_of_nat_u64)
  then have le: "unat ?o + i < unat (mem_size (x_memory c))"
    using translate_range(4)[OF assms(1)] assms(3) by simp
  then have "unat (?o + of_nat i) = unat ?o + i"
    using unat_lt_u64[of "mem_size (x_memory c)"] \<open>unat (of_nat i :: u64) = i\<close>
    by (subst unat_add_no_wrap) simp_all
  with le show ?thesis
    by (simp add: guest_region_def translate_range(2)[OF assms(1)] add.assoc)
qed

lemma store_in_region:
  assumes "translate_guest_pointer a (of_nat (length bs)) c = (Some p, c)" and "length bs \<le> 16"
    and "x \<notin> guest_region (x_memory c)"
  shows "store_bytes (x_host c) p bs x = x_host c x"
  using translated_in_region[OF assms(1,2)] assms(3) by (intro store_bytes_outside) auto

interpretation region: context_relation "confined S" for S
proof
  fix c :: "'a x64_execution_context" and a p :: u64 and bs :: "u8 list"
  assume "translate_guest_pointer a (of_nat (length bs)) c = (Some p, c)" "length bs \<le> 16"
  then show "confined S c (c\<lparr>x_host := store_bytes (x_host c) p bs\<rparr>)"
    using store_in_region[of a bs c p] by (auto simp: confined_def)
next
  fix c :: "'a x64_execution_context"
  show "confined S c (snd (call_handle_syscall c))"
    unfolding confined_def callback_confined_def call_handle_syscall_def
    by (auto split: option.split prod.split) (metis snd_conv)
qed (auto simp: confined_def callback_confined_def context_op_defs)

end
