(* ===== verification/X64_Results.thy ===== *)
theory X64_Results
  imports X64_Interpreter
begin

text \<open>
  How a run of the emulator is reported. The result holds three fields that classify the end of a run
  (completion, guest stop reason, backend failure), written by different operations; the handlers also
  overwrite the completion on its own. The theory shows that they always agree: while instructions
  run, the fields hold the values \<open>initialize_result\<close> gave them, and an operation that fails or a
  handler that stops leaves one of the classified ends.
\<close>

section \<open>Verdicts\<close>

type_synonym verdict = "x64_emulator_completion \<times> x64_emulator_guest_stop_reason \<times> x64_emulator_backend_failure"

definition verdict :: "'k x64_execution_context \<Rightarrow> verdict" where
  "verdict c = (completion (x_result c), guest_stop_reason (x_result c), backend_failure (x_result c))"

abbreviation limit_verdict :: verdict where
  "limit_verdict \<equiv> (X64_EMULATOR_COMPLETION_INSTRUCTION_LIMIT_REACHED, X64_EMULATOR_GUEST_STOP_REASON_NONE,
     X64_EMULATOR_BACKEND_FAILURE_INSTRUCTION_LIMIT_REACHED)"

abbreviation invalid_verdict :: verdict where
  "invalid_verdict \<equiv> (X64_EMULATOR_COMPLETION_INVALID_MEMORY_ACCESS,
     X64_EMULATOR_GUEST_STOP_REASON_INVALID_MEMORY_ACCESS, X64_EMULATOR_BACKEND_FAILURE_NONE)"

abbreviation unsupported_verdict :: verdict where
  "unsupported_verdict \<equiv> (X64_EMULATOR_COMPLETION_UNSUPPORTED_INSTRUCTION,
     X64_EMULATOR_GUEST_STOP_REASON_UNSUPPORTED_INSTRUCTION, X64_EMULATOR_BACKEND_FAILURE_NONE)"

abbreviation exited_verdict :: verdict where
  "exited_verdict \<equiv> (X64_EMULATOR_COMPLETION_THREAD_EXITED, X64_EMULATOR_GUEST_STOP_REASON_THREAD_EXITED,
     X64_EMULATOR_BACKEND_FAILURE_NONE)"

abbreviation yielded_verdict :: verdict where
  "yielded_verdict \<equiv> (X64_EMULATOR_COMPLETION_YIELDED, X64_EMULATOR_GUEST_STOP_REASON_YIELDED,
     X64_EMULATOR_BACKEND_FAILURE_NONE)"

text \<open>A context whose run goes on, and what an operation and a handler make of it.\<close>

definition live :: "'k x64_execution_context \<Rightarrow> bool" where
  "live c \<longleftrightarrow> verdict c = limit_verdict \<and> mem_bytes (x_memory c) \<noteq> 0"

definition op_ok :: "'a option \<times> 'k x64_execution_context \<Rightarrow> bool" where
  "op_ok r \<longleftrightarrow> (case r of (None, c) \<Rightarrow> verdict c = invalid_verdict | (Some _, c) \<Rightarrow> live c)"

definition handler_ok :: "x64_instruction_outcome \<times> 'k x64_execution_context \<Rightarrow> bool" where
  "handler_ok r \<longleftrightarrow> (case r of
      (X64_INSTRUCTION_OUTCOME_CONTINUE_RUNNING, c) \<Rightarrow> live c
    | (X64_INSTRUCTION_OUTCOME_RETIRE_AND_STOP, c) \<Rightarrow> verdict c \<in> {exited_verdict, yielded_verdict}
    | (X64_INSTRUCTION_OUTCOME_STOP_RUNNING, c) \<Rightarrow> verdict c \<in> {invalid_verdict, unsupported_verdict})"

named_theorems verdict_intros \<open>ends of operations and handlers\<close>

lemma live_updates [verdict_intros]:
  assumes "live c"
  shows "live (set_register64 r v c)" "live (set_register32 r w c)" "live (set_register8_low r b c)"
    "live (set_simd_register r bs c)" "live (set_instruction_pointer v c)" "live (set_flags v c)"
    "live (set_logic_flags v wide c)" "live (set_compare_flags lhs rhs res wide c)"
    "live (set_add_flags lhs rhs res wide c)" "live (set_inc_dec_flags lhs res dec wide c)"
    "live (set_fault i c)" "live (set_fault_opcode opc c)" "live (retire c)"
  using assms
  by (simp_all add: live_def verdict_def context_op_defs set_register32_def set_register8_low_def set_logic_flags_def
      set_compare_flags_def set_add_flags_def set_inc_dec_flags_def retire_def Let_def)

lemma verdict_sets [simp]:
  "verdict (set_invalid_memory_access a opc c) = invalid_verdict"
  "verdict (set_unsupported_instruction opc c) = unsupported_verdict"
  "verdict (set_thread_exited c) = exited_verdict" "verdict (set_yielded c) = yielded_verdict"
  by (simp_all add: verdict_def context_op_defs)

lemma complete_invalid [simp]: "verdict c = invalid_verdict \<Longrightarrow> verdict (complete_invalid_memory c) = invalid_verdict"
  by (simp add: verdict_def complete_invalid_memory_def)

lemma handler_ends [verdict_intros]:
  "handler_ok (stop_unsupported opc c)"
  "verdict c = invalid_verdict \<Longrightarrow> handler_ok (fail_invalid_memory c)"
  "verdict c = invalid_verdict \<Longrightarrow> handler_ok (operand_failure opc c)"
  "live c \<Longrightarrow> handler_ok (continue_at ip c)"
  "handler_ok (X64_INSTRUCTION_OUTCOME_STOP_RUNNING, set_invalid_memory_access a opc c)"
  by (auto simp: handler_ok_def stop_unsupported_def fail_invalid_memory_def operand_failure_def continue_at_def
      live_updates)

lemma op_ends [verdict_intros]:
  "verdict c = invalid_verdict \<Longrightarrow> op_ok (fails c)"
  "verdict c = invalid_verdict \<Longrightarrow> op_ok (None, c)"
  "verdict c = invalid_verdict \<Longrightarrow> op_ok (fails_invalid_memory c)" "live c \<Longrightarrow> op_ok (Some v, c)"
  by (simp_all add: op_ok_def fails_def fails_invalid_memory_def)

lemma attempt_verdicts [verdict_intros]:
  assumes "op_ok (m c)"
  shows "(\<And>c. verdict c = invalid_verdict \<Longrightarrow> handler_ok (bad c)) \<Longrightarrow> (\<And>v c. live c \<Longrightarrow> handler_ok (good v c)) \<Longrightarrow>
      handler_ok (attempt m bad good c)"
    and "(\<And>c. verdict c = invalid_verdict \<Longrightarrow> op_ok (bad' c)) \<Longrightarrow> (\<And>v c. live c \<Longrightarrow> op_ok (good' v c)) \<Longrightarrow>
      op_ok (attempt m bad' good' c)"
proof -
  obtain r c' where m: "m c = (r, c')" by fastforce
  have e: "r = None \<Longrightarrow> verdict c' = invalid_verdict" "r = Some v \<Longrightarrow> live c'" for v
    using assms by (auto simp: op_ok_def m)
  show "(\<And>c. verdict c = invalid_verdict \<Longrightarrow> handler_ok (bad c)) \<Longrightarrow> (\<And>v c. live c \<Longrightarrow> handler_ok (good v c)) \<Longrightarrow>
      handler_ok (attempt m bad good c)"
    using e by (cases r) (simp_all add: attempt_def m)
  show "(\<And>c. verdict c = invalid_verdict \<Longrightarrow> op_ok (bad' c)) \<Longrightarrow> (\<And>v c. live c \<Longrightarrow> op_ok (good' v c)) \<Longrightarrow>
      op_ok (attempt m bad' good' c)"
    using e by (cases r) (simp_all add: attempt_def m)
qed

lemma control_verdicts [verdict_intros]:
  "(b \<Longrightarrow> handler_ok f) \<Longrightarrow> (\<not> b \<Longrightarrow> handler_ok g) \<Longrightarrow> handler_ok (if b then f else g)"
  "(b \<Longrightarrow> handler_ok (h c)) \<Longrightarrow> (\<not> b \<Longrightarrow> handler_ok (k c)) \<Longrightarrow> handler_ok ((if b then h else k) c)"
  "(b \<Longrightarrow> live x) \<Longrightarrow> (\<not> b \<Longrightarrow> live y) \<Longrightarrow> live (if b then x else y)"
  "(b \<Longrightarrow> op_ok (m c)) \<Longrightarrow> (\<not> b \<Longrightarrow> op_ok (n c)) \<Longrightarrow> op_ok ((if b then m else n) c)"
  "(b \<Longrightarrow> op_ok p) \<Longrightarrow> (\<not> b \<Longrightarrow> op_ok q) \<Longrightarrow> op_ok (if b then p else q)"
  by simp_all

lemma pair_verdicts [verdict_intros]:
  "(\<And>x y. handler_ok (g x y c)) \<Longrightarrow> handler_ok ((case p of (x, y) \<Rightarrow> g x y) c)"
  "(\<And>x y. op_ok (g' x y c)) \<Longrightarrow> op_ok ((case p of (x, y) \<Rightarrow> g' x y) c)"
  by (cases p; simp)+

lemma reject_verdict [verdict_intros]: "handler_ok (k c) \<Longrightarrow> handler_ok (reject_rex_w i k c)"
  by (simp add: reject_rex_w_def handler_ends)

section \<open>Operations\<close>

lemma read_u32_SomeD: "read_u32 a c = (Some v, c') \<Longrightarrow> c' = c"
  using translate_frame[of a 4 c] by (auto simp: read_u32_def attempt_def split: prod.splits option.splits)

lemma read_verdicts [verdict_intros]:
  assumes "live c"
  shows "op_ok (translate_guest_pointer a n c)" and "op_ok (read_u8 a c)" and "op_ok (read_i8 a c)"
    and "op_ok (read_u32 a c)" and "op_ok (read_i32 a c)" and "op_ok (read_u64 a c)" and "op_ok (read_u128 a c)"
    and "op_ok (write_bytes a bs c)"
proof -
  show t: "op_ok (translate_guest_pointer a n c)" for a n
    using assms by (auto simp: translate_guest_pointer_def Let_def op_ok_def live_def)
  show "op_ok (read_u8 a c)" "op_ok (read_i8 a c)" "op_ok (read_u32 a c)" "op_ok (read_i32 a c)"
    "op_ok (read_u64 a c)" "op_ok (read_u128 a c)"
    unfolding read_i8_def read_i32_def read_u8_def read_u32_def read_u64_def read_u128_def
    by (intro attempt_verdicts t op_ends; assumption)+
  show "op_ok (write_bytes a bs c)"
    unfolding write_bytes_def by (intro attempt_verdicts t op_ends) (simp_all add: live_def verdict_def)
qed

lemma write_verdicts [verdict_intros]:
  assumes "live c"
  shows "op_ok (write_u8 a b c)" and "op_ok (write_u32 a w c)" and "op_ok (write_u64 a v c)" and "op_ok (write_u128 a q c)"
    and "op_ok (push_u64 x c)" and "op_ok (pop_u64 c)" and "op_ok (read_rm64 opd c)" and "op_ok (read_rm32 opd c)"
    and "op_ok (write_rm64 opd v c)" and "op_ok (write_rm32 opd w c)"
    and "op_ok (try_read_simd_operand sopd c)" and "op_ok (try_read_rm32_operand sopd c)"
  unfolding write_u8_def write_u32_def write_u64_def write_u128_def push_u64_def pop_u64_def read_rm64_def
    read_rm32_def write_rm64_def write_rm32_def try_read_simd_operand_def try_read_rm32_operand_def Let_def
  using assms by (intro verdict_intros; simp)+

text \<open>A ModRM byte has four forms, so the decoders never reach their last, failing line.\<close>

lemma modrm_mod_cases: "modrm_mod m = 0 \<or> modrm_mod m = 1 \<or> modrm_mod m = 2 \<or> modrm_mod m = 3"
proof -
  have "unat (modrm_mod m) \<le> 3"
    using word_and_le1[of "drop_bit 6 m" 3] by (simp add: modrm_mod_def word_le_nat_alt)
  then have "unat (modrm_mod m) \<in> {0, 1, 2, 3}" by auto
  then show ?thesis by (auto simp: word_unat_eq_iff)
qed

lemma sib_verdicts [verdict_intros]:
  assumes "live c" and "m = 0 \<or> m = 1 \<or> m = 2"
  shows "op_ok (try_read_sib_operand_address i a m c)" and "op_ok (try_read_sib_address i a m c)"
  unfolding try_read_sib_operand_address_def try_read_sib_address_def Let_def
  by (intro verdict_intros; (assumption | rule assms(1) | use assms(2) in simp))+

lemma operand_verdicts [verdict_intros]:
  assumes "live c"
  shows "op_ok (try_decode_rm_operand i a c)" and "op_ok (try_decode_modrm_operand i a c)"
    and "modrm_mod m \<noteq> 3 \<Longrightarrow> op_ok (try_get_memory_operand_address i a m c)"
  unfolding try_decode_rm_operand_def try_decode_modrm_operand_def try_get_memory_operand_address_def Let_def
  by (intro verdict_intros; (assumption | rule assms | use modrm_mod_cases in blast))+

lemma byte_operand_verdict [verdict_intros]:
  "live c \<Longrightarrow> (\<And>v n c. live c \<Longrightarrow> handler_ok (k v n c)) \<Longrightarrow> handler_ok (read_byte_operand i a m opc k c)"
  unfolding read_byte_operand_def by (intro verdict_intros; blast)

lemma arithmetic_verdicts [verdict_intros]:
  "live c \<Longrightarrow> handler_ok (execute_arithmetic64 i opd v n c)" "live c \<Longrightarrow> handler_ok (execute_arithmetic32 i opd w n c)"
  unfolding execute_arithmetic64_def execute_arithmetic32_def Let_def by (intro verdict_intros; assumption)+

lemma call_target_verdict [verdict_intros]: "live c \<Longrightarrow> handler_ok (call_target t a c)"
  unfolding call_target_def by (intro verdict_intros; assumption)

section \<open>Handlers\<close>

lemma alu_verdicts:
  assumes "live c"
  shows "handler_ok (execute_x64_xor_register i c)" "handler_ok (execute_x64_or_register_byte i c)"
    "handler_ok (execute_x64_or_rm_to_register i c)" "handler_ok (execute_x64_test_register i c)"
    "handler_ok (execute_x64_test_accumulator_immediate i c)" "handler_ok (execute_x64_group_f6 i c)"
    "handler_ok (execute_x64_group_f7 i c)" "handler_ok (execute_x64_group83 i c)"
    "handler_ok (execute_x64_compare_rm_with_register i c)" "handler_ok (execute_x64_group81 i c)"
  unfolding execute_x64_xor_register_def execute_x64_or_register_byte_def execute_x64_or_rm_to_register_def
    execute_x64_test_register_def execute_x64_test_accumulator_immediate_def execute_x64_group_f6_def
    execute_x64_group_f7_def execute_x64_group83_def execute_x64_compare_rm_with_register_def
    execute_x64_group81_def Let_def
  by (intro verdict_intros; (assumption | rule assms))+

lemma data_movement_verdicts:
  assumes "live c"
  shows "handler_ok (execute_x64_mov_immediate32 i c)" "handler_ok (execute_x64_mov_immediate_to_rm i c)"
    "handler_ok (execute_x64_mov_register i c)" "handler_ok (execute_x64_lea i c)"
    "handler_ok (execute_x64_group80 i c)" "handler_ok (execute_x64_secondary_setcc i c)"
    "handler_ok (execute_x64_secondary_movzx_byte i c)" "handler_ok (execute_x64_nop i c)"
  unfolding execute_x64_mov_immediate32_def execute_x64_mov_immediate_to_rm_def execute_x64_mov_register_def
    execute_x64_lea_def execute_x64_group80_def execute_x64_secondary_setcc_def
    execute_x64_secondary_movzx_byte_def execute_x64_nop_def Let_def
  by (intro verdict_intros; (assumption | rule assms))+

lemma control_flow_verdicts:
  assumes "live c"
  shows "handler_ok (execute_x64_push_register i c)" "handler_ok (execute_x64_pop_register i c)"
    "handler_ok (execute_x64_return i c)" "handler_ok (execute_x64_call_relative i c)"
    "handler_ok (execute_x64_group_ff i c)" "handler_ok (execute_x64_jump_relative_near i c)"
    "handler_ok (execute_x64_jump_relative_short i c)" "handler_ok (execute_x64_jump_short_condition i c)"
    "handler_ok (execute_x64_jump_near_condition i c)" "handler_ok (execute_x64_unsupported i c)"
  unfolding execute_x64_push_register_def execute_x64_pop_register_def execute_x64_return_def
    execute_x64_call_relative_def execute_x64_group_ff_def execute_x64_jump_relative_near_def
    execute_x64_jump_relative_short_def execute_x64_jump_short_condition_def
    execute_x64_jump_near_condition_def execute_x64_unsupported_def Let_def
  by (intro verdict_intros; (assumption | rule assms))+

lemma simd_verdicts:
  assumes "live c"
  shows "handler_ok (execute_x64_secondary_mov_xmm i c)" "handler_ok (execute_x64_secondary_store_xmm i c)"
    "handler_ok (execute_x64_secondary_xorps i c)" "handler_ok (execute_x64_secondary_movd i c)"
    "handler_ok (execute_x64_secondary_punpcklbw i c)" "handler_ok (execute_x64_secondary_shuffle i c)"
    "handler_ok (execute_x64_secondary_movq_store i c)"
  unfolding execute_x64_secondary_mov_xmm_def execute_x64_secondary_store_xmm_def execute_x64_secondary_xorps_def
    execute_x64_secondary_movd_def execute_x64_secondary_punpcklbw_def execute_x64_secondary_shuffle_def
    execute_x64_secondary_movq_store_def Let_def
  by (intro verdict_intros; (assumption | rule assms))+

text \<open>
  A long no-op fails for two reasons, an unreadable operand or another form of the opcode; it is
  reported as unsupported in both cases.
\<close>

lemma long_nop_verdict:
  assumes "live c"
  shows "handler_ok (execute_x64_secondary_nop i c)"
proof -
  let ?m = "try_skip_modrm_operand i (i_next_address i + 1) :: ('a, u64 option) x64_op"
  have some: "live c'" if "?m c = (Some n, c')" for n c'
    using that assms
    by (auto simp: try_skip_modrm_operand_def skip_displacement_def attempt_def fails_def Let_def
        split: prod.splits option.splits if_splits dest!: read_u8_SomeD(1) read_u32_SomeD)
  show ?thesis
    using some handler_ends(1,4)
    by (auto simp: execute_x64_secondary_nop_def attempt_def split: prod.split option.split)
qed

lemma syscall_verdict:
  assumes "live c"
  shows "handler_ok (execute_x64_syscall i c)"
proof -
  obtain r c1 where s: "call_handle_syscall (set_instruction_pointer (i_next_address i + 1) c) = (r, c1)" by fastforce
  have "live c1"
    using s assms by (auto simp: call_handle_syscall_def live_def verdict_def set_instruction_pointer_def
        split: option.splits prod.splits)
  then show ?thesis
    by (cases "sr_action r") (simp_all add: execute_x64_syscall_def s Let_def handler_ok_def live_updates)
qed

lemma dispatch_verdict:
  assumes "live c"
  shows "handler_ok (x64_dispatch i c)"
proof -
  have f: "live (set_fault i c)" using assms by (rule live_updates)
  have secondary: "handler_ok (secondary_opcode_handler opc i c)" if "live c" for opc and c :: "'a x64_execution_context"
    using that by (simp add: secondary_opcode_handler_def simd_verdicts syscall_verdict control_flow_verdicts
        data_movement_verdicts long_nop_verdict)
  have primary: "handler_ok (primary_opcode_handler opc i c)" if "live c" for opc and c :: "'a x64_execution_context"
    using that by (simp add: primary_opcode_handler_def alu_verdicts control_flow_verdicts data_movement_verdicts)
  have "handler_ok (dispatch_secondary_opcode i (set_fault i c))"
    using secondary f
    by (auto simp: dispatch_secondary_opcode_def handler_ends live_updates
        split: prod.split option.split dest!: read_u8_SomeD(1))
  then show ?thesis using primary f by (simp add: x64_dispatch_def)
qed

lemma prefixes_verdict: "live c \<Longrightarrow> op_ok (decode_prefixes i c)"
proof (induction i c rule: decode_prefixes.induct)
  case (1 i c)
  show ?case
  proof (cases "apply_prefix i")
    case None
    then show ?thesis using 1(2) by (simp add: decode_prefixes.simps[of i c] op_ends)
  next
    case (Some j)
    obtain r c' where r: "read_u8 (i_opcode_address j + 1) c = (r, c')" by fastforce
    show ?thesis
    proof (cases r)
      case None
      then show ?thesis using Some r by (simp add: decode_prefixes.simps[of i c] op_ends)
    next
      case (Some opc)
      then have "c' = c" using read_u8_SomeD(1)[of _ c opc c'] r by simp
      then have "op_ok (decode_prefixes (j\<lparr>i_opcode_address := i_opcode_address j + 1, i_opcode := opc\<rparr>) c')"
        using 1(1)[OF \<open>apply_prefix i = Some j\<close> r[symmetric] Some] 1(2) by simp
      then show ?thesis using \<open>apply_prefix i = Some j\<close> r Some by (simp add: decode_prefixes.simps[of i c])
    qed
  qed
qed

lemma decode_verdict: "live c \<Longrightarrow> op_ok (decode_x64_instruction c)"
  by (auto simp: decode_x64_instruction_def Let_def op_ends prefixes_verdict
      split: prod.split option.split dest!: read_u8_SomeD(1))

section \<open>Runs\<close>

definition stop_verdicts :: "verdict set" where
  "stop_verdicts = {invalid_verdict, unsupported_verdict, exited_verdict, yielded_verdict}"

lemma step_verdict:
  assumes "live c" and "interpreter_step c = (b, c')"
  shows "if b then live c' else verdict c' \<in> stop_verdicts"
proof -
  have retire: "verdict (retire c) = verdict c" for c :: "'a x64_execution_context"
    by (simp add: verdict_def retire_def)
  obtain r c1 where d: "decode_x64_instruction c = (r, c1)" by fastforce
  show ?thesis
  proof (cases r)
    case None
    then show ?thesis
      using assms decode_verdict[OF assms(1)] by (auto simp: interpreter_step_def d op_ok_def stop_verdicts_def)
  next
    case (Some i)
    then have "live c1" using decode_verdict[OF assms(1)] by (simp add: d op_ok_def)
    obtain out c2 where x: "x64_dispatch i c1 = (out, c2)" by fastforce
    have "handler_ok (out, c2)" using dispatch_verdict[OF \<open>live c1\<close>, of i] by (simp add: x)
    then show ?thesis
      using assms(2) Some
      by (cases out) (auto simp: interpreter_step_def d x handler_ok_def live_updates retire stop_verdicts_def)
  qed
qed

lemma loop_verdict:
  assumes "live c" and "retired_instructions (x_result c) \<le> opt_instruction_budget (x_options c)"
  shows "retired_instructions (x_result (interpreter_loop c)) \<le> opt_instruction_budget (x_options c) \<and>
    (if verdict (interpreter_loop c) = limit_verdict
     then retired_instructions (x_result (interpreter_loop c)) = opt_instruction_budget (x_options c)
     else verdict (interpreter_loop c) \<in> stop_verdicts)"
  using assms
proof (induction c rule: interpreter_loop.induct)
  case (1 c)
  obtain b c' where s: "interpreter_step c = (b, c')" by fastforce
  show ?case
  proof (cases "retired_instructions (x_result c) < opt_instruction_budget (x_options c)")
    case True
    then have next_le: "retired_instructions (x_result c) + 1 \<le> opt_instruction_budget (x_options c)"
      using unat_Suc_less[OF True] by (simp add: word_le_nat_alt word_less_nat_alt)
    have le: "retired_instructions (x_result c') \<le> opt_instruction_budget (x_options c')"
      using interpreter_step_invocation(3,4)[OF s] 1(3) next_le by auto
    show ?thesis
    proof (cases b)
      case True
      then show ?thesis
        using 1(1)[OF \<open>_ < _\<close> s[symmetric] True] step_verdict[OF 1(2) s] le interpreter_step_invocation(3)[OF s]
          \<open>_ < _\<close> by (simp add: interpreter_loop.simps[of c] s)
    next
      case False
      then show ?thesis
        using step_verdict[OF 1(2) s] le interpreter_step_invocation(3)[OF s] \<open>_ < _\<close>
        by (auto simp: interpreter_loop.simps[of c] s stop_verdicts_def)
    qed
  next
    case False
    then show ?thesis
      using 1(3) by (simp add: interpreter_loop.simps[of c] frame_simps)
        (simp add: verdict_def set_backend_failure_def)
  qed
qed

end
