(* ===== verification/X64_Flags.thy ===== *)
theory X64_Flags
  imports X64_Results
begin

text \<open>
  The arithmetic flags against their meaning. The emulator computes carry, sign, zero and overflow from
  masks of 64-bit values at both operand widths; the theory shows that a comparison decides equality,
  unsigned and signed order, and that an addition reports exactly the unsigned and the signed
  overflow. The reference is integer arithmetic on the unsigned and signed values of the operands.
\<close>

section \<open>Signed arithmetic that wraps\<close>

lemma sint_of_int_wrap:
  fixes k :: int
  assumes "- (2 ^ LENGTH('a)) \<le> k" and "k < 2 ^ LENGTH('a)"
  shows "sint (word_of_int k :: 'a::len word) =
    (if k < - (2 ^ (LENGTH('a) - 1)) then k + 2 ^ LENGTH('a)
     else if 2 ^ (LENGTH('a) - 1) \<le> k then k - 2 ^ LENGTH('a) else k)"
proof -
  have exp: "(2 :: int) ^ LENGTH('a) = 2 * 2 ^ (LENGTH('a) - 1)" by (simp flip: power_Suc)
  have inside: "sint (word_of_int l :: 'a word) = l" if "- (2 ^ (LENGTH('a) - 1)) \<le> l" "l < 2 ^ (LENGTH('a) - 1)" for l
    using that by (simp add: sint_sbintrunc' signed_take_bit_int_eq_self)
  have "(word_of_int (k + 2 ^ LENGTH('a)) :: 'a word) = word_of_int k"
    "(word_of_int (k - 2 ^ LENGTH('a)) :: 'a word) = word_of_int k"
    by simp_all
  then show ?thesis
    using inside[of k] inside[of "k + 2 ^ LENGTH('a)"] inside[of "k - 2 ^ LENGTH('a)"] assms exp by auto
qed

lemma sint_bounds: "- (2 ^ (LENGTH('a) - 1)) \<le> sint w" "sint w < 2 ^ (LENGTH('a) - 1)" for w :: "'a::len word"
  by (rule sint_ge, rule sint_lt)

lemma sint_double: "(2 :: int) ^ LENGTH('a) = 2 * 2 ^ (LENGTH('a::len) - 1)"
  by (simp flip: power_Suc)

lemma sint_diff_wrap:
  fixes a b :: "'a::len word"
  shows "sint (a - b) =
    (if sint a - sint b < - (2 ^ (LENGTH('a) - 1)) then sint a - sint b + 2 ^ LENGTH('a)
     else if 2 ^ (LENGTH('a) - 1) \<le> sint a - sint b then sint a - sint b - 2 ^ LENGTH('a) else sint a - sint b)"
proof -
  have "a - b = word_of_int (sint a - sint b)" by simp
  then show ?thesis
    using sint_of_int_wrap[of "sint a - sint b", where 'a = 'a] sint_bounds[of a] sint_bounds[of b]
    by (simp add: sint_double[where 'a = 'a])
qed

lemma sint_sum_wrap:
  fixes a b :: "'a::len word"
  shows "sint (a + b) =
    (if sint a + sint b < - (2 ^ (LENGTH('a) - 1)) then sint a + sint b + 2 ^ LENGTH('a)
     else if 2 ^ (LENGTH('a) - 1) \<le> sint a + sint b then sint a + sint b - 2 ^ LENGTH('a) else sint a + sint b)"
proof -
  have "a + b = word_of_int (sint a + sint b)" by simp
  then show ?thesis
    using sint_of_int_wrap[of "sint a + sint b", where 'a = 'a] sint_bounds[of a] sint_bounds[of b]
    by (simp add: sint_double[where 'a = 'a])
qed

lemma signed_less_by_flags:
  fixes a b :: "'a::len word"
  shows "((sint (a - b) < 0) \<noteq> ((sint a < 0) \<noteq> (sint b < 0) \<and> (sint a < 0) \<noteq> (sint (a - b) < 0))) \<longleftrightarrow> sint a < sint b"
  using sint_bounds[of a] sint_bounds[of b] by (auto simp: sint_diff_wrap sint_double[where 'a = 'a])

lemma signed_overflow_by_flags:
  fixes a b :: "'a::len word"
  shows "((sint a < 0) = (sint b < 0) \<and> (sint a < 0) \<noteq> (sint (a + b) < 0)) \<longleftrightarrow> sint (a + b) \<noteq> sint a + sint b"
  using sint_bounds[of a] sint_bounds[of b] by (auto simp: sint_sum_wrap sint_double[where 'a = 'a])

lemma unsigned_carry: "a + b < a \<longleftrightarrow> uint a + uint b \<ge> 2 ^ LENGTH('a)" for a b :: "'a::len word"
proof -
  have "uint (a + b) = (if uint a + uint b < 2 ^ LENGTH('a) then uint a + uint b else uint a + uint b - 2 ^ LENGTH('a))"
    by (rule uint_plus_if_size[unfolded word_size])
  then show ?thesis using uint_lt2p[of b] uint_ge_0[of b] by (auto simp: word_less_def)
qed

section \<open>Bits of the flags\<close>

lemma flag_constants: "RFLAGS_CARRY = 2 ^ 0" "RFLAGS_RESERVED = 2 ^ 1" "RFLAGS_ZERO = 2 ^ 6" "RFLAGS_SIGN = 2 ^ 7"
  "RFLAGS_OVERFLOW = 2 ^ 11"
  by (simp_all add: RFLAGS_CARRY_def RFLAGS_RESERVED_def RFLAGS_ZERO_def RFLAGS_SIGN_def RFLAGS_OVERFLOW_def)

lemma flag_tests: "f AND RFLAGS_CARRY \<noteq> 0 \<longleftrightarrow> bit f 0" "f AND RFLAGS_ZERO \<noteq> 0 \<longleftrightarrow> bit f 6"
  "f AND RFLAGS_SIGN \<noteq> 0 \<longleftrightarrow> bit f 7" "f AND RFLAGS_OVERFLOW \<noteq> 0 \<longleftrightarrow> bit f 11"
  unfolding flag_constants by (simp_all only: and_exp_eq_0_iff_not_bit not_not)

lemma bit_flag_if: "bit (flag_if b x f) n \<longleftrightarrow> b \<and> bit x n \<or> bit f n"
  by (simp add: flag_if_def bit_or_iff disj_commute)

lemma bit_flag_constants: "bit RFLAGS_CARRY n \<longleftrightarrow> n = 0" "bit RFLAGS_ZERO n \<longleftrightarrow> n = 6" "bit RFLAGS_SIGN n \<longleftrightarrow> n = 7"
  "bit RFLAGS_OVERFLOW n \<longleftrightarrow> n = 11" "bit RFLAGS_RESERVED n \<longleftrightarrow> n = 1"
  unfolding flag_constants bit_exp_iff by auto

lemma bit_cleared_flags: "bit (cleared_flags f) n \<longleftrightarrow> n = 1 \<or> bit f n \<and> n \<notin> {0, 6, 7, 11}"
  by (auto simp: cleared_flags_def bit_or_iff bit_and_iff bit_not_iff bit_flag_constants dest: bit_imp_le_length)

lemmas flag_bits = bit_flag_if bit_flag_constants bit_cleared_flags

lemma width_mask_64: "x AND width_mask True = x"
proof -
  have "width_mask True = mask 64" by (simp add: width_mask_def mask_eq_exp_minus_1)
  then show ?thesis by (simp add: take_bit_word_eq_self flip: take_bit_eq_mask)
qed

lemma width_mask_32: "(ucast (w :: u32) :: u64) AND width_mask False = ucast w"
proof -
  have "width_mask False = mask 32" by (simp add: width_mask_def mask_eq_exp_minus_1)
  then have "(ucast w :: u64) AND width_mask False = take_bit 32 (ucast w)" by (simp add: take_bit_eq_mask)
  also have "\<dots> = ucast w"
    by (rule bit_word_eqI) (auto simp: bit_take_bit_iff bit_ucast_iff dest: bit_imp_le_length)
  finally show ?thesis .
qed

lemma sign_bit_64: "x AND sign_mask True = 0 \<longleftrightarrow> \<not> sint x < 0"
  using bit_last_iff[of x] and_exp_eq_0_iff_not_bit[of x 63] by (simp add: sign_mask_def push_bit_eq_mult)

lemma sign_bit_32: "(ucast (w :: u32) :: u64) AND sign_mask False = 0 \<longleftrightarrow> \<not> sint w < 0"
  using bit_last_iff[of w] and_exp_eq_0_iff_not_bit[of "ucast w :: u64" 31]
  by (simp add: sign_mask_def push_bit_eq_mult bit_ucast_iff)

lemma ucast_u32_order: "(ucast a :: u64) < ucast b \<longleftrightarrow> a < b" "(ucast a :: u64) = 0 \<longleftrightarrow> a = 0" for a b :: u32
proof -
  have "unat (ucast w :: u64) = unat w" for w :: u32
  proof -
    have "unat w < 2 ^ 32" using unsigned_less[of w] by simp
    then show ?thesis by (simp add: unsigned_ucast_eq take_bit_nat_eq_self)
  qed
  then show "(ucast a :: u64) < ucast b \<longleftrightarrow> a < b" "(ucast a :: u64) = 0 \<longleftrightarrow> a = 0"
    by (simp_all add: word_less_nat_alt flip: unat_eq_zero)
qed

lemmas width_facts = width_mask_64 width_mask_32 sign_bit_64 sign_bit_32 ucast_u32_order

section \<open>Comparison and addition\<close>

abbreviation carry_flag :: "'k x64_execution_context \<Rightarrow> bool" where
  "carry_flag c \<equiv> e_flags (x_state c) AND RFLAGS_CARRY \<noteq> 0"

abbreviation zero_flag :: "'k x64_execution_context \<Rightarrow> bool" where
  "zero_flag c \<equiv> e_flags (x_state c) AND RFLAGS_ZERO \<noteq> 0"

abbreviation sign_flag :: "'k x64_execution_context \<Rightarrow> bool" where
  "sign_flag c \<equiv> e_flags (x_state c) AND RFLAGS_SIGN \<noteq> 0"

abbreviation overflow_flag :: "'k x64_execution_context \<Rightarrow> bool" where
  "overflow_flag c \<equiv> e_flags (x_state c) AND RFLAGS_OVERFLOW \<noteq> 0"

text \<open>
  C30. The flags of a comparison decide the order of the operands, at both operand widths: after
  \<open>set_compare_flags\<close> with the difference, the zero flag is equality, the carry flag is unsigned
  less, and sign differing from overflow is signed less.
\<close>

theorem compare_flags_decide:
  "zero_flag (set_compare_flags a b (a - b) True c) = (a = b) \<and>
   carry_flag (set_compare_flags a b (a - b) True c) = (a < b) \<and>
   (sign_flag (set_compare_flags a b (a - b) True c) \<noteq> overflow_flag (set_compare_flags a b (a - b) True c)) =
     (sint a < sint b) \<and>
   zero_flag (set_compare_flags (ucast x) (ucast y) (ucast (x - y)) False c) = (x = y) \<and>
   carry_flag (set_compare_flags (ucast x) (ucast y) (ucast (x - y)) False c) = (x < y) \<and>
   (sign_flag (set_compare_flags (ucast x) (ucast y) (ucast (x - y)) False c) \<noteq>
      overflow_flag (set_compare_flags (ucast x) (ucast y) (ucast (x - y)) False c)) = (sint x < sint y)"
  for a b :: u64 and x y :: u32
proof -
  have f: "e_flags (x_state (set_flags f c)) = f" for f by (simp add: set_flags_def)
  show ?thesis
    using signed_less_by_flags[of a b] signed_less_by_flags[of x y]
    by (simp add: set_compare_flags_def Let_def f flag_tests flag_bits width_facts)
qed

text \<open>
  The flags of an addition, at both widths: the zero flag tells that the wrapped sum is zero, the
  carry flag that the sum of the unsigned values does not fit, the overflow flag that the sum of the
  signed values does not fit, and the sign flag is the sign of the wrapped sum.
\<close>

lemma add_flags_report_overflow:
  "zero_flag (set_add_flags a b (a + b) True c) = (a + b = 0) \<and>
   carry_flag (set_add_flags a b (a + b) True c) = (uint a + uint b \<ge> 2 ^ 64) \<and>
   overflow_flag (set_add_flags a b (a + b) True c) = (sint (a + b) \<noteq> sint a + sint b) \<and>
   sign_flag (set_add_flags a b (a + b) True c) = (sint (a + b) < 0) \<and>
   zero_flag (set_add_flags (ucast x) (ucast y) (ucast (x + y)) False c) = (x + y = 0) \<and>
   carry_flag (set_add_flags (ucast x) (ucast y) (ucast (x + y)) False c) = (uint x + uint y \<ge> 2 ^ 32) \<and>
   overflow_flag (set_add_flags (ucast x) (ucast y) (ucast (x + y)) False c) = (sint (x + y) \<noteq> sint x + sint y) \<and>
   sign_flag (set_add_flags (ucast x) (ucast y) (ucast (x + y)) False c) = (sint (x + y) < 0)"
  for a b :: u64 and x y :: u32
proof -
  have f: "e_flags (x_state (set_flags f c)) = f" for f by (simp add: set_flags_def)
  show ?thesis
    using signed_overflow_by_flags[of a b] signed_overflow_by_flags[of x y] unsigned_carry[of a b] unsigned_carry[of x y]
    by (simp add: set_add_flags_def Let_def f flag_tests flag_bits width_facts) blast
qed

text \<open>
  The byte comparison (\<open>execute_x64_group80\<close>) sets zero and carry as the processor does, but it
  computes sign and overflow at 32 bits: on byte operands neither flag is ever set, whatever the
  signed order of the bytes is.
\<close>

lemma byte_compare_flags:
  "zero_flag (set_compare_flags (ucast x) (ucast y) (ucast (x - y)) False c) = (x = y) \<and>
   carry_flag (set_compare_flags (ucast x) (ucast y) (ucast (x - y)) False c) = (x < y) \<and>
   \<not> sign_flag (set_compare_flags (ucast x) (ucast y) (ucast (x - y)) False c) \<and>
   \<not> overflow_flag (set_compare_flags (ucast x) (ucast y) (ucast (x - y)) False c)"
  for x y :: u8
proof -
  have f: "e_flags (x_state (set_flags f c)) = f" for f by (simp add: set_flags_def)
  have small: "(ucast b :: u64) = ucast (ucast b :: u32)" for b :: u8
    by (rule bit_word_eqI) (auto simp: bit_ucast_iff dest: bit_imp_le_length)
  have pos: "\<not> sint (ucast b :: u32) < 0" for b :: u8
    using bit_last_iff[of "ucast b :: u32"] by (auto simp: bit_ucast_iff dest: bit_imp_le_length)
  have n: "unat (ucast b :: u32) = unat b" for b :: u8
  proof -
    have "unat b < 2 ^ 8" using unsigned_less[of b] by simp
    then show ?thesis by (simp add: unsigned_ucast_eq take_bit_nat_eq_self)
  qed
  have ord: "(ucast a :: u32) < ucast b \<longleftrightarrow> a < b" "(ucast a :: u32) = 0 \<longleftrightarrow> a = 0" for a b :: u8
    by (simp_all add: word_less_nat_alt n flip: unat_eq_zero)
  show ?thesis
    by (simp add: small set_compare_flags_def Let_def f flag_tests flag_bits width_facts pos ord)
qed

end
