(* ===== verification/X64_Properties.thy ===== *)
theory X64_Properties
  imports X64_Flags
begin

text \<open>
  The theorems about the emulator: confinement of memory, the report of a run, guest memory and the
  stack, the flags, the decoder. A small guest program is the witness of the theorems about runs.
\<close>

section \<open>A guest program\<close>

text \<open>\<open>mov eax, 0x2A; push rax; syscall\<close>, with a callback that ends the thread.\<close>

definition example_program :: "u8 list" where
  "example_program = [0xB8, 0x2A, 0, 0, 0, 0x50, 0x0F, 0x05]"

definition example_handler :: "unit x64_syscall_handler" where
  "example_handler env m s =
     (\<lparr>sr_status = 0, sr_action = X64_EMULATOR_SYSCALL_ACTION_EXIT_THREAD\<rparr>, env, m)"

definition example_context :: "unit x64_execution_context" where
  "example_context =
     \<lparr>x_state = \<lparr>general_registers = (replicate 16 0)[4 := 0x1100], simd_registers = replicate 16 (replicate 16 0),
        e_instruction_pointer = 0x1000, e_flags = 0\<rparr>,
      x_memory = \<lparr>mem_base_address = 0x1000, mem_bytes = 0x8000, mem_size = 0x100\<rparr>,
      x_handle_syscall = Some example_handler,
      x_options = \<lparr>opt_engine = X64_EMULATOR_ENGINE_INTERPRETER, opt_instruction_budget = 100\<rparr>,
      x_result = initialize_backend_failure_result
        \<lparr>general_registers = [], simd_registers = [], e_instruction_pointer = 0, e_flags = 0\<rparr>
        X64_EMULATOR_BACKEND_FAILURE_NONE,
      x_host = store_bytes (\<lambda>_. 0) 0x8000 example_program, x_env = ()\<rparr>"

lemma example_run:
  "(let c' = snd (run_x64_emulator True example_context) in
    x_host c' 0x80F8 = 0x2A \<and> retired_instructions (x_result c') = 3 \<and>
    completion (x_result c') = X64_EMULATOR_COMPLETION_THREAD_EXITED \<and>
    general_registers (x_state c') ! 4 = 0x10F8)"
  by code_simp

section \<open>Runs\<close>

text \<open>
  C27. The emulator is a sandbox: whatever the guest program does, a run changes host memory only
  inside the guest region and where the system call callback itself writes. Every byte outside stays
  as it was.
\<close>

theorem emulator_memory_confined:
  assumes "guest_region (x_memory c) \<subseteq> S" and "callback_confined S c"
    and "run_x64_emulator out c = (ok, c')" and "x \<notin> S"
  shows "x_host c' x = x_host c x"
proof -
  have "confined S c0 (interpreter_loop c0)" for c0 :: "'a x64_execution_context"
  proof (rule loop_respects)
    show "confined S c1 (set_backend_failure X64_EMULATOR_BACKEND_FAILURE_INSTRUCTION_LIMIT_REACHED c1)"
      for c1 :: "'a x64_execution_context"
      by (simp add: confined_def frame_simps)
  qed (simp_all add: region.refl region.trans[of S] step_confined)
  from this[of "initialize_result c"] show ?thesis
    using assms
    by (auto simp: run_x64_emulator_def x64_interpreter_run_def Let_def confined_def callback_confined_def frame_simps
        split: if_splits)
qed

lemma example_callback_confined: "callback_confined S example_context"
  by (simp add: callback_confined_def example_context_def example_handler_def)

theorem emulator_memory_confined_witness:
  "x_host (snd (run_x64_emulator True example_context)) 0x9000 = 0 \<and>
   x_host (snd (run_x64_emulator True example_context)) 0x80F8 \<noteq> x_host example_context 0x80F8"
proof -
  have out: "(0x9000 :: u64) \<notin> guest_region (x_memory example_context)"
    by (simp add: guest_region_def example_context_def)
  have "x_host (snd (run_x64_emulator True example_context)) 0x9000 = x_host example_context 0x9000"
    using emulator_memory_confined[OF order_refl example_callback_confined _ out, of True] by (metis prod.collapse)
  moreover have "x_host example_context 0x9000 = 0" "x_host example_context 0x80F8 = 0" by code_simp+
  ultimately show ?thesis using example_run by (simp add: Let_def)
qed

text \<open>
  C28. A run of the interpreter always returns, and its report is consistent. With another engine, or
  with a null callback, null memory or an empty budget, the failure is reported and nothing has run.
  Otherwise at most \<open>instruction_budget\<close> instructions retire, and the run ends either with the budget
  used up, reported as a backend failure and no guest stop reason, or with one of the four guest
  events, reported in all three fields alike.
\<close>

theorem emulator_run_reported:
  assumes "run_x64_emulator True c = (ok, c')"
  shows "ok \<and>
    (if opt_engine (x_options c) \<noteq> X64_EMULATOR_ENGINE_INTERPRETER
     then verdict c' = (X64_EMULATOR_COMPLETION_UNSUPPORTED_ENGINE, X64_EMULATOR_GUEST_STOP_REASON_NONE,
            X64_EMULATOR_BACKEND_FAILURE_UNSUPPORTED_ENGINE) \<and> x_state c' = x_state c \<and> x_host c' = x_host c
     else if \<not> is_valid_invocation c
     then verdict c' = (X64_EMULATOR_COMPLETION_INVALID_ARGUMENT, X64_EMULATOR_GUEST_STOP_REASON_NONE,
            X64_EMULATOR_BACKEND_FAILURE_INVALID_ARGUMENT) \<and> x_host c' = x_host c
     else retired_instructions (x_result c') \<le> opt_instruction_budget (x_options c) \<and>
       (verdict c' = limit_verdict \<and> retired_instructions (x_result c') = opt_instruction_budget (x_options c) \<or>
        verdict c' \<in> {invalid_verdict, unsupported_verdict, exited_verdict, yielded_verdict}))"
proof -
  have valid: "is_valid_invocation (initialize_result c) = is_valid_invocation c"
    by (simp add: is_valid_invocation_def frame_simps)
  have "live (initialize_result c)" if "is_valid_invocation c"
    using that by (simp add: live_def verdict_def initialize_result_def is_valid_invocation_def Let_def)
  then show ?thesis
    using assms valid loop_verdict[of "initialize_result c"]
    by (auto simp: run_x64_emulator_def x64_interpreter_run_def Let_def frame_simps stop_verdicts_def
        split: if_splits) (simp_all add: verdict_def initialize_backend_failure_result_def set_backend_failure_def)
qed

theorem emulator_run_reported_witness:
  "\<exists>c'. run_x64_emulator True example_context = (True, c') \<and> retired_instructions (x_result c') \<le> 100 \<and>
     verdict c' = exited_verdict"
proof -
  obtain ok c' where r: "run_x64_emulator True example_context = (ok, c')" by fastforce
  have "completion (x_result c') = X64_EMULATOR_COMPLETION_THREAD_EXITED"
    using example_run by (simp add: r Let_def)
  moreover have "is_valid_invocation example_context" "opt_engine (x_options example_context) = X64_EMULATOR_ENGINE_INTERPRETER"
    "opt_instruction_budget (x_options example_context) = 100"
    by (simp_all add: is_valid_invocation_def example_context_def)
  ultimately have "ok \<and> retired_instructions (x_result c') \<le> 100 \<and> verdict c' = exited_verdict"
    using emulator_run_reported[OF r] by (auto simp: verdict_def)
  then show ?thesis using r by simp
qed

text \<open>A run keeps the lengths of the register arrays, of the bytes of a SIMD register too.\<close>

lemma run_keeps_shape:
  assumes "wf_state (x_state c)" and "run_x64_emulator out c = (ok, c')"
  shows "wf_state (x_state c')"
proof -
  have "keeps_shape c0 (interpreter_loop c0)" for c0 :: "'a x64_execution_context"
    by (rule loop_respects) (auto simp: keeps_shape_def frame_simps step_keeps_shape[unfolded keeps_shape_def])
  from this[of "initialize_result c"] show ?thesis
    using assms
    by (auto simp: run_x64_emulator_def x64_interpreter_run_def Let_def keeps_shape_def frame_simps split: if_splits)
qed

section \<open>Guest memory and the stack\<close>

lemma write_bytes_cases:
  assumes "write_bytes a bs c = (Some (), c')"
  shows "c' = c\<lparr>x_host := store_bytes (x_host c) (mem_bytes (x_memory c) + (a - mem_base_address (x_memory c))) bs\<rparr>"
    and "fst (translate_guest_pointer a (of_nat (length bs)) c) =
      Some (mem_bytes (x_memory c) + (a - mem_base_address (x_memory c)))"
proof -
  obtain p c1 where t: "translate_guest_pointer a (of_nat (length bs)) c = (Some p, c1)"
    and c': "c' = c1\<lparr>x_host := store_bytes (x_host c1) p bs\<rparr>"
    using assms by (auto simp: write_bytes_def attempt_def split: prod.splits option.splits)
  show "c' = c\<lparr>x_host := store_bytes (x_host c) (mem_bytes (x_memory c) + (a - mem_base_address (x_memory c))) bs\<rparr>"
    "fst (translate_guest_pointer a (of_nat (length bs)) c) =
      Some (mem_bytes (x_memory c) + (a - mem_base_address (x_memory c)))"
    using translate_range(1,2)[OF t] t c' by simp_all
qed

lemma translate_host_update: "translate_guest_pointer a n (c\<lparr>x_host := m\<rparr>) =
   (case translate_guest_pointer a n c of (r, c') \<Rightarrow> (r, c'\<lparr>x_host := m\<rparr>))"
  by (simp add: translate_guest_pointer_def Let_def set_invalid_memory_access_def)

lemma translate_Some_eq: "fst (translate_guest_pointer a n c) = Some p \<Longrightarrow> translate_guest_pointer a n c = (Some p, c)"
  using translate_frame[of a n c] by (cases "translate_guest_pointer a n c") auto

text \<open>After a write, the same range holds the bytes and every other address what it held.\<close>

lemma written_bytes:
  assumes "write_bytes a bs c = (Some (), c')" and "length bs \<le> 16"
  shows "translate_guest_pointer a (of_nat (length bs)) c' = (Some (mem_bytes (x_memory c) + (a - mem_base_address (x_memory c))), c')"
    and "load_bytes (x_host c') (mem_bytes (x_memory c) + (a - mem_base_address (x_memory c))) (length bs) = bs"
    and "length bs \<le> unat (b - a) \<Longrightarrow> fst (read_u8 b c') = fst (read_u8 b c)"
proof -
  let ?p = "\<lambda>a. mem_bytes (x_memory c) + (a - mem_base_address (x_memory c))"
  note w = write_bytes_cases[OF assms(1)]
  show t: "translate_guest_pointer a (of_nat (length bs)) c' = (Some (?p a), c')"
    using translate_Some_eq[OF w(2)] by (simp add: w(1) translate_host_update)
  show "load_bytes (x_host c') (?p a) (length bs) = bs"
    using assms(2) by (simp add: w(1) load_store_same)
  assume far: "length bs \<le> unat (b - a)"
  have "store_bytes (x_host c) (?p a) bs (?p b) = x_host c (?p b)"
    using far assms(2) by (subst store_bytes_at) (simp_all add: algebra_simps)
  then show "fst (read_u8 b c') = fst (read_u8 b c)"
    by (auto simp: read_u8_def attempt_def w(1) translate_host_update split: prod.split option.split
        dest: translate_range(1,2))
qed

text \<open>
  Guest memory is memory: a 32-bit, 64-bit or 128-bit value that was written is read back from
  the same address, and a byte at any other guest address reads as before the write.
\<close>

lemma guest_write_read:
  assumes "a' - a \<ge> 16"
  shows "(write_u32 a w c = (Some (), c1) \<longrightarrow> read_u32 a c1 = (Some w, c1) \<and> fst (read_u8 a' c1) = fst (read_u8 a' c)) \<and>
    (write_u64 a v c = (Some (), c2) \<longrightarrow> read_u64 a c2 = (Some v, c2) \<and> fst (read_u8 a' c2) = fst (read_u8 a' c)) \<and>
    (length q = 16 \<longrightarrow> write_u128 a q c = (Some (), c3) \<longrightarrow>
       read_u128 a c3 = (Some q, c3) \<and> fst (read_u8 a' c3) = fst (read_u8 a' c))"
proof -
  have far: "16 \<le> unat (a' - a)" using assms by (simp add: word_le_nat_alt)
  have "le_word (le_bytes 4 (ucast w)) = ucast w"
    by (rule bit_word_eqI) (auto simp: le_word_le_bytes bit_take_bit_iff bit_ucast_iff dest: bit_imp_le_length)
  moreover have "ucast (ucast w :: u64) = w" by (rule bit_word_eqI) (auto simp: bit_ucast_iff)
  ultimately have "write_u32 a w c = (Some (), c1) \<Longrightarrow> read_u32 a c1 = (Some w, c1) \<and> fst (read_u8 a' c1) = fst (read_u8 a' c)"
    using far written_bytes[of a "le_bytes 4 (ucast w)" c c1] by (simp add: write_u32_def read_u32_def attempt_def)
  moreover have "write_u64 a v c = (Some (), c2) \<Longrightarrow> read_u64 a c2 = (Some v, c2) \<and> fst (read_u8 a' c2) = fst (read_u8 a' c)"
    using far written_bytes[of a "le_bytes 8 v" c c2] by (simp add: write_u64_def read_u64_def attempt_def)
  moreover have "read_u128 a c3 = (Some q, c3) \<and> fst (read_u8 a' c3) = fst (read_u8 a' c)"
    if "length q = 16" "write_u128 a q c = (Some (), c3)"
    using far written_bytes[of a q c c3] that by (simp add: write_u128_def read_u128_def attempt_def)
  ultimately show ?thesis by blast
qed

lemma push_pop:
  assumes "wf_state (x_state c)" and "push_u64 v c = (Some (), c')"
  shows "pop_u64 c' = (Some v, c\<lparr>x_host := x_host c'\<rparr>)"
    and "x_state c' = (x_state c)\<lparr>general_registers := (general_registers (x_state c))[4 := get_register64 c 4 - 8]\<rparr>"
proof -
  let ?sp = "get_register64 c 4" and ?c1 = "set_register64 4 (get_register64 c 4 - 8) c"
  have w: "write_bytes (?sp - 8) (le_bytes 8 v) ?c1 = (Some (), c')"
    using assms(2) by (auto simp: push_u64_def Let_def write_u64_def X64_GENERAL_REGISTER_RSP_def split: if_splits)
  note c' = write_bytes_cases(1)[OF w] and r = written_bytes(1,2)[OF w]
  have sp: "get_register64 c' 4 = ?sp - 8"
    using assms(1) by (simp add: c' set_register64_def get_register64_def wf_state_def)
  show "x_state c' = (x_state c)\<lparr>general_registers := (general_registers (x_state c))[4 := ?sp - 8]\<rparr>"
    by (simp add: c' set_register64_def)
  have "read_u64 (?sp - 8) c' = (Some v, c')"
    using r by (simp add: read_u64_def attempt_def)
  then have "pop_u64 c' = (Some v, set_register64 4 ?sp c')"
    by (simp add: pop_u64_def attempt_def sp X64_GENERAL_REGISTER_RSP_def)
  also have "set_register64 4 ?sp c' = c\<lparr>x_host := x_host c'\<rparr>"
    using assms(1) by (simp add: c' set_register64_def get_register64_def wf_state_def list_update_same_conv)
  finally show "pop_u64 c' = (Some v, c\<lparr>x_host := x_host c'\<rparr>)" .
qed

text \<open>
  C31. A call returns. If \<open>call rel32\<close> goes on, the return instruction executed on the callee's first
  context goes on as well, at the address after the call, with every general and SIMD register
  and the flags as before the call.
\<close>

theorem call_return_roundtrip:
  assumes "wf_state (x_state c)" and "\<not> rex_w j"
    and "execute_x64_call_relative i c = (X64_INSTRUCTION_OUTCOME_CONTINUE_RUNNING, c1)"
  shows "\<exists>c2. execute_x64_return j c1 = (X64_INSTRUCTION_OUTCOME_CONTINUE_RUNNING, c2) \<and>
    x_state c2 = (x_state c)\<lparr>e_instruction_pointer := i_next_address i + 4\<rparr>"
proof -
  obtain d c0 where d: "read_i32 (i_next_address i) c = (Some d, c0)"
    using assms(3) by (auto simp: execute_x64_call_relative_def reject_rex_w_def stop_unsupported_def attempt_def
        fail_invalid_memory_def split: if_splits prod.splits option.splits)
  then have "c0 = c" by (auto simp: read_i32_def dest: read_u32_SomeD)
  then obtain c' where p: "push_u64 (i_next_address i + 4) c = (Some (), c')"
    and c1: "c1 = set_instruction_pointer (i_next_address i + 4 + scast d) c'"
    using assms(3) d by (auto simp: execute_x64_call_relative_def reject_rex_w_def stop_unsupported_def attempt_def
        fail_invalid_memory_def continue_at_def Let_def split: if_splits prod.splits option.splits)
  have frame: "translate_guest_pointer a n (set_instruction_pointer ip c) =
      (case translate_guest_pointer a n c of (r, c') \<Rightarrow> (r, set_instruction_pointer ip c'))" for a n ip and c :: "'a x64_execution_context"
    by (simp add: translate_guest_pointer_def Let_def set_invalid_memory_access_def set_instruction_pointer_def)
  have "pop_u64 (set_instruction_pointer ip c) = (case pop_u64 c of (r, c') \<Rightarrow> (r, set_instruction_pointer ip c'))"
    for ip and c :: "'a x64_execution_context"
    by (simp add: pop_u64_def read_u64_def attempt_def frame get_register64_def set_register64_def split: prod.split option.split)
      (simp add: set_instruction_pointer_def)
  then have "pop_u64 c1 = (Some (i_next_address i + 4),
      set_instruction_pointer (i_next_address i + 4 + scast d) (c\<lparr>x_host := x_host c'\<rparr>))"
    using push_pop(1)[OF assms(1) p] by (simp add: c1)
  then show ?thesis
    using assms(2)
    by (simp add: execute_x64_return_def reject_rex_w_def attempt_def continue_at_def set_instruction_pointer_def)
qed

text \<open>\<open>call +3\<close> at the start of the guest region.\<close>

definition call_context :: "unit x64_execution_context" where
  "call_context = example_context\<lparr>x_host := store_bytes (\<lambda>_. 0) 0x8000 [0xE8, 3, 0, 0, 0]\<rparr>"

definition call_instruction :: x64_decoded_instruction where
  "call_instruction = \<lparr>i_address = 0x1000, i_opcode_address = 0x1000, i_next_address = 0x1001, i_opcode = 0xE8,
     prefix_66 = False, prefix_f2 = False, prefix_f3 = False, rex_w = False, rex_r = False, rex_x = False, rex_b = False\<rparr>"

theorem call_return_roundtrip_witness:
  "\<exists>c2. execute_x64_return call_instruction (snd (execute_x64_call_relative call_instruction call_context)) =
     (X64_INSTRUCTION_OUTCOME_CONTINUE_RUNNING, c2) \<and> e_instruction_pointer (x_state c2) = 0x1005"
proof -
  have "fst (execute_x64_call_relative call_instruction call_context) = X64_INSTRUCTION_OUTCOME_CONTINUE_RUNNING"
    by code_simp
  then have c: "execute_x64_call_relative call_instruction call_context =
      (X64_INSTRUCTION_OUTCOME_CONTINUE_RUNNING, snd (execute_x64_call_relative call_instruction call_context))"
    by (metis prod.collapse)
  have wf: "wf_state (x_state call_context)" by (simp add: wf_state_def call_context_def example_context_def)
  have j: "\<not> rex_w call_instruction" "i_next_address call_instruction = 0x1001" by (simp_all add: call_instruction_def)
  show ?thesis using call_return_roundtrip[OF wf j(1) c] j(2) by auto
qed

section \<open>Decoding\<close>

text \<open>The guest byte at an address, and the bytes that are prefixes.\<close>

definition guest_byte :: "'k x64_execution_context \<Rightarrow> u64 \<Rightarrow> u8 option" where
  "guest_byte c a = fst (read_u8 a c)"

definition is_prefix_byte :: "u8 \<Rightarrow> bool" where
  "is_prefix_byte b \<longleftrightarrow> b \<in> {0x66, 0xF2, 0xF3, 0x2E} \<or> b AND 0xF0 = 0x40"

lemma apply_prefix_None_iff: "apply_prefix i = None \<longleftrightarrow> \<not> is_prefix_byte (i_opcode i)"
  by (simp add: apply_prefix_def is_prefix_byte_def)

lemma decode_prefixes_spec:
  assumes "decode_prefixes i c = (Some j, c')" and "guest_byte c (i_opcode_address i) = Some (i_opcode i)"
  shows "c' = c \<and> (\<exists>n. i_opcode_address j = i_opcode_address i + of_nat n \<and> i_next_address j = i_opcode_address j + 1 \<and>
    i_address j = i_address i \<and> guest_byte c (i_opcode_address j) = Some (i_opcode j) \<and> \<not> is_prefix_byte (i_opcode j) \<and>
    (\<forall>k < n. \<exists>b. guest_byte c (i_opcode_address i + of_nat k) = Some b \<and> is_prefix_byte b))"
  using assms
proof (induction i c rule: decode_prefixes.induct)
  case (1 i c)
  show ?case
  proof (cases "apply_prefix i")
    case None
    then show ?thesis
      using 1(2,3) apply_prefix_None_iff[of i] by (auto simp: decode_prefixes.simps[of i c] intro!: exI[of _ 0])
  next
    case (Some p)
    have p: "i_opcode_address p = i_opcode_address i" "i_address p = i_address i"
      using Some by (auto simp: apply_prefix_def split: if_splits)
    obtain opc c1 where r: "read_u8 (i_opcode_address i + 1) c = (Some opc, c1)"
      using 1(2) Some p by (auto simp: decode_prefixes.simps[of i c] split: prod.splits option.splits)
    let ?q = "p\<lparr>i_opcode_address := i_opcode_address i + 1, i_opcode := opc\<rparr>"
    have c1: "c1 = c" using read_u8_SomeD(1)[OF r] .
    have d: "decode_prefixes ?q c = (Some j, c')"
      using 1(2) Some p r c1 by (simp add: decode_prefixes.simps[of i c])
    have b: "guest_byte c (i_opcode_address ?q) = Some (i_opcode ?q)" using r by (simp add: guest_byte_def)
    from 1(1)[OF Some, of "Some opc" c opc] d b r c1 p
    obtain n where c': "c' = c" and n: "i_opcode_address j = i_opcode_address i + 1 + of_nat n"
      "i_next_address j = i_opcode_address j + 1" "i_address j = i_address i"
      "guest_byte c (i_opcode_address j) = Some (i_opcode j)" "\<not> is_prefix_byte (i_opcode j)"
      and all: "\<forall>k < n. \<exists>b. guest_byte c (i_opcode_address i + 1 + of_nat k) = Some b \<and> is_prefix_byte b"
      by auto
    have "\<exists>b. guest_byte c (i_opcode_address i + of_nat k) = Some b \<and> is_prefix_byte b" if "k < Suc n" for k
      using that all 1(3) Some apply_prefix_None_iff[of i] by (cases k) (auto simp: add.assoc)
    then show ?thesis using c' n by (auto intro!: exI[of _ "Suc n"] simp: add.assoc)
  qed
qed

text \<open>
  The decoder returns the first byte from the instruction pointer on that is not a prefix, with
  its address; every byte before it is a prefix, all of them lie in guest memory, and the context is
  unchanged.
\<close>

lemma decode_finds_opcode:
  assumes "decode_x64_instruction c = (Some i, c')"
  shows "c' = c \<and> i_address i = e_instruction_pointer (x_state c) \<and>
    guest_byte c (i_opcode_address i) = Some (i_opcode i) \<and> \<not> is_prefix_byte (i_opcode i) \<and>
    i_next_address i = i_opcode_address i + 1 \<and>
    (\<exists>n. i_opcode_address i = i_address i + of_nat n \<and>
       (\<forall>k < n. \<exists>b. guest_byte c (i_address i + of_nat k) = Some b \<and> is_prefix_byte b))"
proof -
  let ?ip = "e_instruction_pointer (x_state c)"
  obtain opc c1 where r: "read_u8 ?ip c = (Some opc, c1)"
    using assms by (auto simp: decode_x64_instruction_def Let_def split: prod.splits option.splits)
  then show ?thesis
    using assms read_u8_SomeD(1)[OF r]
    by (auto simp: decode_x64_instruction_def Let_def guest_byte_def dest!: decode_prefixes_spec)
qed

end
