(* ===== verification/X64_Bounds.thy ===== *)
theory X64_Bounds
  imports X64_Properties Emulated_Syscall
begin

text \<open>
  The bounds of the register arrays. In C++ an access past \<open>general_registers[16]\<close> or
  \<open>simd_registers[16]\<close> reads or writes whatever lies behind the array. Here that memory is further
  elements of the lists, put there by \<open>behind\<close>: an access past the sixteenth register would read or change
  them. \<open>agree\<close> relates what an operation does without them to what it does with them; the rules for it follow
  the handlers, so a register number that is not below 16 at one of them has no proof.
\<close>

named_theorems agree_intros \<open>operations that agree with and without memory behind the registers\<close>
named_theorems behind_simps \<open>operations pass the memory behind the registers by\<close>

section \<open>Memory behind the registers\<close>

definition behind :: "u64 list \<Rightarrow> x64_simd_register list \<Rightarrow> 'k x64_execution_context \<Rightarrow> 'k x64_execution_context" where
  "behind gs ss c = c\<lparr>x_state := (x_state c)
     \<lparr>general_registers := general_registers (x_state c) @ gs, simd_registers := simd_registers (x_state c) @ ss\<rparr>\<rparr>"

definition sixteen :: "'k x64_execution_context \<Rightarrow> bool" where
  "sixteen c \<longleftrightarrow> length (general_registers (x_state c)) = 16 \<and> length (simd_registers (x_state c)) = 16"

definition agree :: "u64 list \<Rightarrow> x64_simd_register list \<Rightarrow> 'a \<times> 'k x64_execution_context \<Rightarrow>
    'a \<times> 'k x64_execution_context \<Rightarrow> bool" where
  "agree gs ss p q \<longleftrightarrow> q = map_prod id (behind gs ss) p \<and> sixteen (snd p)"

lemma behind_sel [behind_simps]:
  "x_memory (behind gs ss c) = x_memory c" "x_handle_syscall (behind gs ss c) = x_handle_syscall c"
  "x_options (behind gs ss c) = x_options c" "x_result (behind gs ss c) = x_result c"
  "x_host (behind gs ss c) = x_host c" "x_env (behind gs ss c) = x_env c"
  "e_flags (x_state (behind gs ss c)) = e_flags (x_state c)"
  "e_instruction_pointer (x_state (behind gs ss c)) = e_instruction_pointer (x_state c)"
  by (simp_all add: behind_def)

lemma behind_result_ops [behind_simps]:
  "set_fault i (behind gs ss c) = behind gs ss (set_fault i c)"
  "set_fault_opcode opc (behind gs ss c) = behind gs ss (set_fault_opcode opc c)"
  "set_invalid_memory_access a opc (behind gs ss c) = behind gs ss (set_invalid_memory_access a opc c)"
  "set_unsupported_instruction opc (behind gs ss c) = behind gs ss (set_unsupported_instruction opc c)"
  "set_thread_exited (behind gs ss c) = behind gs ss (set_thread_exited c)"
  "set_yielded (behind gs ss c) = behind gs ss (set_yielded c)"
  "complete_invalid_memory (behind gs ss c) = behind gs ss (complete_invalid_memory c)"
  "retire (behind gs ss c) = behind gs ss (retire c)"
  "initialize_result (behind gs ss c) = behind gs ss (initialize_result c)"
  "is_valid_invocation (behind gs ss c) = is_valid_invocation c"
  by (simp_all add: behind_def context_op_defs retire_def initialize_result_def is_valid_invocation_def Let_def)

lemma behind_backend_failure [behind_simps]:
  "set_backend_failure f (behind gs ss c) = behind gs ss (set_backend_failure f c)"
  by (cases f) (simp_all add: behind_def set_backend_failure_def)

lemma behind_state_ops [behind_simps]:
  "set_instruction_pointer ip (behind gs ss c) = behind gs ss (set_instruction_pointer ip c)"
  "set_flags f (behind gs ss c) = behind gs ss (set_flags f c)"
  "(behind gs ss c)\<lparr>x_host := m\<rparr> = behind gs ss (c\<lparr>x_host := m\<rparr>)"
  "(behind gs ss c)\<lparr>x_env := k\<rparr> = behind gs ss (c\<lparr>x_env := k\<rparr>)"
  by (simp_all add: behind_def context_op_defs)

lemma behind_flag_ops [behind_simps]:
  "set_logic_flags v wide (behind gs ss c) = behind gs ss (set_logic_flags v wide c)"
  "set_compare_flags l r v wide (behind gs ss c) = behind gs ss (set_compare_flags l r v wide c)"
  "set_add_flags l r v wide (behind gs ss c) = behind gs ss (set_add_flags l r v wide c)"
  "set_inc_dec_flags l v dec wide (behind gs ss c) = behind gs ss (set_inc_dec_flags l v dec wide c)"
  by (simp_all add: set_logic_flags_def set_compare_flags_def set_add_flags_def set_inc_dec_flags_def Let_def behind_simps)

text \<open>Registers below the sixteenth: here the bound is needed.\<close>

lemma behind_register_ops [behind_simps]:
  assumes "sixteen c" and "r < 16"
  shows "get_register64 (behind gs ss c) r = get_register64 c r" "get_register32 (behind gs ss c) r = get_register32 c r"
    "get_register8_low (behind gs ss c) r = get_register8_low c r" "get_simd_register (behind gs ss c) r = get_simd_register c r"
    "set_register64 r v (behind gs ss c) = behind gs ss (set_register64 r v c)"
    "set_register32 r w (behind gs ss c) = behind gs ss (set_register32 r w c)"
    "set_register8_low r b (behind gs ss c) = behind gs ss (set_register8_low r b c)"
    "set_simd_register r q (behind gs ss c) = behind gs ss (set_simd_register r q c)"
  using assms
  by (simp_all add: sixteen_def behind_def get_register64_def get_register32_def get_register8_low_def get_simd_register_def
      set_register64_def set_register32_def set_register8_low_def set_simd_register_def nth_append list_update_append)

lemma sixteen_simps [simp]:
  "sixteen (set_fault i c) = sixteen c" "sixteen (set_fault_opcode opc c) = sixteen c"
  "sixteen (set_invalid_memory_access a opc c) = sixteen c" "sixteen (set_unsupported_instruction opc c) = sixteen c"
  "sixteen (set_thread_exited c) = sixteen c" "sixteen (set_yielded c) = sixteen c" "sixteen (complete_invalid_memory c) = sixteen c"
  "sixteen (set_backend_failure f c) = sixteen c" "sixteen (retire c) = sixteen c" "sixteen (initialize_result c) = sixteen c"
  "sixteen (set_instruction_pointer ip c) = sixteen c" "sixteen (set_flags fl c) = sixteen c"
  "sixteen (set_register64 r v c) = sixteen c" "sixteen (set_register32 r w c) = sixteen c"
  "sixteen (set_register8_low r b c) = sixteen c" "sixteen (set_simd_register r q c) = sixteen c"
  "sixteen (set_logic_flags v wide c) = sixteen c" "sixteen (set_compare_flags l r' v wide c) = sixteen c"
  "sixteen (set_add_flags l r' v wide c) = sixteen c" "sixteen (set_inc_dec_flags l v dec wide c) = sixteen c"
  "sixteen (c\<lparr>x_host := m\<rparr>) = sixteen c" "sixteen (c\<lparr>x_env := k\<rparr>) = sixteen c"
  by (simp_all add: sixteen_def context_op_defs set_backend_failure_def retire_def initialize_result_def set_register32_def
      set_register8_low_def set_logic_flags_def set_compare_flags_def set_add_flags_def set_inc_dec_flags_def Let_def)

section \<open>Rules\<close>

lemma agree_pair [agree_intros]: "sixteen c \<Longrightarrow> v = w \<Longrightarrow> d = behind gs ss c \<Longrightarrow> agree gs ss (v, c) (w, d)"
  by (simp add: agree_def)

lemma agree_attempt [agree_intros]:
  assumes "agree gs ss (m c) (m' d)" and "\<And>c. sixteen c \<Longrightarrow> agree gs ss (bad c) (bad' (behind gs ss c))"
    and "\<And>v c'. sixteen c' \<Longrightarrow> m c = (Some v, c') \<Longrightarrow> agree gs ss (good v c') (good' v (behind gs ss c'))"
  shows "agree gs ss (attempt m bad good c) (attempt m' bad' good' d)"
proof (cases "m c")
  case (Pair r c')
  then have "m' d = (r, behind gs ss c')" "sixteen c'" using assms(1) by (simp_all add: agree_def)
  then show ?thesis using assms(2)[of c'] assms(3)[of c'] Pair by (auto simp: attempt_def split: option.split)
qed

lemma agree_control [agree_intros]:
  "(b \<Longrightarrow> agree gs ss f f') \<Longrightarrow> (\<not> b \<Longrightarrow> agree gs ss g g') \<Longrightarrow> agree gs ss (if b then f else g) (if b then f' else g')"
  "(b \<Longrightarrow> agree gs ss (h c) (h' d)) \<Longrightarrow> (\<not> b \<Longrightarrow> agree gs ss (k c) (k' d)) \<Longrightarrow>
    agree gs ss ((if b then h else k) c) ((if b then h' else k') d)"
  by simp_all

lemma agree_table:
  "(b \<Longrightarrow> agree gs ss (h i c) (h' i d)) \<Longrightarrow> (\<not> b \<Longrightarrow> agree gs ss (k i c) (k' i d)) \<Longrightarrow>
    agree gs ss ((if b then h else k) i c) ((if b then h' else k') i d)"
  by simp

lemma agree_case [agree_intros]:
  "(\<And>x y. p = (x, y) \<Longrightarrow> agree gs ss (g x y c) (g' x y d)) \<Longrightarrow> agree gs ss ((case p of (x, y) \<Rightarrow> g x y) c) ((case p of (x, y) \<Rightarrow> g' x y) d)"
  by (cases p) simp

lemma agree_ends [agree_intros]:
  assumes "sixteen c" and "d = behind gs ss c"
  shows "agree gs ss (fails c) (fails d)" "agree gs ss (stop_unsupported opc c) (stop_unsupported opc d)"
    "agree gs ss (fail_invalid_memory c) (fail_invalid_memory d)" "agree gs ss (continue_at ip c) (continue_at ip d)"
    "agree gs ss (fails_invalid_memory c) (fails_invalid_memory d)" "agree gs ss (operand_failure opc c) (operand_failure opc d)"
  using assms
  by (simp_all add: agree_def fails_def fails_invalid_memory_def stop_unsupported_def fail_invalid_memory_def continue_at_def
      operand_failure_def behind_simps)

section \<open>Memory, stack and operands\<close>

lemma agree_translate [agree_intros]:
  "sixteen c \<Longrightarrow> d = behind gs ss c \<Longrightarrow> agree gs ss (translate_guest_pointer a n c) (translate_guest_pointer a n d)"
  by (auto simp: agree_def translate_guest_pointer_def Let_def behind_simps)

lemma agree_reads [agree_intros]:
  assumes "sixteen c" and "d = behind gs ss c" and "a = b"
  shows "agree gs ss (read_u8 a c) (read_u8 b d)" "agree gs ss (read_i8 a c) (read_i8 b d)"
    "agree gs ss (read_u32 a c) (read_u32 b d)" "agree gs ss (read_i32 a c) (read_i32 b d)"
    "agree gs ss (read_u64 a c) (read_u64 b d)" "agree gs ss (read_u128 a c) (read_u128 b d)"
  unfolding read_u8_def read_u32_def read_u64_def read_u128_def read_i8_def read_i32_def assms(3)
  by (intro agree_intros assms(1,2); simp add: behind_simps)+

lemma agree_writes [agree_intros]:
  assumes "sixteen c" and "d = behind gs ss c" and "a = b"
  shows "v = w \<Longrightarrow> agree gs ss (write_u8 a v c) (write_u8 b w d)" "x = y \<Longrightarrow> agree gs ss (write_u32 a x c) (write_u32 b y d)"
    "p = q \<Longrightarrow> agree gs ss (write_u64 a p c) (write_u64 b q d)" "r = s \<Longrightarrow> agree gs ss (write_u128 a r c) (write_u128 b s d)"
  unfolding write_u8_def write_u32_def write_u64_def write_u128_def write_bytes_def assms(3)
  by (simp only:, intro agree_intros assms(1,2); simp add: behind_simps)+

lemmas file_numbers = X64_GENERAL_REGISTER_RSP_def X64_GENERAL_REGISTER_RAX_def

lemma agree_stack [agree_intros]:
  assumes "sixteen c" and "d = behind gs ss c"
  shows "v = w \<Longrightarrow> agree gs ss (push_u64 v c) (push_u64 w d)" "agree gs ss (pop_u64 c) (pop_u64 d)"
  unfolding push_u64_def pop_u64_def Let_def assms(2)
  using assms(1) by (auto intro!: agree_intros simp: behind_simps file_numbers)

lemma agree_sib_index:
  "sixteen c \<Longrightarrow> sib_index_value i sib (behind gs ss c) = sib_index_value i sib c"
  by (simp add: sib_index_value_def behind_simps modrm_index_bound)

lemmas bounded_simps = behind_simps agree_sib_index modrm_index_bound extended_index_bound file_numbers

lemma agree_sib [agree_intros]:
  assumes "sixteen c" and "d = behind gs ss c"
  shows "agree gs ss (try_read_sib_operand_address i a m c) (try_read_sib_operand_address i a m d)"
    "agree gs ss (try_read_sib_address i a m c) (try_read_sib_address i a m d)"
  unfolding try_read_sib_operand_address_def try_read_sib_address_def Let_def assms(2)
  by (intro agree_intros assms(1) refl; (assumption | simp add: bounded_simps assms(1)))+

lemma agree_operands [agree_intros]:
  assumes "sixteen c" and "d = behind gs ss c"
  shows "agree gs ss (try_decode_rm_operand i a c) (try_decode_rm_operand i a d)"
    "agree gs ss (try_get_memory_operand_address i a m c) (try_get_memory_operand_address i a m d)"
    "agree gs ss (try_decode_modrm_operand i a c) (try_decode_modrm_operand i a d)"
    "agree gs ss (skip_displacement m a c) (skip_displacement m a d)"
  unfolding try_decode_rm_operand_def try_get_memory_operand_address_def try_decode_modrm_operand_def
    skip_displacement_def Let_def assms(2)
  by (intro agree_intros assms(1) refl; (assumption | simp add: bounded_simps assms(1)))+

lemma agree_skip_operand [agree_intros]:
  assumes "sixteen c" and "d = behind gs ss c"
  shows "agree gs ss (try_skip_modrm_operand i a c) (try_skip_modrm_operand i a d)"
  unfolding try_skip_modrm_operand_def Let_def assms(2)
  by (intro agree_intros assms(1) refl; (assumption | simp add: bounded_simps))

text \<open>What a decoded operand says about its register numbers.\<close>

lemma decoded_rm_bound:
  "try_decode_rm_operand i a c = (Some operand, c') \<Longrightarrow> o_rm_index operand < 16"
  by (auto simp: try_decode_rm_operand_def attempt_def fails_def Let_def modrm_index_bound
      extended_index_bound[of 4, simplified] extended_index_bound[of 5, simplified]
      split: prod.splits option.splits if_splits)

lemma agree_rm [agree_intros]:
  assumes "sixteen c" and "d = behind gs ss c" and "o_rm_index opd < 16"
  shows "agree gs ss (read_rm64 opd c) (read_rm64 opd d)" "agree gs ss (read_rm32 opd c) (read_rm32 opd d)"
    "agree gs ss (write_rm64 opd v c) (write_rm64 opd v d)" "agree gs ss (write_rm32 opd w c) (write_rm32 opd w d)"
  unfolding read_rm64_def read_rm32_def write_rm64_def write_rm32_def assms(2)
  by (intro agree_intros assms(1) refl; simp add: bounded_simps assms)+

lemma agree_simd_reads [agree_intros]:
  assumes "sixteen c" and "d = behind gs ss c" and "s_rm_index opd < 16"
  shows "agree gs ss (try_read_simd_operand opd c) (try_read_simd_operand opd d)"
    "agree gs ss (try_read_rm32_operand opd c) (try_read_rm32_operand opd d)"
  unfolding try_read_simd_operand_def try_read_rm32_operand_def assms(2)
  by (intro agree_intros assms(1) refl; simp add: bounded_simps assms)+

section \<open>Handlers\<close>

lemma agree_arithmetic [agree_intros]:
  assumes "sixteen c" and "d = behind gs ss c" and "o_rm_index opd < 16"
  shows "agree gs ss (execute_arithmetic64 i opd v n c) (execute_arithmetic64 i opd v n d)"
    "agree gs ss (execute_arithmetic32 i opd w n c) (execute_arithmetic32 i opd w n d)"
  unfolding execute_arithmetic64_def execute_arithmetic32_def Let_def assms(2)
  by (intro agree_intros assms(1,3) refl; (assumption | simp add: bounded_simps))+

lemma agree_byte_operand [agree_intros]:
  assumes "sixteen c" and "d = behind gs ss c"
    and "\<And>v n c. sixteen c \<Longrightarrow> agree gs ss (k v n c) (k' v n (behind gs ss c))"
  shows "agree gs ss (read_byte_operand i a m opc k c) (read_byte_operand i a m opc k' d)"
  unfolding read_byte_operand_def assms(2)
  by (auto intro!: agree_intros assms(1) simp: bounded_simps assms(1) intro: assms(3))

lemma agree_call_target [agree_intros]:
  "sixteen c \<Longrightarrow> d = behind gs ss c \<Longrightarrow> t = u \<Longrightarrow> agree gs ss (call_target t a c) (call_target u a d)"
  unfolding call_target_def by (simp only:) (intro agree_intros refl; assumption)

lemma agree_reject [agree_intros]:
  "sixteen c \<Longrightarrow> d = behind gs ss c \<Longrightarrow> agree gs ss (k c) (k' d) \<Longrightarrow> agree gs ss (reject_rex_w i k c) (reject_rex_w i k' d)"
  unfolding reject_rex_w_def by (auto intro!: agree_intros)

lemma continue_behind [behind_simps]: "continue_at ip (behind gs ss c) = map_prod id (behind gs ss) (continue_at ip c)"
  by (simp add: continue_at_def behind_simps)

text \<open>The last step of most handlers.\<close>

lemma agree_continue [agree_intros]:
  "sixteen c \<Longrightarrow> d = behind gs ss c \<Longrightarrow> ip = jp \<Longrightarrow> agree gs ss (continue_at ip c) (continue_at jp d)"
  by (simp add: agree_ends)

lemma alu_agree:
  assumes "sixteen c"
  shows "agree gs ss (execute_x64_xor_register i c) (execute_x64_xor_register i (behind gs ss c))"
    "agree gs ss (execute_x64_or_register_byte i c) (execute_x64_or_register_byte i (behind gs ss c))"
    "agree gs ss (execute_x64_or_rm_to_register i c) (execute_x64_or_rm_to_register i (behind gs ss c))"
    "agree gs ss (execute_x64_test_register i c) (execute_x64_test_register i (behind gs ss c))"
    "agree gs ss (execute_x64_test_accumulator_immediate i c) (execute_x64_test_accumulator_immediate i (behind gs ss c))"
    "agree gs ss (execute_x64_group_f6 i c) (execute_x64_group_f6 i (behind gs ss c))"
    "agree gs ss (execute_x64_group_f7 i c) (execute_x64_group_f7 i (behind gs ss c))"
    "agree gs ss (execute_x64_group83 i c) (execute_x64_group83 i (behind gs ss c))"
    "agree gs ss (execute_x64_compare_rm_with_register i c) (execute_x64_compare_rm_with_register i (behind gs ss c))"
    "agree gs ss (execute_x64_group81 i c) (execute_x64_group81 i (behind gs ss c))"
  unfolding execute_x64_xor_register_def execute_x64_or_register_byte_def execute_x64_or_rm_to_register_def
    execute_x64_test_register_def execute_x64_test_accumulator_immediate_def execute_x64_group_f6_def
    execute_x64_group_f7_def execute_x64_group83_def execute_x64_compare_rm_with_register_def
    execute_x64_group81_def Let_def
  by (intro agree_intros assms refl; (assumption | simp add: bounded_simps assms decoded_rm_bound))+

lemma data_movement_agree:
  assumes "sixteen c"
  shows "agree gs ss (execute_x64_mov_immediate_to_rm i c) (execute_x64_mov_immediate_to_rm i (behind gs ss c))"
    "agree gs ss (execute_x64_mov_register i c) (execute_x64_mov_register i (behind gs ss c))"
    "agree gs ss (execute_x64_lea i c) (execute_x64_lea i (behind gs ss c))"
    "agree gs ss (execute_x64_group80 i c) (execute_x64_group80 i (behind gs ss c))"
    "agree gs ss (execute_x64_secondary_setcc i c) (execute_x64_secondary_setcc i (behind gs ss c))"
    "agree gs ss (execute_x64_secondary_movzx_byte i c) (execute_x64_secondary_movzx_byte i (behind gs ss c))"
    "agree gs ss (execute_x64_nop i c) (execute_x64_nop i (behind gs ss c))"
  unfolding execute_x64_mov_immediate_to_rm_def execute_x64_mov_register_def
    execute_x64_lea_def execute_x64_group80_def execute_x64_secondary_setcc_def
    execute_x64_secondary_movzx_byte_def execute_x64_nop_def Let_def
  by (intro agree_intros assms refl; (assumption | simp add: bounded_simps assms decoded_rm_bound))+

text \<open>A push, a pop and a move of an immediate take the register from the opcode, which the opcode table bounds.\<close>

lemma opcode_index_bound:
  assumes "lo \<le> opc" and "unat opc \<le> unat lo + 7"
  shows "unat (opc - lo) + (if rex then 8 else 0) < (16 :: nat)"
proof -
  have "unat (opc - lo) \<le> 7" using assms by (simp add: word_le_nat_alt unat_sub)
  then show ?thesis by simp
qed

lemma opcode_register_agree:
  assumes "sixteen c"
  shows "0x50 \<le> i_opcode i \<Longrightarrow> i_opcode i \<le> 0x57 \<Longrightarrow> agree gs ss (execute_x64_push_register i c) (execute_x64_push_register i (behind gs ss c))"
    "0x58 \<le> i_opcode i \<Longrightarrow> i_opcode i \<le> 0x5F \<Longrightarrow> agree gs ss (execute_x64_pop_register i c) (execute_x64_pop_register i (behind gs ss c))"
    "0xB8 \<le> i_opcode i \<Longrightarrow> i_opcode i \<le> 0xBF \<Longrightarrow> agree gs ss (execute_x64_mov_immediate32 i c) (execute_x64_mov_immediate32 i (behind gs ss c))"
proof -
  note le = word_le_nat_alt[where 'a = 8]
  show "agree gs ss (execute_x64_push_register i c) (execute_x64_push_register i (behind gs ss c))"
    if "0x50 \<le> i_opcode i" "i_opcode i \<le> 0x57"
  proof -
    have "unat (i_opcode i - 0x50) + (if rex_b i then 8 else 0) < 16" using that by (intro opcode_index_bound) (simp_all add: le)
    then show ?thesis
      unfolding execute_x64_push_register_def Let_def
      by (intro agree_intros assms refl; simp only: behind_register_ops assms)
  qed
  show "agree gs ss (execute_x64_pop_register i c) (execute_x64_pop_register i (behind gs ss c))"
    if "0x58 \<le> i_opcode i" "i_opcode i \<le> 0x5F"
  proof -
    have "unat (i_opcode i - 0x58) + (if rex_b i then 8 else 0) < 16" using that by (intro opcode_index_bound) (simp_all add: le)
    then show ?thesis
      unfolding execute_x64_pop_register_def Let_def
      by (intro agree_intros assms refl; simp only: behind_register_ops sixteen_simps)
  qed
  show "agree gs ss (execute_x64_mov_immediate32 i c) (execute_x64_mov_immediate32 i (behind gs ss c))"
    if "0xB8 \<le> i_opcode i" "i_opcode i \<le> 0xBF"
  proof -
    have "unat (i_opcode i - 0xB8) + (if rex_b i then 8 else 0) < 16" using that by (intro opcode_index_bound) (simp_all add: le)
    then show ?thesis
      unfolding execute_x64_mov_immediate32_def Let_def
      by (intro agree_intros assms refl; simp only: behind_register_ops sixteen_simps)
  qed
qed

lemma control_flow_agree:
  assumes "sixteen c"
  shows "agree gs ss (execute_x64_return i c) (execute_x64_return i (behind gs ss c))"
    "agree gs ss (execute_x64_call_relative i c) (execute_x64_call_relative i (behind gs ss c))"
    "agree gs ss (execute_x64_group_ff i c) (execute_x64_group_ff i (behind gs ss c))"
    "agree gs ss (execute_x64_jump_relative_near i c) (execute_x64_jump_relative_near i (behind gs ss c))"
    "agree gs ss (execute_x64_jump_relative_short i c) (execute_x64_jump_relative_short i (behind gs ss c))"
    "agree gs ss (execute_x64_jump_short_condition i c) (execute_x64_jump_short_condition i (behind gs ss c))"
    "agree gs ss (execute_x64_jump_near_condition i c) (execute_x64_jump_near_condition i (behind gs ss c))"
    "agree gs ss (execute_x64_unsupported i c) (execute_x64_unsupported i (behind gs ss c))"
    "agree gs ss (execute_x64_secondary_nop i c) (execute_x64_secondary_nop i (behind gs ss c))"
  unfolding execute_x64_return_def execute_x64_call_relative_def execute_x64_group_ff_def execute_x64_jump_relative_near_def
    execute_x64_jump_relative_short_def execute_x64_jump_short_condition_def
    execute_x64_jump_near_condition_def execute_x64_unsupported_def execute_x64_secondary_nop_def Let_def
  by (intro agree_intros assms refl; (assumption | simp add: bounded_simps assms))+

lemma simd_agree:
  assumes "sixteen c"
  shows "agree gs ss (execute_x64_secondary_mov_xmm i c) (execute_x64_secondary_mov_xmm i (behind gs ss c))"
    "agree gs ss (execute_x64_secondary_store_xmm i c) (execute_x64_secondary_store_xmm i (behind gs ss c))"
    "agree gs ss (execute_x64_secondary_xorps i c) (execute_x64_secondary_xorps i (behind gs ss c))"
    "agree gs ss (execute_x64_secondary_movd i c) (execute_x64_secondary_movd i (behind gs ss c))"
    "agree gs ss (execute_x64_secondary_punpcklbw i c) (execute_x64_secondary_punpcklbw i (behind gs ss c))"
    "agree gs ss (execute_x64_secondary_shuffle i c) (execute_x64_secondary_shuffle i (behind gs ss c))"
    "agree gs ss (execute_x64_secondary_movq_store i c) (execute_x64_secondary_movq_store i (behind gs ss c))"
  unfolding execute_x64_secondary_mov_xmm_def execute_x64_secondary_store_xmm_def execute_x64_secondary_xorps_def
    execute_x64_secondary_movd_def execute_x64_secondary_punpcklbw_def execute_x64_secondary_shuffle_def
    execute_x64_secondary_movq_store_def Let_def
  by (intro agree_intros assms refl; (assumption | simp add: bounded_simps assms decoded_modrm_bounds))+

section \<open>Runs\<close>

text \<open>What the callback must not do: look at what lies behind the registers of the state it is given.\<close>

definition callback_in_file :: "'k x64_execution_context \<Rightarrow> bool" where
  "callback_in_file c \<longleftrightarrow> (\<forall>h env m s gs ss. x_handle_syscall c = Some h \<longrightarrow>
     length (general_registers s) = 16 \<longrightarrow> length (simd_registers s) = 16 \<longrightarrow>
     h env m (s\<lparr>general_registers := general_registers s @ gs, simd_registers := simd_registers s @ ss\<rparr>) = h env m s)"

lemma callback_in_file_cong: "x_handle_syscall c' = x_handle_syscall c \<Longrightarrow> callback_in_file c' = callback_in_file c"
  by (simp add: callback_in_file_def)

lemma syscall_agree:
  assumes "sixteen c" and "callback_in_file c"
  shows "agree gs ss (execute_x64_syscall i c) (execute_x64_syscall i (behind gs ss c))"
proof -
  let ?c = "set_instruction_pointer (i_next_address i + 1) c"
  have s: "sixteen ?c" using assms(1) by simp
  have f: "callback_in_file ?c" using assms(2) by (simp add: callback_in_file_def set_instruction_pointer_def)
  have st: "x_state (behind gs ss ?c) = (x_state ?c)\<lparr>general_registers := general_registers (x_state ?c) @ gs,
      simd_registers := simd_registers (x_state ?c) @ ss\<rparr>" by (simp add: behind_def)
  have call: "h env m (x_state (behind gs ss ?c)) = h env m (x_state ?c)" if "x_handle_syscall ?c = Some h" for h env m
    unfolding st using f[unfolded callback_in_file_def] that s[unfolded sixteen_def] by blast
  have a: "agree gs ss (call_handle_syscall ?c) (call_handle_syscall (behind gs ss ?c))"
  proof (cases "x_handle_syscall ?c")
    case None
    then show ?thesis using s by (simp add: call_handle_syscall_def agree_def behind_simps)
  next
    case (Some h)
    then show ?thesis using call[OF Some, of "x_env ?c" "x_host ?c"] s
      by (cases "h (x_env ?c) (x_host ?c) (x_state ?c)") (simp add: call_handle_syscall_def agree_def behind_simps)
  qed
  obtain r c1 where r: "call_handle_syscall ?c = (r, c1)" by fastforce
  have "call_handle_syscall (set_instruction_pointer (i_next_address i + 1) (behind gs ss c)) = (r, behind gs ss c1)" "sixteen c1"
    using a by (simp_all add: agree_def r behind_simps)
  then show ?thesis
    by (cases "sr_action r") (simp_all add: execute_x64_syscall_def r Let_def agree_def bounded_simps)
qed

lemma dispatch_agree:
  assumes "sixteen c" and "callback_in_file c"
  shows "agree gs ss (x64_dispatch i c) (x64_dispatch i (behind gs ss c))"
proof -
  let ?c = "set_fault i c"
  have s: "sixteen ?c" using assms(1) by simp
  have primary: "agree gs ss (primary_opcode_handler (i_opcode i) i ?c) (primary_opcode_handler (i_opcode i) i (behind gs ss ?c))"
    unfolding primary_opcode_handler_def
    by (intro agree_table alu_agree data_movement_agree control_flow_agree opcode_register_agree s) simp_all
  have secondary: "agree gs ss (secondary_opcode_handler opc i d) (secondary_opcode_handler opc i (behind gs ss d))"
    if "sixteen d" "callback_in_file d" for opc d
    unfolding secondary_opcode_handler_def
    by (intro agree_table simd_agree data_movement_agree control_flow_agree syscall_agree that)
  have "agree gs ss (dispatch_secondary_opcode i ?c) (dispatch_secondary_opcode i (behind gs ss ?c))"
  proof -
    obtain r c' where r: "read_u8 (i_next_address i) ?c = (r, c')" by fastforce
    have b: "read_u8 (i_next_address i) (behind gs ss ?c) = (r, behind gs ss c')" "sixteen c'"
      using agree_reads(1)[OF s refl refl, of gs ss "i_next_address i"] by (simp_all add: agree_def r)
    have "same_invocation ?c c'" using invocation.memory_steps(2)[of ?c "i_next_address i"] by (simp add: r)
    then have "x_handle_syscall (set_fault_opcode opc c') = x_handle_syscall c" for opc
      by (simp add: same_invocation_def set_fault_opcode_def set_fault_def)
    then have f: "callback_in_file (set_fault_opcode opc c')" for opc using assms(2) callback_in_file_cong by blast
    show ?thesis
      using secondary[OF _ f] b agree_ends(2)[OF s refl, of gs ss "i_opcode i"]
      by (cases r) (simp_all add: dispatch_secondary_opcode_def r agree_def behind_simps)
  qed
  with primary show ?thesis by (simp add: x64_dispatch_def behind_simps)
qed

lemma prefixes_agree:
  "sixteen c \<Longrightarrow> agree gs ss (decode_prefixes i c) (decode_prefixes i (behind gs ss c))"
proof (induction i c rule: decode_prefixes.induct)
  case (1 i c)
  show ?case
  proof (cases "apply_prefix i")
    case None
    then show ?thesis using 1(2) by (simp add: decode_prefixes.simps agree_def)
  next
    case (Some j)
    let ?a = "i_opcode_address j + 1"
    obtain r c' where r: "read_u8 ?a c = (r, c')" by fastforce
    have b: "read_u8 ?a (behind gs ss c) = (r, behind gs ss c')" "sixteen c'"
      using agree_reads(1)[OF 1(2) refl refl, of gs ss ?a] by (simp_all add: agree_def r)
    show ?thesis
    proof (cases r)
      case None
      then show ?thesis using Some r b by (simp add: decode_prefixes.simps[of i] agree_def behind_simps)
    next
      case (Some opc)
      from 1(1)[OF \<open>apply_prefix i = Some j\<close> r[symmetric] Some b(2)] show ?thesis
        using \<open>apply_prefix i = Some j\<close> r b Some by (simp add: decode_prefixes.simps[of i])
    qed
  qed
qed

lemma decode_agree:
  assumes "sixteen c"
  shows "agree gs ss (decode_x64_instruction c) (decode_x64_instruction (behind gs ss c))"
proof -
  let ?a = "e_instruction_pointer (x_state c)"
  obtain r c' where r: "read_u8 ?a c = (r, c')" by fastforce
  have b: "read_u8 ?a (behind gs ss c) = (r, behind gs ss c')" "sixteen c'"
    using agree_reads(1)[OF assms refl refl, of gs ss ?a] by (simp_all add: agree_def r)
  show ?thesis
    using prefixes_agree[OF b(2)] r b
    by (cases r) (simp_all add: decode_x64_instruction_def Let_def behind_simps, simp add: agree_def)
qed

lemma step_agree:
  assumes "sixteen c" and "callback_in_file c"
  shows "agree gs ss (interpreter_step c) (interpreter_step (behind gs ss c))"
proof -
  obtain r c1 where r: "decode_x64_instruction c = (r, c1)" by fastforce
  have b: "decode_x64_instruction (behind gs ss c) = (r, behind gs ss c1)" "sixteen c1"
    using decode_agree[OF assms(1), of gs ss] by (simp_all add: agree_def r)
  have "x_handle_syscall c1 = x_handle_syscall c"
    using invocation.decode_step[of c] by (simp add: r same_invocation_def)
  then have f: "callback_in_file c1" using assms(2) callback_in_file_cong by blast
  show ?thesis
  proof (cases r)
    case None
    then show ?thesis using b by (simp add: interpreter_step_def r agree_def)
  next
    case (Some i)
    obtain out c2 where d: "x64_dispatch i c1 = (out, c2)" by fastforce
    show ?thesis
      using dispatch_agree[OF b(2) f, of gs ss i] b Some d by (auto simp: interpreter_step_def r agree_def behind_simps)
  qed
qed

lemma loop_agree:
  "sixteen c \<Longrightarrow> callback_in_file c \<Longrightarrow>
    interpreter_loop (behind gs ss c) = behind gs ss (interpreter_loop c)"
proof (induction c rule: interpreter_loop.induct)
  case (1 c)
  obtain b c' where s: "interpreter_step c = (b, c')" by fastforce
  have t: "interpreter_step (behind gs ss c) = (b, behind gs ss c')" "sixteen c'"
    using step_agree[OF 1(2,3), of gs ss] by (simp_all add: agree_def s)
  have f: "callback_in_file c'" using 1(3) callback_in_file_cong interpreter_step_invocation(2)[OF s] by blast
  show ?case
    using 1(1)[OF _ s[symmetric] _ t(2) f] t s
    by (simp add: interpreter_loop.simps[of "behind gs ss c"] interpreter_loop.simps[of c] behind_simps)
qed

text \<open>The callback of the arm64 kernel stays in the arrays too.\<close>

lemma kernel_callback_in_file: "x_handle_syscall c = Some dispatch_x64_syscall \<Longrightarrow> callback_in_file c"
proof -
  have "emulated_syscall_context (s\<lparr>general_registers := general_registers s @ gs, simd_registers := simd_registers s @ ss\<rparr>) =
      emulated_syscall_context s"
    and "store_x64_emulator_preserved_state (s\<lparr>general_registers := general_registers s @ gs, simd_registers := simd_registers s @ ss\<rparr>) th =
      store_x64_emulator_preserved_state s th"
    if "length (general_registers s) = 16" "length (simd_registers s) = 16" for s gs ss th
    using that
    by (simp_all add: emulated_syscall_context_def store_x64_emulator_preserved_state_def simd_to_qwords_def register_numbers
        nth_append Let_def)
  then show "x_handle_syscall c = Some dispatch_x64_syscall \<Longrightarrow> callback_in_file c"
    by (simp add: callback_in_file_def dispatch_x64_syscall_def cong: option.case_cong) presburger
qed

section \<open>Properties\<close>

text \<open>
  C29. The emulator never accesses a register out of bounds. Let any words \<open>gs\<close> lie behind the sixteen general registers and
  any 16-byte blocks \<open>ss\<close> behind the sixteen SIMD registers. Then a run with them is the run without them, in its
  return value, registers, flags, result, host memory and callback state, and leaves them as they are: no
  instruction, prefix or operand form reads or writes a register number of 16 or more. Every SIMD register
  still has its sixteen bytes. The one hypothesis on the callback is that it reads no further than the arrays either;
  the kernel's own callback does not.
\<close>

theorem emulator_stays_in_register_file:
  assumes "wf_state (x_state c)" and "callback_in_file c"
  shows "run_x64_emulator out (behind gs ss c) = map_prod id (behind gs ss) (run_x64_emulator out c) \<and>
    wf_state (x_state (snd (run_x64_emulator out c)))"
proof -
  have s: "sixteen (initialize_result c)" using assms(1) by (simp add: sixteen_def[of c] wf_state_def)
  have f: "callback_in_file (initialize_result c)" using assms(2) by (simp add: callback_in_file_def frame_simps)
  have "initialize_backend_failure_result (x_state (behind gs ss c)) failure = initialize_backend_failure_result (x_state c) failure"
    for failure by (simp add: initialize_backend_failure_result_def behind_simps)
  moreover have "(behind gs ss c)\<lparr>x_result := r\<rparr> = behind gs ss (c\<lparr>x_result := r\<rparr>)" for r by (simp add: behind_def)
  ultimately have "run_x64_emulator out (behind gs ss c) = map_prod id (behind gs ss) (run_x64_emulator out c)"
    using loop_agree[OF s(1) f, of gs ss] by (simp add: run_x64_emulator_def x64_interpreter_run_def Let_def behind_simps)
  then show ?thesis using run_keeps_shape[OF assms(1)] by (metis prod.collapse)
qed

theorem emulator_stays_in_register_file_witness:
  "\<exists>c'. run_x64_emulator True (behind [1, 2] [replicate 16 3] example_context) = (True, c') \<and>
     drop 16 (general_registers (x_state c')) = [1, 2] \<and> drop 16 (simd_registers (x_state c')) = [replicate 16 3] \<and>
     completion (x_result c') = X64_EMULATOR_COMPLETION_THREAD_EXITED"
proof -
  have wf: "wf_state (x_state example_context)" by (simp add: wf_state_def example_context_def)
  have f: "callback_in_file example_context"
    by (simp add: callback_in_file_def example_context_def example_handler_def)
  obtain ok c' where r: "run_x64_emulator True example_context = (ok, c')" by fastforce
  note B = emulator_stays_in_register_file[OF wf f, of True "[1, 2]" "[replicate 16 3]", unfolded r]
  then have "length (general_registers (x_state c')) = 16" "length (simd_registers (x_state c')) = 16"
    by (simp_all add: wf_state_def)
  moreover have "fst (run_x64_emulator True example_context)"
    by (simp add: run_x64_emulator_def x64_interpreter_run_def Let_def)
  moreover have "completion (x_result c') = X64_EMULATOR_COMPLETION_THREAD_EXITED" using example_run by (simp add: r Let_def)
  ultimately show ?thesis using B by (simp add: r behind_def)
qed

end
