(* ===== verification/Pe_Image.thy ===== *)
theory Pe_Image
  imports Host_Memory
begin

text \<open>
  The PE32+ loader of \<open>win32/pe_image.cpp\<close> that places the first user programs in their regions. The
  image and the region are host memory named by pointers, as in the code; the packed header structs
  of \<open>win32/include/pe_image.h\<close> are read from the bytes at their offsets. The result object the
  caller passes is a local of the caller and never null, so it is a value here.
\<close>

section \<open>Headers\<close>

type_synonym u16 = "16 word"

definition PE_DOS_SIGNATURE :: u16 where "PE_DOS_SIGNATURE = 0x5A4D"
definition PE_NT_SIGNATURE :: u32 where "PE_NT_SIGNATURE = 0x00004550"
definition PE_MACHINE_ARM64 :: u16 where "PE_MACHINE_ARM64 = 0xAA64"
definition PE_MACHINE_X64 :: u16 where "PE_MACHINE_X64 = 0x8664"
definition PE32_PLUS_MAGIC :: u16 where "PE32_PLUS_MAGIC = 0x20B"
definition PE_IMPORT_DIRECTORY_INDEX :: u32 where "PE_IMPORT_DIRECTORY_INDEX = 1"
definition PE_BASE_RELOCATION_DIRECTORY_INDEX :: u32 where "PE_BASE_RELOCATION_DIRECTORY_INDEX = 5"

record pe_dos_header =
  e_magic :: u16
  e_lfanew :: i32

record pe_file_header =
  machine :: u16
  number_of_sections :: u16
  size_of_optional_header :: u16

record pe_data_directory =
  dir_virtual_address :: u32
  dir_size :: u32

text \<open>The fields the loader reads.\<close>

record pe_optional_header64 =
  magic :: u16
  address_of_entry_point :: u32
  image_base :: u64
  section_alignment :: u32
  file_alignment :: u32
  size_of_image :: u32
  size_of_headers :: u32
  number_of_rva_and_sizes :: u32
  data_directories :: "pe_data_directory list"

record pe_nt_headers64 =
  nt_signature :: u32
  file_header :: pe_file_header
  optional_header :: pe_optional_header64

record pe_section_header =
  virtual_size :: u32
  virtual_address :: u32
  size_of_raw_data :: u32
  pointer_to_raw_data :: u32

text \<open>A scalar of \<open>n\<close> bytes at an offset of a packed struct.\<close>

definition field :: "u8 list \<Rightarrow> nat \<Rightarrow> nat \<Rightarrow> u64" where
  "field bs off n = le_word (take n (drop off bs))"

definition read_dos_header :: "u8 list \<Rightarrow> pe_dos_header" where
  "read_dos_header bs = \<lparr>e_magic = ucast (field bs 0 2), e_lfanew = ucast (field bs 60 4)\<rparr>"

definition read_data_directory :: "u8 list \<Rightarrow> nat \<Rightarrow> pe_data_directory" where
  "read_data_directory bs off = \<lparr>dir_virtual_address = ucast (field bs off 4), dir_size = ucast (field bs (off + 4) 4)\<rparr>"

definition read_nt_headers :: "u8 list \<Rightarrow> pe_nt_headers64" where
  "read_nt_headers bs =
     \<lparr>nt_signature = ucast (field bs 0 4),
      file_header = \<lparr>machine = ucast (field bs 4 2), number_of_sections = ucast (field bs 6 2),
        size_of_optional_header = ucast (field bs 20 2)\<rparr>,
      optional_header = \<lparr>magic = ucast (field bs 24 2), address_of_entry_point = ucast (field bs 40 4),
        image_base = field bs 48 8, section_alignment = ucast (field bs 56 4), file_alignment = ucast (field bs 60 4),
        size_of_image = ucast (field bs 80 4), size_of_headers = ucast (field bs 84 4),
        number_of_rva_and_sizes = ucast (field bs 132 4),
        data_directories = map (\<lambda>k. read_data_directory bs (136 + 8 * k)) [0..<16]\<rparr>\<rparr>"

definition read_section_header :: "u8 list \<Rightarrow> pe_section_header" where
  "read_section_header bs = \<lparr>virtual_size = ucast (field bs 8 4), virtual_address = ucast (field bs 12 4),
     size_of_raw_data = ucast (field bs 16 4), pointer_to_raw_data = ucast (field bs 20 4)\<rparr>"

definition SIZEOF_DOS_HEADER :: nat where "SIZEOF_DOS_HEADER = 64"
definition SIZEOF_FILE_HEADER :: nat where "SIZEOF_FILE_HEADER = 20"
definition SIZEOF_OPTIONAL_HEADER :: nat where "SIZEOF_OPTIONAL_HEADER = 240"
definition SIZEOF_NT_HEADERS :: nat where "SIZEOF_NT_HEADERS = 4 + SIZEOF_FILE_HEADER + SIZEOF_OPTIONAL_HEADER"
definition SIZEOF_SECTION_HEADER :: nat where "SIZEOF_SECTION_HEADER = 40"

datatype pe_image_load_status =
    PE_IMAGE_LOAD_STATUS_OK
  | PE_IMAGE_LOAD_STATUS_INVALID_ARGUMENT
  | PE_IMAGE_LOAD_STATUS_MISSING_DOS_HEADER
  | PE_IMAGE_LOAD_STATUS_INVALID_DOS_HEADER
  | PE_IMAGE_LOAD_STATUS_MISSING_NT_HEADERS
  | PE_IMAGE_LOAD_STATUS_INVALID_NT_SIGNATURE
  | PE_IMAGE_LOAD_STATUS_WRONG_MACHINE
  | PE_IMAGE_LOAD_STATUS_MISSING_SECTIONS
  | PE_IMAGE_LOAD_STATUS_UNSUPPORTED_OPTIONAL_HEADER
  | PE_IMAGE_LOAD_STATUS_UNSUPPORTED_MAGIC
  | PE_IMAGE_LOAD_STATUS_UNEXPECTED_IMAGE_BASE
  | PE_IMAGE_LOAD_STATUS_UNSUPPORTED_ALIGNMENT
  | PE_IMAGE_LOAD_STATUS_IMAGE_TOO_LARGE
  | PE_IMAGE_LOAD_STATUS_HEADERS_OUT_OF_RANGE
  | PE_IMAGE_LOAD_STATUS_ENTRY_POINT_OUT_OF_RANGE
  | PE_IMAGE_LOAD_STATUS_INVALID_IMPORT_DIRECTORY
  | PE_IMAGE_LOAD_STATUS_UNEXPECTED_IMPORTS
  | PE_IMAGE_LOAD_STATUS_UNEXPECTED_RELOCATIONS
  | PE_IMAGE_LOAD_STATUS_TRUNCATED_SECTION_TABLE
  | PE_IMAGE_LOAD_STATUS_SECTION_OUT_OF_RANGE
  | PE_IMAGE_LOAD_STATUS_SECTION_DATA_OUT_OF_RANGE

record pe_image_load_config =
  expected_machine :: u16
  expected_image_base :: u64
  expected_section_alignment :: u32
  expected_file_alignment :: u32
  loaded_image_size :: u64
  allow_imports :: bool
  allow_relocations :: bool

record pe_image_load_result =
  res_entry_point :: u64
  res_image_size :: u32
  res_import_directory :: pe_data_directory

section \<open>Operations\<close>

definition copy_embedded_record :: "nat \<Rightarrow> u64 \<Rightarrow> u64 \<Rightarrow> u64 \<Rightarrow> hmem \<Rightarrow> u8 list option" where
  "copy_embedded_record record_size image_bytes image_size off m =
     (if image_bytes = 0 \<or> off > image_size \<or> of_nat record_size > image_size - off then None
      else Some (load_bytes m (image_bytes + off) record_size))"

definition try_get_pe_machine :: "u64 \<Rightarrow> u64 \<Rightarrow> hmem \<Rightarrow> u16 option" where
  "try_get_pe_machine image_bytes image_size m =
     (case copy_embedded_record SIZEOF_DOS_HEADER image_bytes image_size 0 m of
        None \<Rightarrow> None
      | Some dos \<Rightarrow>
         (let dos_header = read_dos_header dos in
          if e_magic dos_header \<noteq> PE_DOS_SIGNATURE \<or> e_lfanew dos_header <s 0 then None
          else (case copy_embedded_record SIZEOF_NT_HEADERS image_bytes image_size (ucast (e_lfanew dos_header)) m of
              None \<Rightarrow> None
            | Some nt \<Rightarrow>
               (let nt_headers = read_nt_headers nt in
                if nt_signature nt_headers \<noteq> PE_NT_SIGNATURE \<or> magic (optional_header nt_headers) \<noteq> PE32_PLUS_MAGIC
                then None else Some (machine (file_header nt_headers))))))"

definition empty_data_directory :: pe_data_directory where
  "empty_data_directory = \<lparr>dir_virtual_address = 0, dir_size = 0\<rparr>"

definition empty_load_result :: pe_image_load_result where
  "empty_load_result = \<lparr>res_entry_point = 0, res_image_size = 0, res_import_directory = empty_data_directory\<rparr>"

text \<open>The checks of the headers, up to the section table; \<open>None\<close> when all pass.\<close>

definition import_directory_of :: "pe_optional_header64 \<Rightarrow> pe_data_directory" where
  "import_directory_of oh = (if number_of_rva_and_sizes oh > PE_IMPORT_DIRECTORY_INDEX
     then data_directories oh ! unat PE_IMPORT_DIRECTORY_INDEX else empty_data_directory)"

definition relocation_directory_of :: "pe_optional_header64 \<Rightarrow> pe_data_directory" where
  "relocation_directory_of oh = (if number_of_rva_and_sizes oh > PE_BASE_RELOCATION_DIRECTORY_INDEX
     then data_directories oh ! unat PE_BASE_RELOCATION_DIRECTORY_INDEX else empty_data_directory)"

definition check_directories :: "pe_image_load_config \<Rightarrow> pe_optional_header64 \<Rightarrow> pe_image_load_status option" where
  "check_directories config oh =
     (let imp = import_directory_of oh; rel = relocation_directory_of oh in
      if (dir_virtual_address imp = 0) \<noteq> (dir_size imp = 0) then Some PE_IMAGE_LOAD_STATUS_INVALID_IMPORT_DIRECTORY
      else if \<not> allow_imports config \<and> (dir_virtual_address imp \<noteq> 0 \<or> dir_size imp \<noteq> 0)
      then Some PE_IMAGE_LOAD_STATUS_UNEXPECTED_IMPORTS
      else if \<not> allow_relocations config \<and> (dir_virtual_address rel \<noteq> 0 \<or> dir_size rel \<noteq> 0)
      then Some PE_IMAGE_LOAD_STATUS_UNEXPECTED_RELOCATIONS
      else None)"

definition section_table_offset :: "u64 \<Rightarrow> pe_file_header \<Rightarrow> u64" where
  "section_table_offset nt_headers_offset fh =
     nt_headers_offset + 4 + of_nat SIZEOF_FILE_HEADER + ucast (size_of_optional_header fh)"

definition check_headers :: "pe_image_load_config \<Rightarrow> u64 \<Rightarrow> u64 \<Rightarrow> pe_nt_headers64 \<Rightarrow> pe_image_load_status option" where
  "check_headers config image_size nt_headers_offset nt =
     (let fh = file_header nt; oh = optional_header nt in
      if nt_signature nt \<noteq> PE_NT_SIGNATURE then Some PE_IMAGE_LOAD_STATUS_INVALID_NT_SIGNATURE
      else if machine fh \<noteq> expected_machine config then Some PE_IMAGE_LOAD_STATUS_WRONG_MACHINE
      else if number_of_sections fh = 0 then Some PE_IMAGE_LOAD_STATUS_MISSING_SECTIONS
      else if size_of_optional_header fh \<noteq> of_nat SIZEOF_OPTIONAL_HEADER
      then Some PE_IMAGE_LOAD_STATUS_UNSUPPORTED_OPTIONAL_HEADER
      else if magic oh \<noteq> PE32_PLUS_MAGIC then Some PE_IMAGE_LOAD_STATUS_UNSUPPORTED_MAGIC
      else if image_base oh \<noteq> expected_image_base config then Some PE_IMAGE_LOAD_STATUS_UNEXPECTED_IMAGE_BASE
      else if section_alignment oh \<noteq> expected_section_alignment config \<or>
              file_alignment oh \<noteq> expected_file_alignment config
      then Some PE_IMAGE_LOAD_STATUS_UNSUPPORTED_ALIGNMENT
      else if size_of_image oh = 0 \<or> ucast (size_of_image oh) > loaded_image_size config
      then Some PE_IMAGE_LOAD_STATUS_IMAGE_TOO_LARGE
      else if size_of_headers oh > size_of_image oh \<or> ucast (size_of_headers oh) > image_size
      then Some PE_IMAGE_LOAD_STATUS_HEADERS_OUT_OF_RANGE
      else if address_of_entry_point oh \<ge> size_of_image oh then Some PE_IMAGE_LOAD_STATUS_ENTRY_POINT_OUT_OF_RANGE
      else (case check_directories config oh of Some status \<Rightarrow> Some status
        | None \<Rightarrow>
           (let section_headers_offset = section_table_offset nt_headers_offset fh;
                section_headers_size = of_nat SIZEOF_SECTION_HEADER * ucast (number_of_sections fh) in
            if section_headers_offset > image_size \<or> section_headers_size > image_size - section_headers_offset
            then Some PE_IMAGE_LOAD_STATUS_TRUNCATED_SECTION_TABLE else None)))"

definition section_memory_size :: "pe_section_header \<Rightarrow> u32" where
  "section_memory_size sh = (if virtual_size sh \<noteq> 0 then virtual_size sh else size_of_raw_data sh)"

text \<open>One iteration of the loop over the sections, and the loop.\<close>

definition load_section :: "u64 \<Rightarrow> u64 \<Rightarrow> u32 \<Rightarrow> u64 \<Rightarrow> pe_section_header \<Rightarrow> hmem \<Rightarrow>
    pe_image_load_status \<times> hmem" where
  "load_section image_bytes image_size soi loaded_image sh m =
     (let va = virtual_address sh; raw = size_of_raw_data sh; ms = section_memory_size sh in
      if va > soi \<or> ms > soi - va then (PE_IMAGE_LOAD_STATUS_SECTION_OUT_OF_RANGE, m)
      else if raw > 0 \<and> (ucast (pointer_to_raw_data sh) > image_size \<or>
                         ucast raw > image_size - ucast (pointer_to_raw_data sh))
      then (PE_IMAGE_LOAD_STATUS_SECTION_DATA_OUT_OF_RANGE, m)
      else (let m1 = (if raw > 0
                      then memcpy m (loaded_image + ucast va) (image_bytes + ucast (pointer_to_raw_data sh)) (unat raw)
                      else m) in
            (PE_IMAGE_LOAD_STATUS_OK,
             if ms > raw then memset m1 (loaded_image + ucast va + ucast raw) 0 (unat (ms - raw)) else m1)))"

fun load_sections :: "u64 \<Rightarrow> u64 \<Rightarrow> u32 \<Rightarrow> u64 \<Rightarrow> u64 \<Rightarrow> nat list \<Rightarrow> hmem \<Rightarrow> pe_image_load_status \<times> hmem" where
  "load_sections image_bytes image_size soi loaded_image table [] m = (PE_IMAGE_LOAD_STATUS_OK, m)"
| "load_sections image_bytes image_size soi loaded_image table (section_index # indices) m =
     (case copy_embedded_record SIZEOF_SECTION_HEADER image_bytes image_size
             (table + of_nat section_index * of_nat SIZEOF_SECTION_HEADER) m of
        None \<Rightarrow> (PE_IMAGE_LOAD_STATUS_TRUNCATED_SECTION_TABLE, m)
      | Some bs \<Rightarrow>
         (case load_section image_bytes image_size soi loaded_image (read_section_header bs) m of
            (PE_IMAGE_LOAD_STATUS_OK, m') \<Rightarrow> load_sections image_bytes image_size soi loaded_image table indices m'
          | (status, m') \<Rightarrow> (status, m')))"

text \<open>The body of \<open>load_pe32_plus_image\<close> once the NT headers are read, and the whole function.\<close>

definition load_checked_image :: "u64 \<Rightarrow> u64 \<Rightarrow> u64 \<Rightarrow> pe_image_load_config \<Rightarrow> u64 \<Rightarrow> pe_nt_headers64 \<Rightarrow> hmem \<Rightarrow>
    pe_image_load_status \<times> pe_image_load_result \<times> hmem" where
  "load_checked_image image_bytes image_size loaded_image config nt_headers_offset nt m0 =
     (let oh = optional_header nt in
      case check_headers config image_size nt_headers_offset nt of
        Some status \<Rightarrow> (status, empty_load_result, m0)
      | None \<Rightarrow>
         (let m1 = memcpy m0 loaded_image image_bytes (unat (size_of_headers oh)) in
          case load_sections image_bytes image_size (size_of_image oh) loaded_image
                 (section_table_offset nt_headers_offset (file_header nt))
                 [0..<unat (number_of_sections (file_header nt))] m1 of
            (PE_IMAGE_LOAD_STATUS_OK, m2) \<Rightarrow>
              (PE_IMAGE_LOAD_STATUS_OK,
               \<lparr>res_entry_point = expected_image_base config + ucast (address_of_entry_point oh),
                res_image_size = size_of_image oh, res_import_directory = import_directory_of oh\<rparr>, m2)
          | (status, m2) \<Rightarrow> (status, empty_load_result, m2)))"

definition load_pe32_plus_image :: "u64 \<Rightarrow> u64 \<Rightarrow> u64 \<Rightarrow> pe_image_load_config \<Rightarrow> hmem \<Rightarrow>
    pe_image_load_status \<times> pe_image_load_result \<times> hmem" where
  "load_pe32_plus_image image_bytes image_size loaded_image config m =
     (if image_bytes = 0 \<or> loaded_image = 0 then (PE_IMAGE_LOAD_STATUS_INVALID_ARGUMENT, empty_load_result, m)
      else (let m0 = memset m loaded_image 0 (unat (loaded_image_size config)) in
        case copy_embedded_record SIZEOF_DOS_HEADER image_bytes image_size 0 m0 of
          None \<Rightarrow> (PE_IMAGE_LOAD_STATUS_MISSING_DOS_HEADER, empty_load_result, m0)
        | Some dos \<Rightarrow>
           (let dos_header = read_dos_header dos in
            if e_magic dos_header \<noteq> PE_DOS_SIGNATURE \<or> e_lfanew dos_header <s 0
            then (PE_IMAGE_LOAD_STATUS_INVALID_DOS_HEADER, empty_load_result, m0)
            else (let nt_headers_offset = ucast (e_lfanew dos_header) in
              case copy_embedded_record SIZEOF_NT_HEADERS image_bytes image_size nt_headers_offset m0 of
                None \<Rightarrow> (PE_IMAGE_LOAD_STATUS_MISSING_NT_HEADERS, empty_load_result, m0)
              | Some nt_bytes \<Rightarrow>
                  load_checked_image image_bytes image_size loaded_image config nt_headers_offset
                    (read_nt_headers nt_bytes) m0))))"

definition describe_pe_image_load_status :: "pe_image_load_status \<Rightarrow> string" where
  "describe_pe_image_load_status status = (case status of
      PE_IMAGE_LOAD_STATUS_OK \<Rightarrow> ''PE image loaded successfully''
    | PE_IMAGE_LOAD_STATUS_INVALID_ARGUMENT \<Rightarrow> ''PE image loader received an invalid argument''
    | PE_IMAGE_LOAD_STATUS_MISSING_DOS_HEADER \<Rightarrow> ''PE image is missing the DOS header''
    | PE_IMAGE_LOAD_STATUS_INVALID_DOS_HEADER \<Rightarrow> ''PE image has an invalid DOS header''
    | PE_IMAGE_LOAD_STATUS_MISSING_NT_HEADERS \<Rightarrow> ''PE image is missing the NT headers''
    | PE_IMAGE_LOAD_STATUS_INVALID_NT_SIGNATURE \<Rightarrow> ''PE image has an invalid NT signature''
    | PE_IMAGE_LOAD_STATUS_WRONG_MACHINE \<Rightarrow> ''PE image targets the wrong machine''
    | PE_IMAGE_LOAD_STATUS_MISSING_SECTIONS \<Rightarrow> ''PE image does not define any sections''
    | PE_IMAGE_LOAD_STATUS_UNSUPPORTED_OPTIONAL_HEADER \<Rightarrow> ''PE image has an unsupported optional header size''
    | PE_IMAGE_LOAD_STATUS_UNSUPPORTED_MAGIC \<Rightarrow> ''PE image is not PE32+''
    | PE_IMAGE_LOAD_STATUS_UNEXPECTED_IMAGE_BASE \<Rightarrow> ''PE image uses an unexpected image base''
    | PE_IMAGE_LOAD_STATUS_UNSUPPORTED_ALIGNMENT \<Rightarrow> ''PE image uses an unsupported alignment''
    | PE_IMAGE_LOAD_STATUS_IMAGE_TOO_LARGE \<Rightarrow> ''PE image does not fit in the initial user region''
    | PE_IMAGE_LOAD_STATUS_HEADERS_OUT_OF_RANGE \<Rightarrow> ''PE image headers are out of range''
    | PE_IMAGE_LOAD_STATUS_ENTRY_POINT_OUT_OF_RANGE \<Rightarrow> ''PE image entry point is out of range''
    | PE_IMAGE_LOAD_STATUS_INVALID_IMPORT_DIRECTORY \<Rightarrow> ''PE image has an invalid import directory''
    | PE_IMAGE_LOAD_STATUS_UNEXPECTED_IMPORTS \<Rightarrow> ''PE image unexpectedly imports system libraries''
    | PE_IMAGE_LOAD_STATUS_UNEXPECTED_RELOCATIONS \<Rightarrow> ''PE image unexpectedly requires relocations''
    | PE_IMAGE_LOAD_STATUS_TRUNCATED_SECTION_TABLE \<Rightarrow> ''PE image section table is truncated''
    | PE_IMAGE_LOAD_STATUS_SECTION_OUT_OF_RANGE \<Rightarrow> ''PE image section exceeds the declared image size''
    | PE_IMAGE_LOAD_STATUS_SECTION_DATA_OUT_OF_RANGE \<Rightarrow> ''PE image section data is out of range'')"

section \<open>Stores at an offset of the region\<close>

lemma offset_shift:
  assumes "unat v + n \<le> 2 ^ 64"
  shows "offset x (a + v) < n \<longleftrightarrow> unat v \<le> offset x a \<and> offset x a < unat v + n"
    and "unat v \<le> offset x a \<Longrightarrow> offset x (a + v) = offset x a - unat v"
proof -
  have d: "x - (a + v) = (x - a) - v" by simp
  show eq: "offset x (a + v) = offset x a - unat v" if "unat v \<le> offset x a"
    unfolding d using that by (intro unat_sub) (simp add: word_le_nat_alt)
  show "offset x (a + v) < n \<longleftrightarrow> unat v \<le> offset x a \<and> offset x a < unat v + n"
  proof (cases "unat v \<le> offset x a")
    case True
    then show ?thesis using eq[OF True] by auto
  next
    case False
    then have "unat ((x - a) - v) = 2 ^ 64 + offset x a - unat v"
      by (simp add: unat_sub_if_size word_size word_le_nat_alt)
    then show ?thesis unfolding d using False assms by simp
  qed
qed

lemma store_shifted:
  assumes "unat v + length bs \<le> 2 ^ 64"
  shows "store_bytes m (a + v) bs x =
    (if unat v \<le> offset x a \<and> offset x a < unat v + length bs then bs ! (offset x a - unat v) else m x)"
  using offset_shift[OF assms, of x a] assms by (auto simp: store_bytes_at)

section \<open>The layout an image asks for\<close>

definition pe_nt_offset :: "hmem \<Rightarrow> u64 \<Rightarrow> u64" where
  "pe_nt_offset m image_bytes = ucast (e_lfanew (read_dos_header (load_bytes m image_bytes SIZEOF_DOS_HEADER)))"

definition pe_headers :: "hmem \<Rightarrow> u64 \<Rightarrow> pe_nt_headers64" where
  "pe_headers m image_bytes =
     read_nt_headers (load_bytes m (image_bytes + pe_nt_offset m image_bytes) SIZEOF_NT_HEADERS)"

definition pe_section :: "hmem \<Rightarrow> u64 \<Rightarrow> u64 \<Rightarrow> nat \<Rightarrow> pe_section_header" where
  "pe_section m image_bytes table i =
     read_section_header (load_bytes m (image_bytes + (table + of_nat i * of_nat SIZEOF_SECTION_HEADER)) SIZEOF_SECTION_HEADER)"

definition pe_sections :: "hmem \<Rightarrow> u64 \<Rightarrow> pe_section_header list" where
  "pe_sections m image_bytes =
     (let fh = file_header (pe_headers m image_bytes) in
      map (pe_section m image_bytes (section_table_offset (pe_nt_offset m image_bytes) fh)) [0..<unat (number_of_sections fh)])"

text \<open>The byte at offset \<open>k\<close>: sections are laid over the headers in order, raw data first and then zeros.\<close>

definition section_covers :: "pe_section_header \<Rightarrow> nat \<Rightarrow> bool" where
  "section_covers sh k \<longleftrightarrow> unat (virtual_address sh) \<le> k \<and> k < unat (virtual_address sh) + unat (section_memory_size sh)"

definition section_byte :: "hmem \<Rightarrow> u64 \<Rightarrow> pe_section_header \<Rightarrow> nat \<Rightarrow> u8" where
  "section_byte m image_bytes sh k =
     (let j = k - unat (virtual_address sh) in
      if j < unat (size_of_raw_data sh) then m (image_bytes + ucast (pointer_to_raw_data sh) + of_nat j) else 0)"

definition overlay :: "hmem \<Rightarrow> u64 \<Rightarrow> pe_section_header list \<Rightarrow> nat \<Rightarrow> u8 \<Rightarrow> u8" where
  "overlay m image_bytes shs k b =
     foldl (\<lambda>b sh. if section_covers sh k then section_byte m image_bytes sh k else b) b shs"

definition pe_layout :: "hmem \<Rightarrow> u64 \<Rightarrow> nat \<Rightarrow> u8" where
  "pe_layout m image_bytes k = overlay m image_bytes (pe_sections m image_bytes) k
     (if k < unat (size_of_headers (optional_header (pe_headers m image_bytes))) then m (image_bytes + of_nat k) else 0)"

definition section_fits :: "pe_section_header \<Rightarrow> bool" where
  "section_fits sh \<longleftrightarrow> size_of_raw_data sh \<le> section_memory_size sh"

text \<open>The image lies outside the region it is loaded into.\<close>

definition image_apart :: "u64 \<Rightarrow> u64 \<Rightarrow> u64 \<Rightarrow> nat \<Rightarrow> bool" where
  "image_apart image_bytes image_size loaded_image L \<longleftrightarrow>
     (\<forall>i < unat image_size. L \<le> offset (image_bytes + of_nat i) loaded_image)"

section \<open>Proofs\<close>

text \<open>A memory that agrees with the initial one outside the region: the image in it is the same.\<close>

definition region_only :: "u64 \<Rightarrow> nat \<Rightarrow> hmem \<Rightarrow> hmem \<Rightarrow> bool" where
  "region_only loaded_image L m m' \<longleftrightarrow> (\<forall>x. L \<le> offset x loaded_image \<longrightarrow> m' x = m x)"

lemma region_memset: "L < 2 ^ 64 \<Longrightarrow> region_only loaded_image L m (memset m loaded_image 0 L)"
  by (simp add: region_only_def memset_eq_store store_bytes_at)

lemma region_trans: "region_only l L m m' \<Longrightarrow> region_only l L m' m'' \<Longrightarrow> region_only l L m m''"
  by (simp add: region_only_def)

lemma region_refl: "region_only l L m m"
  by (simp add: region_only_def)

lemma image_same:
  assumes "image_apart image_bytes image_size loaded_image L" and "region_only loaded_image L m m'" and "i < unat image_size"
  shows "m' (image_bytes + of_nat i) = m (image_bytes + of_nat i)"
  using assms by (simp add: image_apart_def region_only_def)

lemma copy_embedded_same:
  assumes "image_apart image_bytes image_size loaded_image L" and "region_only loaded_image L m m'"
    and "copy_embedded_record n image_bytes image_size off m' = Some bs" and "n < 2 ^ 64"
  shows "bs = load_bytes m (image_bytes + off) n"
proof -
  have c: "off \<le> image_size" "of_nat n \<le> image_size - off" "bs = load_bytes m' (image_bytes + off) n"
    using assms(3) by (auto simp: copy_embedded_record_def not_less split: if_splits)
  have "n \<le> unat (image_size - off)" using c(2) assms(4) by (simp add: word_le_nat_alt unat_of_nat_u64)
  then have le: "unat off + n \<le> unat image_size"
    using c(1) unat_sub_no_wrap[OF c(1)] by (simp add: word_le_nat_alt)
  have "load_bytes m' (image_bytes + off) n = load_bytes m (image_bytes + off) n"
  proof (rule load_bytes_cong)
    fix i assume "i < n"
    then have "m' (image_bytes + of_nat (unat off + i)) = m (image_bytes + of_nat (unat off + i))"
      using le by (intro image_same[OF assms(1,2)]) simp
    then show "m' (image_bytes + off + of_nat i) = m (image_bytes + off + of_nat i)" by (simp add: add.assoc)
  qed
  with c show ?thesis by simp
qed

lemma copied_section:
  assumes apart: "image_apart image_bytes image_size loaded_image L" and reg: "region_only loaded_image L m0 m"
    and fit: "unat (va :: u32) + n \<le> L" and src: "unat p + n \<le> unat image_size" and n: "n < 2 ^ 32"
  shows "memcpy m (loaded_image + ucast va) (image_bytes + p) n =
    store_bytes m (loaded_image + ucast va) (load_bytes m0 (image_bytes + p) n)"
proof -
  have same: "m (image_bytes + p + of_nat i) = m0 (image_bytes + p + of_nat i)"
    and far: "L \<le> offset (image_bytes + p + of_nat i) loaded_image" if "i < n" for i
  proof -
    have eq: "image_bytes + p + of_nat i = image_bytes + of_nat (unat p + i)" by (simp add: add.assoc)
    have lt: "unat p + i < unat image_size" using src that by simp
    show "m (image_bytes + p + of_nat i) = m0 (image_bytes + p + of_nat i)"
      unfolding eq by (rule image_same[OF apart reg lt])
    show "L \<le> offset (image_bytes + p + of_nat i) loaded_image"
      using apart lt unfolding eq image_apart_def by blast
  qed
  have near: "offset (loaded_image + ucast va + of_nat j) loaded_image < L" if "j < n" for j
  proof -
    have u: "unat (ucast va :: u64) = unat va" by (simp add: unsigned_ucast_eq take_bit_nat_eq_self less_trans[OF unsigned_less])
    have "unat (ucast va :: u64) + unat (of_nat j :: u64) < 2 ^ 64"
      using that n unsigned_less[of va, where 'a = nat] by (simp add: u unat_of_nat_u64)
    then have "unat (ucast va + of_nat j :: u64) = unat va + j"
      using that n by (simp add: unat_add_no_wrap u unat_of_nat_u64)
    moreover have "loaded_image + ucast va + of_nat j - loaded_image = ucast va + of_nat j" by simp
    ultimately show ?thesis using that fit by simp
  qed
  have "memcpy m (loaded_image + ucast va) (image_bytes + p) n =
      store_bytes m (loaded_image + ucast va) (load_bytes m (image_bytes + p) n)"
    by (rule memcpy_disjoint) (use far near in \<open>metis linorder_not_le\<close>)
  moreover have "load_bytes m (image_bytes + p) n = load_bytes m0 (image_bytes + p) n"
    by (rule load_bytes_cong) (rule same)
  ultimately show ?thesis by simp
qed

lemma unat_u32: "unat (ucast (w :: u32) :: u64) = unat w" "unat (w :: u32) < 2 ^ 32"
  using unsigned_less[of w, where 'a = nat]
  by (simp_all add: unsigned_ucast_eq take_bit_nat_eq_self less_trans[OF unsigned_less])

lemma section_range:
  fixes va soi ms :: u32
  assumes "\<not> (va > soi \<or> ms > soi - va)" and "unat soi \<le> L"
  shows "unat va + unat ms \<le> L"
  using assms unat_sub[of va soi] by (auto simp: not_less word_le_nat_alt)

lemma load_section_OK:
  assumes apart: "image_apart image_bytes image_size loaded_image L" and reg: "region_only loaded_image L m0 m"
    and soi: "unat soi \<le> L" and fits: "section_fits sh" and L: "L < 2 ^ 64"
    and ok: "load_section image_bytes image_size soi loaded_image sh m = (PE_IMAGE_LOAD_STATUS_OK, m')"
  shows "m' x = (if section_covers sh (offset x loaded_image)
    then section_byte m0 image_bytes sh (offset x loaded_image) else m x)" and "unat (virtual_address sh) + unat (section_memory_size sh) \<le> L"
proof -
  let ?va = "virtual_address sh" and ?raw = "size_of_raw_data sh" and ?ms = "section_memory_size sh"
  let ?p = "ucast (pointer_to_raw_data sh) :: u64" and ?k = "offset x loaded_image"
  have c: "\<not> (?va > soi \<or> ?ms > soi - ?va)" "\<not> (?raw > 0 \<and> (?p > image_size \<or> ucast ?raw > image_size - ?p))"
    "m' = (if ?ms > ?raw then memset (if ?raw > 0 then memcpy m (loaded_image + ucast ?va) (image_bytes + ?p) (unat ?raw) else m)
        (loaded_image + ucast ?va + ucast ?raw) 0 (unat (?ms - ?raw))
      else (if ?raw > 0 then memcpy m (loaded_image + ucast ?va) (image_bytes + ?p) (unat ?raw) else m))"
    using ok unfolding load_section_def Let_def by (simp_all only: if_False if_True split: if_splits) auto
  show in_region: "unat ?va + unat ?ms \<le> L" by (rule section_range[OF c(1) soi])
  have rm: "unat ?raw \<le> unat ?ms" using fits by (simp add: section_fits_def word_le_nat_alt)
  let ?bs = "load_bytes m0 (image_bytes + ?p) (unat ?raw)"
  have 1: "(if ?raw > 0 then memcpy m (loaded_image + ucast ?va) (image_bytes + ?p) (unat ?raw) else m) =
      store_bytes m (loaded_image + ucast ?va) ?bs"
  proof (cases "?raw > 0")
    case True
    then have "?p \<le> image_size" "ucast ?raw \<le> image_size - ?p" using c(2) by auto
    then have "unat ?p + unat ?raw \<le> unat image_size"
      using unat_sub_no_wrap[of ?p image_size] by (simp add: word_le_nat_alt unat_u32)
    then show ?thesis
      using True copied_section[OF apart reg, of ?va "unat ?raw" ?p] rm in_region unat_u32(2)[of ?raw] by simp
  qed (simp add: word_gt_0)
  have len: "unat ?va + unat ?raw + unat (?ms - ?raw) \<le> 2 ^ 64"
    using rm in_region L by (simp add: unat_sub word_le_nat_alt)
  have 2: "m' = store_bytes (store_bytes m (loaded_image + ucast ?va) ?bs)
      (loaded_image + ucast ?va + ucast ?raw) (replicate (unat ?ms - unat ?raw) 0)"
    using c(3) rm unfolding 1 memset_eq_store by (auto simp: unat_sub word_le_nat_alt word_less_nat_alt)
  have "m' = store_bytes m (loaded_image + ucast ?va) (?bs @ replicate (unat ?ms - unat ?raw) 0)"
    unfolding 2 store_bytes_append by simp
  then have "m' x = (if unat ?va \<le> ?k \<and> ?k < unat ?va + unat ?ms
      then (?bs @ replicate (unat ?ms - unat ?raw) 0) ! (?k - unat ?va) else m x)"
    using store_shifted[of "ucast ?va" "?bs @ replicate (unat ?ms - unat ?raw) 0" m loaded_image x] rm in_region L
    by (simp add: unat_u32)
  then show "m' x = (if section_covers sh ?k then section_byte m0 image_bytes sh ?k else m x)"
    using rm by (auto simp: section_covers_def section_byte_def Let_def nth_append nth_load_bytes intro!: nth_replicate)
qed

lemma load_section_failed:
  "load_section image_bytes image_size soi loaded_image sh m = (status, m') \<Longrightarrow> status \<noteq> PE_IMAGE_LOAD_STATUS_OK \<Longrightarrow> m' = m"
  by (auto simp: load_section_def Let_def split: if_splits)

lemma load_section_region:
  assumes apart: "image_apart image_bytes image_size loaded_image L" and reg: "region_only loaded_image L m0 m"
    and soi: "unat soi \<le> L" and fits: "section_fits sh" and L: "L < 2 ^ 64"
    and ls: "load_section image_bytes image_size soi loaded_image sh m = (status, m')"
  shows "region_only loaded_image L m0 m'"
proof (cases "status = PE_IMAGE_LOAD_STATUS_OK")
  case True
  note S = load_section_OK[OF apart reg soi fits L ls[unfolded True]]
  have "m' x = m x" if "L \<le> offset x loaded_image" for x
    using S(1)[of x] S(2) that by (simp add: section_covers_def)
  then show ?thesis using reg by (simp add: region_only_def)
next
  case False
  then show ?thesis using load_section_failed[OF ls] reg by simp
qed

lemma load_sections_spec:
  assumes apart: "image_apart image_bytes image_size loaded_image L" and soi: "unat soi \<le> L" and L: "L < 2 ^ 64"
  shows "region_only loaded_image L m0 m \<Longrightarrow> \<forall>i \<in> set is. section_fits (pe_section m0 image_bytes table i) \<Longrightarrow>
    load_sections image_bytes image_size soi loaded_image table is m = (status, m') \<Longrightarrow>
    region_only loaded_image L m0 m' \<and>
    (status = PE_IMAGE_LOAD_STATUS_OK \<longrightarrow> (\<forall>x. m' x =
      overlay m0 image_bytes (map (pe_section m0 image_bytes table) is) (offset x loaded_image) (m x)))"
proof (induction "is" arbitrary: m)
  case Nil
  then show ?case by (simp add: overlay_def)
next
  case (Cons i "is")
  let ?off = "table + of_nat i * of_nat SIZEOF_SECTION_HEADER"
  let ?sh = "pe_section m0 image_bytes table i"
  show ?case
  proof (cases "copy_embedded_record SIZEOF_SECTION_HEADER image_bytes image_size ?off m")
    case None
    then show ?thesis using Cons.prems by auto
  next
    case (Some bs)
    have "bs = load_bytes m0 (image_bytes + ?off) SIZEOF_SECTION_HEADER"
      by (rule copy_embedded_same[OF apart Cons.prems(1) Some]) (simp add: SIZEOF_SECTION_HEADER_def)
    then have sh: "read_section_header bs = ?sh" by (simp add: pe_section_def)
    obtain st1 m1 where s: "load_section image_bytes image_size soi loaded_image ?sh m = (st1, m1)" by fastforce
    have fits: "section_fits ?sh" using Cons.prems(2) by simp
    have r1: "region_only loaded_image L m0 m1" by (rule load_section_region[OF apart Cons.prems(1) soi fits L s])
    show ?thesis
    proof (cases "st1 = PE_IMAGE_LOAD_STATUS_OK")
      case False
      then have "status = st1" "m' = m1" using Cons.prems(3) Some s sh by (auto split: pe_image_load_status.splits)
      then show ?thesis using r1 False by simp
    next
      case True
      then have "load_sections image_bytes image_size soi loaded_image table is m1 = (status, m')"
        using Cons.prems(3) Some s sh by simp
      then have IH: "region_only loaded_image L m0 m' \<and> (status = PE_IMAGE_LOAD_STATUS_OK \<longrightarrow> (\<forall>x. m' x =
          overlay m0 image_bytes (map (pe_section m0 image_bytes table) is) (offset x loaded_image) (m1 x)))"
        using Cons.prems(2) by (intro Cons.IH[OF r1]) simp_all
      have m1: "m1 x = (if section_covers ?sh (offset x loaded_image)
          then section_byte m0 image_bytes ?sh (offset x loaded_image) else m x)" for x
        using load_section_OK(1)[OF apart Cons.prems(1) soi fits L s[unfolded True]] .
      show ?thesis using IH unfolding m1 overlay_def list.map foldl_Cons .
    qed
  qed
qed

lemma check_headers_passed:
  assumes "check_headers config image_size off nt = None"
  shows "ucast (size_of_image (optional_header nt)) \<le> loaded_image_size config"
    and "size_of_headers (optional_header nt) \<le> size_of_image (optional_header nt)"
    and "ucast (size_of_headers (optional_header nt)) \<le> image_size"
    and "address_of_entry_point (optional_header nt) < size_of_image (optional_header nt)"
    and "nt_signature nt = PE_NT_SIGNATURE \<and> machine (file_header nt) = expected_machine config"
  using assms by (auto simp: check_headers_def Let_def not_less not_le split: if_splits)

text \<open>The memory at the end of a call that gets past the headers, and before the sections.\<close>

lemma headers_placed:
  assumes apart: "image_apart image_bytes image_size loaded_image L" and n: "n \<le> L" "n \<le> unat image_size" and L: "L < 2 ^ 64"
    and n32: "n < 2 ^ 32" and m0_def: "m0 = memset m loaded_image 0 L"
  shows "memcpy m0 loaded_image image_bytes n x = (if offset x loaded_image < n then m (image_bytes + of_nat (offset x loaded_image))
    else if offset x loaded_image < L then 0 else m x)"
proof -
  have m0: "m0 y = (if offset y loaded_image < L then 0 else m y)" for y
    using L by (simp add: m0_def memset_eq_store store_bytes_at)
  have r0: "region_only loaded_image L m m0" unfolding m0_def by (rule region_memset[OF L])
  have "memcpy m0 (loaded_image + ucast (0 :: u32)) (image_bytes + 0) n =
      store_bytes m0 (loaded_image + ucast (0 :: u32)) (load_bytes m (image_bytes + 0) n)"
    using n n32 by (intro copied_section[OF apart r0]) simp_all
  then have "memcpy m0 loaded_image image_bytes n x =
      (if offset x loaded_image < n then load_bytes m image_bytes n ! offset x loaded_image else m0 x)"
    using n32 by (simp add: store_bytes_at)
  then show ?thesis by (simp add: m0 nth_load_bytes)
qed

lemma load_checked_spec:
  assumes apart: "image_apart image_bytes image_size loaded_image (unat (loaded_image_size config))"
    and fits: "\<forall>sh \<in> set (pe_sections m image_bytes). section_fits sh"
    and ld: "load_checked_image image_bytes image_size loaded_image config (pe_nt_offset m image_bytes)
      (pe_headers m image_bytes) (memset m loaded_image 0 (unat (loaded_image_size config))) = (status, res, m')"
  shows "region_only loaded_image (unat (loaded_image_size config)) m m' \<and>
    (status = PE_IMAGE_LOAD_STATUS_OK \<longrightarrow>
      (\<forall>x. offset x loaded_image < unat (loaded_image_size config) \<longrightarrow> m' x = pe_layout m image_bytes (offset x loaded_image)) \<and>
      (let oh = optional_header (pe_headers m image_bytes) in
       res_entry_point res = expected_image_base config + ucast (address_of_entry_point oh) \<and>
       unat (address_of_entry_point oh) < unat (loaded_image_size config)))"
proof (cases "check_headers config image_size (pe_nt_offset m image_bytes) (pe_headers m image_bytes)")
  case (Some st)
  then have "status = st" "m' = memset m loaded_image 0 (unat (loaded_image_size config))" using ld by (auto simp: load_checked_image_def)
  moreover have "st \<noteq> PE_IMAGE_LOAD_STATUS_OK"
    using Some by (auto simp: check_headers_def check_directories_def Let_def split: if_splits)
  ultimately show ?thesis using region_memset[OF unat_lt_u64] by simp
next
  case None
  let ?L = "unat (loaded_image_size config)" and ?oh = "optional_header (pe_headers m image_bytes)"
  let ?fh = "file_header (pe_headers m image_bytes)"
  let ?is = "[0..<unat (number_of_sections ?fh)]" and ?t = "section_table_offset (pe_nt_offset m image_bytes) ?fh"
  let ?n = "unat (size_of_headers ?oh)"
  let ?m1 = "memcpy (memset m loaded_image 0 ?L) loaded_image image_bytes ?n"
  note C = check_headers_passed[OF None]
  have soi: "unat (size_of_image ?oh) \<le> ?L" using C(1) by (simp add: word_le_nat_alt unat_u32)
  have n: "?n \<le> ?L" "?n \<le> unat image_size" using C(2,3) soi by (simp_all add: word_le_nat_alt unat_u32)
  have m1: "?m1 x = (if offset x loaded_image < ?n then m (image_bytes + of_nat (offset x loaded_image))
      else if offset x loaded_image < ?L then 0 else m x)" for x
    by (rule headers_placed[OF apart n unat_lt_u64 unat_u32(2) refl])
  have r1: "region_only loaded_image ?L m ?m1" unfolding region_only_def m1 using n by auto
  obtain st m2 where s: "load_sections image_bytes image_size (size_of_image ?oh) loaded_image ?t ?is ?m1 = (st, m2)" by fastforce
  have secs: "pe_sections m image_bytes = map (pe_section m image_bytes ?t) ?is" by (simp add: pe_sections_def Let_def)
  have S: "region_only loaded_image ?L m m2 \<and> (st = PE_IMAGE_LOAD_STATUS_OK \<longrightarrow> (\<forall>x. m2 x =
      overlay m image_bytes (pe_sections m image_bytes) (offset x loaded_image) (?m1 x)))"
    unfolding secs using fits unfolding secs by (intro load_sections_spec[OF apart soi unat_lt_u64 r1 _ s]) simp
  have out: "status = st" "m' = m2" "st = PE_IMAGE_LOAD_STATUS_OK \<Longrightarrow>
      res_entry_point res = expected_image_base config + ucast (address_of_entry_point ?oh)"
    using ld None s by (auto simp: load_checked_image_def Let_def split: pe_image_load_status.splits)
  have "unat (address_of_entry_point ?oh) < ?L" using C(4) soi by (simp add: word_less_nat_alt)
  then show ?thesis using S out unfolding m1 pe_layout_def Let_def by simp
qed

lemma load_pe_spec:
  assumes ld: "load_pe32_plus_image image_bytes image_size loaded_image config m = (status, res, m')"
    and apart: "image_apart image_bytes image_size loaded_image (unat (loaded_image_size config))"
    and fits: "\<forall>sh \<in> set (pe_sections m image_bytes). section_fits sh"
  shows "region_only loaded_image (unat (loaded_image_size config)) m m' \<and>
    (status = PE_IMAGE_LOAD_STATUS_OK \<longrightarrow>
      (\<forall>x. offset x loaded_image < unat (loaded_image_size config) \<longrightarrow> m' x = pe_layout m image_bytes (offset x loaded_image)) \<and>
      (let oh = optional_header (pe_headers m image_bytes) in
       res_entry_point res = expected_image_base config + ucast (address_of_entry_point oh) \<and>
       unat (address_of_entry_point oh) < unat (loaded_image_size config)))"
proof -
  let ?L = "unat (loaded_image_size config)"
  let ?m0 = "memset m loaded_image 0 ?L"
  have L: "?L < 2 ^ 64" by (rule unat_lt_u64)
  have r0: "region_only loaded_image ?L m ?m0" by (rule region_memset[OF L])
  note same = copy_embedded_same[OF apart r0]
  note defs = load_pe32_plus_image_def Let_def
  show ?thesis
  proof (cases "image_bytes = 0 \<or> loaded_image = 0")
    case True
    then show ?thesis using ld by (simp add: defs region_only_def)
  next
    case args: False
    show ?thesis
    proof (cases "copy_embedded_record SIZEOF_DOS_HEADER image_bytes image_size 0 ?m0")
      case None
      then show ?thesis using ld args r0 by (simp add: defs)
    next
      case (Some dos)
      then have "dos = load_bytes m image_bytes SIZEOF_DOS_HEADER" using same[OF Some] by (simp add: SIZEOF_DOS_HEADER_def)
      then have off: "ucast (e_lfanew (read_dos_header dos)) = pe_nt_offset m image_bytes" by (simp add: pe_nt_offset_def)
      note dos = Some off
      show ?thesis
      proof (cases "e_magic (read_dos_header dos) \<noteq> PE_DOS_SIGNATURE \<or> e_lfanew (read_dos_header dos) <s 0 \<or>
          copy_embedded_record SIZEOF_NT_HEADERS image_bytes image_size (pe_nt_offset m image_bytes) ?m0 = None")
        case True
        then show ?thesis using ld args r0 dos by (auto simp: defs split: if_splits)
      next
        case False
        then obtain ntb where nt: "copy_embedded_record SIZEOF_NT_HEADERS image_bytes image_size (pe_nt_offset m image_bytes) ?m0 = Some ntb"
          and ok: "\<not> (e_magic (read_dos_header dos) \<noteq> PE_DOS_SIGNATURE \<or> e_lfanew (read_dos_header dos) <s 0)" by blast
        have h: "read_nt_headers ntb = pe_headers m image_bytes"
          using same[OF nt] by (simp add: pe_headers_def SIZEOF_NT_HEADERS_def SIZEOF_FILE_HEADER_def SIZEOF_OPTIONAL_HEADER_def)
        have body: "load_pe32_plus_image image_bytes image_size loaded_image config m = 
          load_checked_image image_bytes image_size loaded_image config (pe_nt_offset m image_bytes) (pe_headers m image_bytes) ?m0"
          using args dos nt ok h by (simp add: defs)
        show ?thesis using load_checked_spec[OF apart fits] ld body by simp
      qed
    qed
  qed
qed

section \<open>No write below the region\<close>

text \<open>
  Without any assumption on the image: sizes and addresses in the headers have 32 bits, so whatever the
  loader writes lies in the eight gigabytes from the start of the region on.
\<close>

lemma region_mono: "region_only a L m m' \<Longrightarrow> L \<le> L' \<Longrightarrow> region_only a L' m m'"
  by (simp add: region_only_def)

lemma region_memcpy:
  assumes "unat v + n \<le> L" and "L < 2 ^ 64"
  shows "region_only a L m (memcpy m (a + v) source n)"
  unfolding region_only_def
proof (intro allI impI memcpy_outside)
  fix x i assume x: "L \<le> offset x a" and i: "i < n"
  show "x \<noteq> a + v + of_nat i"
  proof
    assume "x = a + v + of_nat i"
    then have "offset x a = unat (v + of_nat i)" by simp
    also have "... = unat v + i" using assms i by (subst unat_add_no_wrap) (simp_all add: unat_of_nat_u64)
    finally show False using x i assms(1) by simp
  qed
qed

lemma region_memset_at:
  assumes "unat v + n \<le> L" and "L < 2 ^ 64"
  shows "region_only a L m (memset m (a + v) c n)"
  using assms store_shifted[of v "replicate n c" m a] by (simp add: region_only_def memset_eq_store)

lemma load_section_reach:
  assumes "load_section image_bytes image_size soi loaded_image sh m = (status, m')"
  shows "region_only loaded_image (2 ^ 33) m m'"
proof -
  let ?va = "ucast (virtual_address sh) :: u64" and ?raw = "ucast (size_of_raw_data sh) :: u64"
  have b: "unat ?va < 2 ^ 32" "unat ?raw < 2 ^ 32" "unat (size_of_raw_data sh) < 2 ^ 32"
    using unat_u32[of "virtual_address sh"] unat_u32[of "size_of_raw_data sh"] by simp_all
  have c: "region_only loaded_image (2 ^ 33) m (memcpy m (loaded_image + ?va) source (unat (size_of_raw_data sh)))" for source
    using b by (intro region_memcpy) simp_all
  have z: "region_only loaded_image (2 ^ 33) m1 (memset m1 (loaded_image + ?va + ?raw) 0 (unat (section_memory_size sh - size_of_raw_data sh)))"
    if "size_of_raw_data sh < section_memory_size sh" for m1
  proof -
    have "unat (section_memory_size sh - size_of_raw_data sh) = unat (section_memory_size sh) - unat (size_of_raw_data sh)"
      using that by (simp add: unat_sub word_less_nat_alt word_le_nat_alt)
    moreover have "unat (?va + ?raw) = unat ?va + unat ?raw" using b by (intro unat_add_no_wrap) simp
    ultimately show ?thesis
      unfolding add.assoc using b unat_u32[of "section_memory_size sh"] unat_u32[of "size_of_raw_data sh"]
      by (intro region_memset_at) simp_all
  qed
  show ?thesis
    using assms c z region_trans[OF c z] region_refl unfolding load_section_def Let_def by (auto split: if_splits)
qed

lemma load_sections_reach:
  "load_sections image_bytes image_size soi loaded_image table is m = (status, m') \<Longrightarrow> region_only loaded_image (2 ^ 33) m m'"
proof (induction "is" arbitrary: m)
  case (Cons i "is")
  show ?case
  proof (cases "copy_embedded_record SIZEOF_SECTION_HEADER image_bytes image_size
      (table + of_nat i * of_nat SIZEOF_SECTION_HEADER) m")
    case None
    then show ?thesis using Cons.prems by (simp add: region_refl)
  next
    case (Some bs)
    obtain st m1 where l: "load_section image_bytes image_size soi loaded_image (read_section_header bs) m = (st, m1)"
      by (metis surj_pair)
    note r = load_section_reach[OF l]
    show ?thesis
      using Cons.prems Some l r Cons.IH[of m1] region_trans[OF r] by (cases st) auto
  qed
qed (simp add: region_refl)

lemma load_pe_reach:
  assumes "load_pe32_plus_image image_bytes image_size loaded_image config m = (status, res, m')"
    and "unat (loaded_image_size config) \<le> 2 ^ 33"
  shows "region_only loaded_image (2 ^ 33) m m'"
proof -
  let ?m0 = "memset m loaded_image 0 (unat (loaded_image_size config))"
  have r0: "region_only loaded_image (2 ^ 33) m ?m0"
    using region_memset_at[of 0 "unat (loaded_image_size config)" "2 ^ 33" loaded_image m 0] assms(2) by simp
  have r1: "region_only loaded_image (2 ^ 33) ?m0 m2"
    if "load_checked_image image_bytes image_size loaded_image config off nt ?m0 = (st, r, m2)" for off nt st r m2
  proof -
    let ?m1 = "memcpy ?m0 loaded_image image_bytes (unat (size_of_headers (optional_header nt)))"
    have h: "region_only loaded_image (2 ^ 33) ?m0 ?m1"
      using region_memcpy[of 0 "unat (size_of_headers (optional_header nt))" "2 ^ 33" loaded_image ?m0 image_bytes]
        unat_u32[of "size_of_headers (optional_header nt)"] by simp
    obtain st2 m3 where s: "load_sections image_bytes image_size (size_of_image (optional_header nt)) loaded_image
        (section_table_offset off (file_header nt)) [0..<unat (number_of_sections (file_header nt))] ?m1 = (st2, m3)"
      by (metis surj_pair)
    have "m2 = ?m0 \<or> m2 = m3" using that s by (cases st2) (auto simp: load_checked_image_def Let_def split: option.splits)
    then show ?thesis using region_trans[OF h load_sections_reach[OF s]] region_refl by auto
  qed
  show ?thesis
    using assms(1) r0 region_trans[OF r0 r1] region_refl
    unfolding load_pe32_plus_image_def Let_def by (auto split: if_splits option.splits)
qed

section \<open>An example image\<close>

text \<open>
  An image of 400 bytes, for x64 or for ARM64, with one section at relative address 8, whose virtual size and raw
  size are the parameters; its raw data are the bytes from offset 368 on. The region has 32 bytes.
\<close>

definition example_image_bytes :: "bool \<Rightarrow> u8 \<Rightarrow> u8 \<Rightarrow> (nat \<times> u8) list" where
  "example_image_bytes x64 vs raw =
     [(0, 0x4D), (1, 0x5A), (60, 64), (64, 0x50), (65, 0x45), (68, 0x64), (69, if x64 then 0x86 else 0xAA), (70, 1), (84, 0xF0),
      (88, 0x0B), (89, 0x02), (104, 8), (114, 0x40), (121, 0x10), (125, 0x10), (144, 0x20), (148, 2),
      (336, vs), (340, 8), (344, raw), (348, 0x70), (349, 0x01)]"

definition example_image :: "bool \<Rightarrow> u8 \<Rightarrow> u8 \<Rightarrow> hmem" where
  "example_image x64 vs raw = (\<lambda>x. let k = offset x 0x100000 in
     if 368 \<le> k \<and> k < 400 then 0xC3 else (case map_of (example_image_bytes x64 vs raw) k of None \<Rightarrow> 0 | Some b \<Rightarrow> b))"

definition example_config :: pe_image_load_config where
  "example_config = \<lparr>expected_machine = PE_MACHINE_ARM64, expected_image_base = 0x400000,
     expected_section_alignment = 0x1000, expected_file_alignment = 0x1000, loaded_image_size = 0x20,
     allow_imports = False, allow_relocations = False\<rparr>"

definition example_machine :: "bool \<Rightarrow> u16" where
  "example_machine x64 = (if x64 then PE_MACHINE_X64 else PE_MACHINE_ARM64)"

definition accepts_example :: "bool \<Rightarrow> pe_image_load_config \<Rightarrow> bool" where
  "accepts_example x64 config \<longleftrightarrow> expected_machine config = example_machine x64 \<and> expected_image_base config = 0x400000 \<and>
     expected_section_alignment config = 0x1000 \<and> expected_file_alignment config = 0x1000 \<and> 0x20 \<le> loaded_image_size config"

lemma example_config_accepts: "accepts_example False example_config"
  by (simp add: accepts_example_def example_config_def example_machine_def)

lemma field_load_bytes: "off + k \<le> n \<Longrightarrow> field (load_bytes m a n) off k = le_word (load_bytes m (a + of_nat off) k)"
proof -
  assume "off + k \<le> n"
  then have "take k (drop off (load_bytes m a n)) = load_bytes m (a + of_nat off) k"
    by (intro nth_equalityI) (auto simp: nth_load_bytes add.assoc)
  then show ?thesis by (simp add: field_def)
qed

lemma copy_embedded_eq:
  assumes "image_apart image_bytes image_size loaded_image L" and "region_only loaded_image L m m'"
    and "image_bytes \<noteq> 0" and "off \<le> image_size" and "of_nat n \<le> image_size - off" and "n < 2 ^ 64"
  shows "copy_embedded_record n image_bytes image_size off m' = Some (load_bytes m (image_bytes + off) n)"
proof -
  obtain bs where "copy_embedded_record n image_bytes image_size off m' = Some bs"
    using assms(3-5) by (auto simp: copy_embedded_record_def not_less)
  then show ?thesis using copy_embedded_same[OF assms(1,2) _ assms(6)] by blast
qed

lemma example_apart: "image_apart 0x100000 400 0x200000 0x20"
proof -
  have "offset (0x100000 + of_nat i) 0x200000 = 2 ^ 64 - 0x100000 + i" if "i < 400" for i
  proof -
    have "(0x100000 + of_nat i - 0x200000 :: u64) = of_nat (2 ^ 64 - 0x100000 + i)" by (simp add: of_nat_diff)
    then show ?thesis using that by (simp add: unat_of_nat_u64 del: of_nat_add)
  qed
  then show ?thesis by (simp add: image_apart_def)
qed

definition example_byte :: "bool \<Rightarrow> u8 \<Rightarrow> u8 \<Rightarrow> nat \<Rightarrow> u8" where
  "example_byte x64 vs raw k = (if 368 \<le> k then 0xC3
     else (case map_of (example_image_bytes x64 vs raw) k of None \<Rightarrow> 0 | Some b \<Rightarrow> b))"

text \<open>A memory that holds the image at \<open>0x100000\<close>.\<close>

definition holds_example :: "bool \<Rightarrow> u8 \<Rightarrow> u8 \<Rightarrow> hmem \<Rightarrow> bool" where
  "holds_example x64 vs raw m \<longleftrightarrow> (\<forall>k < 400. m (0x100000 + of_nat k) = example_byte x64 vs raw k)"

lemma example_image_byte: "k < 400 \<Longrightarrow> example_image x64 vs raw (0x100000 + of_nat k) = example_byte x64 vs raw k"
  by (simp add: example_image_def example_byte_def unat_of_nat_u64 Let_def)

lemma example_image_holds: "holds_example x64 vs raw (example_image x64 vs raw)"
  by (simp add: holds_example_def example_image_byte)

lemma region_holds:
  "holds_example x64 vs raw m \<Longrightarrow> image_apart 0x100000 400 s L \<Longrightarrow> region_only s L m m' \<Longrightarrow> holds_example x64 vs raw m'"
  using image_same[of "0x100000" 400 s L m m'] by (simp add: holds_example_def)

lemma example_field:
  assumes h: "holds_example x64 vs raw m" and "bs = load_bytes m (0x100000 + of_nat a) n" and "off + k \<le> n" and "a + off + k \<le> 400"
  shows "field bs off k = le_word (map (example_byte x64 vs raw) [a + off..<a + off + k])"
proof -
  have "load_bytes m (0x100000 + of_nat (a + off)) k = map (example_byte x64 vs raw) [a + off..<a + off + k]"
    using h assms(4) by (intro nth_equalityI) (auto simp: nth_load_bytes add.assoc holds_example_def simp flip: of_nat_add)
  then show ?thesis using assms(2,3) by (simp add: field_load_bytes add.assoc)
qed

lemma example_headers:
  assumes h: "holds_example x64 vs raw m"
  defines "nt \<equiv> pe_headers m 0x100000"
  shows "pe_nt_offset m 0x100000 = 64"
    and "e_magic (read_dos_header (load_bytes m 0x100000 SIZEOF_DOS_HEADER)) = PE_DOS_SIGNATURE"
    and "e_lfanew (read_dos_header (load_bytes m 0x100000 SIZEOF_DOS_HEADER)) = 64"
    and "accepts_example x64 config \<Longrightarrow> check_headers config 400 64 nt = None"
    and "file_header nt = \<lparr>machine = example_machine x64, number_of_sections = 1, size_of_optional_header = 240\<rparr>"
    and "size_of_image (optional_header nt) = 0x20" and "size_of_headers (optional_header nt) = 2"
    and "import_directory_of (optional_header nt) = empty_data_directory"
proof -
  let ?dos = "load_bytes m 0x100000 SIZEOF_DOS_HEADER"
  note D = example_field[OF h, of ?dos 0 64, unfolded SIZEOF_DOS_HEADER_def]
  have d: "field ?dos 0 2 = 0x5A4D" "field ?dos 60 4 = 64"
    using D[of 0 2] D[of 60 4] unfolding SIZEOF_DOS_HEADER_def by (simp_all add: example_byte_def example_image_bytes_def upt_rec)
  show "e_magic (read_dos_header ?dos) = PE_DOS_SIGNATURE" and l: "e_lfanew (read_dos_header ?dos) = 64"
    by (simp_all add: read_dos_header_def d PE_DOS_SIGNATURE_def)
  show off: "pe_nt_offset m 0x100000 = 64" by (simp add: pe_nt_offset_def l)
  define bs where "bs = load_bytes m (0x100000 + of_nat 64) 264"
  have nt: "nt = read_nt_headers bs"
    by (simp add: nt_def pe_headers_def off bs_def SIZEOF_NT_HEADERS_def SIZEOF_FILE_HEADER_def SIZEOF_OPTIONAL_HEADER_def)
  note F = example_field[OF h bs_def]
  have f: "field bs 0 4 = 0x4550" "field bs 4 2 = (if x64 then 0x8664 else 0xAA64)" "field bs 6 2 = 1" "field bs 20 2 = 240" "field bs 24 2 = 0x20B"
    "field bs 40 4 = 8" "field bs 48 8 = 0x400000" "field bs 56 4 = 0x1000" "field bs 60 4 = 0x1000"
    "field bs 80 4 = 0x20" "field bs 84 4 = 2" "field bs 132 4 = 0"
    by (simp_all add: F example_byte_def example_image_bytes_def upt_rec)
  show fh: "file_header nt = \<lparr>machine = example_machine x64, number_of_sections = 1, size_of_optional_header = 240\<rparr>"
    "size_of_image (optional_header nt) = 0x20" "size_of_headers (optional_header nt) = 2"
    by (simp_all add: nt read_nt_headers_def f example_machine_def PE_MACHINE_ARM64_def PE_MACHINE_X64_def)
  have oh: "nt_signature nt = PE_NT_SIGNATURE" "magic (optional_header nt) = PE32_PLUS_MAGIC" "image_base (optional_header nt) = 0x400000"
    "section_alignment (optional_header nt) = 0x1000" "file_alignment (optional_header nt) = 0x1000"
    "address_of_entry_point (optional_header nt) = 8" "number_of_rva_and_sizes (optional_header nt) = 0"
    by (simp_all add: nt read_nt_headers_def f PE_NT_SIGNATURE_def PE32_PLUS_MAGIC_def)
  show imp: "import_directory_of (optional_header nt) = empty_data_directory"
    by (simp add: import_directory_of_def oh PE_IMPORT_DIRECTORY_INDEX_def)
  have rel: "relocation_directory_of (optional_header nt) = empty_data_directory"
    by (simp add: relocation_directory_of_def oh PE_BASE_RELOCATION_DIRECTORY_INDEX_def)
  have "check_directories config (optional_header nt) = None" for config
    by (simp add: check_directories_def imp rel empty_data_directory_def Let_def)
  then show "check_headers config 400 64 nt = None" if "accepts_example x64 config" for config
    using that by (simp add: check_headers_def fh oh Let_def accepts_example_def not_less section_table_offset_def
        SIZEOF_FILE_HEADER_def SIZEOF_SECTION_HEADER_def SIZEOF_OPTIONAL_HEADER_def)
qed

definition example_section :: "u8 \<Rightarrow> u8 \<Rightarrow> pe_section_header" where
  "example_section vs raw = \<lparr>virtual_size = ucast vs, virtual_address = 8, size_of_raw_data = ucast raw, pointer_to_raw_data = 368\<rparr>"

lemma example_pe_section:
  assumes h: "holds_example x64 vs raw m"
  shows "pe_section m 0x100000 328 0 = example_section vs raw"
proof -
  define bs where "bs = load_bytes m (0x100000 + of_nat 328) 40"
  note F = example_field[OF h bs_def]
  have "field bs 8 4 = ucast vs" "field bs 12 4 = 8" "field bs 16 4 = ucast raw" "field bs 20 4 = 368"
    by (simp_all add: F example_byte_def example_image_bytes_def upt_rec)
  moreover have "ucast (ucast w :: u64) = (ucast w :: u32)" for w :: u8
    by (rule bit_word_eqI) (auto simp: bit_ucast_iff dest: bit_imp_le_length)
  ultimately show ?thesis
    by (simp add: pe_section_def read_section_header_def example_section_def SIZEOF_SECTION_HEADER_def bs_def)
qed

lemma example_sections:
  assumes h: "holds_example x64 vs raw m"
  shows "pe_sections m 0x100000 = [example_section vs raw]"
  by (simp add: pe_sections_def example_headers[OF h] Let_def section_table_offset_def SIZEOF_FILE_HEADER_def example_pe_section[OF h])

lemma example_load:
  assumes h: "holds_example x64 vs raw m" and acc: "accepts_example x64 config"
    and apart: "image_apart 0x100000 400 0x200000 (unat (loaded_image_size config))"
  obtains m1 where "region_only 0x200000 (unat (loaded_image_size config)) m m1"
    and "\<And>status m'. load_section 0x100000 400 0x20 0x200000 (example_section vs raw) m1 = (status, m') \<Longrightarrow>
      fst (load_pe32_plus_image 0x100000 400 0x200000 config m) = status \<and>
      snd (snd (load_pe32_plus_image 0x100000 400 0x200000 config m)) = m'"
    and "res_import_directory (fst (snd (load_pe32_plus_image 0x100000 400 0x200000 config m))) =
      empty_data_directory"
proof -
  let ?zero = "memset m 0x200000 0 (unat (loaded_image_size config))"
  have L: "0x20 \<le> unat (loaded_image_size config)" using acc by (simp add: accepts_example_def word_le_nat_alt)
  let ?hdr = "memcpy ?zero 0x200000 0x100000 2"
  have r0: "region_only 0x200000 (unat (loaded_image_size config)) m ?zero" by (rule region_memset) (rule unat_lt_u64)
  note C = copy_embedded_eq[OF apart]
  have r1: "region_only 0x200000 (unat (loaded_image_size config)) m ?hdr"
    using region_trans[OF r0 region_memcpy[of 0 2 "unat (loaded_image_size config)"]] L unat_lt_u64 by simp
  have dos: "copy_embedded_record SIZEOF_DOS_HEADER 0x100000 400 0 ?zero = Some (load_bytes m 0x100000 SIZEOF_DOS_HEADER)"
    using C[OF r0, of 0 SIZEOF_DOS_HEADER] by (simp add: SIZEOF_DOS_HEADER_def)
  have nt: "copy_embedded_record SIZEOF_NT_HEADERS 0x100000 400 64 ?zero = Some (load_bytes m (0x100000 + 64) SIZEOF_NT_HEADERS)"
    by (rule C[OF r0]) (simp_all add: SIZEOF_NT_HEADERS_def SIZEOF_FILE_HEADER_def SIZEOF_OPTIONAL_HEADER_def)
  have sec: "copy_embedded_record SIZEOF_SECTION_HEADER 0x100000 400 328 ?hdr = Some (load_bytes m (0x100000 + 328) SIZEOF_SECTION_HEADER)"
    by (rule C[OF r1]) (simp_all add: SIZEOF_SECTION_HEADER_def)
  have sh: "read_section_header (load_bytes m (0x100000 + 328) SIZEOF_SECTION_HEADER) = example_section vs raw"
    using example_pe_section[OF h] by (simp add: pe_section_def)
  have nth: "read_nt_headers (load_bytes m (0x100000 + 64) SIZEOF_NT_HEADERS) = pe_headers m 0x100000"
    by (simp add: pe_headers_def example_headers(1)[OF h])
  have load: "load_pe32_plus_image 0x100000 400 0x200000 config m =
      load_checked_image 0x100000 400 0x200000 config 64 (pe_headers m 0x100000) ?zero"
    using acc dos nt example_headers(2,3)[OF h] unfolding nth[symmetric]
    by (simp add: load_pe32_plus_image_def Let_def accepts_example_def word_sless_alt)
  have t: "section_table_offset 64 (file_header (pe_headers m 0x100000)) = 328"
    by (simp add: section_table_offset_def example_headers[OF h] SIZEOF_FILE_HEADER_def)
  have "fst (load_checked_image 0x100000 400 0x200000 config 64 (pe_headers m 0x100000) ?zero) = status \<and>
      snd (snd (load_checked_image 0x100000 400 0x200000 config 64 (pe_headers m 0x100000) ?zero)) = m'"
    if "load_section 0x100000 400 0x20 0x200000 (example_section vs raw) ?hdr = (status, m')" for status m'
    using that sec sh t
    by (auto simp: load_checked_image_def example_headers[OF h] example_headers(4)[OF h acc] Let_def split: pe_image_load_status.splits)
  moreover have "res_import_directory (fst (snd (load_checked_image 0x100000 400 0x200000 config 64 (pe_headers m 0x100000) ?zero))) =
      empty_data_directory"
    by (simp add: load_checked_image_def Let_def example_headers(8)[OF h] empty_load_result_def split: option.split prod.split pe_image_load_status.split)
  ultimately show thesis using that[OF r1] unfolding load by blast
qed

lemma example_config_apart: "image_apart 0x100000 400 0x200000 (unat (loaded_image_size example_config))"
  using example_apart by (simp add: example_config_def)

text \<open>With a virtual size of 16 and 8 bytes of raw data the image is loaded.\<close>

lemma example_loads:
  assumes "holds_example x64 0x10 8 m" and "accepts_example x64 config"
    and "image_apart 0x100000 400 0x200000 (unat (loaded_image_size config))"
  obtains res m' where "load_pe32_plus_image 0x100000 400 0x200000 config m = (PE_IMAGE_LOAD_STATUS_OK, res, m')"
    and "res_import_directory res = empty_data_directory"
proof (rule example_load[OF assms])
  let ?l = "load_pe32_plus_image 0x100000 400 0x200000 config m"
  fix m1 assume "\<And>st mm. load_section 0x100000 400 0x20 0x200000 (example_section 0x10 8) m1 = (st, mm) \<Longrightarrow>
      fst ?l = st \<and> snd (snd ?l) = mm" and d: "res_import_directory (fst (snd ?l)) = empty_data_directory"
  moreover have "fst (load_section 0x100000 400 0x20 0x200000 (example_section 0x10 8) m1) = PE_IMAGE_LOAD_STATUS_OK"
    by (simp add: load_section_def example_section_def section_memory_size_def word_less_nat_alt)
  ultimately have "fst ?l = PE_IMAGE_LOAD_STATUS_OK" by (metis prod.collapse)
  then show thesis using d that by (metis prod.collapse)
qed

section \<open>Properties\<close>

text \<open>
  C34. The PE loader builds exactly the layout the image asks for. When the image lies outside the
  region and no section has more raw data than its memory size, a call changes no byte outside the
  region whatever it returns; when it returns OK, every byte of the region is the one of the
  reference layout (headers, sections over them in order, zeros elsewhere), and the entry point is
  the expected base plus an offset inside the region.
\<close>

theorem pe_image_layout:
  assumes "load_pe32_plus_image image_bytes image_size loaded_image config m = (status, res, m')"
    and "image_apart image_bytes image_size loaded_image (unat (loaded_image_size config))"
    and "\<forall>sh \<in> set (pe_sections m image_bytes). section_fits sh"
  shows "(\<forall>x. unat (loaded_image_size config) \<le> offset x loaded_image \<longrightarrow> m' x = m x) \<and>
    (status = PE_IMAGE_LOAD_STATUS_OK \<longrightarrow>
      (\<forall>x. offset x loaded_image < unat (loaded_image_size config) \<longrightarrow>
         m' x = pe_layout m image_bytes (offset x loaded_image)) \<and>
      (let oh = optional_header (pe_headers m image_bytes) in
       res_entry_point res = expected_image_base config + ucast (address_of_entry_point oh) \<and>
       unat (address_of_entry_point oh) < unat (loaded_image_size config)))"
  using load_pe_spec[OF assms] by (simp add: region_only_def)

theorem pe_image_layout_witness:
  "\<exists>res m'. load_pe32_plus_image 0x100000 400 0x200000 example_config (example_image False 0x10 8) = (PE_IMAGE_LOAD_STATUS_OK, res, m') \<and>
     m' 0x200008 = 0xC3 \<and> m' 0x200010 = 0 \<and> m' 0x200030 = example_image False 0x10 8 0x200030"
proof -
  let ?im = "example_image False 0x10 8"
  obtain res m' where ld: "load_pe32_plus_image 0x100000 400 0x200000 example_config ?im = (PE_IMAGE_LOAD_STATUS_OK, res, m')"
    by (rule example_loads[OF example_image_holds example_config_accepts example_config_apart])
  note sections = example_sections[OF example_image_holds]
  have fits: "\<forall>sh \<in> set (pe_sections ?im 0x100000). section_fits sh"
    by (simp add: sections section_fits_def example_section_def section_memory_size_def)
  have L: "loaded_image_size example_config = 0x20" by (simp add: example_config_def)
  note T = pe_image_layout[OF ld example_config_apart fits, unfolded L]
  have lay: "pe_layout ?im 0x100000 8 = 0xC3" "pe_layout ?im 0x100000 0x10 = 0"
    using example_image_byte[of 368 False "0x10" 8]
    by (simp_all add: pe_layout_def overlay_def sections section_covers_def section_byte_def example_section_def
        section_memory_size_def example_byte_def)
  have "m' 0x200008 = pe_layout ?im 0x100000 8" "m' 0x200010 = pe_layout ?im 0x100000 0x10" "m' 0x200030 = ?im 0x200030"
    using conjunct1[OF T, rule_format, of "0x200030"] conjunct1[OF conjunct2[OF T, rule_format, OF refl], rule_format, of "0x200008"]
      conjunct1[OF conjunct2[OF T, rule_format, OF refl], rule_format, of "0x200010"] by simp_all
  then show ?thesis using ld lay by auto
qed

text \<open>
  C35. The check that a section fits the image compares only its virtual size: an image whose section has
  a virtual size of 1 and 32 bytes of raw data is accepted, and the loader writes the raw data past
  the end of the 32-byte region.
\<close>

theorem pe_load_writes_past_region:
  "fst (load_pe32_plus_image 0x100000 400 0x200000 example_config (example_image False 1 0x20)) = PE_IMAGE_LOAD_STATUS_OK \<and>
   snd (snd (load_pe32_plus_image 0x100000 400 0x200000 example_config (example_image False 1 0x20))) 0x200024 = 0xC3 \<and>
   example_image False 1 0x20 0x200024 = 0 \<and>
   unat (loaded_image_size example_config) \<le> offset 0x200024 0x200000"
proof (rule example_load[OF example_image_holds[of False 1 "0x20"] example_config_accepts example_config_apart])
  fix m1
  let ?im = "example_image False 1 0x20"
  assume r1: "region_only 0x200000 (unat (loaded_image_size example_config)) ?im m1"
    and ld: "\<And>status m'. load_section 0x100000 400 0x20 0x200000 (example_section 1 0x20) m1 = (status, m') \<Longrightarrow>
      fst (load_pe32_plus_image 0x100000 400 0x200000 example_config ?im) = status \<and>
      snd (snd (load_pe32_plus_image 0x100000 400 0x200000 example_config ?im)) = m'"
  have s: "load_section 0x100000 400 0x20 0x200000 (example_section 1 0x20) m1 =
      (PE_IMAGE_LOAD_STATUS_OK, memcpy m1 0x200008 0x100170 32)"
    by (simp add: load_section_def example_section_def section_memory_size_def word_less_nat_alt)
  have "memcpy m1 0x200008 0x100170 32 = store_bytes m1 0x200008 (load_bytes m1 0x100170 32)"
  proof (intro memcpy_disjoint notI)
    fix i j :: nat assume "i < 32" "j < 32"
    then have "unat (0x100170 + of_nat i :: u64) = 0x100170 + i" "unat (0x200008 + of_nat j :: u64) = 0x200008 + j"
      using unat_add_no_wrap[of "0x100170" "of_nat i"] unat_add_no_wrap[of "0x200008" "of_nat j"]
      by (simp_all add: unat_of_nat_u64)
    moreover assume "(0x100170 + of_nat i :: u64) = 0x200008 + of_nat j"
    ultimately have "0x100170 + i = 0x200008 + j" by metis
    with \<open>i < 32\<close> show False by simp
  qed
  then have "memcpy m1 0x200008 0x100170 32 0x200024 = m1 (0x100170 + of_nat 28)"
    by (simp add: store_bytes_at nth_load_bytes del: of_nat_numeral)
  also have "... = ?im (0x100000 + of_nat 396)"
    using image_same[OF example_config_apart r1, of 396] by simp
  also have "... = 0xC3" by (subst example_image_byte) (simp_all add: example_byte_def)
  finally have byte: "memcpy m1 0x200008 0x100170 32 0x200024 = 0xC3" .
  have "?im 0x200024 = 0" by (simp add: example_image_def example_image_bytes_def Let_def)
  then show ?thesis using ld[OF s] byte by (simp add: example_config_def)
qed

end
