(* ===== verification/X64_Pe_Image.thy ===== *)
theory X64_Pe_Image
  imports Pe_Image
begin

text \<open>
  The loader of x64 images in \<open>win32/x64_pe64_image.cpp\<close>: it loads the image with the common loader and
  resolves its imports. The import resolver the caller passes (or not) is a function of the names, the
  base, the region, the next free stub offset and the memory. The loops over descriptors and
  thunks run in 32-bit relative addresses that wrap; both terminate because every iteration
  that goes on has checked that its entry lies inside the image. The theory ends with the interface a
  resolver has to satisfy, as a locale, and what the loader then guarantees.
\<close>

section \<open>Types\<close>

definition X64_USER_IMAGE_PAGE_SIZE :: u64 where "X64_USER_IMAGE_PAGE_SIZE = 4096"
definition X64_USER_IMAGE_VIRTUAL_ADDRESS :: u64 where "X64_USER_IMAGE_VIRTUAL_ADDRESS = 0x400000"
definition X64_USER_IMAGE_PAGE_COUNT :: u64 where "X64_USER_IMAGE_PAGE_COUNT = 8"

definition X64_USER_STACK_VIRTUAL_ADDRESS :: u64 where
  "X64_USER_STACK_VIRTUAL_ADDRESS = X64_USER_IMAGE_VIRTUAL_ADDRESS + X64_USER_IMAGE_PAGE_COUNT * X64_USER_IMAGE_PAGE_SIZE"

definition X64_USER_REGION_SIZE :: u64 where
  "X64_USER_REGION_SIZE = (X64_USER_IMAGE_PAGE_COUNT + 2) * X64_USER_IMAGE_PAGE_SIZE"

lemmas x64_user_layout = X64_USER_IMAGE_PAGE_SIZE_def X64_USER_IMAGE_VIRTUAL_ADDRESS_def X64_USER_IMAGE_PAGE_COUNT_def
  X64_USER_STACK_VIRTUAL_ADDRESS_def X64_USER_REGION_SIZE_def

definition PE_IMPORT_BY_ORDINAL_MASK64 :: u64 where "PE_IMPORT_BY_ORDINAL_MASK64 = push_bit 63 1"

datatype x64_pe64_import_resolution_status =
    X64_PE64_IMPORT_RESOLUTION_STATUS_OK
  | X64_PE64_IMPORT_RESOLUTION_STATUS_INVALID_ARGUMENT
  | X64_PE64_IMPORT_RESOLUTION_STATUS_UNSUPPORTED_IMPORT
  | X64_PE64_IMPORT_RESOLUTION_STATUS_IMPORT_STUB_OUT_OF_RANGE

text \<open>Names, image base, region, its size, next stub offset and memory; status, next offset, address, memory.\<close>

type_synonym import_resolver =
  "u8 list \<Rightarrow> u8 list \<Rightarrow> u64 \<Rightarrow> u64 \<Rightarrow> u64 \<Rightarrow> u64 \<Rightarrow> hmem \<Rightarrow>
     x64_pe64_import_resolution_status \<times> u64 \<times> u64 \<times> hmem"

datatype x64_pe64_image_load_status =
    X64_PE64_IMAGE_LOAD_STATUS_OK
  | X64_PE64_IMAGE_LOAD_STATUS_INVALID_ARGUMENT
  | X64_PE64_IMAGE_LOAD_STATUS_MISSING_DOS_HEADER
  | X64_PE64_IMAGE_LOAD_STATUS_INVALID_DOS_HEADER
  | X64_PE64_IMAGE_LOAD_STATUS_MISSING_NT_HEADERS
  | X64_PE64_IMAGE_LOAD_STATUS_INVALID_NT_SIGNATURE
  | X64_PE64_IMAGE_LOAD_STATUS_WRONG_MACHINE
  | X64_PE64_IMAGE_LOAD_STATUS_MISSING_SECTIONS
  | X64_PE64_IMAGE_LOAD_STATUS_UNSUPPORTED_OPTIONAL_HEADER
  | X64_PE64_IMAGE_LOAD_STATUS_UNSUPPORTED_MAGIC
  | X64_PE64_IMAGE_LOAD_STATUS_UNEXPECTED_IMAGE_BASE
  | X64_PE64_IMAGE_LOAD_STATUS_UNSUPPORTED_ALIGNMENT
  | X64_PE64_IMAGE_LOAD_STATUS_IMAGE_TOO_LARGE
  | X64_PE64_IMAGE_LOAD_STATUS_HEADERS_OUT_OF_RANGE
  | X64_PE64_IMAGE_LOAD_STATUS_ENTRY_POINT_OUT_OF_RANGE
  | X64_PE64_IMAGE_LOAD_STATUS_INVALID_IMPORT_DIRECTORY
  | X64_PE64_IMAGE_LOAD_STATUS_UNEXPECTED_IMPORTS
  | X64_PE64_IMAGE_LOAD_STATUS_UNEXPECTED_RELOCATIONS
  | X64_PE64_IMAGE_LOAD_STATUS_TRUNCATED_SECTION_TABLE
  | X64_PE64_IMAGE_LOAD_STATUS_SECTION_OUT_OF_RANGE
  | X64_PE64_IMAGE_LOAD_STATUS_SECTION_DATA_OUT_OF_RANGE
  | X64_PE64_IMAGE_LOAD_STATUS_IMPORT_TABLE_OUT_OF_RANGE
  | X64_PE64_IMAGE_LOAD_STATUS_IMPORT_NAME_OUT_OF_RANGE
  | X64_PE64_IMAGE_LOAD_STATUS_UNSUPPORTED_IMPORT
  | X64_PE64_IMAGE_LOAD_STATUS_UNSUPPORTED_IMPORT_ORDINAL
  | X64_PE64_IMAGE_LOAD_STATUS_IMPORT_STUB_OUT_OF_RANGE

record x64_pe64_image_info =
  info_entry_point :: u64
  info_image_size :: u32
  info_import_count :: u32

record pe_import_descriptor =
  original_first_thunk :: u32
  time_date_stamp :: u32
  forwarder_chain :: u32
  desc_name :: u32
  first_thunk :: u32

definition read_import_descriptor :: "u8 list \<Rightarrow> pe_import_descriptor" where
  "read_import_descriptor bs = \<lparr>original_first_thunk = ucast (field bs 0 4), time_date_stamp = ucast (field bs 4 4),
     forwarder_chain = ucast (field bs 8 4), desc_name = ucast (field bs 12 4), first_thunk = ucast (field bs 16 4)\<rparr>"

definition SIZEOF_IMPORT_DESCRIPTOR :: nat where "SIZEOF_IMPORT_DESCRIPTOR = 20"

section \<open>Access to the loaded image\<close>

definition translate_loaded_rva :: "u64 \<Rightarrow> u32 \<Rightarrow> u32 \<Rightarrow> nat \<Rightarrow> u64 option" where
  "translate_loaded_rva loaded_image image_size rva len =
     (if loaded_image = 0 then None
      else if rva > image_size \<or> of_nat len > (ucast (image_size - rva) :: u64) then None
      else Some (loaded_image + ucast rva))"

definition copy_loaded_record :: "nat \<Rightarrow> u64 \<Rightarrow> u32 \<Rightarrow> u32 \<Rightarrow> hmem \<Rightarrow> u8 list option" where
  "copy_loaded_record record_size loaded_image image_size rva m =
     (if loaded_image = 0 then None
      else if rva > image_size \<or> of_nat record_size > (ucast (image_size - rva) :: u64) then None
      else Some (load_bytes m (loaded_image + ucast rva) record_size))"

text \<open>The loop of \<open>read_loaded_ascii_string\<close> from an index on; the buffer is given back with the verdict.\<close>

fun read_ascii_loop :: "hmem \<Rightarrow> u64 \<Rightarrow> u32 \<Rightarrow> u32 \<Rightarrow> nat \<Rightarrow> nat \<Rightarrow> u8 list \<Rightarrow> bool \<times> u8 list" where
  "read_ascii_loop m loaded_image image_size rva i 0 buffer = (False, buffer[length buffer - 1 := 0])"
| "read_ascii_loop m loaded_image image_size rva i (Suc n) buffer =
     (case translate_loaded_rva loaded_image image_size (rva + of_nat i) 1 of
        None \<Rightarrow> (False, buffer)
      | Some p \<Rightarrow>
         (let buffer' = buffer[i := m p] in
          if m p = 0 then (True, buffer') else read_ascii_loop m loaded_image image_size rva (i + 1) n buffer'))"

definition read_loaded_ascii_string :: "hmem \<Rightarrow> u64 \<Rightarrow> u32 \<Rightarrow> u32 \<Rightarrow> u8 list \<Rightarrow> bool \<times> u8 list" where
  "read_loaded_ascii_string m loaded_image image_size rva buffer =
     (if loaded_image = 0 \<or> buffer = [] then (False, buffer)
      else read_ascii_loop m loaded_image image_size rva 0 (length buffer) buffer)"

definition try_resolve_import_name_rva :: "u64 \<Rightarrow> u64 \<Rightarrow> u32 \<Rightarrow> u32 option" where
  "try_resolve_import_name_rva raw_name_reference base image_size =
     (if raw_name_reference \<le> 0xFFFFFFFF \<and> raw_name_reference < ucast image_size then Some (ucast raw_name_reference)
      else if raw_name_reference < base then None
      else (let relative_reference = raw_name_reference - base in
        if relative_reference > 0xFFFFFFFF \<or> relative_reference \<ge> ucast image_size then None
        else Some (ucast relative_reference)))"

definition try_resolve_import_table_rva :: "u32 \<Rightarrow> u64 \<Rightarrow> u32 \<Rightarrow> u32 option" where
  "try_resolve_import_table_rva raw_rva_or_va = try_resolve_import_name_rva (ucast raw_rva_or_va)"

definition is_empty_import_descriptor :: "pe_import_descriptor \<Rightarrow> bool" where
  "is_empty_import_descriptor d \<longleftrightarrow> original_first_thunk d = 0 \<and> time_date_stamp d = 0 \<and> forwarder_chain d = 0 \<and>
     desc_name d = 0 \<and> first_thunk d = 0"

definition resolve_x64_import :: "import_resolver option \<Rightarrow> u8 list \<Rightarrow> u8 list \<Rightarrow> u64 \<Rightarrow> u64 \<Rightarrow> u32 \<Rightarrow> u64 \<Rightarrow> hmem \<Rightarrow>
    x64_pe64_image_load_status \<times> u64 \<times> u64 \<times> hmem" where
  "resolve_x64_import resolver dll_name function_name base loaded_image size32 next_stub_offset m =
     (if loaded_image = 0 then (X64_PE64_IMAGE_LOAD_STATUS_INVALID_ARGUMENT, next_stub_offset, 0, m)
      else (case resolver of
          None \<Rightarrow> (X64_PE64_IMAGE_LOAD_STATUS_UNSUPPORTED_IMPORT, next_stub_offset, 0, m)
        | Some resolve_import \<Rightarrow>
           (case resolve_import dll_name function_name base loaded_image (ucast size32) next_stub_offset m of
              (status, next', address, m') \<Rightarrow>
                ((case status of
                    X64_PE64_IMPORT_RESOLUTION_STATUS_OK \<Rightarrow> X64_PE64_IMAGE_LOAD_STATUS_OK
                  | X64_PE64_IMPORT_RESOLUTION_STATUS_INVALID_ARGUMENT \<Rightarrow> X64_PE64_IMAGE_LOAD_STATUS_INVALID_IMPORT_DIRECTORY
                  | X64_PE64_IMPORT_RESOLUTION_STATUS_UNSUPPORTED_IMPORT \<Rightarrow> X64_PE64_IMAGE_LOAD_STATUS_UNSUPPORTED_IMPORT
                  | X64_PE64_IMPORT_RESOLUTION_STATUS_IMPORT_STUB_OUT_OF_RANGE \<Rightarrow> X64_PE64_IMAGE_LOAD_STATUS_IMPORT_STUB_OUT_OF_RANGE),
                 next', address, m'))))"

definition map_common_load_status :: "pe_image_load_status \<Rightarrow> x64_pe64_image_load_status" where
  "map_common_load_status status = (case status of
      PE_IMAGE_LOAD_STATUS_OK \<Rightarrow> X64_PE64_IMAGE_LOAD_STATUS_OK
    | PE_IMAGE_LOAD_STATUS_INVALID_ARGUMENT \<Rightarrow> X64_PE64_IMAGE_LOAD_STATUS_INVALID_ARGUMENT
    | PE_IMAGE_LOAD_STATUS_MISSING_DOS_HEADER \<Rightarrow> X64_PE64_IMAGE_LOAD_STATUS_MISSING_DOS_HEADER
    | PE_IMAGE_LOAD_STATUS_INVALID_DOS_HEADER \<Rightarrow> X64_PE64_IMAGE_LOAD_STATUS_INVALID_DOS_HEADER
    | PE_IMAGE_LOAD_STATUS_MISSING_NT_HEADERS \<Rightarrow> X64_PE64_IMAGE_LOAD_STATUS_MISSING_NT_HEADERS
    | PE_IMAGE_LOAD_STATUS_INVALID_NT_SIGNATURE \<Rightarrow> X64_PE64_IMAGE_LOAD_STATUS_INVALID_NT_SIGNATURE
    | PE_IMAGE_LOAD_STATUS_WRONG_MACHINE \<Rightarrow> X64_PE64_IMAGE_LOAD_STATUS_WRONG_MACHINE
    | PE_IMAGE_LOAD_STATUS_MISSING_SECTIONS \<Rightarrow> X64_PE64_IMAGE_LOAD_STATUS_MISSING_SECTIONS
    | PE_IMAGE_LOAD_STATUS_UNSUPPORTED_OPTIONAL_HEADER \<Rightarrow> X64_PE64_IMAGE_LOAD_STATUS_UNSUPPORTED_OPTIONAL_HEADER
    | PE_IMAGE_LOAD_STATUS_UNSUPPORTED_MAGIC \<Rightarrow> X64_PE64_IMAGE_LOAD_STATUS_UNSUPPORTED_MAGIC
    | PE_IMAGE_LOAD_STATUS_UNEXPECTED_IMAGE_BASE \<Rightarrow> X64_PE64_IMAGE_LOAD_STATUS_UNEXPECTED_IMAGE_BASE
    | PE_IMAGE_LOAD_STATUS_UNSUPPORTED_ALIGNMENT \<Rightarrow> X64_PE64_IMAGE_LOAD_STATUS_UNSUPPORTED_ALIGNMENT
    | PE_IMAGE_LOAD_STATUS_IMAGE_TOO_LARGE \<Rightarrow> X64_PE64_IMAGE_LOAD_STATUS_IMAGE_TOO_LARGE
    | PE_IMAGE_LOAD_STATUS_HEADERS_OUT_OF_RANGE \<Rightarrow> X64_PE64_IMAGE_LOAD_STATUS_HEADERS_OUT_OF_RANGE
    | PE_IMAGE_LOAD_STATUS_ENTRY_POINT_OUT_OF_RANGE \<Rightarrow> X64_PE64_IMAGE_LOAD_STATUS_ENTRY_POINT_OUT_OF_RANGE
    | PE_IMAGE_LOAD_STATUS_INVALID_IMPORT_DIRECTORY \<Rightarrow> X64_PE64_IMAGE_LOAD_STATUS_INVALID_IMPORT_DIRECTORY
    | PE_IMAGE_LOAD_STATUS_UNEXPECTED_IMPORTS \<Rightarrow> X64_PE64_IMAGE_LOAD_STATUS_UNEXPECTED_IMPORTS
    | PE_IMAGE_LOAD_STATUS_UNEXPECTED_RELOCATIONS \<Rightarrow> X64_PE64_IMAGE_LOAD_STATUS_UNEXPECTED_RELOCATIONS
    | PE_IMAGE_LOAD_STATUS_TRUNCATED_SECTION_TABLE \<Rightarrow> X64_PE64_IMAGE_LOAD_STATUS_TRUNCATED_SECTION_TABLE
    | PE_IMAGE_LOAD_STATUS_SECTION_OUT_OF_RANGE \<Rightarrow> X64_PE64_IMAGE_LOAD_STATUS_SECTION_OUT_OF_RANGE
    | PE_IMAGE_LOAD_STATUS_SECTION_DATA_OUT_OF_RANGE \<Rightarrow> X64_PE64_IMAGE_LOAD_STATUS_SECTION_DATA_OUT_OF_RANGE)"

section \<open>The import loops\<close>

text \<open>The memory, the next stub offset and the count of imports that the loops change.\<close>

type_synonym import_state = "hmem \<times> u64 \<times> u32"

text \<open>How an iteration ends: with an error, at the terminator, or going on.\<close>

datatype import_progress = Import_Failed x64_pe64_image_load_status | Import_Finished | Import_Next

definition entry_rva :: "u32 \<Rightarrow> u32 \<Rightarrow> u32" where
  "entry_rva table thunk_index = ucast (ucast table + ucast thunk_index * 8 :: u64)"

definition thunk_step :: "import_resolver option \<Rightarrow> u8 list \<Rightarrow> u64 \<Rightarrow> u64 \<Rightarrow> u32 \<Rightarrow> u32 \<Rightarrow> u32 \<Rightarrow> u32 \<Rightarrow> u32 \<Rightarrow>
    import_state \<Rightarrow> import_progress \<times> import_state" where
  "thunk_step resolver dll_name base loaded_image size32 image_size lookup_table_rva first_thunk_rva thunk_index =
     (\<lambda>(m, next_stub_offset, import_count).
       let st = (m, next_stub_offset, import_count) in
       case copy_loaded_record 8 loaded_image image_size (entry_rva lookup_table_rva thunk_index) m of
         None \<Rightarrow> (Import_Failed X64_PE64_IMAGE_LOAD_STATUS_IMPORT_TABLE_OUT_OF_RANGE, st)
       | Some bs \<Rightarrow>
        (case translate_loaded_rva loaded_image image_size (entry_rva first_thunk_rva thunk_index) 8 of
           None \<Rightarrow> (Import_Failed X64_PE64_IMAGE_LOAD_STATUS_IMPORT_TABLE_OUT_OF_RANGE, st)
         | Some address_entry \<Rightarrow>
          (let lookup_entry = le_word bs in
           if lookup_entry = 0 then (Import_Finished, st)
           else if lookup_entry AND PE_IMPORT_BY_ORDINAL_MASK64 \<noteq> 0
           then (Import_Failed X64_PE64_IMAGE_LOAD_STATUS_UNSUPPORTED_IMPORT_ORDINAL, st)
           else (case try_resolve_import_name_rva (lookup_entry AND NOT PE_IMPORT_BY_ORDINAL_MASK64) base image_size of
               None \<Rightarrow> (Import_Failed X64_PE64_IMAGE_LOAD_STATUS_IMPORT_TABLE_OUT_OF_RANGE, st)
             | Some import_name_rva \<Rightarrow>
              (case read_loaded_ascii_string m loaded_image image_size (import_name_rva + 2) (replicate 64 0) of
                 (False, _) \<Rightarrow> (Import_Failed X64_PE64_IMAGE_LOAD_STATUS_IMPORT_NAME_OUT_OF_RANGE, st)
               | (True, function_name) \<Rightarrow>
                (case resolve_x64_import resolver dll_name function_name base loaded_image size32 next_stub_offset m of
                   (status, next', resolved_address, m') \<Rightarrow>
                     if status \<noteq> X64_PE64_IMAGE_LOAD_STATUS_OK then (Import_Failed status, m', next', import_count)
                     else (Import_Next, store_bytes m' address_entry (le_bytes 8 resolved_address), next', import_count + 1)))))))"

lemma copy_loaded_SomeD:
  assumes "copy_loaded_record n loaded_image image_size rva m = Some bs" and "n < 2 ^ 32"
  shows "unat rva + n \<le> unat image_size" and "bs = load_bytes m (loaded_image + ucast rva) n"
proof -
  have c: "rva \<le> image_size" "(of_nat n :: u64) \<le> ucast (image_size - rva)" "bs = load_bytes m (loaded_image + ucast rva) n"
    using assms(1) by (auto simp: copy_loaded_record_def not_less split: if_splits)
  have "n \<le> unat (image_size - rva)" using c(2) assms(2) by (simp add: word_le_nat_alt unat_of_nat_u64 unat_u32)
  then show "unat rva + n \<le> unat image_size" using c(1) unat_sub[OF c(1)] by (simp add: word_le_nat_alt)
  show "bs = load_bytes m (loaded_image + ucast rva) n" by (rule c(3))
qed

lemma entry_rva_next: "entry_rva table (i + 1) = entry_rva table i + 8"
proof -
  have "entry_rva table j = table + j * 8" for j
  proof -
    have "uint (entry_rva table j) = (uint table + uint j * 8) mod 2 ^ 32"
      unfolding entry_rva_def
      by (simp add: unsigned_ucast_eq uint_word_ariths take_bit_eq_mod mod_mod_cancel mod_simps)
    moreover have "uint (table + j * 8) = (uint table + uint j * 8) mod 2 ^ 32"
      by (simp add: uint_word_ariths mod_simps)
    ultimately show ?thesis by (simp add: word_uint_eq_iff)
  qed
  then show ?thesis by (simp add: algebra_simps)
qed

lemma thunk_step_smaller:
  assumes "thunk_step resolver dll_name base loaded_image size32 image_size lookup first i st = (Import_Next, st')"
  shows "unat image_size - unat (entry_rva lookup (i + 1)) < unat image_size - unat (entry_rva lookup i)"
proof -
  have "copy_loaded_record 8 loaded_image image_size (entry_rva lookup i) (fst st) \<noteq> None"
  proof
    assume "copy_loaded_record 8 loaded_image image_size (entry_rva lookup i) (fst st) = None"
    then show False using assms by (cases st) (simp add: thunk_step_def Let_def)
  qed
  then obtain bs where "copy_loaded_record 8 loaded_image image_size (entry_rva lookup i) (fst st) = Some bs" by blast
  then have le: "unat (entry_rva lookup i) + 8 \<le> unat image_size" using copy_loaded_SomeD(1)[of 8] by simp
  then have "unat (entry_rva lookup i + 8) = unat (entry_rva lookup i) + 8"
    using unsigned_less[of image_size, where 'a = nat] by (simp add: unat_word_ariths)
  then show ?thesis using le by (simp add: entry_rva_next)
qed

function thunk_loop :: "import_resolver option \<Rightarrow> u8 list \<Rightarrow> u64 \<Rightarrow> u64 \<Rightarrow> u32 \<Rightarrow> u32 \<Rightarrow> u32 \<Rightarrow> u32 \<Rightarrow> u32 \<Rightarrow>
    import_state \<Rightarrow> x64_pe64_image_load_status \<times> import_state" where
  "thunk_loop resolver dll_name base loaded_image size32 image_size lookup_table_rva first_thunk_rva thunk_index st =
     (case thunk_step resolver dll_name base loaded_image size32 image_size lookup_table_rva first_thunk_rva thunk_index st of
        (Import_Failed status, st') \<Rightarrow> (status, st')
      | (Import_Finished, st') \<Rightarrow> (X64_PE64_IMAGE_LOAD_STATUS_OK, st')
      | (Import_Next, st') \<Rightarrow>
          thunk_loop resolver dll_name base loaded_image size32 image_size lookup_table_rva first_thunk_rva (thunk_index + 1) st')"
  by pat_completeness auto
termination
  by (relation "measure (\<lambda>(_, _, _, _, _, image_size, lookup, _, i, _). unat image_size - unat (entry_rva lookup i))")
    (auto intro: thunk_step_smaller[OF sym])

declare thunk_loop.simps [simp del]

definition lookup_table_of :: "pe_import_descriptor \<Rightarrow> u64 \<Rightarrow> u32 \<Rightarrow> u32 \<Rightarrow> u32 option" where
  "lookup_table_of descriptor base image_size first_thunk_rva =
     (if original_first_thunk descriptor \<noteq> 0
      then try_resolve_import_table_rva (original_first_thunk descriptor) base image_size else Some first_thunk_rva)"

definition descriptor_step :: "import_resolver option \<Rightarrow> u64 \<Rightarrow> u64 \<Rightarrow> u32 \<Rightarrow> u32 \<Rightarrow> u32 \<Rightarrow> import_state \<Rightarrow>
    import_progress \<times> import_state" where
  "descriptor_step resolver base loaded_image size32 image_size descriptor_rva st =
     (case copy_loaded_record SIZEOF_IMPORT_DESCRIPTOR loaded_image image_size descriptor_rva (fst st) of
        None \<Rightarrow> (Import_Failed X64_PE64_IMAGE_LOAD_STATUS_IMPORT_TABLE_OUT_OF_RANGE, st)
      | Some bs \<Rightarrow>
       (let descriptor = read_import_descriptor bs in
        if is_empty_import_descriptor descriptor then (Import_Finished, st)
        else (case (try_resolve_import_table_rva (desc_name descriptor) base image_size,
                    try_resolve_import_table_rva (first_thunk descriptor) base image_size) of
            (Some dll_name_rva, Some first_thunk_rva) \<Rightarrow>
             (case lookup_table_of descriptor base image_size first_thunk_rva of
                None \<Rightarrow> (Import_Failed X64_PE64_IMAGE_LOAD_STATUS_IMPORT_TABLE_OUT_OF_RANGE, st)
              | Some lookup_table_rva \<Rightarrow>
               (case read_loaded_ascii_string (fst st) loaded_image image_size dll_name_rva (replicate 64 0) of
                  (False, _) \<Rightarrow> (Import_Failed X64_PE64_IMAGE_LOAD_STATUS_IMPORT_NAME_OUT_OF_RANGE, st)
                | (True, dll_name) \<Rightarrow>
                 (case thunk_loop resolver dll_name base loaded_image size32 image_size lookup_table_rva first_thunk_rva 0 st of
                    (X64_PE64_IMAGE_LOAD_STATUS_OK, st') \<Rightarrow> (Import_Next, st')
                  | (status, st') \<Rightarrow> (Import_Failed status, st'))))
          | _ \<Rightarrow> (Import_Failed X64_PE64_IMAGE_LOAD_STATUS_IMPORT_TABLE_OUT_OF_RANGE, st))))"

lemma descriptor_smaller:
  fixes rva limit :: u32
  assumes "(ucast rva + of_nat SIZEOF_IMPORT_DESCRIPTOR :: u64) \<le> ucast limit"
  shows "unat limit - unat (rva + of_nat SIZEOF_IMPORT_DESCRIPTOR) < unat limit - unat rva"
proof -
  have "unat (ucast rva + 20 :: u64) = unat rva + 20"
    using unat_add_no_wrap[of "ucast rva" 20] unat_u32[of rva] by simp
  then have le: "unat rva + 20 \<le> unat limit" using assms by (simp add: SIZEOF_IMPORT_DESCRIPTOR_def word_le_nat_alt unat_u32)
  then have "unat (rva + 20) = unat rva + 20" using unat_u32(2)[of limit] by (simp add: unat_word_ariths)
  then show ?thesis using le by (simp add: SIZEOF_IMPORT_DESCRIPTOR_def)
qed

function descriptor_loop :: "import_resolver option \<Rightarrow> u64 \<Rightarrow> u64 \<Rightarrow> u32 \<Rightarrow> u32 \<Rightarrow> u32 \<Rightarrow> u32 \<Rightarrow> import_state \<Rightarrow>
    x64_pe64_image_load_status \<times> import_state" where
  "descriptor_loop resolver base loaded_image size32 image_size limit descriptor_rva st =
     (if (ucast descriptor_rva + of_nat SIZEOF_IMPORT_DESCRIPTOR :: u64) \<le> ucast limit
      then (case descriptor_step resolver base loaded_image size32 image_size descriptor_rva st of
          (Import_Failed status, st') \<Rightarrow> (status, st')
        | (Import_Finished, st') \<Rightarrow> (X64_PE64_IMAGE_LOAD_STATUS_OK, st')
        | (Import_Next, st') \<Rightarrow> descriptor_loop resolver base loaded_image size32 image_size limit
            (descriptor_rva + of_nat SIZEOF_IMPORT_DESCRIPTOR) st')
      else (X64_PE64_IMAGE_LOAD_STATUS_INVALID_IMPORT_DIRECTORY, st))"
  by pat_completeness auto
termination
  by (relation "measure (\<lambda>(_, _, _, _, _, limit, rva, _). unat limit - unat rva)") (auto intro: descriptor_smaller)

declare descriptor_loop.simps [simp del]

section \<open>The loader\<close>

definition x64_load_config :: "u64 \<Rightarrow> u64 \<Rightarrow> pe_image_load_config" where
  "x64_load_config base size64 = \<lparr>expected_machine = PE_MACHINE_X64, expected_image_base = base,
     expected_section_alignment = ucast X64_USER_IMAGE_PAGE_SIZE, expected_file_alignment = ucast X64_USER_IMAGE_PAGE_SIZE,
     loaded_image_size = size64, allow_imports = True, allow_relocations = False\<rparr>"

definition resolve_imports :: "import_resolver option \<Rightarrow> u64 \<Rightarrow> u64 \<Rightarrow> u32 \<Rightarrow> pe_image_load_result \<Rightarrow> hmem \<Rightarrow>
    x64_pe64_image_load_status \<times> import_state" where
  "resolve_imports resolver base loaded_image size32 res m =
     (let d = res_import_directory res; st = (m, ucast (res_image_size res), 0) in
      if dir_virtual_address d = 0 then (X64_PE64_IMAGE_LOAD_STATUS_OK, st)
      else if dir_virtual_address d > res_image_size res \<or> dir_size d > res_image_size res - dir_virtual_address d
      then (X64_PE64_IMAGE_LOAD_STATUS_IMPORT_TABLE_OUT_OF_RANGE, st)
      else descriptor_loop resolver base loaded_image size32 (res_image_size res)
             (dir_virtual_address d + dir_size d) (dir_virtual_address d) st)"

text \<open>The count in the information record is kept when the loader fails after some imports.\<close>

definition load_x64_pe64_image :: "u64 \<Rightarrow> u64 \<Rightarrow> u64 \<Rightarrow> u64 \<Rightarrow> u64 \<Rightarrow> import_resolver option \<Rightarrow> hmem \<Rightarrow>
    x64_pe64_image_load_status \<times> x64_pe64_image_info \<times> hmem" where
  "load_x64_pe64_image image_bytes image_size base loaded_image size64 resolver m =
     (let none = \<lparr>info_entry_point = 0, info_image_size = 0, info_import_count = 0\<rparr> in
      if image_bytes = 0 \<or> loaded_image = 0 then (X64_PE64_IMAGE_LOAD_STATUS_INVALID_ARGUMENT, none, m)
      else (case load_pe32_plus_image image_bytes image_size loaded_image (x64_load_config base size64) m of
          (load_status, res, m1) \<Rightarrow>
            if map_common_load_status load_status \<noteq> X64_PE64_IMAGE_LOAD_STATUS_OK
            then (map_common_load_status load_status, none, m1)
            else (case resolve_imports resolver base loaded_image (ucast size64) res m1 of
                (status, m2, _, import_count) \<Rightarrow>
                  if status \<noteq> X64_PE64_IMAGE_LOAD_STATUS_OK
                  then (status, none\<lparr>info_import_count := import_count\<rparr>, m2)
                  else (X64_PE64_IMAGE_LOAD_STATUS_OK,
                        \<lparr>info_entry_point = res_entry_point res, info_image_size = res_image_size res,
                         info_import_count = import_count\<rparr>, m2))))"

definition describe_x64_pe64_image_load_status :: "x64_pe64_image_load_status \<Rightarrow> string" where
  "describe_x64_pe64_image_load_status status = (case status of
      X64_PE64_IMAGE_LOAD_STATUS_OK \<Rightarrow> ''x64 PE64 image loaded successfully''
    | X64_PE64_IMAGE_LOAD_STATUS_INVALID_ARGUMENT \<Rightarrow> ''x64 PE64 image loader received an invalid argument''
    | X64_PE64_IMAGE_LOAD_STATUS_MISSING_DOS_HEADER \<Rightarrow> ''x64 PE64 image is missing the DOS header''
    | X64_PE64_IMAGE_LOAD_STATUS_INVALID_DOS_HEADER \<Rightarrow> ''x64 PE64 image has an invalid DOS header''
    | X64_PE64_IMAGE_LOAD_STATUS_MISSING_NT_HEADERS \<Rightarrow> ''x64 PE64 image is missing the NT headers''
    | X64_PE64_IMAGE_LOAD_STATUS_INVALID_NT_SIGNATURE \<Rightarrow> ''x64 PE64 image has an invalid NT signature''
    | X64_PE64_IMAGE_LOAD_STATUS_WRONG_MACHINE \<Rightarrow> ''x64 PE64 image targets the wrong machine''
    | X64_PE64_IMAGE_LOAD_STATUS_MISSING_SECTIONS \<Rightarrow> ''x64 PE64 image does not define any sections''
    | X64_PE64_IMAGE_LOAD_STATUS_UNSUPPORTED_OPTIONAL_HEADER \<Rightarrow> ''x64 PE64 image has an unsupported optional header size''
    | X64_PE64_IMAGE_LOAD_STATUS_UNSUPPORTED_MAGIC \<Rightarrow> ''x64 PE64 image is not PE32+''
    | X64_PE64_IMAGE_LOAD_STATUS_UNEXPECTED_IMAGE_BASE \<Rightarrow> ''x64 PE64 image uses an unexpected image base''
    | X64_PE64_IMAGE_LOAD_STATUS_UNSUPPORTED_ALIGNMENT \<Rightarrow> ''x64 PE64 image must use 4 KiB section alignment''
    | X64_PE64_IMAGE_LOAD_STATUS_IMAGE_TOO_LARGE \<Rightarrow> ''x64 PE64 image does not fit in the initial user region''
    | X64_PE64_IMAGE_LOAD_STATUS_HEADERS_OUT_OF_RANGE \<Rightarrow> ''x64 PE64 image headers are out of range''
    | X64_PE64_IMAGE_LOAD_STATUS_ENTRY_POINT_OUT_OF_RANGE \<Rightarrow> ''x64 PE64 image entry point is out of range''
    | X64_PE64_IMAGE_LOAD_STATUS_INVALID_IMPORT_DIRECTORY \<Rightarrow> ''x64 PE64 image has an invalid import directory''
    | X64_PE64_IMAGE_LOAD_STATUS_UNEXPECTED_IMPORTS \<Rightarrow> ''x64 PE64 image unexpectedly imports system libraries''
    | X64_PE64_IMAGE_LOAD_STATUS_UNEXPECTED_RELOCATIONS \<Rightarrow> ''x64 PE64 image unexpectedly requires relocations''
    | X64_PE64_IMAGE_LOAD_STATUS_TRUNCATED_SECTION_TABLE \<Rightarrow> ''x64 PE64 image section table is truncated''
    | X64_PE64_IMAGE_LOAD_STATUS_SECTION_OUT_OF_RANGE \<Rightarrow> ''x64 PE64 image section exceeds the declared image size''
    | X64_PE64_IMAGE_LOAD_STATUS_SECTION_DATA_OUT_OF_RANGE \<Rightarrow> ''x64 PE64 image section data is out of range''
    | X64_PE64_IMAGE_LOAD_STATUS_IMPORT_TABLE_OUT_OF_RANGE \<Rightarrow> ''x64 PE64 image import table is out of range''
    | X64_PE64_IMAGE_LOAD_STATUS_IMPORT_NAME_OUT_OF_RANGE \<Rightarrow> ''x64 PE64 image import name is out of range''
    | X64_PE64_IMAGE_LOAD_STATUS_UNSUPPORTED_IMPORT \<Rightarrow> ''x64 PE64 image imports an unsupported Windows symbol''
    | X64_PE64_IMAGE_LOAD_STATUS_UNSUPPORTED_IMPORT_ORDINAL \<Rightarrow> ''x64 PE64 image imports by ordinal, which is not supported yet''
    | X64_PE64_IMAGE_LOAD_STATUS_IMPORT_STUB_OUT_OF_RANGE \<Rightarrow> ''x64 PE64 image import thunks do not fit in the initial user region'')"

section \<open>The interface of a resolver\<close>

text \<open>
  What the loader relies on: a resolver writes only inside the region, and an address it hands out
  lies in the region as the program sees it.
\<close>

definition resolver_confined :: "import_resolver option \<Rightarrow> bool" where
  "resolver_confined resolver \<longleftrightarrow> (\<forall>dll_name symbol_name base loaded_image size32 next m.
     region_only loaded_image (unat size32) m
       (snd (snd (snd (resolve_x64_import resolver dll_name symbol_name base loaded_image size32 next m)))))"

lemma no_resolver_confined: "resolver_confined None"
  by (simp add: resolver_confined_def resolve_x64_import_def region_only_def)

locale stub_resolver =
  fixes resolve :: import_resolver
  assumes writes_in_region: "resolve dll_name symbol_name base loaded_image size64 next m = (status, next', address, m') \<Longrightarrow>
      region_only loaded_image (unat size64) m m'"
    and target_in_region: "resolve dll_name symbol_name base loaded_image size64 next m =
      (X64_PE64_IMPORT_RESOLUTION_STATUS_OK, next', address, m') \<Longrightarrow> offset address base < unat size64"
begin

lemma confined: "resolver_confined (Some resolve)"
  unfolding resolver_confined_def
proof (intro allI)
  fix dll_name symbol_name base loaded_image nx m and size32 :: u32
  obtain st n a mm where r: "resolve dll_name symbol_name base loaded_image (ucast size32) nx m = (st, n, a, mm)"
    by (metis prod_cases4)
  show "region_only loaded_image (unat size32) m
      (snd (snd (snd (resolve_x64_import (Some resolve) dll_name symbol_name base loaded_image size32 nx m))))"
    using writes_in_region[OF r] by (simp add: resolve_x64_import_def r unat_u32 region_only_def)
qed

text \<open>Every slot of the address table that the loader fills holds an address inside the region.\<close>

lemma filled_slot:
  assumes "thunk_step (Some resolve) dll_name base loaded_image size32 image_size lookup first i st = (Import_Next, st')"
  shows "offset (le_word (load_bytes (fst st') (loaded_image + ucast (entry_rva first i)) 8)) base < unat size32"
proof -
  obtain m n c where st: "st = (m, n, c)" by (metis prod_cases3)
  have target: "offset a base < unat size32"
    if "resolve_x64_import (Some resolve) d f base loaded_image size32 n m = (X64_PE64_IMAGE_LOAD_STATUS_OK, n', a, m')" for d f n' a m'
  proof -
    obtain s2 n2 a2 m2 where r: "resolve d f base loaded_image (ucast size32) n m = (s2, n2, a2, m2)" by (metis prod_cases4)
    then have "s2 = X64_PE64_IMPORT_RESOLUTION_STATUS_OK" "a2 = a"
      using that by (auto simp: resolve_x64_import_def split: if_splits x64_pe64_import_resolution_status.splits)
    then show ?thesis using target_in_region[of d f base loaded_image "ucast size32" n m n2 a m2] r by (simp add: unat_u32)
  qed
  obtain f n' a m' p where r: "resolve_x64_import (Some resolve) dll_name f base loaded_image size32 n m = (X64_PE64_IMAGE_LOAD_STATUS_OK, n', a, m')"
    and p: "translate_loaded_rva loaded_image image_size (entry_rva first i) 8 = Some p" and m': "fst st' = store_bytes m' p (le_bytes 8 a)"
    using assms unfolding thunk_step_def st Let_def
    by (auto split: option.splits if_splits prod.splits bool.splits)
  have "p = loaded_image + ucast (entry_rva first i)" using p by (auto simp: translate_loaded_rva_def split: if_splits)
  then have "load_bytes (fst st') (loaded_image + ucast (entry_rva first i)) 8 = le_bytes 8 a"
    using load_store_same[of "le_bytes 8 a" m' p] by (simp add: m')
  then show ?thesis using target[OF r] by simp
qed

end

section \<open>The loader stays in its region\<close>

lemma translate_loaded_SomeD:
  assumes "translate_loaded_rva loaded_image image_size rva n = Some p" and "n < 2 ^ 32"
  shows "p = loaded_image + ucast rva" and "unat rva + n \<le> unat image_size"
proof -
  obtain bs where "copy_loaded_record n loaded_image image_size rva (\<lambda>_. 0) = Some bs" and p: "p = loaded_image + ucast rva"
    using assms(1) by (auto simp: translate_loaded_rva_def copy_loaded_record_def split: if_splits)
  then show "p = loaded_image + ucast rva" "unat rva + n \<le> unat image_size"
    using copy_loaded_SomeD(1)[OF _ assms(2)] by blast+
qed

lemma region_address_entry:
  assumes "translate_loaded_rva loaded_image image_size rva 8 = Some p" and "image_size \<le> size32"
  shows "region_only loaded_image (unat size32) m (store_bytes m p (le_bytes 8 v))"
proof -
  note T = translate_loaded_SomeD[OF assms(1)]
  have le: "unat rva + 8 \<le> unat size32" using T(2) assms(2) by (simp add: word_le_nat_alt)
  have "store_bytes m (loaded_image + ucast rva) (le_bytes 8 v) x = m x" if "unat size32 \<le> offset x loaded_image" for x
    using store_shifted[of "ucast rva" "le_bytes 8 v" m loaded_image x] le that unat_u32[of size32] by (simp add: unat_u32)
  then show ?thesis using T(1) by (simp add: region_only_def)
qed

lemma thunk_step_region:
  assumes r: "resolver_confined resolver" and sz: "image_size \<le> size32"
    and s: "thunk_step resolver dll_name base loaded_image size32 image_size lookup first i st = (p, st')"
  shows "region_only loaded_image (unat size32) (fst st) (fst st')"
proof -
  obtain m n c where st: "st = (m, n, c)" by (metis prod_cases3)
  have res: "region_only loaded_image (unat size32) m m'"
    if "resolve_x64_import resolver dll_name f base loaded_image size32 n m = (status, n', a, m')" for f status n' a m'
    using r that unfolding resolver_confined_def by (metis snd_conv)
  show ?thesis
    using s region_trans[OF res region_address_entry[OF _ sz]]
    unfolding thunk_step_def st Let_def
    by (auto simp: region_refl res split: option.splits if_splits prod.splits bool.splits)
qed

lemma thunk_loop_region:
  assumes "resolver_confined resolver" and "image_size \<le> size32"
    and "thunk_loop resolver dll_name base loaded_image size32 image_size lookup first i st = (status, st')"
  shows "region_only loaded_image (unat size32) (fst st) (fst st')"
  using assms
proof (induction resolver dll_name base loaded_image size32 image_size lookup first i st rule: thunk_loop.induct)
  case (1 resolver dll_name base loaded_image size32 image_size lookup first i st)
  obtain p st1 where s: "thunk_step resolver dll_name base loaded_image size32 image_size lookup first i st = (p, st1)" by (metis surj_pair)
  have r1: "region_only loaded_image (unat size32) (fst st) (fst st1)" by (rule thunk_step_region[OF "1.prems"(1,2) s])
  show ?case
  proof (cases p)
    case Import_Next
    then have "thunk_loop resolver dll_name base loaded_image size32 image_size lookup first (i + 1) st1 = (status, st')"
      using "1.prems"(3) s by (simp add: thunk_loop.simps[of _ _ _ _ _ _ _ _ i])
    then show ?thesis using "1.IH"[OF s[symmetric] Import_Next "1.prems"(1,2)] region_trans[OF r1] by blast
  qed (use "1.prems"(3) s r1 in \<open>auto simp: thunk_loop.simps[of _ _ _ _ _ _ _ _ i]\<close>)
qed

lemma descriptor_step_region:
  assumes "resolver_confined resolver" and "image_size \<le> size32"
    and "descriptor_step resolver base loaded_image size32 image_size rva st = (p, st')"
  shows "region_only loaded_image (unat size32) (fst st) (fst st')"
  using assms(3) unfolding descriptor_step_def Let_def
  by (auto simp: region_refl dest!: thunk_loop_region[OF assms(1,2)]
      split: option.splits if_splits prod.splits bool.splits x64_pe64_image_load_status.splits)

lemma descriptor_loop_region:
  assumes "resolver_confined resolver" and "image_size \<le> size32"
    and "descriptor_loop resolver base loaded_image size32 image_size limit rva st = (status, st')"
  shows "region_only loaded_image (unat size32) (fst st) (fst st')"
  using assms
proof (induction resolver base loaded_image size32 image_size limit rva st rule: descriptor_loop.induct)
  case (1 resolver base loaded_image size32 image_size limit rva st)
  obtain p st1 where s: "descriptor_step resolver base loaded_image size32 image_size rva st = (p, st1)" by (metis surj_pair)
  have r1: "region_only loaded_image (unat size32) (fst st) (fst st1)" by (rule descriptor_step_region[OF "1.prems"(1,2) s])
  show ?case
  proof (cases "(ucast rva + of_nat SIZEOF_IMPORT_DESCRIPTOR :: u64) \<le> ucast limit \<and> p = Import_Next")
    case True
    then have "descriptor_loop resolver base loaded_image size32 image_size limit (rva + of_nat SIZEOF_IMPORT_DESCRIPTOR) st1 = (status, st')"
      using "1.prems"(3) s by (simp add: descriptor_loop.simps[of _ _ _ _ _ _ rva])
    then show ?thesis
      using "1.IH"[OF conjunct1[OF True] s[symmetric] conjunct2[OF True] "1.prems"(1,2)] region_trans[OF r1] by blast
  next
    case False
    then show ?thesis
      using "1.prems"(3) s r1 by (cases p) (auto simp: descriptor_loop.simps[of _ _ _ _ _ _ rva] region_refl split: if_splits)
  qed
qed

lemma resolve_imports_region:
  assumes "resolver_confined resolver" and "res_image_size res \<le> size32"
    and "resolve_imports resolver base loaded_image size32 res m = (status, m', next', count)"
  shows "region_only loaded_image (unat size32) m m'"
  using assms(3) descriptor_loop_region[OF assms(1,2)] unfolding resolve_imports_def Let_def
  by (fastforce simp: region_refl split: if_splits)

lemma load_pe_image_size:
  assumes "load_pe32_plus_image image_bytes image_size loaded_image config m = (PE_IMAGE_LOAD_STATUS_OK, res, m')"
  shows "ucast (res_image_size res) \<le> loaded_image_size config"
  using assms check_headers_passed(1)
  by (auto simp: load_pe32_plus_image_def load_checked_image_def empty_load_result_def Let_def
      split: if_splits option.splits prod.splits pe_image_load_status.splits)

lemma map_common_OK: "map_common_load_status status = X64_PE64_IMAGE_LOAD_STATUS_OK \<longleftrightarrow> status = PE_IMAGE_LOAD_STATUS_OK"
  by (cases status) (simp_all add: map_common_load_status_def)

text \<open>Whatever the image, what the import resolution adds to the work of the common loader stays in the region.\<close>

lemma load_x64_imports:
  assumes ld: "load_x64_pe64_image image_bytes image_size base loaded_image size64 resolver m = (status, info, m')"
    and res: "resolver_confined resolver" and sz: "unat size64 < 2 ^ 32"
    and l: "load_pe32_plus_image image_bytes image_size loaded_image (x64_load_config base size64) m = (st0, r0, m1)"
  shows "region_only loaded_image (unat size64) m1 m'"
    and "status = X64_PE64_IMAGE_LOAD_STATUS_OK \<Longrightarrow> st0 = PE_IMAGE_LOAD_STATUS_OK \<and> info_entry_point info = res_entry_point r0"
proof -
  obtain st2 m2 n2 c2 where i: "resolve_imports resolver base loaded_image (ucast size64) r0 m1 = (st2, m2, n2, c2)"
    by (metis prod_cases4)
  have s32: "unat (ucast size64 :: u32) = unat size64" using sz by (simp add: unsigned_ucast_eq take_bit_nat_eq_self)
  have r2: "region_only loaded_image (unat size64) m1 m2" if "st0 = PE_IMAGE_LOAD_STATUS_OK"
  proof -
    have "ucast (res_image_size r0) \<le> size64" using load_pe_image_size[of image_bytes image_size loaded_image "x64_load_config base size64" m r0 m1] l that
      by (simp add: x64_load_config_def)
    then have "res_image_size r0 \<le> ucast size64" by (simp add: word_le_nat_alt s32 unat_u32)
    then show ?thesis using resolve_imports_region[OF res _ i] by (simp add: s32)
  qed
  have "m' = m1 \<or> st0 = PE_IMAGE_LOAD_STATUS_OK \<and> m' = m2"
  proof (cases "image_bytes = 0 \<or> loaded_image = 0")
    case True
    then have "m1 = m" "m' = m" using l ld by (auto simp: load_pe32_plus_image_def load_x64_pe64_image_def Let_def)
    then show ?thesis by simp
  next
    case False
    then show ?thesis
      using ld l i by (auto simp: load_x64_pe64_image_def Let_def map_common_OK split: if_splits)
  qed
  then show "region_only loaded_image (unat size64) m1 m'" using r2 region_refl by blast
  show "status = X64_PE64_IMAGE_LOAD_STATUS_OK \<Longrightarrow> st0 = PE_IMAGE_LOAD_STATUS_OK \<and> info_entry_point info = res_entry_point r0"
    using ld l i by (auto simp: load_x64_pe64_image_def Let_def map_common_OK split: if_splits)
qed

lemma load_x64_spec:
  assumes ld: "load_x64_pe64_image image_bytes image_size base loaded_image size64 resolver m = (status, info, m')"
    and res: "resolver_confined resolver" and sz: "unat size64 < 2 ^ 32"
    and apart: "image_apart image_bytes image_size loaded_image (unat size64)"
    and fits: "\<forall>sh \<in> set (pe_sections m image_bytes). section_fits sh"
  shows "region_only loaded_image (unat size64) m m'"
    and "status = X64_PE64_IMAGE_LOAD_STATUS_OK \<Longrightarrow> offset (info_entry_point info) base < unat size64"
proof -
  obtain st0 r0 m1 where l: "load_pe32_plus_image image_bytes image_size loaded_image (x64_load_config base size64) m = (st0, r0, m1)"
    by (metis prod_cases3)
  have cfg: "loaded_image_size (x64_load_config base size64) = size64" "expected_image_base (x64_load_config base size64) = base"
    by (simp_all add: x64_load_config_def)
  note P = load_pe_spec[OF l, unfolded cfg, OF apart fits] and I = load_x64_imports[OF ld res sz l]
  show "region_only loaded_image (unat size64) m m'" using P I(1) region_trans by blast
  assume "status = X64_PE64_IMAGE_LOAD_STATUS_OK"
  from I(2)[OF this] show "offset (info_entry_point info) base < unat size64" using P by (simp add: Let_def unat_u32)
qed

text \<open>Without assumptions on the image, writes stay above the start of the region.\<close>

lemma load_x64_reach:
  assumes ld: "load_x64_pe64_image image_bytes image_size base loaded_image size64 resolver m = (status, info, m')"
    and res: "resolver_confined resolver" and sz: "unat size64 < 2 ^ 32"
  shows "region_only loaded_image (2 ^ 33) m m'"
proof -
  obtain st0 r0 m1 where l: "load_pe32_plus_image image_bytes image_size loaded_image (x64_load_config base size64) m = (st0, r0, m1)"
    by (metis prod_cases3)
  have cfg: "loaded_image_size (x64_load_config base size64) = size64" by (simp add: x64_load_config_def)
  have r1: "region_only loaded_image (2 ^ 33) m m1" using load_pe_reach[OF l, unfolded cfg] sz by simp
  obtain st2 m2 n2 c2 where i: "resolve_imports resolver base loaded_image (ucast size64) r0 m1 = (st2, m2, n2, c2)"
    by (metis prod_cases4)
  have s32: "unat (ucast size64 :: u32) = unat size64" using sz by (simp add: unsigned_ucast_eq take_bit_nat_eq_self)
  have r2: "region_only loaded_image (2 ^ 33) m1 m2" if "st0 = PE_IMAGE_LOAD_STATUS_OK"
  proof -
    have "ucast (res_image_size r0) \<le> size64" using load_pe_image_size l that cfg by metis
    then have "res_image_size r0 \<le> ucast size64" by (simp add: word_le_nat_alt s32 unat_u32)
    then show ?thesis using resolve_imports_region[OF res _ i] sz by (auto simp: s32 intro: region_mono)
  qed
  have "m' = m \<or> m' = m1 \<or> st0 = PE_IMAGE_LOAD_STATUS_OK \<and> m' = m2"
    using ld l i by (auto simp: load_x64_pe64_image_def Let_def map_common_OK split: if_splits)
  then show ?thesis using r1 region_trans[OF r1 r2] region_refl by blast
qed

section \<open>An example image\<close>

lemma example_x64_load:
  assumes "holds_example True 0x10 8 m" and "0x20 \<le> size64" and "image_apart 0x100000 400 0x200000 (unat size64)"
  obtains info m' where
    "load_x64_pe64_image 0x100000 400 0x400000 0x200000 size64 resolver m = (X64_PE64_IMAGE_LOAD_STATUS_OK, info, m')"
proof -
  let ?c = "x64_load_config 0x400000 size64"
  have acc: "accepts_example True ?c"
    using assms(2) by (simp add: accepts_example_def x64_load_config_def example_machine_def X64_USER_IMAGE_PAGE_SIZE_def)
  have "image_apart 0x100000 400 0x200000 (unat (loaded_image_size ?c))" using assms(3) by (simp add: x64_load_config_def)
  then obtain res m1 where l: "load_pe32_plus_image 0x100000 400 0x200000 ?c m = (PE_IMAGE_LOAD_STATUS_OK, res, m1)"
    "res_import_directory res = empty_data_directory"
    by (rule example_loads[OF assms(1) acc])
  then have "resolve_imports resolver 0x400000 0x200000 (ucast size64) res m1 =
      (X64_PE64_IMAGE_LOAD_STATUS_OK, m1, ucast (res_image_size res), 0)"
    by (simp add: resolve_imports_def empty_data_directory_def)
  then show thesis using l that by (simp add: load_x64_pe64_image_def Let_def map_common_OK)
qed

end
