(* ===== verification/Win32_Emulation.thy ===== *)
theory Win32_Emulation
  imports X64_Pe_Image Kernel_Objects X64_Results
begin

text \<open>
  The import resolver of \<open>win32/x64_win32_emulation.cpp\<close> with its table of exports
  (\<open>win32/generated/x64_win32_dll_exports.cpp\<close>): it finds the export of a symbol and writes a stub of
  eleven bytes that turns the call of a Windows function into a system call. C strings are byte lists
  that end at their first zero byte or at the end of the list. The theory shows that the resolver
  satisfies the interface of the loader, what its name comparison accepts, and that the stub does in
  the emulator what it is written for.
\<close>

section \<open>Names\<close>

definition to_lower_ascii :: "u8 \<Rightarrow> u8" where
  "to_lower_ascii v = (if of_char CHR ''A'' \<le> v \<and> v \<le> of_char CHR ''Z'' then v - of_char CHR ''A'' + of_char CHR ''a'' else v)"

definition char_at :: "u8 list \<Rightarrow> nat \<Rightarrow> u8" where
  "char_at s i = (if i < length s then s ! i else 0)"

lemma char_at_nonempty: "char_at s i \<noteq> 0 \<Longrightarrow> i < length s"
  by (auto simp: char_at_def split: if_splits)

lemma char_at_Cons [simp]: "char_at (c # cs) 0 = c" "char_at [] i = 0" "char_at (c # cs) (Suc i) = char_at cs i"
  by (simp_all add: char_at_def)

definition has_dll_suffix :: "u8 list \<Rightarrow> bool" where
  "has_dll_suffix v \<longleftrightarrow> char_at v 0 \<noteq> 0 \<and> to_lower_ascii (char_at v 0) = of_char CHR ''d'' \<and>
     to_lower_ascii (char_at v 1) = of_char CHR ''l'' \<and> to_lower_ascii (char_at v 2) = of_char CHR ''l'' \<and> char_at v 3 = 0"

text \<open>The loop of \<open>dll_names_match\<close> on the rests of the two strings, with the test after the loop.\<close>

function dll_names_match :: "u8 list \<Rightarrow> u8 list \<Rightarrow> bool" where
  "dll_names_match imported_name registered_name =
     (if char_at registered_name 0 \<noteq> 0
      then (if char_at imported_name 0 = 0 \<or>
               to_lower_ascii (char_at imported_name 0) \<noteq> to_lower_ascii (char_at registered_name 0) then False
            else dll_names_match (tl imported_name) (tl registered_name))
      else char_at imported_name 0 = 0 \<or>
        char_at imported_name 0 = of_char CHR ''.'' \<and> has_dll_suffix (tl imported_name))"
  by pat_completeness auto
termination
  by (relation "measure (length \<circ> snd)") (auto dest: char_at_nonempty)

declare dll_names_match.simps [simp del]

function symbol_names_match :: "u8 list \<Rightarrow> u8 list \<Rightarrow> bool" where
  "symbol_names_match left right =
     (if char_at left 0 \<noteq> 0 \<and> char_at right 0 \<noteq> 0
      then (if char_at left 0 \<noteq> char_at right 0 then False else symbol_names_match (tl left) (tl right))
      else char_at left 0 = 0 \<and> char_at right 0 = 0)"
  by pat_completeness auto
termination
  by (relation "measure (length \<circ> snd)") (auto dest: char_at_nonempty)

declare symbol_names_match.simps [simp del]

section \<open>The resolver\<close>

record x64_win32_dll_export =
  export_dll_name :: "u8 list"
  export_symbol_name :: "u8 list"
  export_syscall_number :: u64

definition X64_WIN32_DLL_EXPORTS :: "x64_win32_dll_export list" where
  "X64_WIN32_DLL_EXPORTS =
     [\<lparr>export_dll_name = map of_char ''kernel32'', export_symbol_name = map of_char ''OutputDebugStringA'',
       export_syscall_number = SYSCALL_DEBUG_LOG\<rparr>,
      \<lparr>export_dll_name = map of_char ''kernel32'', export_symbol_name = map of_char ''ExitProcess'',
       export_syscall_number = SYSCALL_THREAD_EXIT\<rparr>]"

definition X64_WIN32_IMPORT_STUB_SIZE :: u64 where "X64_WIN32_IMPORT_STUB_SIZE = 11"

definition win32_align_up :: "u64 \<Rightarrow> u64 \<Rightarrow> u64" where
  "win32_align_up v alignment = (if alignment = 0 then v
     else let remainder = v mod alignment in if remainder = 0 then v else v + (alignment - remainder))"

text \<open>The bytes that \<open>write_u32_le\<close> stores, and those of the whole stub.\<close>

definition write_u32_le :: "u32 \<Rightarrow> u8 list" where
  "write_u32_le v = [ucast (v AND 0xFF), ucast (drop_bit 8 v AND 0xFF), ucast (drop_bit 16 v AND 0xFF), ucast (drop_bit 24 v AND 0xFF)]"

definition import_stub :: "u32 \<Rightarrow> u8 list" where
  "import_stub number = [0x48, 0x89, 0xCF, 0xB8] @ write_u32_le number @ [0x0F, 0x05, 0xC3]"

definition resolve_x64_win32_import :: import_resolver where
  "resolve_x64_win32_import dll_name symbol_name base loaded_image size64 next_stub_offset m =
     (if loaded_image = 0 then (X64_PE64_IMPORT_RESOLUTION_STATUS_INVALID_ARGUMENT, next_stub_offset, 0, m)
      else (case find (\<lambda>e. dll_names_match dll_name (export_dll_name e) \<and> symbol_names_match symbol_name (export_symbol_name e))
                   X64_WIN32_DLL_EXPORTS of
          None \<Rightarrow> (X64_PE64_IMPORT_RESOLUTION_STATUS_UNSUPPORTED_IMPORT, next_stub_offset, 0, m)
        | Some resolved_export \<Rightarrow>
            if export_syscall_number resolved_export > 0xFFFFFFFF
            then (X64_PE64_IMPORT_RESOLUTION_STATUS_IMPORT_STUB_OUT_OF_RANGE, next_stub_offset, 0, m)
            else (let stub_offset = win32_align_up next_stub_offset 16 in
              if stub_offset > size64 \<or> X64_WIN32_IMPORT_STUB_SIZE > size64 - stub_offset
              then (X64_PE64_IMPORT_RESOLUTION_STATUS_IMPORT_STUB_OUT_OF_RANGE, next_stub_offset, 0, m)
              else (X64_PE64_IMPORT_RESOLUTION_STATUS_OK, stub_offset + X64_WIN32_IMPORT_STUB_SIZE, base + stub_offset,
                    store_bytes m (loaded_image + stub_offset)
                      (import_stub (ucast (export_syscall_number resolved_export)))))))"

definition get_x64_win32_import_resolver :: "import_resolver option" where
  "get_x64_win32_import_resolver = Some resolve_x64_win32_import"

section \<open>The resolver satisfies the interface\<close>

lemma length_import_stub [simp]: "length (import_stub number) = 11"
  by (simp add: import_stub_def write_u32_le_def)

lemma write_u32_le_bytes: "write_u32_le v = le_bytes 4 (ucast v)"
proof -
  have m: "(0xFF :: u32) = mask 8" by (simp add: mask_eq_exp_minus_1)
  have "ucast (w AND 0xFF :: u32) = (ucast w :: u8)" for w
    unfolding m by (rule bit_word_eqI) (simp add: bit_simps)
  moreover have d: "ucast (drop_bit n v :: u32) = (ucast (drop_bit n (ucast v :: u64)) :: u8)" if "n \<le> 24" for n
    using that by (intro bit_word_eqI) (auto simp: bit_simps)
  moreover have "le_bytes 4 w = [ucast w, ucast (drop_bit 8 w), ucast (drop_bit 16 w), ucast (drop_bit 24 w)]" for w
    by (simp add: eval_nat_numeral(2,3))
  ultimately show ?thesis using d[of 0] by (simp add: write_u32_le_def)
qed

lemma resolve_win32_cases:
  assumes "resolve_x64_win32_import dll_name symbol_name base loaded_image size64 nx m = (status, nx', address, m')"
  obtains "status \<noteq> X64_PE64_IMPORT_RESOLUTION_STATUS_OK" "m' = m"
  | e where "status = X64_PE64_IMPORT_RESOLUTION_STATUS_OK" "e \<in> set X64_WIN32_DLL_EXPORTS"
      "dll_names_match dll_name (export_dll_name e)" "symbol_names_match symbol_name (export_symbol_name e)"
      "unat (win32_align_up nx 16) + 11 \<le> unat size64" "address = base + win32_align_up nx 16"
      "m' = store_bytes m (loaded_image + win32_align_up nx 16) (import_stub (ucast (export_syscall_number e)))"
proof -
  have fits: "unat o1 + 11 \<le> unat size64" if "\<not> (o1 > size64 \<or> X64_WIN32_IMPORT_STUB_SIZE > size64 - o1)" for o1
    using that unat_sub_no_wrap[of o1 size64] by (auto simp: not_less word_le_nat_alt X64_WIN32_IMPORT_STUB_SIZE_def)
  let ?find = "find (\<lambda>e. dll_names_match dll_name (export_dll_name e) \<and> symbol_names_match symbol_name (export_symbol_name e))
    X64_WIN32_DLL_EXPORTS"
  show thesis
  proof (cases "status = X64_PE64_IMPORT_RESOLUTION_STATUS_OK")
    case False
    moreover have "m' = m" using assms False unfolding resolve_x64_win32_import_def Let_def by (auto split: if_splits option.splits)
    ultimately show thesis by (rule that(1))
  next
    case True
    then obtain e where e: "?find = Some e"
      using assms unfolding resolve_x64_win32_import_def Let_def by (auto split: if_splits option.splits)
    have "e \<in> set X64_WIN32_DLL_EXPORTS" "dll_names_match dll_name (export_dll_name e)"
      "symbol_names_match symbol_name (export_symbol_name e)" using e by (auto simp: find_Some_iff)
    then show thesis
      using True assms that(2)[of e] fits unfolding resolve_x64_win32_import_def Let_def e by (auto split: if_splits)
  qed
qed

interpretation win32: stub_resolver resolve_x64_win32_import
proof unfold_locales
  fix dll_name symbol_name base loaded_image size64 nx m status nx' address m'
  assume r: "resolve_x64_win32_import dll_name symbol_name base loaded_image size64 nx m = (status, nx', address, m')"
  then show "region_only loaded_image (unat size64) m m'"
  proof (cases rule: resolve_win32_cases)
    case (2 e)
    then show ?thesis
      using store_shifted[of "win32_align_up nx 16" "import_stub (ucast (export_syscall_number e))" m loaded_image]
        unat_lt_u64[of size64] by (simp add: region_only_def)
  qed (simp add: region_refl)
next
  fix dll_name symbol_name base loaded_image size64 nx m nx' address m'
  assume r: "resolve_x64_win32_import dll_name symbol_name base loaded_image size64 nx m =
      (X64_PE64_IMPORT_RESOLUTION_STATUS_OK, nx', address, m')"
  then show "offset address base < unat size64" by (cases rule: resolve_win32_cases) auto
qed

section \<open>Names, as specified\<close>

lemma c_string_Cons: "c_string (c # cs) = (if c = 0 then [] else c # c_string cs)" "c_string [] = []"
  by (simp_all add: c_string_def)

lemma symbol_names_match_iff: "symbol_names_match left right \<longleftrightarrow> c_string left = c_string right"
proof (induction left right rule: symbol_names_match.induct)
  case (1 left right)
  show ?case
    unfolding symbol_names_match.simps[of left right]
    using 1 by (cases left; cases right) (auto simp: c_string_Cons)
qed

text \<open>The reference: equal up to ASCII case, with or without the suffix.\<close>

definition lower_name :: "u8 list \<Rightarrow> u8 list" where
  "lower_name s = map to_lower_ascii (c_string s)"

lemma to_lower_special:
  "to_lower_ascii c = 0 \<longleftrightarrow> c = 0" "to_lower_ascii c = of_char CHR ''.'' \<longleftrightarrow> c = of_char CHR ''.''"
proof -
  have "to_lower_ascii c = 0 \<longleftrightarrow> c = 0" "to_lower_ascii c = 46 \<longleftrightarrow> c = 46"
    by (auto simp: to_lower_ascii_def of_char_Char word_le_nat_alt word_unat_eq_iff unat_word_ariths)
  then show "to_lower_ascii c = 0 \<longleftrightarrow> c = 0" "to_lower_ascii c = of_char CHR ''.'' \<longleftrightarrow> c = of_char CHR ''.''"
    by (simp_all add: of_char_Char)
qed

lemma lower_name_Cons: "lower_name (c # cs) = (if c = 0 then [] else to_lower_ascii c # lower_name cs)" "lower_name [] = []"
  by (simp_all add: lower_name_def c_string_Cons)

lemma has_dll_suffix_iff: "has_dll_suffix v \<longleftrightarrow> lower_name v = map of_char ''dll''"
proof -
  have d: "to_lower_ascii c = of_char CHR ''d'' \<Longrightarrow> c \<noteq> 0" "to_lower_ascii c = of_char CHR ''l'' \<Longrightarrow> c \<noteq> 0" for c
    using to_lower_special(1)[of c] by (auto simp: of_char_Char)
  have e: "lower_name w = [] \<longleftrightarrow> char_at w 0 = 0" for w by (cases w) (simp_all add: lower_name_Cons)
  have c: "lower_name w = x # xs \<longleftrightarrow> char_at w 0 \<noteq> 0 \<and> to_lower_ascii (char_at w 0) = x \<and> lower_name (tl w) = xs" for w x xs
    by (cases w) (auto simp: lower_name_Cons)
  have t: "char_at (tl w) i = char_at w (Suc i)" for w i by (cases w) simp_all
  show ?thesis
    unfolding has_dll_suffix_def list.map c e t using d by (auto simp: numeral_eq_Suc)
qed

lemma dll_names_match_iff:
  "dll_names_match imported_name registered_name \<longleftrightarrow> lower_name imported_name = lower_name registered_name \<or>
     lower_name imported_name = lower_name registered_name @ map of_char ''.dll''"
proof (induction imported_name registered_name rule: dll_names_match.induct)
  case (1 imported_name registered_name)
  have dot: "lower_name s = map of_char ''.dll'' \<longleftrightarrow>
      char_at s 0 = of_char CHR ''.'' \<and> lower_name (tl s) = map of_char ''dll''" for s
    using to_lower_special(2)[of "hd s"] by (cases s) (auto simp: lower_name_Cons of_char_Char)
  have empty: "char_at s 0 = 0 \<longleftrightarrow> lower_name s = []" for s by (cases s) (simp_all add: lower_name_Cons)
  have ne: "char_at s 0 \<noteq> 0 \<Longrightarrow> lower_name s = to_lower_ascii (char_at s 0) # lower_name (tl s)" for s
    by (cases s) (simp_all add: lower_name_Cons)
  note unfold = dll_names_match.simps[of imported_name registered_name]
  show ?case
  proof (cases "char_at registered_name 0 = 0")
    case True
    then have "lower_name registered_name = []" by (simp add: empty)
    then show ?thesis unfolding unfold has_dll_suffix_iff using True empty[of imported_name] dot[of imported_name] by simp
  next
    case reg: False
    show ?thesis
    proof (cases "char_at imported_name 0 = 0")
      case True
      then have "lower_name imported_name = []" by (simp add: empty)
      then show ?thesis unfolding unfold using reg True ne[OF reg] by simp
    next
      case False
      then show ?thesis unfolding unfold using reg 1[OF reg] ne[OF reg] ne[OF False] by auto
    qed
  qed
qed

section \<open>The stub in the emulator\<close>

text \<open>Guest memory holds the bytes at a guest address.\<close>

definition code_at :: "'k x64_execution_context \<Rightarrow> u64 \<Rightarrow> u8 list \<Rightarrow> bool" where
  "code_at c a bs \<longleftrightarrow> mem_bytes (x_memory c) \<noteq> 0 \<and> mem_base_address (x_memory c) \<le> a \<and>
     unat (a - mem_base_address (x_memory c)) + length bs \<le> unat (mem_size (x_memory c)) \<and>
     unat a + length bs \<le> 2 ^ 64 \<and>
     load_bytes (x_host c) (mem_bytes (x_memory c) + (a - mem_base_address (x_memory c))) (length bs) = bs"

lemma code_at_translate:
  assumes "code_at c a bs" and "k + n \<le> length bs" and "x_memory c' = x_memory c" and "0 < n"
  shows "translate_guest_pointer (a + of_nat k) (of_nat n) c' =
    (Some (mem_bytes (x_memory c) + (a - mem_base_address (x_memory c)) + of_nat k), c')"
proof -
  let ?b = "mem_base_address (x_memory c)" and ?s = "mem_size (x_memory c)"
  have c: "mem_bytes (x_memory c) \<noteq> 0" "?b \<le> a" "unat (a - ?b) + length bs \<le> unat ?s" "unat a + length bs \<le> 2 ^ 64"
    using assms(1) by (auto simp: code_at_def)
  have ab: "unat (a - ?b) = unat a - unat ?b" using c(2) by (rule unat_sub_no_wrap)
  have k: "unat (of_nat k :: u64) = k" "unat (of_nat n :: u64) = n" using c(4) assms(2,4) unat_lt_u64[of ?s] c(3)
    by (auto intro!: unat_of_nat_u64)
  have ak: "unat (a + of_nat k) = unat a + k"
    using c(4) assms(2,4) k by (subst unat_add_no_wrap) auto
  then have ge: "?b \<le> a + of_nat k" using c(2) by (simp add: word_le_nat_alt)
  have off: "unat (a + of_nat k - ?b) = unat (a - ?b) + k"
    using unat_sub_no_wrap[OF ge] ak ab c(2) by (simp add: word_le_nat_alt)
  have le: "a + of_nat k - ?b \<le> ?s" using off c(3) assms(2) by (simp add: word_le_nat_alt)
  have "unat (?s - (a + of_nat k - ?b)) = unat ?s - (unat (a - ?b) + k)" using unat_sub_no_wrap[OF le] off by simp
  then have fit: "of_nat n \<le> ?s - (a + of_nat k - ?b)" using c(3) assms(2) k by (simp add: word_le_nat_alt)
  show ?thesis
    using c(1) ge le fit assms(3) by (simp add: translate_guest_pointer_def Let_def not_less algebra_simps)
qed

lemma code_at_reads:
  assumes "code_at c a bs" and m: "x_memory c' = x_memory c" "x_host c' = x_host c"
  shows "k < length bs \<Longrightarrow> read_u8 (a + of_nat k) c' = (Some (bs ! k), c')"
    and "k + 4 \<le> length bs \<Longrightarrow> read_u32 (a + of_nat k) c' = (Some (ucast (le_word (take 4 (drop k bs)))), c')"
proof -
  let ?p = "mem_bytes (x_memory c) + (a - mem_base_address (x_memory c))"
  have bs: "load_bytes (x_host c) ?p (length bs) = bs" using assms(1) by (simp add: code_at_def)
  have sub: "load_bytes (x_host c) (?p + of_nat k) n = take n (drop k bs)" if "k + n \<le> length bs" for n
  proof (rule nth_equalityI)
    fix i assume i: "i < length (load_bytes (x_host c) (?p + of_nat k) n)"
    then have "bs ! (k + i) = x_host c (?p + of_nat (k + i))"
      using that nth_load_bytes[of "k + i" "length bs" "x_host c" ?p] bs by simp
    then show "load_bytes (x_host c) (?p + of_nat k) n ! i = take n (drop k bs) ! i"
      using i that by (simp add: nth_load_bytes add.assoc)
  qed (use that in simp)
  show "read_u8 (a + of_nat k) c' = (Some (bs ! k), c')" if "k < length bs"
    using code_at_translate[OF assms(1), of k 1 c'] that m sub[of 1]
    by (simp add: read_u8_def attempt_def Cons_nth_drop_Suc[symmetric])
  show "read_u32 (a + of_nat k) c' = (Some (ucast (le_word (take 4 (drop k bs)))), c')" if "k + 4 \<le> length bs"
    using code_at_translate[OF assms(1), of k 4 c'] that m sub[of 4] by (simp add: read_u32_def attempt_def)
qed

text \<open>The fields of the context that matter here, after the updates the handlers make.\<close>

lemma update_fields:
  "x_memory (set_fault i c) = x_memory c" "x_host (set_fault i c) = x_host c" "x_env (set_fault i c) = x_env c"
  "x_state (set_fault i c) = x_state c" "x_handle_syscall (set_fault i c) = x_handle_syscall c"
  "x_memory (set_fault_opcode b c) = x_memory c" "x_host (set_fault_opcode b c) = x_host c"
  "x_env (set_fault_opcode b c) = x_env c" "x_state (set_fault_opcode b c) = x_state c"
  "x_handle_syscall (set_fault_opcode b c) = x_handle_syscall c"
  "x_memory (retire c) = x_memory c" "x_host (retire c) = x_host c" "x_env (retire c) = x_env c"
  "x_state (retire c) = x_state c" "x_handle_syscall (retire c) = x_handle_syscall c"
  "x_memory (set_instruction_pointer v c) = x_memory c" "x_host (set_instruction_pointer v c) = x_host c"
  "x_env (set_instruction_pointer v c) = x_env c" "x_handle_syscall (set_instruction_pointer v c) = x_handle_syscall c"
  "x_state (set_instruction_pointer v c) = (x_state c)\<lparr>e_instruction_pointer := v\<rparr>"
  "x_memory (set_register64 r w c) = x_memory c" "x_host (set_register64 r w c) = x_host c"
  "x_env (set_register64 r w c) = x_env c" "x_handle_syscall (set_register64 r w c) = x_handle_syscall c"
  "x_state (set_register64 r w c) = (x_state c)\<lparr>general_registers := (general_registers (x_state c))[r := w]\<rparr>"
  by (simp_all add: set_fault_def set_fault_opcode_def retire_def set_instruction_pointer_def set_register64_def)

lemma ucast_u64_u32: "ucast (ucast w :: u64) = w" for w :: u32
  by (rule bit_word_eqI) (auto simp: bit_ucast_iff)

lemma stub_mov_rdi:
  assumes "code_at c a (import_stub number)" and "e_instruction_pointer (x_state c) = a"
  obtains c1 where "interpreter_step c = (True, c1)" and "x_memory c1 = x_memory c" and "x_host c1 = x_host c"
    and "x_env c1 = x_env c" and "x_handle_syscall c1 = x_handle_syscall c"
    and "x_state c1 = (x_state c)\<lparr>general_registers := (general_registers (x_state c))[7 := general_registers (x_state c) ! 1],
      e_instruction_pointer := a + 3\<rparr>"
proof -
  let ?i = "\<lparr>i_address = a, i_opcode_address = a + 1, i_next_address = a + 2, i_opcode = 0x89, prefix_66 = False,
    prefix_f2 = False, prefix_f3 = False, rex_w = True, rex_r = False, rex_x = False, rex_b = False\<rparr>"
  note R = code_at_reads(1)[OF assms(1)]
  have b: "read_u8 a c' = (Some 0x48, c')" "read_u8 (a + 1) c' = (Some 0x89, c')" "read_u8 (a + 2) c' = (Some 0xCF, c')"
    if "x_memory c' = x_memory c" "x_host c' = x_host c" for c'
    using R[OF that, of 0] R[OF that, of 1] R[OF that, of 2] by (simp_all add: import_stub_def)
  have d: "decode_x64_instruction c = (Some ?i, c)"
    using b[OF refl refl] assms(2)
    by (simp add: decode_x64_instruction_def Let_def decode_prefixes.simps apply_prefix_def add.assoc)
  have "x64_dispatch ?i c = (X64_INSTRUCTION_OUTCOME_CONTINUE_RUNNING,
      set_instruction_pointer (a + 3) (set_register64 7 (get_register64 (set_fault ?i c) 1) (set_fault ?i c)))"
    using b(3)[of "set_fault ?i c"]
    by (simp add: x64_dispatch_def primary_opcode_handler_def execute_x64_mov_register_def attempt_def update_fields
        modrm_mod_def modrm_reg_def modrm_rm_def extended_index_def continue_at_def add.assoc Let_def)
  then show thesis
    using d by (intro that[of "retire (set_instruction_pointer (a + 3)
        (set_register64 7 (get_register64 (set_fault ?i c) 1) (set_fault ?i c)))"])
      (simp_all add: interpreter_step_def update_fields get_register64_def)
qed

lemma stub_mov_eax:
  assumes "code_at c a (import_stub number)" and "e_instruction_pointer (x_state c) = a + 3"
  obtains c1 where "interpreter_step c = (True, c1)" and "x_memory c1 = x_memory c" and "x_host c1 = x_host c"
    and "x_env c1 = x_env c" and "x_handle_syscall c1 = x_handle_syscall c"
    and "x_state c1 = (x_state c)\<lparr>general_registers := (general_registers (x_state c))[0 := ucast number],
      e_instruction_pointer := a + 8\<rparr>"
proof -
  let ?i = "\<lparr>i_address = a + 3, i_opcode_address = a + 3, i_next_address = a + 4, i_opcode = 0xB8, prefix_66 = False,
    prefix_f2 = False, prefix_f3 = False, rex_w = False, rex_r = False, rex_x = False, rex_b = False\<rparr>"
  have b: "read_u8 (a + 3) c = (Some 0xB8, c)"
    using code_at_reads(1)[OF assms(1) refl refl, of 3] by (simp add: import_stub_def numeral_eq_Suc)
  have d: "decode_x64_instruction c = (Some ?i, c)"
    using b assms(2) by (simp add: decode_x64_instruction_def Let_def decode_prefixes.simps apply_prefix_def add.assoc)
  have "take 4 (drop 4 (import_stub number)) = le_bytes 4 (ucast number)" by (simp add: import_stub_def write_u32_le_bytes)
  moreover have "le_word (le_bytes 4 (ucast number)) = ucast number"
    unfolding le_word_le_bytes by (rule bit_word_eqI) (auto simp: bit_take_bit_iff bit_ucast_iff dest: bit_imp_le_length)
  ultimately have q: "read_u32 (a + 4) (set_fault ?i c) = (Some number, set_fault ?i c)"
    using code_at_reads(2)[OF assms(1), of "set_fault ?i c" 4] by (simp add: update_fields ucast_u64_u32)
  have "x64_dispatch ?i c = (X64_INSTRUCTION_OUTCOME_CONTINUE_RUNNING,
      set_instruction_pointer (a + 8) (set_register32 0 number (set_fault ?i c)))"
    using q
    by (simp add: x64_dispatch_def primary_opcode_handler_def execute_x64_mov_immediate32_def reject_rex_w_def attempt_def
        continue_at_def add.assoc Let_def)
  then show thesis
    using d by (intro that[of "retire (set_instruction_pointer (a + 8)
        (set_register32 0 number (set_fault ?i c)))"])
      (simp_all add: interpreter_step_def update_fields set_register32_def)
qed

lemma stub_syscall:
  assumes "code_at c a (import_stub number)" and "e_instruction_pointer (x_state c) = a + 8"
    and h: "x_handle_syscall c = Some handler"
    and r: "handler (x_env c) (x_host c) ((x_state c)\<lparr>e_instruction_pointer := a + 10\<rparr>) = (r, env, m)"
  obtains c1 where "interpreter_step c = (sr_action r = X64_EMULATOR_SYSCALL_ACTION_CONTINUE, c1)"
    and "x_env c1 = env" and "x_host c1 = m"
    and "x_state c1 = (x_state c)\<lparr>general_registers := (general_registers (x_state c))[0 := scast (sr_status r)],
      e_instruction_pointer := a + 10\<rparr>"
proof -
  let ?i = "\<lparr>i_address = a + 8, i_opcode_address = a + 8, i_next_address = a + 9, i_opcode = 0x0F, prefix_66 = False,
    prefix_f2 = False, prefix_f3 = False, rex_w = False, rex_r = False, rex_x = False, rex_b = False\<rparr>"
  note R = code_at_reads(1)[OF assms(1)]
  have stub: "import_stub number ! 8 = 0x0F" "import_stub number ! 9 = 0x05"
    by (simp_all add: import_stub_def write_u32_le_def nth_append)
  have b: "read_u8 (a + 8) c = (Some 0x0F, c)" "read_u8 (a + 9) (set_fault ?i c) = (Some 0x05, set_fault ?i c)"
    using R[OF refl refl, of 8] R[of "set_fault ?i c" 9] by (simp_all add: stub update_fields)
  have d: "decode_x64_instruction c = (Some ?i, c)"
    using b(1) assms(2) by (simp add: decode_x64_instruction_def Let_def decode_prefixes.simps apply_prefix_def add.assoc)
  let ?c = "set_instruction_pointer (a + 10) (set_fault_opcode 0x05 (set_fault ?i c))"
  let ?c2 = "set_register64 0 (scast (sr_status r)) (?c\<lparr>x_host := m, x_env := env\<rparr>)"
  have "call_handle_syscall ?c = (r, ?c\<lparr>x_host := m, x_env := env\<rparr>)"
    using h r by (simp add: call_handle_syscall_def update_fields)
  then have x: "x64_dispatch ?i c = (case sr_action r of
      X64_EMULATOR_SYSCALL_ACTION_EXIT_THREAD \<Rightarrow> (X64_INSTRUCTION_OUTCOME_RETIRE_AND_STOP, set_thread_exited ?c2)
    | X64_EMULATOR_SYSCALL_ACTION_YIELD \<Rightarrow> (X64_INSTRUCTION_OUTCOME_RETIRE_AND_STOP, set_yielded ?c2)
    | X64_EMULATOR_SYSCALL_ACTION_CONTINUE \<Rightarrow> (X64_INSTRUCTION_OUTCOME_CONTINUE_RUNNING, ?c2))"
    using b(2) by (simp add: x64_dispatch_def dispatch_secondary_opcode_def secondary_opcode_handler_def
        execute_x64_syscall_def Let_def X64_GENERAL_REGISTER_RAX_def add.assoc)
  have f: "x_env ?c2 = env" "x_host ?c2 = m"
    "x_state ?c2 = (x_state c)\<lparr>general_registers := (general_registers (x_state c))[0 := scast (sr_status r)],
      e_instruction_pointer := a + 10\<rparr>"
    by (simp_all add: update_fields)
  show thesis
  proof (cases "sr_action r")
    case X64_EMULATOR_SYSCALL_ACTION_CONTINUE
    then show thesis using d x f by (intro that[of "retire ?c2"]) (simp_all add: interpreter_step_def update_fields)
  next
    case X64_EMULATOR_SYSCALL_ACTION_YIELD
    then show thesis
      using d x f by (intro that[of "retire (set_yielded ?c2)"]) (simp_all add: interpreter_step_def retire_def set_yielded_def)
  next
    case X64_EMULATOR_SYSCALL_ACTION_EXIT_THREAD
    then show thesis
      using d x f by (intro that[of "retire (set_thread_exited ?c2)"]) (simp_all add: interpreter_step_def retire_def set_thread_exited_def)
  qed
qed

lemma stub_code_at:
  assumes r: "resolve_x64_win32_import dll_name symbol_name base loaded_image size64 nx m =
      (X64_PE64_IMPORT_RESOLUTION_STATUS_OK, nx', address, m')"
    and mem: "x_memory c = \<lparr>mem_base_address = base, mem_bytes = loaded_image, mem_size = size64\<rparr>" and host: "x_host c = m'"
    and top: "unat base + unat size64 \<le> 2 ^ 64"
  obtains e where "e \<in> set X64_WIN32_DLL_EXPORTS" and "dll_names_match dll_name (export_dll_name e)"
    and "symbol_names_match symbol_name (export_symbol_name e)" and "code_at c address (import_stub (ucast (export_syscall_number e)))"
  using r
proof (cases rule: resolve_win32_cases)
  case (2 e)
  let ?o = "win32_align_up nx 16"
  have nz: "loaded_image \<noteq> 0" using r by (auto simp: resolve_x64_win32_import_def)
  have a: "address - base = ?o" using 2 by simp
  have u: "unat address = unat base + unat ?o"
    using 2 top by (simp add: unat_add_no_wrap)
  have "load_bytes m' (loaded_image + ?o) 11 = import_stub (ucast (export_syscall_number e))"
    using load_store_same[of "import_stub (ucast (export_syscall_number e))" m "loaded_image + ?o"] 2(7) by simp
  then have "code_at c address (import_stub (ucast (export_syscall_number e)))"
    using 2 nz u top by (simp add: code_at_def mem host a word_le_nat_alt)
  then show thesis using that 2 by blast
qed simp

lemma export_numbers: "e \<in> set X64_WIN32_DLL_EXPORTS \<Longrightarrow> ucast (ucast (export_syscall_number e) :: u32) = export_syscall_number e"
  by (auto simp: X64_WIN32_DLL_EXPORTS_def SYSCALL_DEBUG_LOG_def SYSCALL_THREAD_EXIT_def)

text \<open>What running the stub means: three instructions that end in the system call.\<close>

definition runs_syscall :: "'k x64_execution_context \<Rightarrow> u64 \<Rightarrow> u64 \<Rightarrow> bool" where
  "runs_syscall c address number \<longleftrightarrow> (\<exists>c1 c2 c3.
     interpreter_step c = (True, c1) \<and> interpreter_step c1 = (True, c2) \<and>
     (let g = general_registers (x_state c);
          s = (x_state c)\<lparr>general_registers := g[X64_GENERAL_REGISTER_RDI := g ! X64_GENERAL_REGISTER_RCX,
                X64_GENERAL_REGISTER_RAX := number], e_instruction_pointer := address + 10\<rparr> in
      case x_handle_syscall c of None \<Rightarrow> False
      | Some handler \<Rightarrow>
         (case handler (x_env c) (x_host c) s of
            (r, env, m) \<Rightarrow> interpreter_step c2 = (sr_action r = X64_EMULATOR_SYSCALL_ACTION_CONTINUE, c3) \<and>
              x_env c3 = env \<and> x_host c3 = m \<and>
              x_state c3 = s\<lparr>general_registers := (general_registers s)[X64_GENERAL_REGISTER_RAX := scast (sr_status r)]\<rparr>)))"

lemma stub_runs:
  assumes code: "code_at c a (import_stub number)" and ip: "e_instruction_pointer (x_state c) = a"
    and h: "x_handle_syscall c = Some handler"
  shows "runs_syscall c a (ucast number)"
proof -
  obtain c1 where s1: "interpreter_step c = (True, c1)" and m1: "x_memory c1 = x_memory c" "x_host c1 = x_host c"
    and e1: "x_env c1 = x_env c" "x_handle_syscall c1 = x_handle_syscall c"
    and st1: "x_state c1 = (x_state c)\<lparr>general_registers := (general_registers (x_state c))[7 := general_registers (x_state c) ! 1],
      e_instruction_pointer := a + 3\<rparr>"
    by (rule stub_mov_rdi[OF code ip])
  have code1: "code_at c1 a (import_stub number)" and "e_instruction_pointer (x_state c1) = a + 3"
    using code m1 st1 by (simp_all add: code_at_def)
  then obtain c2 where s2: "interpreter_step c1 = (True, c2)" and m2: "x_memory c2 = x_memory c1" "x_host c2 = x_host c1"
    and e2: "x_env c2 = x_env c1" "x_handle_syscall c2 = x_handle_syscall c1"
    and st2: "x_state c2 = (x_state c1)\<lparr>general_registers := (general_registers (x_state c1))[0 := ucast number],
      e_instruction_pointer := a + 8\<rparr>"
    by (rule stub_mov_eax)
  have code2: "code_at c2 a (import_stub number)" and ip2: "e_instruction_pointer (x_state c2) = a + 8"
    and h2: "x_handle_syscall c2 = Some handler"
    using code1 m2 st2 e1 e2 h by (simp_all add: code_at_def)
  obtain r env m where r: "handler (x_env c2) (x_host c2) ((x_state c2)\<lparr>e_instruction_pointer := a + 10\<rparr>) = (r, env, m)"
    by (metis prod_cases3)
  obtain c3 where s3: "interpreter_step c2 = (sr_action r = X64_EMULATOR_SYSCALL_ACTION_CONTINUE, c3)"
    "x_env c3 = env" "x_host c3 = m"
    "x_state c3 = (x_state c2)\<lparr>general_registers := (general_registers (x_state c2))[0 := scast (sr_status r)],
      e_instruction_pointer := a + 10\<rparr>"
    by (rule stub_syscall[OF code2 ip2 h2 r])
  show ?thesis
    unfolding runs_syscall_def
    using s1 s2 s3 r h m1 m2 e1 e2
    by (intro exI[of _ c1] exI[of _ c2] exI[of _ c3])
      (simp add: Let_def st1 st2 X64_GENERAL_REGISTER_RDI_def X64_GENERAL_REGISTER_RCX_def X64_GENERAL_REGISTER_RAX_def)
qed

section \<open>Properties\<close>

text \<open>
  C36. An import that the resolver accepts becomes its system call. The imported names are those of
  one of the exports (the library up to ASCII case and with or without \<open>.dll\<close>, the symbol exactly), and a
  guest that jumps to the address handed out executes three instructions: they call the kernel with the
  export's system call number in RAX and the first Windows argument, RCX, in RDI, leave every other register
  alone, and put the status in RAX.
\<close>

theorem win32_import_becomes_syscall:
  assumes r: "resolve_x64_win32_import dll_name symbol_name base loaded_image size64 nx m =
      (X64_PE64_IMPORT_RESOLUTION_STATUS_OK, nx', address, m')"
    and mem: "x_memory c = \<lparr>mem_base_address = base, mem_bytes = loaded_image, mem_size = size64\<rparr>" and host: "x_host c = m'"
    and top: "unat base + unat size64 \<le> 2 ^ 64"
    and ip: "e_instruction_pointer (x_state c) = address" and h: "x_handle_syscall c \<noteq> None"
  shows "\<exists>e \<in> set X64_WIN32_DLL_EXPORTS.
    (lower_name dll_name = lower_name (export_dll_name e) \<or>
     lower_name dll_name = lower_name (export_dll_name e) @ map of_char ''.dll'') \<and>
    c_string symbol_name = c_string (export_symbol_name e) \<and>
    runs_syscall c address (export_syscall_number e)"
proof -
  obtain e where e: "e \<in> set X64_WIN32_DLL_EXPORTS" "dll_names_match dll_name (export_dll_name e)"
    "symbol_names_match symbol_name (export_symbol_name e)" "code_at c address (import_stub (ucast (export_syscall_number e)))"
    by (rule stub_code_at[OF r mem host top])
  obtain handler where "x_handle_syscall c = Some handler" using h by blast
  then have "runs_syscall c address (export_syscall_number e)"
    using stub_runs[OF e(4) ip] export_numbers[OF e(1)] by simp
  then show ?thesis using e(1-3) dll_names_match_iff symbol_names_match_iff by blast
qed

text \<open>A kernel that records the number and the first argument of every call, and a guest at the stub.\<close>

definition recording_handler :: "u64 \<times> u64 \<Rightarrow> hmem \<Rightarrow> x64_emulator_state \<Rightarrow> x64_emulator_syscall_result \<times> (u64 \<times> u64) \<times> hmem" where
  "recording_handler env m s =
     (\<lparr>sr_status = 0, sr_action = X64_EMULATOR_SYSCALL_ACTION_EXIT_THREAD\<rparr>,
      (general_registers s ! X64_GENERAL_REGISTER_RAX, general_registers s ! X64_GENERAL_REGISTER_RDI), m)"

definition stub_guest :: "(u64 \<times> u64) x64_execution_context" where
  "stub_guest =
     \<lparr>x_state = \<lparr>general_registers = [0, 7, 0, 0, 0, 0, 0, 0, 0, 0, 0, 0, 0, 0, 0, 0], simd_registers = [],
        e_instruction_pointer = 0x1020, e_flags = 0\<rparr>,
      x_memory = \<lparr>mem_base_address = 0x1000, mem_bytes = 0x8000, mem_size = 0x100\<rparr>,
      x_handle_syscall = Some recording_handler,
      x_options = \<lparr>opt_engine = X64_EMULATOR_ENGINE_INTERPRETER, opt_instruction_budget = 10\<rparr>,
      x_result = \<lparr>completion = X64_EMULATOR_COMPLETION_INVALID_ARGUMENT,
        guest_stop_reason = X64_EMULATOR_GUEST_STOP_REASON_NONE, backend_failure = X64_EMULATOR_BACKEND_FAILURE_NONE,
        retired_instructions = 0, fault_address = 0, fault_opcode = 0,
        fault = \<lparr>fault_instruction_pointer = 0, fault_memory_address = 0, fault_byte = 0\<rparr>\<rparr>,
      x_host = store_bytes (\<lambda>_. 0) 0x8020 (import_stub (ucast SYSCALL_THREAD_EXIT)), x_env = (0, 0)\<rparr>"

lemma resolve_ExitProcess:
  "resolve_x64_win32_import (map of_char ''KERNEL32.dll'') (map of_char ''ExitProcess'') 0x1000 0x8000 0x100 0x1F (\<lambda>_. 0) =
     (X64_PE64_IMPORT_RESOLUTION_STATUS_OK, 0x2B, 0x1020,
      store_bytes (\<lambda>_. 0) 0x8020 (import_stub (ucast SYSCALL_THREAD_EXIT)))"
proof -
  have "dll_names_match (map of_char ''KERNEL32.dll'') (map of_char ''kernel32'')" by code_simp
  moreover have "\<not> symbol_names_match (map of_char ''ExitProcess'') (map of_char ''OutputDebugStringA'')" by code_simp
  moreover have "symbol_names_match (map of_char ''ExitProcess'') (map of_char ''ExitProcess'')" by code_simp
  ultimately show ?thesis
    by (simp add: resolve_x64_win32_import_def X64_WIN32_DLL_EXPORTS_def win32_align_up_def X64_WIN32_IMPORT_STUB_SIZE_def
        SYSCALL_THREAD_EXIT_def Let_def del: list.map)
qed

theorem win32_import_becomes_syscall_witness:
  "\<exists>c1 c2 c3. interpreter_step stub_guest = (True, c1) \<and> interpreter_step c1 = (True, c2) \<and> interpreter_step c2 = (False, c3) \<and>
     x_env c3 = (SYSCALL_THREAD_EXIT, 7)"
proof -
  let ?d = "map of_char ''KERNEL32.dll'' :: u8 list" and ?s = "map of_char ''ExitProcess'' :: u8 list"
  have "\<exists>e \<in> set X64_WIN32_DLL_EXPORTS.
      (lower_name ?d = lower_name (export_dll_name e) \<or> lower_name ?d = lower_name (export_dll_name e) @ map of_char ''.dll'') \<and>
      c_string ?s = c_string (export_symbol_name e) \<and> runs_syscall stub_guest 0x1020 (export_syscall_number e)"
    by (rule win32_import_becomes_syscall[OF resolve_ExitProcess])
      (simp_all add: stub_guest_def SYSCALL_THREAD_EXIT_def)
  then obtain e where e: "e \<in> set X64_WIN32_DLL_EXPORTS" "c_string ?s = c_string (export_symbol_name e)"
    and r: "runs_syscall stub_guest 0x1020 (export_syscall_number e)" by blast
  have "export_syscall_number e = SYSCALL_THREAD_EXIT \<or> export_symbol_name e = map of_char ''OutputDebugStringA''"
    using e(1) unfolding X64_WIN32_DLL_EXPORTS_def by fastforce
  moreover have "c_string ?s \<noteq> c_string (map of_char ''OutputDebugStringA'')" by code_simp
  ultimately have "export_syscall_number e = SYSCALL_THREAD_EXIT" using e(2) by metis
  then show ?thesis
    using r by (auto simp: runs_syscall_def stub_guest_def recording_handler_def Let_def X64_GENERAL_REGISTER_RDI_def
        X64_GENERAL_REGISTER_RCX_def X64_GENERAL_REGISTER_RAX_def)
qed

text \<open>
  C37. Where loading an x64 image writes, with the Windows resolver or with none, for a region below 4 GiB. Whatever the
  image, the resolution of its imports changes no byte outside the region, neither by the stubs nor by the address
  table it fills, on success and when it fails in the middle. If besides the image does not overlap the region, and every
  section's raw data fit its memory size, which the loader does not check, the whole call changes no byte
  outside the region and on success the entry point lies in it.
\<close>

theorem x64_image_confined:
  assumes "load_x64_pe64_image image_bytes image_size base loaded_image size64 resolver m = (status, info, m')"
    and "resolver \<in> {None, get_x64_win32_import_resolver}" and "unat size64 < 2 ^ 32"
  shows "(\<forall>x. unat size64 \<le> offset x loaded_image \<longrightarrow>
      m' x = snd (snd (load_pe32_plus_image image_bytes image_size loaded_image (x64_load_config base size64) m)) x) \<and>
    (image_apart image_bytes image_size loaded_image (unat size64) \<and> (\<forall>sh \<in> set (pe_sections m image_bytes). section_fits sh) \<longrightarrow>
      (\<forall>x. unat size64 \<le> offset x loaded_image \<longrightarrow> m' x = m x) \<and>
      (status = X64_PE64_IMAGE_LOAD_STATUS_OK \<longrightarrow> offset (info_entry_point info) base < unat size64))"
proof -
  have r: "resolver_confined resolver"
    using assms(2) win32.confined no_resolver_confined by (auto simp: get_x64_win32_import_resolver_def)
  obtain st0 r0 m1 where l: "load_pe32_plus_image image_bytes image_size loaded_image (x64_load_config base size64) m = (st0, r0, m1)"
    by (metis prod_cases3)
  show ?thesis
    using load_x64_imports(1)[OF assms(1) r assms(3) l] load_x64_spec[OF assms(1) r assms(3)] by (auto simp: region_only_def l)
qed

theorem x64_image_confined_witness:
  "\<exists>info m'. load_x64_pe64_image 0x100000 400 0x400000 0x200000 0x20 get_x64_win32_import_resolver (example_image True 0x10 8) =
     (X64_PE64_IMAGE_LOAD_STATUS_OK, info, m') \<and> m' 0x200030 = example_image True 0x10 8 0x200030 \<and>
     offset (info_entry_point info) 0x400000 < 0x20"
proof -
  let ?im = "example_image True 0x10 8"
  have apart: "image_apart 0x100000 400 0x200000 (unat (0x20 :: u64))" using example_apart by simp
  obtain info m' where l: "load_x64_pe64_image 0x100000 400 0x400000 0x200000 0x20 get_x64_win32_import_resolver ?im =
      (X64_PE64_IMAGE_LOAD_STATUS_OK, info, m')" by (rule example_x64_load[OF example_image_holds order_refl apart])
  have fits: "\<forall>sh \<in> set (pe_sections ?im 0x100000). section_fits sh"
    by (simp add: example_sections[OF example_image_holds] section_fits_def example_section_def section_memory_size_def)
  have "get_x64_win32_import_resolver \<in> {None, get_x64_win32_import_resolver}" "unat (0x20 :: u64) < 2 ^ 32" by simp_all
  from x64_image_confined[OF l this, THEN conjunct2, THEN mp, OF conjI[OF apart fits]] show ?thesis using l by simp
qed

end
