(* ===== verification/Debug_Output.thy ===== *)
theory Debug_Output
  imports User_Runtime
begin

text \<open>
  The debug channel below \<open>debug_log\<close>: \<open>kernel/debug.cpp\<close>, \<open>kernel/panic.cpp\<close> and the two writers of
  \<open>arch/x64/debug.cpp\<close> and \<open>arch/arm64/debug.cpp\<close>. The instructions that leave the machine are events; a
  reference definition says what the host receives of them. The locale states what the line format needs of
  a writer, and that lines can be read back; the theory interprets it on both writers.
\<close>

section \<open>The writers\<close>

text \<open>
  What the inline assembly does: an \<open>outb\<close>, a semihosting call with the operation and the array its
  parameter points at, or a breakpoint.
\<close>

datatype debug_event =
    Outb u16 u8
  | Semihost_Call u64 "u8 list"
  | Breakpoint

definition DEBUGCON_PORT :: u16 where "DEBUGCON_PORT = 0xE9"
definition SYS_WRITE0 :: u64 where "SYS_WRITE0 = 0x04"

fun x64_write_characters :: "u8 list \<Rightarrow> debug_event list" where
  "x64_write_characters [] = []"
| "x64_write_characters (c # cs) = (if c = 0 then [] else Outb DEBUGCON_PORT c # x64_write_characters cs)"

text \<open>A message is a pointer to a C string, \<open>None\<close> for the null pointer.\<close>

definition x64_debug_semihost_write :: "u8 list option \<Rightarrow> debug_event list" where
  "x64_debug_semihost_write message = (case message of None \<Rightarrow> [] | Some cs \<Rightarrow> x64_write_characters cs)"

definition arm64_debug_semihost_write :: "u8 list option \<Rightarrow> debug_event list" where
  "arm64_debug_semihost_write message = (case message of None \<Rightarrow> [] | Some cs \<Rightarrow> [Semihost_Call SYS_WRITE0 cs])"

definition arch_debug_semihost_write :: "target_arch \<Rightarrow> u8 list option \<Rightarrow> debug_event list" where
  "arch_debug_semihost_write arch = (case arch of X86_64 \<Rightarrow> x64_debug_semihost_write | AARCH64 \<Rightarrow> arm64_debug_semihost_write)"

definition arch_debug_break :: "debug_event list" where
  "arch_debug_break = [Breakpoint]"

section \<open>Lines\<close>

definition debug_write_semihost_prefixed_line ::
    "(u8 list option \<Rightarrow> debug_event list) \<Rightarrow> u8 list \<Rightarrow> u8 list option \<Rightarrow> debug_event list" where
  "debug_write_semihost_prefixed_line semihost_write prefix_text message =
     semihost_write (Some prefix_text) @ semihost_write message @ semihost_write (Some [10])"

definition debug_log_events :: "(u8 list option \<Rightarrow> debug_event list) \<Rightarrow> u8 list option \<Rightarrow> debug_event list" where
  "debug_log_events semihost_write = debug_write_semihost_prefixed_line semihost_write (map of_char ''[gdb] '')"

definition debug_break :: "(u8 list option \<Rightarrow> debug_event list) \<Rightarrow> u8 list option \<Rightarrow> debug_event list" where
  "debug_break semihost_write reason = debug_log_events semihost_write reason @ arch_debug_break"

text \<open>What \<open>panic\<close> writes before it loops forever.\<close>

definition panic_events :: "(u8 list option \<Rightarrow> debug_event list) \<Rightarrow> u8 list option \<Rightarrow> debug_event list" where
  "panic_events semihost_write message =
     debug_log_events semihost_write (Some (map of_char ''PANIC'')) @ debug_log_events semihost_write message"

section \<open>The host's side\<close>

text \<open>
  The emulator's debug console takes the bytes written to its port; the semihosting host writes the
  characters in front of the NUL for \<open>SYS_WRITE0\<close>.
\<close>

fun host_receives :: "debug_event \<Rightarrow> u8 list" where
  "host_receives (Outb port c) = (if port = DEBUGCON_PORT then [c] else [])"
| "host_receives (Semihost_Call operation cs) = (if operation = SYS_WRITE0 then c_string cs else [])"
| "host_receives Breakpoint = []"

definition host_console :: "debug_event list \<Rightarrow> u8 list" where
  "host_console events = concat (map host_receives events)"

lemma host_console_append [simp]:
  "host_console (xs @ ys) = host_console xs @ host_console ys" "host_console [] = []"
  by (simp_all add: host_console_def)

text \<open>The reference reader: the text is cut behind each newline, and each line loses its prefix.\<close>

fun console_lines :: "u8 list \<Rightarrow> u8 list \<Rightarrow> u8 list list" where
  "console_lines line [] = []"
| "console_lines line (c # cs) =
     (if c = 10 then drop 6 (rev line) # console_lines [] cs else console_lines (c # line) cs)"

definition log_line :: "u8 list \<Rightarrow> u8 list" where
  "log_line message = map of_char ''[gdb] '' @ message @ [10]"

lemma console_lines_line: "10 \<notin> set xs \<Longrightarrow> console_lines line (xs @ 10 # cs) = drop 6 (rev line @ xs) # console_lines [] cs"
proof (induction xs arbitrary: line)
  case (Cons x xs)
  have "console_lines (x # line) (xs @ 10 # cs) = drop 6 (rev (x # line) @ xs) # console_lines [] cs"
    using Cons.prems by (intro Cons.IH) simp
  then show ?case using Cons.prems by (simp del: drop_append)
qed simp

lemma console_lines_log: "\<forall>message \<in> set messages. 10 \<notin> set message \<Longrightarrow>
    console_lines [] (concat (map log_line messages)) = messages"
proof (induction messages)
  case (Cons message messages)
  have n: "10 \<notin> set (map of_char ''[gdb] '' @ message)" using Cons.prems by (simp add: of_char_Char)
  have "concat (map log_line (message # messages)) =
      (map of_char ''[gdb] '' @ message) @ 10 # concat (map log_line messages)" by (simp add: log_line_def)
  then show ?case using console_lines_line[OF n, of "[]" "concat (map log_line messages)"] Cons by simp
qed simp

section \<open>A writer\<close>

locale debug_channel =
  fixes semihost_write :: "u8 list option \<Rightarrow> debug_event list"
  assumes null_ignored: "semihost_write None = []"
    and string_received: "host_console (semihost_write (Some cs)) = c_string cs"
begin

lemma line_received: "host_console (debug_log_events semihost_write (Some cs)) = log_line (c_string cs)"
  by (simp add: debug_log_events_def debug_write_semihost_prefixed_line_def string_received log_line_def c_string_def of_char_Char)

lemma null_line: "host_console (debug_log_events semihost_write None) = log_line []"
  by (simp add: debug_log_events_def debug_write_semihost_prefixed_line_def string_received null_ignored log_line_def c_string_def
      of_char_Char)

lemma log_received:
  "host_console (concat (map (debug_log_events semihost_write \<circ> Some) messages)) = concat (map (log_line \<circ> c_string) messages)"
  by (induction messages) (simp_all add: line_received)

lemma panic_received:
  "host_console (panic_events semihost_write (Some cs)) = log_line (map of_char ''PANIC'') @ log_line (c_string cs)"
  by (simp add: panic_events_def line_received c_string_def of_char_Char)

end

lemma x64_characters_received: "host_console (x64_write_characters cs) = c_string cs"
  by (induction cs) (simp_all add: host_console_def c_string_def)

interpretation x64_debug: debug_channel x64_debug_semihost_write
  by unfold_locales (simp_all add: x64_debug_semihost_write_def x64_characters_received)

interpretation arm64_debug: debug_channel arm64_debug_semihost_write
  by unfold_locales (simp_all add: arm64_debug_semihost_write_def host_console_def)

text \<open>
  The runtime's list of messages is the abstraction of the channel: what a list of messages puts on
  the wire on either architecture, and its log in the runtime.
\<close>

definition wire_log :: "target_arch \<Rightarrow> u8 list list \<Rightarrow> u8 list" where
  "wire_log arch messages = host_console (concat (map (debug_log_events (arch_debug_semihost_write arch) \<circ> Some) messages))"

lemma wire_log_lines: "wire_log arch messages = concat (map (log_line \<circ> c_string) messages)"
  by (cases arch) (simp_all add: wire_log_def arch_debug_semihost_write_def x64_debug.log_received arm64_debug.log_received)

text \<open>A log call appends its line to what was on the wire.\<close>

lemma wire_log_append: "wire_log arch (messages @ [message]) = wire_log arch messages @ log_line (c_string message)"
  by (simp add: wire_log_lines)

lemma c_string_idem [simp]: "c_string (c_string cs) = c_string cs"
  unfolding c_string_def by simp

lemma wire_log_runtime:
  "wire_log arch (debug_messages (debug_log message rt)) = wire_log arch (debug_messages rt) @
     host_console (debug_log_events (arch_debug_semihost_write arch) (Some message))"
  by (cases arch) (simp_all add: debug_log_def wire_log_append arch_debug_semihost_write_def x64_debug.line_received
      arm64_debug.line_received)

lemma wire_log_read:
  assumes "\<forall>message \<in> set messages. 10 \<notin> set (c_string message)"
  shows "console_lines [] (wire_log arch messages) = map c_string messages"
  using console_lines_log[of "map c_string messages"] assms by (simp add: wire_log_lines)

text \<open>
  The format has no escape: a message with a newline reads back as two, so a user program can print a
  line that reads like one of the kernel's.
\<close>

lemma forged_line:
  assumes "c_string a = a" and "c_string b = b"
  shows "wire_log arch [a @ 10 # map of_char ''[gdb] '' @ b] = wire_log arch [a, b]"
proof -
  have "c_string (xs @ ys) = xs @ c_string ys" if "c_string xs = xs" for xs ys
    using that by (induction xs) (auto simp: c_string_def split: if_splits)
  from this[OF assms(1)] have "c_string (a @ 10 # map of_char ''[gdb] '' @ b) = a @ 10 # map of_char ''[gdb] '' @ b"
    using assms(2) by (simp add: c_string_def of_char_Char)
  then show ?thesis using assms by (simp add: wire_log_lines log_line_def)
qed

text \<open>Making a thread current writes no message and no memory.\<close>

lemma set_current_keeps:
  "host_memory (set_current_thread arch u rt) = host_memory rt" "debug_messages (set_current_thread arch u rt) = debug_messages rt"
  by (auto simp: set_current_thread_def arch_activate_process_address_space_def arch_prepare_user_thread_def update_thread_def Let_def
      split: option.split target_arch.split)

section \<open>Properties\<close>

text \<open>
  C18. The runtime's list of messages is what the host sees. On both architectures \<open>debug_log\<close> appends to the text on
  the host's console exactly the line that its device accesses produce; and as long as no message has a
  newline, the host recovers the whole list of messages from the text.
\<close>

theorem debug_log_on_the_wire:
  "wire_log arch (debug_messages (debug_log message rt)) = wire_log arch (debug_messages rt) @
     host_console (debug_log_events (arch_debug_semihost_write arch) (Some message)) \<and>
   ((\<forall>line \<in> set (debug_messages rt). 10 \<notin> set (c_string line)) \<longrightarrow>
     console_lines [] (wire_log arch (debug_messages rt)) = map c_string (debug_messages rt))"
  using wire_log_runtime wire_log_read by blast

theorem debug_log_on_the_wire_witness:
  "console_lines [] (wire_log AARCH64 (debug_messages (debug_log (map of_char ''hi'') (g_user_runtime (\<lambda>_. 0) 0)))) = [map of_char ''hi'']"
  using debug_log_on_the_wire[of AARCH64 "[]" "debug_log (map of_char ''hi'') (g_user_runtime (\<lambda>_. 0) 0)"]
  by (simp add: debug_log_def g_user_runtime_def c_string_def)

end
