(* ===== verification/Page_Tables.thy ===== *)
theory Page_Tables
  imports X64_Pe_Image
begin

text \<open>
  Translation tables in host memory, shared by the two platforms: arrays of 512 entries of 64 bits. A
  process storage is a run of pages, so entry \<open>i\<close> of the table in page \<open>n\<close> is word \<open>512 * n + i\<close> of the
  storage; the lemmas below compute what a sequence of entry stores leaves in every word, and what
  a page address with flags holds.
\<close>

section \<open>Entries\<close>

definition table_entry :: "hmem \<Rightarrow> u64 \<Rightarrow> nat \<Rightarrow> u64" where
  "table_entry m table i = le_word (load_bytes m (table + of_nat (8 * i)) 8)"

definition set_table_entry :: "hmem \<Rightarrow> u64 \<Rightarrow> nat \<Rightarrow> u64 \<Rightarrow> hmem" where
  "set_table_entry m table i v = store_bytes m (table + of_nat (8 * i)) (le_bytes 8 v)"

text \<open>The page of a storage.\<close>

definition storage_page :: "u64 \<Rightarrow> nat \<Rightarrow> u64" where
  "storage_page s n = s + of_nat (4096 * n)"

lemma entry_of_page:
  "table_entry m (storage_page s n) i = table_entry m s (512 * n + i)"
  "set_table_entry m (storage_page s n) i v = set_table_entry m s (512 * n + i) v"
  by (simp_all add: table_entry_def set_table_entry_def storage_page_def algebra_simps)

lemma set_entry_at:
  assumes "i < 2 ^ 61"
  shows "set_table_entry m s i v x =
    (if 8 * i \<le> offset x s \<and> offset x s < 8 * i + 8 then le_bytes 8 v ! (offset x s - 8 * i) else m x)"
proof -
  have "unat (of_nat (8 * i) :: u64) = 8 * i" using assms by (intro unat_of_nat_u64) simp
  then show ?thesis using assms store_shifted[of "of_nat (8 * i)" "le_bytes 8 v" m s x] by (simp add: set_table_entry_def)
qed

lemma entry_cong:
  assumes "i < 2 ^ 61" and "\<And>x. 8 * i \<le> offset x s \<Longrightarrow> offset x s < 8 * i + 8 \<Longrightarrow> m' x = m x"
  shows "table_entry m' s i = table_entry m s i"
proof -
  have "m' (s + of_nat (8 * i) + of_nat k) = m (s + of_nat (8 * i) + of_nat k)" if "k < 8" for k
  proof -
    have "offset (s + of_nat (8 * i) + of_nat k) s = 8 * i + k"
      using offset_add[of "8 * i + k" s] assms(1) that by (simp add: add.assoc)
    then show ?thesis using assms(2)[of "s + of_nat (8 * i) + of_nat k"] that by simp
  qed
  then show ?thesis unfolding table_entry_def by (intro arg_cong[where f = le_word] load_bytes_cong)
qed

lemma entry_set:
  assumes "i < 2 ^ 61" and "j < 2 ^ 61"
  shows "table_entry (set_table_entry m s i v) s j = (if j = i then v else table_entry m s j)"
proof (cases "j = i")
  case True
  then show ?thesis using load_store_same[of "le_bytes 8 v" m "s + of_nat (8 * i)"] by (simp add: table_entry_def set_table_entry_def)
next
  case False
  show ?thesis
  proof (simp add: False, rule entry_cong[OF assms(2)])
    fix x assume "8 * j \<le> offset x s" "offset x s < 8 * j + 8"
    then have "\<not> (8 * i \<le> offset x s \<and> offset x s < 8 * i + 8)" using False by presburger
    then show "set_table_entry m s i v x = m x" using assms(1) by (auto simp: set_entry_at)
  qed
qed

text \<open>A loop that stores entry \<open>b + i\<close> for each \<open>i\<close>.\<close>

lemma entry_fold:
  assumes "b + n \<le> 2 ^ 61" and "j < 2 ^ 61"
  shows "table_entry (fold (\<lambda>i m. set_table_entry m s (b + i) (f i)) [0..<n] m) s j =
    (if b \<le> j \<and> j < b + n then f (j - b) else table_entry m s j)"
  using assms(1)
proof (induction n)
  case (Suc n)
  then show ?case using assms(2) by (auto simp: entry_set)
qed auto

section \<open>Stores stay in the storage\<close>

lemma region_set_entry: "8 * i + 8 \<le> L \<Longrightarrow> i < 2 ^ 61 \<Longrightarrow> region_only s L m (set_table_entry m s i v)"
  by (simp add: region_only_def set_entry_at)

lemma region_fold:
  "(\<And>i m. i < n \<Longrightarrow> region_only s L m (f i m)) \<Longrightarrow> region_only s L m (fold f [0..<n] m)"
proof (induction n)
  case (Suc n)
  have "region_only s L m (fold f [0..<n] m)" using Suc by simp
  then show ?case using Suc.prems[of n "fold f [0..<n] m"] by (auto intro: region_trans)
qed (simp add: region_refl)

lemma region_shift:
  assumes "region_only (s + of_nat k) n m m'" and "k + n \<le> L" and "k + n < 2 ^ 64"
  shows "region_only s L m m'"
  unfolding region_only_def
proof (intro allI impI)
  fix x assume x: "L \<le> offset x s"
  have k: "unat (of_nat k :: u64) = k" using assms(3) by (intro unat_of_nat_u64) simp
  have "\<not> offset x (s + of_nat k) < n" using offset_shift(1)[of "of_nat k" n x s] k assms(2,3) x by simp
  then show "m' x = m x" using assms(1) by (simp add: region_only_def)
qed

lemma region_entry:
  assumes "region_only (s + of_nat k) n m m'" and "8 * i + 8 \<le> k" and "k + n < 2 ^ 64"
  shows "table_entry m' s i = table_entry m s i"
proof (rule entry_cong)
  have "8 * i < 2 ^ 64" using assms(2,3) by simp
  then show "i < 2 ^ 61" by simp
  fix x assume x: "8 * i \<le> offset x s" "offset x s < 8 * i + 8"
  have k: "unat (of_nat k :: u64) = k" using assms(3) by (intro unat_of_nat_u64) simp
  have "\<not> offset x (s + of_nat k) < n" using offset_shift(1)[of "of_nat k" n x s] k assms(2,3) x by simp
  then show "m' x = m x" using assms(1) by (simp add: region_only_def)
qed

lemma entry_memset:
  assumes "8 * i + 8 \<le> n" and "n < 2 ^ 64"
  shows "table_entry (memset m s 0 n) s i = 0"
proof -
  have "load_bytes (memset m s 0 n) (s + of_nat (8 * i)) 8 = replicate 8 0"
  proof (rule nth_equalityI)
    fix k assume k: "k < length (load_bytes (memset m s 0 n) (s + of_nat (8 * i)) 8)"
    then have "offset (s + of_nat (8 * i) + of_nat k) s = 8 * i + k"
      using offset_add[of "8 * i + k" s] assms by (simp add: add.assoc)
    then show "load_bytes (memset m s 0 n) (s + of_nat (8 * i)) 8 ! k = replicate 8 0 ! k"
      using k assms by (simp add: nth_load_bytes memset_eq_store store_bytes_at)
  qed simp
  then show ?thesis by (simp add: table_entry_def numeral_eq_Suc)
qed

section \<open>Page addresses\<close>

text \<open>Clearing the low bits of a page address and setting flags keeps the page and the flags.\<close>

lemma page_and_flags:
  fixes a flags :: u64
  assumes "a AND 0xFFF = 0" and "flags < 0x1000"
  shows "((a AND NOT 0xFFF) OR flags) AND NOT 0xFFF = a" and "((a AND NOT 0xFFF) OR flags) AND 0xFFF = flags"
proof -
  have mask: "(0xFFF :: u64) = mask 12" by (simp add: mask_eq_exp_minus_1)
  have lo: "12 \<le> n" if "bit a n" for n
    using arg_cong[OF assms(1), of "\<lambda>w. bit w n"] that by (cases "n < 12") (auto simp: mask bit_simps dest: bit_imp_le_length)
  have "take_bit 12 flags = flags" using less_mask_eq[of flags 12] assms(2) by (simp add: take_bit_eq_mask)
  then have hi: "n < 12" if "bit flags n" for n
    using that bit_take_bit_iff[of 12 flags n] by simp
  show "((a AND NOT 0xFFF) OR flags) AND NOT 0xFFF = a"
    unfolding mask by (rule bit_word_eqI) (use lo hi in \<open>fastforce simp: bit_simps\<close>)
  show "((a AND NOT 0xFFF) OR flags) AND 0xFFF = flags"
    unfolding mask by (rule bit_word_eqI) (use hi in \<open>auto simp: bit_simps\<close>)
qed

text \<open>The index an address has in a table that is \<open>level\<close> tables above the last one.\<close>

definition walk_index :: "nat \<Rightarrow> u64 \<Rightarrow> nat" where
  "walk_index level va = unat (drop_bit (12 + 9 * level) va AND 0x1FF)"

lemma walk_index_div: "walk_index level va = unat va div 2 ^ (12 + 9 * level) mod 512"
proof -
  have m: "(0x1FF :: u64) = mask 9" by (simp add: mask_eq_exp_minus_1)
  show ?thesis
    unfolding walk_index_def m take_bit_eq_mask[symmetric] unsigned_take_bit_eq unsigned_drop_bit_eq
    using unat_lt_u64[of va] by (simp add: take_bit_eq_mod[of 9] drop_bit_eq_div take_bit_nat_eq_self)
qed

lemma low_word: "unat (va AND 0xFFF :: u64) = unat va mod 4096"
proof -
  have m: "(0xFFF :: u64) = mask 12" by (simp add: mask_eq_exp_minus_1)
  show ?thesis unfolding m take_bit_eq_mask[symmetric] unsigned_take_bit_eq by (simp add: take_bit_eq_mod)
qed

lemma aligned_iff: "(a :: u64) AND 0xFFF = 0 \<longleftrightarrow> unat a mod 4096 = 0"
proof -
  have m: "(0xFFF :: u64) = mask 12" by (simp add: mask_eq_exp_minus_1)
  have "unat (a AND 0xFFF) = unat a mod 4096"
    unfolding m take_bit_eq_mask[symmetric] unsigned_take_bit_eq by (simp add: take_bit_eq_mod)
  then show ?thesis using unat_eq_zero[of "a AND 0xFFF"] by simp
qed

section \<open>Memory below a storage\<close>

lemma apart_below:
  assumes "unat s + L < 2 ^ 64" and "0x100190 \<le> unat s"
  shows "image_apart 0x100000 400 s L"
  unfolding image_apart_def
proof (intro allI impI)
  fix i assume i: "i < unat (400 :: u64)"
  let ?x = "0x100000 + of_nat i :: u64"
  have x: "unat ?x = 0x100000 + i" using i by (subst unat_add_no_wrap) (simp_all add: unat_of_nat_u64)
  then have "?x < s" using assms(2) i by (simp add: word_less_nat_alt)
  then have "unat (?x - s) = 2 ^ 64 + unat ?x - unat s"
    using unat_sub_if'[of ?x s] by (simp add: word_less_nat_alt word_le_nat_alt not_le)
  then show "L \<le> unat (?x - s)" using assms x by simp
qed

end
