(* ===== verification/Platform_Boot.thy ===== *)
theory Platform_Boot
  imports Runtime_Invariant
begin

text \<open>
  What the \<open>initialize\<close> functions of the two platforms share: an optional terminal service as process 0 and
  the test program as the last process, each put into its storage by a function that fills in its
  configuration. The locale states what the runtime needs of such a function, and its lemma that the
  boot that follows succeeds.
\<close>

text \<open>The symbols the linker defines for the embedded programs.\<close>

record embedded_images =
  test_app_image_start :: u64
  test_app_image_end :: u64
  terminal_service_image_start :: u64
  terminal_service_image_end :: u64

definition has_embedded_image :: "u64 \<Rightarrow> u64 \<Rightarrow> bool" where
  "has_embedded_image image_start image_end \<longleftrightarrow> image_start \<noteq> 0 \<and> image_end > image_start"

definition WINDOWS_X64_STACK_HOME_SPACE_SIZE :: u64 where "WINDOWS_X64_STACK_HOME_SPACE_SIZE = 32"

text \<open>
  The bootstrap after its \<open>memset\<close>: all numbers are 0 and so are the enumerators.
\<close>

definition zero_configuration :: initial_process_configuration where
  "zero_configuration = \<lparr>cfg_metadata = \<lparr>guest_architecture = PROCESS_GUEST_ARCHITECTURE_UNKNOWN,
       personality = PROCESS_PERSONALITY_UNKNOWN, execution_backend = PROCESS_EXECUTION_BACKEND_UNKNOWN\<rparr>,
     cfg_address_space = empty_address_space 0,
     cfg_thread_context = \<lparr>ctx_instruction_pointer = 0, ctx_stack_pointer = 0, ctx_flags = 0, ctx_argument0 = 0\<rparr>\<rparr>"

definition zero_bootstrap :: initial_user_runtime_bootstrap where
  "zero_bootstrap = \<lparr>boot_process_count = 0, boot_initial_process_index = 0,
     boot_initial_processes = replicate USER_RUNTIME_MAX_INITIAL_PROCESSES zero_configuration\<rparr>"

text \<open>The state \<open>'m\<close> is what the platform changes, the host memory above all.\<close>

type_synonym 'm process_populator =
  "nat \<Rightarrow> u64 \<Rightarrow> u64 \<Rightarrow> initial_process_configuration \<Rightarrow> 'm \<Rightarrow> string + (initial_process_configuration \<times> 'm)"

text \<open>The call that populates storage \<open>i\<close> and entry \<open>i\<close> of the bootstrap.\<close>

definition populate_process :: "'m process_populator \<Rightarrow> nat \<Rightarrow> u64 \<Rightarrow> u64 \<Rightarrow> initial_user_runtime_bootstrap \<times> 'm \<Rightarrow>
    string + (initial_user_runtime_bootstrap \<times> 'm)" where
  "populate_process populate i image_start image_end = (\<lambda>(bootstrap, m).
     case populate i image_start image_end (boot_initial_processes bootstrap ! i) m of
       Inl message \<Rightarrow> Inl message
     | Inr (cfg, m') \<Rightarrow> Inr (bootstrap\<lparr>boot_initial_processes := (boot_initial_processes bootstrap)[i := cfg]\<rparr>, m'))"

definition initialize_processes :: "'m process_populator \<Rightarrow> 'm process_populator \<Rightarrow> embedded_images \<Rightarrow> 'm \<Rightarrow>
    string + (initial_user_runtime_bootstrap \<times> 'm)" where
  "initialize_processes populate_service populate_client images m =
     (let has_terminal_service = has_embedded_image (terminal_service_image_start images) (terminal_service_image_end images);
          client_process_index = (if has_terminal_service then 1 else 0);
          bootstrap = zero_bootstrap\<lparr>boot_process_count := (if has_terminal_service then 2 else 1),
            boot_initial_process_index := 0\<rparr> in
      case (if has_terminal_service
            then populate_process populate_service 0 (terminal_service_image_start images) (terminal_service_image_end images)
                   (bootstrap, m)
            else Inr (bootstrap, m)) of
        Inl message \<Rightarrow> Inl message
      | Inr populated \<Rightarrow>
          populate_process populate_client client_process_index (test_app_image_start images) (test_app_image_end images) populated)"

lemma zero_configuration_root: "(cfg_address_space zero_configuration)\<lparr>arch_root_table := root\<rparr> = empty_address_space root"
  by (simp add: zero_configuration_def empty_address_space_def)

text \<open>Which calls of the populating functions a successful initialization made.\<close>

lemma initialize_processes_cases:
  assumes "initialize_processes populate_service populate_client images m = Inr (bs, m')"
  obtains (one) "boot_process_count bs = 1"
      "populate_client 0 (test_app_image_start images) (test_app_image_end images) zero_configuration m =
        Inr (boot_initial_processes bs ! 0, m')"
  | (two) m1 where "boot_process_count bs = 2"
      "populate_service 0 (terminal_service_image_start images) (terminal_service_image_end images) zero_configuration m =
        Inr (boot_initial_processes bs ! 0, m1)"
      "populate_client 1 (test_app_image_start images) (test_app_image_end images) zero_configuration m1 =
        Inr (boot_initial_processes bs ! 1, m')"
proof -
  have z: "boot_initial_processes zero_bootstrap = [zero_configuration, zero_configuration]"
    by (simp add: zero_bootstrap_def USER_RUNTIME_MAX_INITIAL_PROCESSES_def numeral_eq_Suc)
  show thesis
  proof (cases "has_embedded_image (terminal_service_image_start images) (terminal_service_image_end images)")
    case True
    then show thesis
      using assms two by (auto simp: initialize_processes_def populate_process_def z Let_def split: sum.splits)
  next
    case False
    then show thesis
      using assms one by (auto simp: initialize_processes_def populate_process_def z Let_def split: sum.splits)
  qed
qed

section \<open>What the runtime needs of a platform\<close>

definition bootstrap_ready :: "u32 \<Rightarrow> initial_user_runtime_bootstrap \<Rightarrow> bool" where
  "bootstrap_ready n bs \<longleftrightarrow> boot_process_count bs = n \<and> boot_initial_process_index bs = 0 \<and>
     length (boot_initial_processes bs) = USER_RUNTIME_MAX_INITIAL_PROCESSES \<and>
     (\<forall>cfg \<in> set (boot_initial_processes bs). wf_address_space (cfg_address_space cfg))"

lemma zero_bootstrap_ready: "bootstrap_ready n (zero_bootstrap\<lparr>boot_process_count := n, boot_initial_process_index := 0\<rparr>)"
  by (simp add: bootstrap_ready_def zero_bootstrap_def zero_configuration_def wf_empty_address_space)

locale initial_platform =
  fixes populate_service populate_client :: "'m process_populator"
  assumes service_wf: "populate_service i image_start image_end cfg m = Inr (cfg', m') \<Longrightarrow>
      wf_address_space (cfg_address_space cfg) \<Longrightarrow> wf_address_space (cfg_address_space cfg')"
    and client_wf: "populate_client i image_start image_end cfg m = Inr (cfg', m') \<Longrightarrow>
      wf_address_space (cfg_address_space cfg) \<Longrightarrow> wf_address_space (cfg_address_space cfg')"
begin

lemma populate_ready:
  assumes "populate_process populate i a b (bs, m) = Inr (bs', m')" and "bootstrap_ready n bs" and "i < 2"
    and "populate = populate_service \<or> populate = populate_client"
  shows "bootstrap_ready n bs'"
proof -
  obtain cfg where p: "populate i a b (boot_initial_processes bs ! i) m = Inr (cfg, m')"
    and bs': "bs' = bs\<lparr>boot_initial_processes := (boot_initial_processes bs)[i := cfg]\<rparr>"
    using assms(1) by (auto simp: populate_process_def split: sum.splits)
  have "boot_initial_processes bs ! i \<in> set (boot_initial_processes bs)"
    using assms(2,3) by (simp add: bootstrap_ready_def USER_RUNTIME_MAX_INITIAL_PROCESSES_def)
  then have "wf_address_space (cfg_address_space cfg)"
    using assms(2,4) p service_wf client_wf unfolding bootstrap_ready_def by blast
  then show ?thesis
    using assms(2) set_update_subset_insert[of "boot_initial_processes bs" i cfg] by (auto simp: bootstrap_ready_def bs')
qed

lemma initialize_valid:
  assumes "initialize_processes populate_service populate_client images m = Inr (bs, m')"
  shows "valid_bootstrap bs \<and> boot_initial_process_index bs = 0"
proof -
  let ?t = "has_embedded_image (terminal_service_image_start images) (terminal_service_image_end images)"
  let ?n = "if ?t then 2 else 1 :: u32"
  obtain bs1 m1 where "bootstrap_ready ?n bs1"
    and c: "populate_process populate_client (if ?t then 1 else 0) (test_app_image_start images) (test_app_image_end images) (bs1, m1) =
      Inr (bs, m')"
    using assms zero_bootstrap_ready[of ?n] populate_ready[of populate_service 0]
    unfolding initialize_processes_def Let_def by (fastforce split: if_splits sum.splits)
  then have "bootstrap_ready ?n bs" using populate_ready[OF c] by simp
  then show ?thesis by (auto simp: bootstrap_ready_def valid_bootstrap_def)
qed

lemma boots:
  assumes "initialize_processes populate_service populate_client images m = Inr (bs, m')"
  shows "\<exists>rt. run_initial_user_runtime arch bs (g_user_runtime memory root) = Inr rt \<and> reachable arch 0 rt \<and> runtime_inv rt \<and>
    has_runnable_thread rt \<and> m_current_thread rt = Some 0"
proof -
  have v: "valid_bootstrap bs" and z: "boot_initial_process_index bs = 0" using initialize_valid[OF assms] by simp_all
  obtain rt where rt: "run_initial_user_runtime arch bs (g_user_runtime memory root) = Inr rt" "runtime_inv rt"
    "has_runnable_thread rt" "m_current_thread rt = Some 0"
    using valid_bootstrapD[OF v, of arch memory root] z by auto
  then have "reachable arch 0 rt" unfolding reachable_def using v kernel_run.start by blast
  then show ?thesis using rt by blast
qed

end

text \<open>A system with one program, at the address of the example image, and no terminal service.\<close>

definition example_images :: embedded_images where
  "example_images = \<lparr>test_app_image_start = 0x100000, test_app_image_end = 0x100190,
     terminal_service_image_start = 0, terminal_service_image_end = 0\<rparr>"

end
