(* ===== verification/X64_Platform.thy ===== *)
theory X64_Platform
  imports Page_Tables Platform_Boot
begin

text \<open>
  The x64 platform, \<open>arch/x64/x64_initial_user_runtime_platform.cpp\<close>: the page tables and the program of each
  initial process in its storage, the configuration handed to the runtime, and the registers
  for system calls. A storage is the address of its \<open>x64_process_storage\<close>; host addresses are physical
  addresses, as the kernel runs identity mapped. The embedded images are address ranges. The theory has a
  reference definition of the processor's page walk and shows that, in user mode, the tables translate
  exactly as the address space the kernel keeps for the process.
\<close>

section \<open>Storage layout\<close>

definition X64_LOW_IDENTITY_SIZE :: u64 where "X64_LOW_IDENTITY_SIZE = 0x400000"
definition X64_LOW_PAGE_TABLE_COUNT :: nat where "X64_LOW_PAGE_TABLE_COUNT = unat (X64_LOW_IDENTITY_SIZE div 0x200000)"

text \<open>The pages of \<open>x64_process_storage\<close> in the order of its fields.\<close>

definition storage_pml4 :: "u64 \<Rightarrow> u64" where "storage_pml4 s = storage_page s 0"
definition storage_pdpt :: "u64 \<Rightarrow> u64" where "storage_pdpt s = storage_page s 1"
definition storage_page_directory :: "u64 \<Rightarrow> u64" where "storage_page_directory s = storage_page s 2"
definition storage_low_page_table :: "u64 \<Rightarrow> nat \<Rightarrow> u64" where "storage_low_page_table s i = storage_page s (3 + i)"
definition storage_user_page_table :: "u64 \<Rightarrow> u64" where "storage_user_page_table s = storage_page s 5"
definition storage_user_image_page :: "u64 \<Rightarrow> nat \<Rightarrow> u64" where "storage_user_image_page s i = storage_page s (6 + i)"
definition storage_user_stack_page :: "u64 \<Rightarrow> u64" where "storage_user_stack_page s = storage_page s 14"
definition SIZEOF_X64_PROCESS_STORAGE :: nat where "SIZEOF_X64_PROCESS_STORAGE = 15 * 4096"

lemmas x64_storage_layout = storage_pml4_def storage_pdpt_def storage_page_directory_def storage_low_page_table_def
  storage_user_page_table_def storage_user_image_page_def storage_user_stack_page_def

section \<open>Page tables\<close>

definition PAGE_PRESENT :: u64 where "PAGE_PRESENT = push_bit 0 1"
definition PAGE_WRITABLE :: u64 where "PAGE_WRITABLE = push_bit 1 1"
definition PAGE_USER :: u64 where "PAGE_USER = push_bit 2 1"

definition make_table_entry :: "u64 \<Rightarrow> u64 \<Rightarrow> u64" where
  "make_table_entry address flags = (address AND NOT 0xFFF) OR flags"

definition initialize_low_page_table :: "u64 \<Rightarrow> nat \<Rightarrow> hmem \<Rightarrow> hmem" where
  "initialize_low_page_table s table_index m =
     (let table_base_address = of_nat table_index * 0x200000;
          m1 = fold (\<lambda>entry_index m.
                 set_table_entry m (storage_low_page_table s table_index) entry_index
                   (make_table_entry (table_base_address + of_nat entry_index * X64_USER_IMAGE_PAGE_SIZE)
                     (PAGE_PRESENT OR PAGE_WRITABLE))) [0..<512] m in
      set_table_entry m1 (storage_page_directory s) table_index
        (make_table_entry (storage_low_page_table s table_index) (PAGE_PRESENT OR PAGE_WRITABLE)))"

definition initialize_low_identity_mappings :: "u64 \<Rightarrow> hmem \<Rightarrow> hmem" where
  "initialize_low_identity_mappings s m =
     (let m1 = set_table_entry m (storage_pml4 s) 0
                 (make_table_entry (storage_pdpt s) (PAGE_PRESENT OR PAGE_WRITABLE OR PAGE_USER));
          m2 = set_table_entry m1 (storage_pdpt s) 0
                 (make_table_entry (storage_page_directory s) (PAGE_PRESENT OR PAGE_WRITABLE OR PAGE_USER)) in
      fold (initialize_low_page_table s) [0..<X64_LOW_PAGE_TABLE_COUNT] m2)"

definition initialize_user_region :: "u64 \<Rightarrow> hmem \<Rightarrow> hmem" where
  "initialize_user_region s m =
     (let flags = PAGE_PRESENT OR PAGE_WRITABLE OR PAGE_USER;
          m1 = set_table_entry m (storage_page_directory s) 2 (make_table_entry (storage_user_page_table s) flags);
          m2 = fold (\<lambda>page_index m. set_table_entry m (storage_user_page_table s) page_index
                 (make_table_entry (storage_user_image_page s page_index) flags)) [0..<unat X64_USER_IMAGE_PAGE_COUNT] m1 in
      set_table_entry m2 (storage_user_page_table s) (unat X64_USER_IMAGE_PAGE_COUNT)
        (make_table_entry (storage_user_stack_page s) flags))"

definition x64_initialize_process_storage :: "u64 \<Rightarrow> hmem \<Rightarrow> hmem" where
  "x64_initialize_process_storage s m =
     initialize_user_region s (initialize_low_identity_mappings s (memset m s 0 SIZEOF_X64_PROCESS_STORAGE))"

section \<open>The program and the configuration\<close>

definition initialize_user_image :: "u64 \<Rightarrow> u64 \<Rightarrow> u64 \<Rightarrow> hmem \<Rightarrow> string + (u64 \<times> hmem)" where
  "initialize_user_image s image_start image_end m =
     (case load_x64_pe64_image image_start (image_end - image_start) X64_USER_IMAGE_VIRTUAL_ADDRESS
             (storage_user_image_page s 0) X64_USER_REGION_SIZE None m of
        (load_status, image_info, m1) \<Rightarrow>
          if load_status \<noteq> X64_PE64_IMAGE_LOAD_STATUS_OK then Inl (describe_x64_pe64_image_load_status load_status)
          else Inr (info_entry_point image_info,
                    store_bytes m1 (storage_user_stack_page s + X64_USER_IMAGE_PAGE_SIZE - 8) (le_bytes 8 0)))"

definition USER_THREAD_INITIAL_FLAGS :: u64 where "USER_THREAD_INITIAL_FLAGS = 0x2"

definition x64_initial_stack_pointer :: u64 where
  "x64_initial_stack_pointer = X64_USER_STACK_VIRTUAL_ADDRESS + X64_USER_IMAGE_PAGE_SIZE - 8 - WINDOWS_X64_STACK_HOME_SPACE_SIZE"

definition x64_address_space :: "u64 \<Rightarrow> address_space \<Rightarrow> address_space option" where
  "x64_address_space s asp =
     (case add_address_space_mapping asp X64_USER_IMAGE_VIRTUAL_ADDRESS (storage_user_image_page s 0)
             (X64_USER_IMAGE_PAGE_COUNT * X64_USER_IMAGE_PAGE_SIZE) of
        None \<Rightarrow> None
      | Some asp1 \<Rightarrow>
          add_address_space_mapping asp1 X64_USER_STACK_VIRTUAL_ADDRESS (storage_user_stack_page s) X64_USER_IMAGE_PAGE_SIZE)"

definition populate_bootstrap_for_process :: "u64 \<Rightarrow> u64 \<Rightarrow> u64 \<Rightarrow> initial_process_configuration \<Rightarrow> hmem \<Rightarrow>
    string + (initial_process_configuration \<times> hmem)" where
  "populate_bootstrap_for_process s image_start image_end cfg m =
     (case initialize_user_image s image_start image_end (x64_initialize_process_storage s m) of
        Inl message \<Rightarrow> Inl message
      | Inr (entry_point, m1) \<Rightarrow>
         (case x64_address_space s ((cfg_address_space cfg)\<lparr>arch_root_table := storage_pml4 s\<rparr>) of
            None \<Rightarrow> Inl ''failed to initialize x64 bootstrap mappings''
          | Some asp \<Rightarrow>
              Inr (cfg\<lparr>cfg_metadata := \<lparr>guest_architecture = PROCESS_GUEST_ARCHITECTURE_X64,
                         personality = PROCESS_PERSONALITY_RINGOS, execution_backend = PROCESS_EXECUTION_BACKEND_NATIVE\<rparr>,
                       cfg_address_space := asp,
                       cfg_thread_context := \<lparr>ctx_instruction_pointer = entry_point,
                         ctx_stack_pointer = x64_initial_stack_pointer,
                         ctx_flags = USER_THREAD_INITIAL_FLAGS, ctx_argument0 = 0\<rparr>\<rparr>, m1)))"

text \<open>The storages are the elements of an array.\<close>

definition x64_storage :: "u64 \<Rightarrow> nat \<Rightarrow> u64" where
  "x64_storage storages i = storages + of_nat (i * SIZEOF_X64_PROCESS_STORAGE)"

definition x64_initialize :: "u64 \<Rightarrow> embedded_images \<Rightarrow> hmem \<Rightarrow> string + (initial_user_runtime_bootstrap \<times> hmem)" where
  "x64_initialize storages images =
     (let populate = (\<lambda>i. populate_bootstrap_for_process (x64_storage storages i)) in
      initialize_processes populate populate images)"

section \<open>Launching a thread\<close>

text \<open>The model-specific registers; \<open>wrmsr\<close> and \<open>rdmsr\<close> move them as two halves.\<close>

type_synonym msr_file = "u32 \<Rightarrow> u64"

definition MSR_EFER :: u32 where "MSR_EFER = 0xC0000080"
definition MSR_STAR :: u32 where "MSR_STAR = 0xC0000081"
definition MSR_LSTAR :: u32 where "MSR_LSTAR = 0xC0000082"
definition MSR_FMASK :: u32 where "MSR_FMASK = 0xC0000084"
definition MSR_GS_BASE :: u32 where "MSR_GS_BASE = 0xC0000101"
definition MSR_KERNEL_GS_BASE :: u32 where "MSR_KERNEL_GS_BASE = 0xC0000102"
definition EFER_SCE :: u64 where "EFER_SCE = push_bit 0 1"
definition KERNEL_CODE_SELECTOR :: u64 where "KERNEL_CODE_SELECTOR = 0x08"
definition USER_COMPAT_CODE_SELECTOR :: u64 where "USER_COMPAT_CODE_SELECTOR = 0x18"

definition wrmsr :: "u32 \<Rightarrow> u32 \<Rightarrow> u32 \<Rightarrow> msr_file \<Rightarrow> msr_file" where
  "wrmsr msr low_value high_value msrs = msrs(msr := push_bit 32 (ucast high_value) OR ucast low_value)"

definition write_msr :: "u32 \<Rightarrow> u64 \<Rightarrow> msr_file \<Rightarrow> msr_file" where
  "write_msr msr v = wrmsr msr (ucast (v AND 0xFFFFFFFF)) (ucast (drop_bit 32 v))"

definition read_msr :: "u32 \<Rightarrow> msr_file \<Rightarrow> u64" where
  "read_msr msr msrs =
     (let low_value = ucast (msrs msr) :: u32; high_value = ucast (drop_bit 32 (msrs msr)) :: u32 in
      push_bit 32 (ucast high_value) OR ucast low_value)"

definition initialize_syscall_msrs :: "u64 \<Rightarrow> u64 \<Rightarrow> msr_file \<Rightarrow> msr_file" where
  "initialize_syscall_msrs syscall_entry cpu_local msrs =
     (let efer_value = read_msr MSR_EFER msrs OR EFER_SCE;
          star_value = push_bit 48 USER_COMPAT_CODE_SELECTOR OR push_bit 32 KERNEL_CODE_SELECTOR in
      (write_msr MSR_KERNEL_GS_BASE cpu_local \<circ> write_msr MSR_GS_BASE 0 \<circ> write_msr MSR_FMASK 0x200 \<circ>
       write_msr MSR_LSTAR syscall_entry \<circ> write_msr MSR_STAR star_value \<circ> write_msr MSR_EFER efer_value) msrs)"

definition x64_prepare_thread_launch :: "u64 \<Rightarrow> u64 \<Rightarrow> thread_ref \<Rightarrow> user_runtime \<times> msr_file \<Rightarrow> user_runtime \<times> msr_file" where
  "x64_prepare_thread_launch syscall_entry cpu_local initial_thread = (\<lambda>(rt, msrs).
     (arch_prepare_user_thread X86_64 (Some initial_thread) rt, initialize_syscall_msrs syscall_entry cpu_local msrs))"

text \<open>The instruction pointer, the stack pointer and the flags handed to the assembly that enters user mode.\<close>

definition x64_enter_user_thread :: "process_ref \<Rightarrow> thread_ref \<Rightarrow> user_runtime \<Rightarrow> ((u64 \<times> u64 \<times> u64) \<times> user_runtime) option" where
  "x64_enter_user_thread initial_process initial_thread rt =
     (let rt1 = arch_prepare_user_thread X86_64 (Some initial_thread)
                  (arch_activate_process_address_space X86_64 (Some initial_process) rt);
          rt2 = debug_log (map of_char ''x64 initial user runtime ready'') rt1 in
      case get_thread rt2 initial_thread of None \<Rightarrow> None
      | Some th \<Rightarrow>
         (let c = m_user_context th in
          Some ((ctx_instruction_pointer c, ctx_stack_pointer c, ctx_flags c), rt2)))"

text \<open>What the registers hold afterwards: system calls are enabled and enter the kernel at its entry.\<close>

lemma two_halves: "push_bit 32 (ucast (ucast (drop_bit 32 v) :: u32)) OR ucast (ucast v :: u32) = (v :: u64)"
  by (rule bit_word_eqI) (auto simp: bit_simps)

lemma write_msr_upd: "write_msr msr v msrs = msrs(msr := v)"
proof -
  have m: "(0xFFFFFFFF :: u64) = mask 32" by (simp add: mask_eq_exp_minus_1)
  have "ucast (v AND 0xFFFFFFFF) = (ucast v :: u32)" unfolding m by (rule bit_word_eqI) (auto simp: bit_simps)
  then show ?thesis by (simp add: write_msr_def wrmsr_def two_halves)
qed

lemma syscall_msrs:
  fixes msrs :: msr_file and syscall_entry cpu_local :: u64
  defines "msrs' \<equiv> initialize_syscall_msrs syscall_entry cpu_local msrs"
  shows "msrs' MSR_EFER = msrs MSR_EFER OR EFER_SCE" and "msrs' MSR_LSTAR = syscall_entry"
    and "msrs' MSR_KERNEL_GS_BASE = cpu_local" and "msrs' MSR_STAR = 0x0018000800000000"
  by (simp_all add: msrs'_def initialize_syscall_msrs_def write_msr_upd read_msr_def two_halves Let_def MSR_EFER_def MSR_STAR_def
      MSR_LSTAR_def MSR_FMASK_def MSR_GS_BASE_def MSR_KERNEL_GS_BASE_def USER_COMPAT_CODE_SELECTOR_def KERNEL_CODE_SELECTOR_def)

section \<open>The words of the tables\<close>

text \<open>What the storage holds in the words of its six tables after \<open>initialize_process_storage\<close>.\<close>

definition x64_table_word :: "u64 \<Rightarrow> nat \<Rightarrow> u64" where
  "x64_table_word s k =
     (if k = 0 then make_table_entry (storage_page s 1) 7
      else if k = 512 then make_table_entry (storage_page s 2) 7
      else if k = 1024 \<or> k = 1025 then make_table_entry (storage_page s (k - 1021)) 3
      else if k = 1026 then make_table_entry (storage_page s 5) 7
      else if 1536 \<le> k \<and> k < 2560 then make_table_entry (of_nat (4096 * (k - 1536))) 3
      else if 2560 \<le> k \<and> k < 2569 then make_table_entry (storage_page s (k - 2554)) 7
      else 0)"

lemma page_flags: "PAGE_PRESENT OR PAGE_WRITABLE = 3" "PAGE_PRESENT OR PAGE_WRITABLE OR PAGE_USER = 7"
  by (simp_all add: PAGE_PRESENT_def PAGE_WRITABLE_def PAGE_USER_def)

lemma low_page_table_words:
  assumes "t < 2" and "k < 2 ^ 61"
  shows "table_entry (initialize_low_page_table s t m) s k =
    (if k = 1024 + t then make_table_entry (storage_page s (3 + t)) 3
     else if 1536 + 512 * t \<le> k \<and> k < 2048 + 512 * t then make_table_entry (of_nat (4096 * (k - 1536))) 3
     else table_entry m s k)"
proof -
  have id: "of_nat t * 0x200000 + of_nat i * X64_USER_IMAGE_PAGE_SIZE = (of_nat (4096 * (512 * t + i)) :: u64)" for i
    by (simp add: X64_USER_IMAGE_PAGE_SIZE_def algebra_simps)
  have idx: "512 * (3 + t) + i = (1536 + 512 * t) + i" "512 * 2 + t = 1024 + t" for i by simp_all
  define word where "word = (\<lambda>i. make_table_entry (of_nat (4096 * (512 * t + i))) 3)"
  let ?loop = "fold (\<lambda>i m. set_table_entry m s ((1536 + 512 * t) + i) (word i)) [0..<512] m"
  have e: "initialize_low_page_table s t m = set_table_entry ?loop s (1024 + t) (make_table_entry (storage_page s (3 + t)) 3)"
    unfolding initialize_low_page_table_def Let_def x64_storage_layout entry_of_page page_flags id idx word_def ..
  have l: "table_entry ?loop s k =
      (if 1536 + 512 * t \<le> k \<and> k < 1536 + 512 * t + 512 then word (k - (1536 + 512 * t)) else table_entry m s k)"
    using assms by (intro entry_fold) simp_all
  have w: "word (k - (1536 + 512 * t)) = make_table_entry (of_nat (4096 * (k - 1536))) 3" if "1536 + 512 * t \<le> k"
  proof -
    have "512 * t + (k - (1536 + 512 * t)) = k - 1536" using that by simp
    then show ?thesis unfolding word_def by (rule arg_cong)
  qed
  have s: "table_entry (initialize_low_page_table s t m) s k =
      (if k = 1024 + t then make_table_entry (storage_page s (3 + t)) 3 else table_entry ?loop s k)"
    unfolding e using assms by (intro entry_set) simp_all
  show ?thesis unfolding s l using w by simp
qed

lemma low_identity_words:
  assumes "k < 2 ^ 61"
  shows "table_entry (initialize_low_identity_mappings s m) s k =
    (if k = 0 then make_table_entry (storage_page s 1) 7
     else if k = 512 then make_table_entry (storage_page s 2) 7
     else if k = 1024 \<or> k = 1025 then make_table_entry (storage_page s (k - 1021)) 3
     else if 1536 \<le> k \<and> k < 2560 then make_table_entry (of_nat (4096 * (k - 1536))) 3
     else table_entry m s k)"
proof -
  have two: "[0..<X64_LOW_PAGE_TABLE_COUNT] = [0, 1]"
    by (simp add: X64_LOW_PAGE_TABLE_COUNT_def X64_LOW_IDENTITY_SIZE_def upt_rec)
  show ?thesis
    unfolding initialize_low_identity_mappings_def Let_def two page_flags x64_storage_layout entry_of_page
    using assms by (simp add: low_page_table_words entry_set)
qed

lemma user_region_words:
  assumes "k < 2 ^ 61"
  shows "table_entry (initialize_user_region s m) s k =
    (if k = 1026 then make_table_entry (storage_page s 5) 7
     else if 2560 \<le> k \<and> k < 2569 then make_table_entry (storage_page s (k - 2554)) 7
     else table_entry m s k)"
proof -
  have n: "unat X64_USER_IMAGE_PAGE_COUNT = 8" by (simp add: X64_USER_IMAGE_PAGE_COUNT_def)
  let ?m = "set_table_entry m s 1026 (make_table_entry (storage_page s 5) 7)"
  let ?loop = "fold (\<lambda>i m. set_table_entry m s (2560 + i) (make_table_entry (storage_page s (6 + i)) 7)) [0..<8] ?m"
  have e: "initialize_user_region s m = set_table_entry ?loop s 2568 (make_table_entry (storage_page s 14) 7)"
    unfolding initialize_user_region_def Let_def n page_flags x64_storage_layout entry_of_page by simp
  have l: "table_entry ?loop s k =
      (if 2560 \<le> k \<and> k < 2560 + 8 then make_table_entry (storage_page s (6 + (k - 2560))) 7 else table_entry ?m s k)"
    using assms by (intro entry_fold) simp_all
  have s: "table_entry (initialize_user_region s m) s k =
      (if k = 2568 then make_table_entry (storage_page s 14) 7 else table_entry ?loop s k)"
    "table_entry ?m s k = (if k = 1026 then make_table_entry (storage_page s 5) 7 else table_entry m s k)"
    unfolding e using assms by (intro entry_set; simp)+
  have "6 + (k - 2560) = k - 2554" if "2560 \<le> k" using that by simp
  then show ?thesis unfolding s l by simp
qed

lemma storage_words:
  assumes "k < 3072"
  shows "table_entry (x64_initialize_process_storage s m) s k = x64_table_word s k"
  using assms
  by (simp add: x64_initialize_process_storage_def user_region_words low_identity_words entry_memset
      SIZEOF_X64_PROCESS_STORAGE_def x64_table_word_def)

section \<open>The page walk of the processor\<close>

text \<open>
  The reference: four levels, indexed by nine bits of the address each. An entry translates when it is
  present and, in user mode, carries the user bit; bit 7 of a middle level is a large page. Bits 12
  to 51 of an entry are the physical address, and addresses outside the two canonical halves fault.
\<close>

definition X64_PHYSICAL_ADDRESS_MASK :: u64 where "X64_PHYSICAL_ADDRESS_MASK = 0x000FFFFFFFFFF000"

fun x64_walk :: "bool \<Rightarrow> hmem \<Rightarrow> nat \<Rightarrow> u64 \<Rightarrow> u64 \<Rightarrow> u64 option" where
  "x64_walk user m 0 page va = Some (page + (va AND 0xFFF))"
| "x64_walk user m (Suc level) table va =
     (let e = table_entry m table (walk_index level va); address = e AND X64_PHYSICAL_ADDRESS_MASK in
      if \<not> bit e 0 \<or> user \<and> \<not> bit e 2 then None
      else if bit e 7 \<and> (level = 1 \<or> level = 2)
      then Some ((address AND NOT (mask (12 + 9 * level))) + (va AND mask (12 + 9 * level)))
      else x64_walk user m level address va)"

definition x64_translate :: "bool \<Rightarrow> hmem \<Rightarrow> u64 \<Rightarrow> u64 \<Rightarrow> u64 option" where
  "x64_translate user m cr3 va =
     (if drop_bit 47 va \<in> {0, 0x1FFFF} then x64_walk user m 4 (cr3 AND X64_PHYSICAL_ADDRESS_MASK) va else None)"

lemma physical_page:
  assumes "a AND 0xFFF = 0" and "a < 2 ^ 52" and "flags < 0x1000"
  shows "make_table_entry a flags AND X64_PHYSICAL_ADDRESS_MASK = a"
    and "n < 12 \<Longrightarrow> bit (make_table_entry a flags) n = bit flags n"
proof -
  have x: "X64_PHYSICAL_ADDRESS_MASK = NOT 0xFFF AND mask 52"
    by (simp add: X64_PHYSICAL_ADDRESS_MASK_def mask_eq_exp_minus_1)
  show "make_table_entry a flags AND X64_PHYSICAL_ADDRESS_MASK = a"
    unfolding make_table_entry_def x and.assoc[symmetric] page_and_flags(1)[OF assms(1,3)] by (rule less_mask_eq[OF assms(2)])
  assume n: "n < 12"
  have m: "(0xFFF :: u64) = mask 12" by (simp add: mask_eq_exp_minus_1)
  show "bit (make_table_entry a flags) n = bit flags n"
    using arg_cong[OF page_and_flags(2)[OF assms(1,3)], of "\<lambda>w. bit w n"] n
    by (simp add: make_table_entry_def m bit_simps)
qed

lemma walk_entry:
  assumes "table_entry m table (walk_index level va) = make_table_entry a flags" and "flags \<in> {3, 7}"
    and "a AND 0xFFF = 0" and "a < 2 ^ 52"
  shows "x64_walk user m (Suc level) table va = (if user \<and> flags = 3 then None else x64_walk user m level a va)"
proof -
  have f: "flags < 0x1000" using assms(2) by auto
  note P = physical_page[OF assms(3,4) f]
  have "bit (make_table_entry a flags) 0" "bit (make_table_entry a flags) 2 = (flags = 7)" "\<not> bit (make_table_entry a flags) 7"
    using assms(2) P(2)[of 0] P(2)[of 2] P(2)[of 7] by auto
  then show ?thesis using assms(1,2) P(1) by (auto simp: Let_def)
qed

lemma walk_absent: "table_entry m table (walk_index level va) = 0 \<Longrightarrow> x64_walk user m (Suc level) table va = None"
  by simp

section \<open>The tables as the processor reads them\<close>

definition x64_tables :: "u64 \<Rightarrow> hmem \<Rightarrow> bool" where
  "x64_tables s m \<longleftrightarrow> (\<forall>k < 3072. table_entry m s k = x64_table_word s k)"

text \<open>The linker aligns the storage to a page and physical addresses have 52 bits.\<close>

definition physical_storage :: "u64 \<Rightarrow> bool" where
  "physical_storage s \<longleftrightarrow> unat s mod 4096 = 0 \<and> unat s + 16 * 4096 \<le> 2 ^ 52"

lemma storage_page_aligned:
  assumes "physical_storage s" and "n < 16"
  shows "storage_page s n AND 0xFFF = 0" and "storage_page s n < 2 ^ 52" and "unat (storage_page s n) = unat s + 4096 * n"
proof -
  have n: "unat (of_nat (4096 * n) :: u64) = 4096 * n" using assms(2) by (intro unat_of_nat_u64) simp
  show u: "unat (storage_page s n) = unat s + 4096 * n"
    unfolding storage_page_def using assms n by (subst unat_add_no_wrap) (auto simp: physical_storage_def)
  show "storage_page s n AND 0xFFF = 0" unfolding aligned_iff u using assms(1) by (simp add: physical_storage_def mod_add_eq[symmetric])
  show "storage_page s n < 2 ^ 52" using u assms by (simp add: word_less_nat_alt physical_storage_def)
qed

lemma identity_page: "i < 1024 \<Longrightarrow> (of_nat (4096 * i) :: u64) AND 0xFFF = 0" "i < 1024 \<Longrightarrow> (of_nat (4096 * i) :: u64) < 2 ^ 52"
proof -
  assume "i < 1024"
  then have u: "unat (of_nat (4096 * i) :: u64) = 4096 * i" by (intro unat_of_nat_u64) simp
  show "(of_nat (4096 * i) :: u64) AND 0xFFF = 0" unfolding aligned_iff u by simp
  show "(of_nat (4096 * i) :: u64) < 2 ^ 52" using u \<open>i < 1024\<close> by (simp add: word_less_nat_alt)
qed

lemma table_words:
  assumes "k < 512"
  shows "x64_table_word s (512 * 0 + k) = (if k = 0 then make_table_entry (storage_page s 1) 7 else 0)"
    and "x64_table_word s (512 * 1 + k) = (if k = 0 then make_table_entry (storage_page s 2) 7 else 0)"
    and "x64_table_word s (512 * 2 + k) =
      (if k < 2 then make_table_entry (storage_page s (3 + k)) 3 else if k = 2 then make_table_entry (storage_page s 5) 7 else 0)"
    and "j < 2 \<Longrightarrow> x64_table_word s (512 * (3 + j) + k) = make_table_entry (of_nat (4096 * (512 * j + k))) 3"
    and "x64_table_word s (512 * 5 + k) = (if k < 9 then make_table_entry (storage_page s (6 + k)) 7 else 0)"
  using assms by (simp_all add: x64_table_word_def)

lemma walk_page:
  assumes "x64_tables s m" and "n < 6"
    and "x64_table_word s (512 * n + walk_index level va) = (if P then make_table_entry a flags else 0)"
    and "flags \<in> {3, 7}" and "P \<Longrightarrow> a AND 0xFFF = 0" and "P \<Longrightarrow> a < 2 ^ 52"
  shows "x64_walk user m (Suc level) (storage_page s n) va =
    (if P \<and> \<not> (user \<and> flags = 3) then x64_walk user m level a va else None)"
proof -
  have "walk_index level va < 512" by (simp add: walk_index_div)
  then have e: "table_entry m (storage_page s n) (walk_index level va) = (if P then make_table_entry a flags else 0)"
    using assms(1-3) by (simp add: entry_of_page x64_tables_def)
  show ?thesis
  proof (cases P)
    case True
    then show ?thesis using walk_entry[of m "storage_page s n" level va a flags user] e assms(4-6) by simp
  next
    case False
    then show ?thesis using walk_absent[of m "storage_page s n" level va user] e by simp
  qed
qed

lemma x64_walk_tables:
  assumes t: "x64_tables s m" and s: "physical_storage s"
  defines "i \<equiv> \<lambda>level va. walk_index level va"
  shows "x64_walk user m 4 s va =
    (if i 3 va \<noteq> 0 \<or> i 2 va \<noteq> 0 then None
     else if i 1 va = 2 then (if i 0 va < 9 then Some (storage_page s (6 + i 0 va) + (va AND 0xFFF)) else None)
     else if i 1 va < 2 \<and> \<not> user then Some (of_nat (4096 * (512 * i 1 va + i 0 va)) + (va AND 0xFFF))
     else None)"
proof -
  have b: "i l va < 512" for l by (simp add: i_def walk_index_div)
  note A = storage_page_aligned(1,2)[OF s] and W = walk_page[OF t, folded i_def] and T = table_words
  have root: "s = storage_page s 0" by (simp add: storage_page_def)
  have w3: "x64_walk user m (Suc 3) (storage_page s 0) va = (if i 3 va = 0 then x64_walk user m 3 (storage_page s 1) va else None)"
    using W[of 0 3 va "i 3 va = 0" "storage_page s 1" 7 user] T(1)[OF b] A[of 1] by simp
  have w2: "x64_walk user m (Suc 2) (storage_page s 1) va = (if i 2 va = 0 then x64_walk user m 2 (storage_page s 2) va else None)"
    using W[of 1 2 va "i 2 va = 0" "storage_page s 2" 7 user] T(2)[OF b] A[of 2] by simp
  have w1: "x64_walk user m (Suc 1) (storage_page s 2) va =
      (if i 1 va < 2 \<and> \<not> user then x64_walk user m 1 (storage_page s (3 + i 1 va)) va
       else if i 1 va = 2 then x64_walk user m 1 (storage_page s 5) va else None)"
    using W[of 2 1 va "i 1 va < 2" "storage_page s (3 + i 1 va)" 3 user] W[of 2 1 va "i 1 va = 2" "storage_page s 5" 7 user]
      T(3)[OF b[of 1]] A[of "3 + i 1 va"] A[of 5] by (cases "i 1 va < 2") auto
  have user: "x64_walk user m (Suc 0) (storage_page s 5) va =
      (if i 0 va < 9 then Some (storage_page s (6 + i 0 va) + (va AND 0xFFF)) else None)"
    using W[of 5 0 va "i 0 va < 9" "storage_page s (6 + i 0 va)" 7 user] T(5)[OF b] A[of "6 + i 0 va"] by simp
  have low: "x64_walk False m (Suc 0) (storage_page s (3 + i 1 va)) va =
      Some (of_nat (4096 * (512 * i 1 va + i 0 va)) + (va AND 0xFFF))" if "i 1 va < 2"
    using W[of "3 + i 1 va" 0 va True "of_nat (4096 * (512 * i 1 va + i 0 va))" 3 False] T(4)[OF b that]
      identity_page[of "512 * i 1 va + i 0 va"] that b[of 0] by simp
  have n: "(4 :: nat) = Suc 3" "(3 :: nat) = Suc 2" "(2 :: nat) = Suc 1" "(1 :: nat) = Suc 0" by simp_all
  show ?thesis
    using w3 w2 w1 user low root by (cases user) (auto simp flip: n)
qed

lemma canonical_low:
  "drop_bit 47 va \<in> {0, 0x1FFFF} \<and> walk_index 3 va = 0 \<and> walk_index 2 va = 0 \<longleftrightarrow> unat va < 2 ^ 30"
proof -
  have d: "unat (drop_bit 47 va) = unat va div 2 ^ 47"
    unfolding unsigned_drop_bit_eq using unat_lt_u64[of va] by (simp add: drop_bit_eq_div take_bit_nat_eq_self)
  have c: "drop_bit 47 va \<in> {0, 0x1FFFF} \<longleftrightarrow> unat va div 2 ^ 47 \<in> {0, 0x1FFFF}"
    unfolding d[symmetric] insert_iff empty_iff word_unat_eq_iff by simp
  define q where "q = unat va div 2 ^ 30"
  have i: "walk_index 2 va = q mod 512" "walk_index 3 va = q div 512 mod 512" "unat va div 2 ^ 47 = q div 0x20000"
    by (simp_all add: walk_index_div q_def div_mult2_eq[symmetric])
  have "q = 0" if q: "q mod 512 = 0" "q div 512 mod 512 = 0" "q div 0x20000 \<in> {0, 0x1FFFF}"
  proof -
    define t where "t = q div 512 div 512"
    have "q = 512 * (q div 512)" "q div 512 = 512 * t" using q(1,2) by (simp_all add: t_def minus_mod_eq_mult_div[symmetric])
    then have t: "q = 512 * (512 * t)" by simp
    have "q div 0x20000 = 2 * t" unfolding t by simp
    then have "t = 0" using q(3) by (auto dest: arg_cong[where f = even])
    then show ?thesis by (simp add: t)
  qed
  moreover have "q = 0 \<longleftrightarrow> unat va < 2 ^ 30" by (simp add: q_def div_eq_0_iff)
  ultimately show ?thesis unfolding c i by auto
qed

lemma x64_translate_tables:
  assumes t: "x64_tables s m" and s: "physical_storage s"
  shows "x64_translate True m s va =
      (if 0x400000 \<le> unat va \<and> unat va < 0x409000 then Some (storage_page s 6 + (va - 0x400000)) else None)"
    and "unat va < 0x400000 \<Longrightarrow> x64_translate False m s va = Some va"
proof -
  let ?v = "unat va"
  have root: "s AND X64_PHYSICAL_ADDRESS_MASK = s"
  proof -
    have a: "s AND 0xFFF = 0" "s < 2 ^ 52" using storage_page_aligned(1,2)[OF s, of 0] by (simp_all add: storage_page_def)
    have "make_table_entry s 0 = s" using page_and_flags(1)[OF a(1), of 0] by (simp add: make_table_entry_def and.assoc)
    then show ?thesis using physical_page(1)[OF a, of 0] by simp
  qed
  have va: "va = of_nat (4096 * (?v div 4096)) + (va AND 0xFFF)" (is "_ = ?r")
  proof -
    have u: "unat (of_nat (4096 * (?v div 4096)) :: u64) = 4096 * (?v div 4096)"
      using unat_lt_u64[of va] by (intro unat_of_nat_u64) (meson le_less_trans times_div_less_eq_dividend)
    have "unat ?r = ?v" using u low_word[of va] unat_lt_u64[of va] by (subst unat_add_no_wrap) simp_all
    then show ?thesis by (simp add: word_unat_eq_iff)
  qed
  have one: "walk_index 1 va = ?v div 0x200000" "walk_index 0 va = ?v div 4096 mod 512" if "?v < 2 ^ 30"
    using that by (simp_all add: walk_index_div)
  have idx: "?v div 4096 = 1024 + walk_index 0 va" if "0x400000 \<le> ?v" "?v < 0x600000"
  proof -
    have split: "q = 1024 + q mod 512" if "1024 \<le> q" "q < 1536" for q :: nat
      using that le_mod_geq[of 512 q] le_mod_geq[of 512 "q - 512"] by simp
    have "1024 \<le> ?v div 4096" "?v div 4096 < 1536" using that by simp_all
    then have "?v div 4096 = 1024 + ?v div 4096 mod 512" by (rule split)
    then show ?thesis using one(2) that by simp
  qed
  have pg: "storage_page s (6 + walk_index 0 va) + (va AND 0xFFF) = storage_page s 6 + (va - 0x400000)"
    if "0x400000 \<le> ?v" "?v < 0x600000"
  proof -
    have "va = of_nat (4096 * (1024 + walk_index 0 va)) + (va AND 0xFFF)" using va idx[OF that] by simp
    then have "va - 0x400000 = of_nat (4096 * walk_index 0 va) + (va AND 0xFFF)" by (simp add: algebra_simps)
    then show ?thesis by (simp add: storage_page_def algebra_simps)
  qed
  show "x64_translate True m s va =
      (if 0x400000 \<le> ?v \<and> ?v < 0x409000 then Some (storage_page s 6 + (va - 0x400000)) else None)"
    (is "_ = ?R")
  proof (cases "?v < 2 ^ 30")
    case True
    have "walk_index 1 va = 2 \<longleftrightarrow> 0x400000 \<le> ?v \<and> ?v < 0x600000" using one(1)[OF True] by auto
    moreover have "walk_index 0 va < 9 \<longleftrightarrow> ?v < 0x409000" if "0x400000 \<le> ?v" "?v < 0x600000"
    proof -
      have "walk_index 0 va < 9 \<longleftrightarrow> ?v div 4096 < 1033" using idx[OF that] by auto
      then show ?thesis by (simp add: div_less_iff_less_mult)
    qed
    ultimately have i: "walk_index 1 va = 2 \<longleftrightarrow> 0x400000 \<le> ?v \<and> ?v < 0x600000"
      "0x400000 \<le> ?v \<and> ?v < 0x600000 \<Longrightarrow> walk_index 0 va < 9 \<longleftrightarrow> ?v < 0x409000" by auto
    have "x64_translate True m s va = (if walk_index 1 va = 2 \<and> walk_index 0 va < 9
        then Some (storage_page s (6 + walk_index 0 va) + (va AND 0xFFF)) else None)"
      using True canonical_low[of va] by (simp add: x64_translate_def root x64_walk_tables[OF t s])
    then show ?thesis using i pg by auto
  next
    case False
    then have "x64_translate True m s va = None"
      using canonical_low[of va] by (auto simp: x64_translate_def root x64_walk_tables[OF t s])
    then show ?thesis using False by simp
  qed
  show "x64_translate False m s va = Some va" if v: "?v < 0x400000"
  proof -
    have "?v div 0x200000 = ?v div 4096 div 512" by (simp add: div_mult2_eq[symmetric])
    then have i: "walk_index 1 va < 2" "512 * walk_index 1 va + walk_index 0 va = ?v div 4096"
      using one v mult_div_mod_eq[of 512 "?v div 4096"] by simp_all
    have "x64_translate False m s va = Some (of_nat (4096 * (512 * walk_index 1 va + walk_index 0 va)) + (va AND 0xFFF))"
      using v i(1) canonical_low[of va] by (simp add: x64_translate_def root x64_walk_tables[OF t s])
    then show ?thesis unfolding i(2) using va by simp
  qed
qed

section \<open>The address space of the kernel\<close>

lemma x64_address_space_exists:
  assumes "physical_storage s"
  obtains asp where "x64_address_space s (empty_address_space root) = Some asp" and "arch_root_table asp = root"
    and "live_mappings asp =
      [\<lparr>asm_user_address = 0x400000, asm_host_address = storage_page s 6, asm_size = 0x8000\<rparr>,
       \<lparr>asm_user_address = 0x408000, asm_host_address = storage_page s 14, asm_size = 0x1000\<rparr>]"
proof -
  have u: "unat (storage_page s 6) = unat s + 0x6000" "unat (storage_page s 14) = unat s + 0xE000"
    using storage_page_aligned(3)[OF assms, of 6] storage_page_aligned(3)[OF assms, of 14] by simp_all
  have r: "is_valid_address_range (storage_page s 6) 0x8000" "is_valid_address_range (storage_page s 14) 0x1000"
    unfolding is_valid_address_range_iff u using assms by (simp_all add: physical_storage_def)
  have v: "is_valid_address_range 0x400000 0x8000" "is_valid_address_range 0x408000 0x1000"
    unfolding is_valid_address_range_iff by simp_all
  have o: "\<not> ranges_overlap 0x408000 0x1000 0x400000 0x8000" by (simp add: ranges_overlap_def)
  have rep: "replicate 8 x = [x, x, x, x, x, x, x, x]" for x :: address_space_mapping by (simp add: numeral_eq_Suc)
  have "\<exists>asp. x64_address_space s (empty_address_space root) = Some asp \<and> arch_root_table asp = root \<and> live_mappings asp =
      [\<lparr>asm_user_address = 0x400000, asm_host_address = storage_page s 6, asm_size = 0x8000\<rparr>,
       \<lparr>asm_user_address = 0x408000, asm_host_address = storage_page s 14, asm_size = 0x1000\<rparr>]"
    using r v o
    by (simp add: x64_address_space_def add_address_space_mapping_def x64_user_layout x64_storage_layout empty_address_space_def
        live_mappings_def USER_RUNTIME_MAX_ADDRESS_SPACE_MAPPINGS_def rep)
  then show thesis using that by blast
qed

lemma x64_address_space_xlate:
  assumes "physical_storage s" and "live_mappings asp =
      [\<lparr>asm_user_address = 0x400000, asm_host_address = storage_page s 6, asm_size = 0x8000\<rparr>,
       \<lparr>asm_user_address = 0x408000, asm_host_address = storage_page s 14, asm_size = 0x1000\<rparr>]"
  shows "xlate asp va =
    (if 0x400000 \<le> unat va \<and> unat va < 0x409000 then Some (storage_page s 6 + (va - 0x400000)) else None)"
proof -
  have "storage_page s 6 \<noteq> 0" "storage_page s 14 \<noteq> 0"
    using storage_page_aligned(3)[OF assms(1), of 6] storage_page_aligned(3)[OF assms(1), of 14] by (auto simp: unat_eq_zero[symmetric])
  moreover have "storage_page s 14 + (va - 0x408000) = storage_page s 6 + (va - 0x400000)" by (simp add: storage_page_def)
  ultimately show ?thesis by (simp add: xlate_def assms(2) user_bytes_def)
qed

section \<open>What populating a process does\<close>

lemma storage_initialized_region: "region_only s SIZEOF_X64_PROCESS_STORAGE m (x64_initialize_process_storage s m)"
proof -
  have two: "[0..<X64_LOW_PAGE_TABLE_COUNT] = [0..<2]"
    by (simp add: X64_LOW_PAGE_TABLE_COUNT_def X64_LOW_IDENTITY_SIZE_def)
  have n: "unat X64_USER_IMAGE_PAGE_COUNT = 8" by (simp add: X64_USER_IMAGE_PAGE_COUNT_def)
  let ?r = "region_only s SIZEOF_X64_PROCESS_STORAGE"
  have e: "?r m (set_table_entry m (storage_page s p) i v)" if "p < 15" "i < 512" for m p i v
    unfolding entry_of_page using that by (intro region_set_entry) (simp_all add: SIZEOF_X64_PROCESS_STORAGE_def)
  have low: "?r m (initialize_low_page_table s t m)" if "t < 2" for t m
    unfolding initialize_low_page_table_def Let_def x64_storage_layout
    by (rule region_trans[OF region_fold e]) (use that e in auto)
  have id: "?r m (initialize_low_identity_mappings s m)" for m
    unfolding initialize_low_identity_mappings_def Let_def two x64_storage_layout
    by (rule region_trans[OF region_trans[OF e e] region_fold[OF low]]) simp_all
  have us: "?r m (initialize_user_region s m)" for m
    unfolding initialize_user_region_def Let_def n x64_storage_layout
    by (rule region_trans[OF region_trans[OF e region_fold] e]) (use e in auto)
  have "?r m (memset m s 0 SIZEOF_X64_PROCESS_STORAGE)"
    by (rule region_memset) (simp add: SIZEOF_X64_PROCESS_STORAGE_def)
  then show ?thesis unfolding x64_initialize_process_storage_def using region_trans us id by blast
qed

lemma initialize_user_image_keeps:
  assumes "initialize_user_image s image_start image_end m = Inr (entry_point, m')"
  shows "region_only (storage_page s 6) (2 ^ 33) m m'"
proof -
  obtain st info m1 where l: "load_x64_pe64_image image_start (image_end - image_start) X64_USER_IMAGE_VIRTUAL_ADDRESS
      (storage_page s 6) X64_USER_REGION_SIZE None m = (st, info, m1)" by (metis prod_cases3)
  have r: "region_only (storage_page s 6) (2 ^ 33) m m1"
    by (rule load_x64_reach[OF l no_resolver_confined]) (simp add: x64_user_layout)
  have m': "m' = store_bytes m1 (storage_page s 6 + 0x8FF8) (le_bytes 8 0)"
    using assms l by (auto simp: initialize_user_image_def x64_storage_layout x64_user_layout storage_page_def algebra_simps split: if_splits)
  have "region_only (storage_page s 6) (2 ^ 33) m1 m'"
    unfolding m' region_only_def using store_shifted[of "0x8FF8" "le_bytes 8 0" m1 "storage_page s 6"] by simp
  then show ?thesis by (rule region_trans[OF r])
qed

lemma populate_cases:
  assumes "populate_bootstrap_for_process s image_start image_end cfg m = Inr (cfg', m')"
  obtains entry_point asp where
    "initialize_user_image s image_start image_end (x64_initialize_process_storage s m) = Inr (entry_point, m')"
    "x64_address_space s ((cfg_address_space cfg)\<lparr>arch_root_table := storage_page s 0\<rparr>) = Some asp"
    "cfg_address_space cfg' = asp"
    "cfg_thread_context cfg' = \<lparr>ctx_instruction_pointer = entry_point, ctx_stack_pointer = x64_initial_stack_pointer,
       ctx_flags = USER_THREAD_INITIAL_FLAGS, ctx_argument0 = 0\<rparr>"
  using assms by (auto simp: populate_bootstrap_for_process_def storage_pml4_def split: sum.splits option.splits)

lemma populate_tables:
  assumes "populate_bootstrap_for_process s image_start image_end cfg m = Inr (cfg', m')"
  shows "x64_tables s m'"
  using assms
proof (rule populate_cases)
  fix entry_point
  assume "initialize_user_image s image_start image_end (x64_initialize_process_storage s m) = Inr (entry_point, m')"
  then have r: "region_only (s + of_nat 0x6000) (2 ^ 33) (x64_initialize_process_storage s m) m'"
    using initialize_user_image_keeps by (simp add: storage_page_def)
  show ?thesis
    unfolding x64_tables_def using region_entry[OF r] storage_words by simp
qed

lemma x64_populate_wf:
  assumes "populate_bootstrap_for_process s image_start image_end cfg m = Inr (cfg', m')" and "wf_address_space (cfg_address_space cfg)"
  shows "wf_address_space (cfg_address_space cfg')"
  using assms(1)
proof (rule populate_cases)
  fix asp assume a: "x64_address_space s ((cfg_address_space cfg)\<lparr>arch_root_table := storage_page s 0\<rparr>) = Some asp"
    and c: "cfg_address_space cfg' = asp"
  have "wf_address_space ((cfg_address_space cfg)\<lparr>arch_root_table := storage_page s 0\<rparr>)"
    using assms(2) by (simp add: wf_address_space_def live_mappings_def)
  then show ?thesis
    using a unfolding c x64_address_space_def by (auto split: option.splits intro: add_address_space_mapping_wf)
qed

interpretation x64_boot: initial_platform
  "\<lambda>i. populate_bootstrap_for_process (x64_storage storages i)"
  "\<lambda>i. populate_bootstrap_for_process (x64_storage storages i)"
  for storages
  by unfold_locales (rule x64_populate_wf)+

section \<open>The platform is initialized\<close>

text \<open>The array of storages is aligned and lies in physical memory.\<close>

definition physical_storages :: "u64 \<Rightarrow> bool" where
  "physical_storages storages \<longleftrightarrow> unat storages mod 4096 = 0 \<and> unat storages + 31 * 4096 \<le> 2 ^ 52"

lemma x64_storage_page: "x64_storage storages i = storage_page storages (15 * i)"
  by (simp add: x64_storage_def storage_page_def SIZEOF_X64_PROCESS_STORAGE_def algebra_simps)

lemma physical_storage_nth:
  assumes "physical_storages storages" and "i < 2"
  shows "physical_storage (x64_storage storages i)"
proof -
  have "unat (of_nat (61440 * i) :: u64) = 61440 * i" using assms(2) by (intro unat_of_nat_u64) simp
  moreover have "61440 * i = 15 * i * 4096" by simp
  ultimately have "unat (x64_storage storages i) = unat storages + 15 * i * 4096"
    unfolding x64_storage_def SIZEOF_X64_PROCESS_STORAGE_def using assms
    by (subst unat_add_no_wrap) (auto simp: physical_storages_def algebra_simps)
  then show ?thesis using assms by (auto simp: physical_storage_def physical_storages_def)
qed

lemma populate_region:
  assumes "populate_bootstrap_for_process s image_start image_end cfg m = Inr (cfg', m')"
  shows "region_only s (2 ^ 34) m m'"
  using assms
proof (rule populate_cases)
  fix entry_point
  assume "initialize_user_image s image_start image_end (x64_initialize_process_storage s m) = Inr (entry_point, m')"
  then have "region_only (s + of_nat 0x6000) (2 ^ 33) (x64_initialize_process_storage s m) m'"
    using initialize_user_image_keeps by (simp add: storage_page_def)
  then have "region_only s (2 ^ 34) (x64_initialize_process_storage s m) m'" by (rule region_shift) simp_all
  moreover have "region_only s (2 ^ 34) m (x64_initialize_process_storage s m)"
    by (rule region_mono[OF storage_initialized_region]) (simp add: SIZEOF_X64_PROCESS_STORAGE_def)
  ultimately show ?thesis using region_trans by blast
qed

lemma x64_initialize_process:
  assumes "x64_initialize storages images m = Inr (bs, m')" and "i < unat (boot_process_count bs)"
  obtains image_start image_end m0 m1 where "i < 2"
    and "populate_bootstrap_for_process (x64_storage storages i) image_start image_end zero_configuration m0 =
      Inr (boot_initial_processes bs ! i, m1)" and "x64_tables (x64_storage storages i) m'"
proof -
  have init: "initialize_processes (\<lambda>i. populate_bootstrap_for_process (x64_storage storages i))
      (\<lambda>i. populate_bootstrap_for_process (x64_storage storages i)) images m = Inr (bs, m')"
    using assms(1) by (simp add: x64_initialize_def Let_def)
  then show thesis
  proof (cases rule: initialize_processes_cases)
    case one
    then have "i = 0" using assms(2) by simp
    then show thesis using that one(2) populate_tables[OF one(2)] by auto
  next
    case (two m1)
    have "region_only (storages + of_nat 0xF000) (2 ^ 34) m1 m'"
      using populate_region[OF two(3)] by (simp add: x64_storage_def SIZEOF_X64_PROCESS_STORAGE_def)
    then have "table_entry m' storages k = table_entry m1 storages k" if "k < 3072" for k
      by (rule region_entry) (use that in simp_all)
    moreover have "x64_tables storages m1" using populate_tables[OF two(2)] by (simp add: x64_storage_def)
    ultimately have first: "x64_tables (x64_storage storages 0) m'" by (simp add: x64_tables_def x64_storage_def)
    show thesis
    proof (cases i)
      case 0
      then show thesis using that two(2) first by auto
    next
      case (Suc j)
      then have "i = 1" using assms(2) two(1) by simp
      then show thesis using that two(3) populate_tables[OF two(3)] by auto
    qed
  qed
qed

section \<open>Properties\<close>

text \<open>
  C14. The page tables the x64 platform builds are the address spaces the kernel keeps. When the platform
  has been initialized with storages in physical memory, then for every initial process, with the
  final memory and whatever its image holds, the processor translates a user-mode access to exactly
  the host byte the kernel's mapping table has for it and faults on every other address, so
  user code reaches nothing but its image and stack pages; in supervisor mode the low four megabytes are
  mapped to themselves.
\<close>

theorem x64_page_tables_are_address_space:
  assumes "x64_initialize storages images m = Inr (bs, m')" and "physical_storages storages"
    and "i < unat (boot_process_count bs)"
  shows "let asp = cfg_address_space (boot_initial_processes bs ! i); root = arch_root_table asp in
    (\<forall>va. x64_translate True m' root va = xlate asp va) \<and>
    (\<forall>va. va < X64_LOW_IDENTITY_SIZE \<longrightarrow> x64_translate False m' root va = Some va)"
proof -
  let ?cfg = "boot_initial_processes bs ! i" and ?s = "x64_storage storages i"
  obtain image_start image_end m0 m1 where i: "i < 2"
    and p: "populate_bootstrap_for_process ?s image_start image_end zero_configuration m0 = Inr (?cfg, m1)"
    and t: "x64_tables ?s m'" by (rule x64_initialize_process[OF assms(1,3)])
  have s: "physical_storage ?s" using assms(2) i by (rule physical_storage_nth)
  obtain asp where a: "x64_address_space ?s (empty_address_space (storage_page ?s 0)) = Some asp"
    "arch_root_table asp = storage_page ?s 0"
    and lm: "live_mappings asp = [\<lparr>asm_user_address = 0x400000, asm_host_address = storage_page ?s 6, asm_size = 0x8000\<rparr>,
      \<lparr>asm_user_address = 0x408000, asm_host_address = storage_page ?s 14, asm_size = 0x1000\<rparr>]"
    by (rule x64_address_space_exists[OF s])
  have "cfg_address_space ?cfg = asp" using p a(1) by (auto elim!: populate_cases simp: zero_configuration_root)
  then show ?thesis
    using a(2) x64_translate_tables[OF t s] x64_address_space_xlate[OF s lm]
    by (simp add: Let_def storage_page_def X64_LOW_IDENTITY_SIZE_def word_less_nat_alt)
qed

lemma example_x64_initialize:
  obtains bs m' where "x64_initialize 0x1FA000 example_images (example_image True 0x10 8) = Inr (bs, m')"
    and "boot_process_count bs = 1"
proof -
  let ?s = "0x1FA000 :: u64" and ?m = "example_image True 0x10 8"
  let ?init = "x64_initialize_process_storage ?s ?m"
  have h: "holds_example True 0x10 8 ?init"
    by (rule region_holds[OF example_image_holds apart_below storage_initialized_region]) (simp_all add: SIZEOF_X64_PROCESS_STORAGE_def)
  have p6: "storage_page ?s 6 = 0x200000" by (simp add: storage_page_def)
  have r: "0x20 \<le> X64_USER_REGION_SIZE" "unat X64_USER_REGION_SIZE = 0xA000" by (simp_all add: x64_user_layout)
  obtain info m1 where l: "load_x64_pe64_image 0x100000 400 0x400000 0x200000 X64_USER_REGION_SIZE None ?init =
      (X64_PE64_IMAGE_LOAD_STATUS_OK, info, m1)"
    by (rule example_x64_load[OF h r(1) apart_below]) (simp_all add: r(2))
  then have i: "\<exists>entry m2. initialize_user_image ?s 0x100000 0x100190 ?init = Inr (entry, m2)"
    by (simp add: initialize_user_image_def x64_storage_layout p6 X64_USER_IMAGE_VIRTUAL_ADDRESS_def)
  obtain asp where "x64_address_space ?s (empty_address_space (storage_page ?s 0)) = Some asp"
    by (rule x64_address_space_exists[of ?s "storage_page ?s 0"]) (simp_all add: physical_storage_def)
  then have "\<exists>cfg m2. populate_bootstrap_for_process ?s 0x100000 0x100190 zero_configuration ?m = Inr (cfg, m2)"
    using i by (auto simp: populate_bootstrap_for_process_def storage_pml4_def zero_configuration_root)
  then obtain cfg m2 where "populate_bootstrap_for_process (x64_storage ?s 0) 0x100000 0x100190 zero_configuration ?m = Inr (cfg, m2)"
    by (auto simp: x64_storage_def)
  moreover have "boot_initial_processes zero_bootstrap ! 0 = zero_configuration"
    by (simp add: zero_bootstrap_def USER_RUNTIME_MAX_INITIAL_PROCESSES_def)
  ultimately have "\<exists>bs m'. x64_initialize ?s example_images ?m = Inr (bs, m') \<and> boot_process_count bs = 1"
    by (simp add: x64_initialize_def Let_def initialize_processes_def populate_process_def example_images_def has_embedded_image_def)
  then show thesis using that by blast
qed

theorem x64_page_tables_are_address_space_witness:
  "\<exists>bs m'. x64_initialize 0x1FA000 example_images (example_image True 0x10 8) = Inr (bs, m') \<and>
     (let asp = cfg_address_space (boot_initial_processes bs ! 0); root = arch_root_table asp in
      x64_translate True m' root 0x400008 = xlate asp 0x400008 \<and> x64_translate False m' root 0x1000 = Some 0x1000)"
proof -
  obtain bs m' where i: "x64_initialize 0x1FA000 example_images (example_image True 0x10 8) = Inr (bs, m')"
    "boot_process_count bs = 1" by (rule example_x64_initialize)
  have "physical_storages 0x1FA000" by (simp add: physical_storages_def)
  from x64_page_tables_are_address_space[OF i(1) this, of 0] show ?thesis
    using i by (auto simp: Let_def X64_LOW_IDENTITY_SIZE_def)
qed

end
