(* ===== verification/Emulated_Thread.thy ===== *)
theory Emulated_Thread
  imports Runtime_Invariant X64_Results X64_Pe_Image
begin

text \<open>
  How the arm64 kernel runs threads: \<open>enter_user_thread\<close> of
  \<open>arch/arm64/arm64_initial_user_runtime_platform.cpp\<close> picks the current thread and either enters it
  natively or hands it to the x64 emulator through \<open>run_x64_emulator_thread\<close>, which turns the
  emulator's report into a yield, an exit, a fault message or a panic. The storage of a process is
  named by the addresses the linker gives its tables and its region. The theory shows what one turn
  of the loop does to the runtime: for an emulated thread it is a run of the abstract scheduler, and the
  only panic left is the one for an exhausted instruction budget.
\<close>

section \<open>The fault message\<close>

definition HEX_DIGITS :: "u8 list" where "HEX_DIGITS = map of_char ''0123456789abcdef''"

definition append_hex_nibble :: "nat \<Rightarrow> u8 \<Rightarrow> u8 list \<times> nat \<Rightarrow> u8 list \<times> nat" where
  "append_hex_nibble capacity v = (\<lambda>(buffer, cursor).
     if cursor + 1 < capacity then (buffer[cursor := HEX_DIGITS ! unat (v AND 0xF)], cursor + 1) else (buffer, cursor))"

fun append_hex_digits :: "nat \<Rightarrow> u64 \<Rightarrow> nat list \<Rightarrow> u8 list \<times> nat \<Rightarrow> u8 list \<times> nat" where
  "append_hex_digits capacity v [] out = out"
| "append_hex_digits capacity v (shift # shifts) out =
     append_hex_digits capacity v shifts (append_hex_nibble capacity (ucast (drop_bit shift v AND 0xF)) out)"

definition append_hex_u64 :: "nat \<Rightarrow> u64 \<Rightarrow> u8 list \<times> nat \<Rightarrow> u8 list \<times> nat" where
  "append_hex_u64 capacity v =
     append_hex_digits capacity v [60, 56, 52, 48, 44, 40, 36, 32, 28, 24, 20, 16, 12, 8, 4, 0]"

fun append_literal :: "nat \<Rightarrow> u8 list \<Rightarrow> u8 list \<times> nat \<Rightarrow> u8 list \<times> nat" where
  "append_literal capacity [] out = out"
| "append_literal capacity (x # xs) (buffer, cursor) =
     (if x \<noteq> 0 \<and> cursor + 1 < capacity then append_literal capacity xs (buffer[cursor := x], cursor + 1)
      else (buffer, cursor))"

definition x64_fault_message :: "x64_emulator_result \<Rightarrow> u8 list" where
  "x64_fault_message result =
     (let n = 112; f = fault result in
      case append_hex_nibble n (fault_byte f) (append_hex_nibble n (drop_bit 4 (fault_byte f))
        (append_literal n (map of_char '' opcode=0x'') (append_hex_u64 n (fault_memory_address f)
        (append_literal n (map of_char '' addr=0x'') (append_hex_u64 n (fault_instruction_pointer f)
        (append_literal n (map of_char ''x64 fault ip=0x'') (replicate n 0, 0))))))) of
      (buffer, cursor) \<Rightarrow> buffer[cursor := 0])"

definition debug_log_x64_emulator_fault :: "x64_emulator_result \<Rightarrow> user_runtime \<Rightarrow> user_runtime" where
  "debug_log_x64_emulator_fault result = debug_log (x64_fault_message result)"

section \<open>Classification of a stop\<close>

definition get_x64_emulator_guest_fault_status :: "x64_emulator_result \<Rightarrow> i32" where
  "get_x64_emulator_guest_fault_status result = (case guest_stop_reason result of
      X64_EMULATOR_GUEST_STOP_REASON_INVALID_MEMORY_ACCESS \<Rightarrow> STATUS_FAULT
    | X64_EMULATOR_GUEST_STOP_REASON_UNSUPPORTED_INSTRUCTION \<Rightarrow> STATUS_NOT_SUPPORTED
    | _ \<Rightarrow> STATUS_BAD_STATE)"

definition is_x64_emulator_guest_fault :: "x64_emulator_result \<Rightarrow> bool" where
  "is_x64_emulator_guest_fault result \<longleftrightarrow>
     guest_stop_reason result = X64_EMULATOR_GUEST_STOP_REASON_INVALID_MEMORY_ACCESS \<or>
     guest_stop_reason result = X64_EMULATOR_GUEST_STOP_REASON_UNSUPPORTED_INSTRUCTION"

definition describe_x64_emulator_guest_stop_reason :: "x64_emulator_guest_stop_reason \<Rightarrow> string" where
  "describe_x64_emulator_guest_stop_reason reason = (case reason of
      X64_EMULATOR_GUEST_STOP_REASON_NONE \<Rightarrow> ''x64 emulator stopped without a guest event''
    | X64_EMULATOR_GUEST_STOP_REASON_THREAD_EXITED \<Rightarrow> ''x64 emulator thread exited cleanly''
    | X64_EMULATOR_GUEST_STOP_REASON_YIELDED \<Rightarrow> ''x64 emulator yielded to the kernel scheduler''
    | X64_EMULATOR_GUEST_STOP_REASON_INVALID_MEMORY_ACCESS \<Rightarrow> ''x64 emulator touched unmapped guest memory''
    | X64_EMULATOR_GUEST_STOP_REASON_UNSUPPORTED_INSTRUCTION \<Rightarrow> ''x64 emulator hit an unsupported instruction'')"

definition describe_x64_emulator_backend_failure :: "x64_emulator_backend_failure \<Rightarrow> string" where
  "describe_x64_emulator_backend_failure failure = (case failure of
      X64_EMULATOR_BACKEND_FAILURE_NONE \<Rightarrow> ''x64 emulator backend did not fail''
    | X64_EMULATOR_BACKEND_FAILURE_INSTRUCTION_LIMIT_REACHED \<Rightarrow> ''x64 emulator hit the instruction budget''
    | X64_EMULATOR_BACKEND_FAILURE_INVALID_ARGUMENT \<Rightarrow> ''x64 emulator received an invalid argument''
    | X64_EMULATOR_BACKEND_FAILURE_UNSUPPORTED_ENGINE \<Rightarrow> ''x64 emulator backend is not implemented'')"

section \<open>One run of an emulated thread\<close>

definition X64_EMULATOR_INSTRUCTION_BUDGET :: u64 where "X64_EMULATOR_INSTRUCTION_BUDGET = 512"
definition ARM64_USER_RUNTIME_LARGE_PAGE_SIZE :: u64 where "ARM64_USER_RUNTIME_LARGE_PAGE_SIZE = 0x200000"

text \<open>
  The addresses of \<open>root_table\<close> and of \<open>user_region_storage\<close>, and the guest registers that the
  emulator keeps between the turns of its thread.
\<close>

record arm64_process_storage =
  root_table_address :: u64
  user_region_storage_address :: u64
  x64_guest_state :: x64_emulator_state

definition align_up :: "u64 \<Rightarrow> u64 \<Rightarrow> u64" where
  "align_up v alignment = (let alignment_mask = alignment - 1 in (v + alignment_mask) AND NOT alignment_mask)"

definition get_user_region :: "arm64_process_storage \<Rightarrow> u64" where
  "get_user_region storage = align_up (user_region_storage_address storage) ARM64_USER_RUNTIME_LARGE_PAGE_SIZE"

definition empty_x64_result :: x64_emulator_result where
  "empty_x64_result = \<lparr>completion = X64_EMULATOR_COMPLETION_THREAD_EXITED,
     guest_stop_reason = X64_EMULATOR_GUEST_STOP_REASON_NONE, backend_failure = X64_EMULATOR_BACKEND_FAILURE_NONE,
     retired_instructions = 0, fault_address = 0, fault_opcode = 0,
     fault = \<lparr>fault_instruction_pointer = 0, fault_memory_address = 0, fault_byte = 0\<rparr>\<rparr>"

text \<open>The arguments of the call of \<open>run_x64_emulator\<close>.\<close>

definition emulated_thread_context :: "arm64_process_storage \<Rightarrow> thread \<Rightarrow> user_runtime \<Rightarrow>
    user_runtime x64_execution_context" where
  "emulated_thread_context storage current_thread rt =
     \<lparr>x_state = load_x64_emulator_resume_state current_thread (x64_guest_state storage),
      x_memory = \<lparr>mem_base_address = X64_USER_IMAGE_VIRTUAL_ADDRESS, mem_bytes = get_user_region storage,
        mem_size = X64_USER_REGION_SIZE\<rparr>,
      x_handle_syscall = Some dispatch_x64_syscall,
      x_options = \<lparr>opt_engine = X64_EMULATOR_ENGINE_INTERPRETER,
        opt_instruction_budget = X64_EMULATOR_INSTRUCTION_BUDGET\<rparr>,
      x_result = empty_x64_result, x_host = host_memory rt, x_env = rt\<rparr>"

definition run_x64_emulator_thread :: "arm64_process_storage \<Rightarrow> thread \<Rightarrow> user_runtime \<Rightarrow>
    string + (arm64_process_storage \<times> user_runtime)" where
  "run_x64_emulator_thread storage current_thread rt =
     (case run_x64_emulator True (emulated_thread_context storage current_thread rt) of
        (False, _) \<Rightarrow> Inl ''arm64 failed to launch the x64 emulator backend''
      | (True, c) \<Rightarrow>
         (let result = x_result c; storage' = storage\<lparr>x64_guest_state := x_state c\<rparr>;
              rt' = (x_env c)\<lparr>host_memory := x_host c\<rparr> in
          if backend_failure result \<noteq> X64_EMULATOR_BACKEND_FAILURE_NONE
          then Inl (describe_x64_emulator_backend_failure (backend_failure result))
          else if is_x64_emulator_guest_fault result
          then (let guest_fault_status = get_x64_emulator_guest_fault_status result in
                Inr (storage', snd (terminate_current_thread AARCH64 (scast guest_fault_status) guest_fault_status
                      (debug_log_x64_emulator_fault result rt'))))
          else if guest_stop_reason result \<noteq> X64_EMULATOR_GUEST_STOP_REASON_THREAD_EXITED \<and>
                  guest_stop_reason result \<noteq> X64_EMULATOR_GUEST_STOP_REASON_YIELDED
          then Inl (describe_x64_emulator_guest_stop_reason (guest_stop_reason result))
          else Inr (storage', rt')))"

section \<open>One turn of the thread loop\<close>

record arm64_platform =
  p_runtime :: user_runtime
  m_process_storage :: "arm64_process_storage list"
  m_has_logged_native_runtime_ready :: bool
  m_has_logged_x64_emulator_runtime_ready :: bool

text \<open>The two overloads of \<open>get_process_storage\<close>; the result is the index of the entry.\<close>

definition get_process_storage :: "process_ref \<Rightarrow> arm64_platform \<Rightarrow> nat option" where
  "get_process_storage process_context plat =
     (let root_table = arch_root_table (get_address_space_info (p_runtime plat) process_context) in
      find_index (\<lambda>storage. root_table_address storage = root_table) (m_process_storage plat))"

text \<open>
  How a turn of \<open>enter_user_thread\<close> ends: the CPU is parked, a native thread is entered with the
  given frame and comes back through \<open>arm64_handle_syscall\<close>, or an emulated thread has had its run.
\<close>

datatype arm64_turn =
    Parked
  | Native arm64_syscall_frame arm64_platform
  | Emulated arm64_platform

definition log_once :: "bool \<Rightarrow> string \<Rightarrow> user_runtime \<Rightarrow> user_runtime" where
  "log_once logged message rt = (if logged then rt else debug_log (map of_char message) rt)"

definition enter_user_thread :: "arm64_platform \<Rightarrow> string + arm64_turn" where
  "enter_user_thread plat =
     (let rt = p_runtime plat in
      case m_current_thread rt of None \<Rightarrow> Inr Parked
      | Some current_thread \<Rightarrow>
        if \<not> has_runnable_thread rt then Inr Parked
        else (case (get_thread rt current_thread, get_process_context rt current_thread) of
            (Some th, Some current_process) \<Rightarrow>
              (let rt1 = arch_activate_process_address_space AARCH64 (Some current_process) rt in
               case get_process_execution_backend rt1 current_process of
                 PROCESS_EXECUTION_BACKEND_NATIVE \<Rightarrow>
                   Inr (Native (load_arm64_syscall_frame th)
                     (plat\<lparr>p_runtime := log_once (m_has_logged_native_runtime_ready plat)
                              ''arm64 initial user runtime ready'' rt1,
                           m_has_logged_native_runtime_ready := True\<rparr>))
               | PROCESS_EXECUTION_BACKEND_X64_EMULATOR \<Rightarrow>
                   (let rt2 = log_once (m_has_logged_x64_emulator_runtime_ready plat)
                                ''arm64 x64 emulator runtime ready'' rt1;
                        plat2 = plat\<lparr>p_runtime := rt2, m_has_logged_x64_emulator_runtime_ready := True\<rparr> in
                    case get_process_storage current_process plat2 of
                      None \<Rightarrow> Inl ''arm64 could not resolve process storage for the scheduled process''
                    | Some i \<Rightarrow>
                       (case run_x64_emulator_thread (m_process_storage plat2 ! i) th rt2 of
                          Inl message \<Rightarrow> Inl message
                        | Inr (storage', rt3) \<Rightarrow>
                            Inr (Emulated (plat2\<lparr>p_runtime := rt3,
                              m_process_storage := (m_process_storage plat2)[i := storage']\<rparr>))))
               | _ \<Rightarrow> Inl ''arm64 process requested an unsupported execution backend'')
          | _ \<Rightarrow> Inl ''arm64 current thread has no owning process''))"

section \<open>One instruction\<close>

text \<open>What no instruction but a system call does: change the kernel's state, or stop with a clean end.\<close>

definition stays_in_guest :: "'k x64_execution_context \<Rightarrow> 'k x64_execution_context \<Rightarrow> bool" where
  "stays_in_guest c c' \<longleftrightarrow> x_env c' = x_env c \<and> x_handle_syscall c' = x_handle_syscall c \<and>
     (verdict c \<notin> {exited_verdict, yielded_verdict} \<longrightarrow> verdict c' \<notin> {exited_verdict, yielded_verdict})"

interpretation guest: context_ops stays_in_guest
  by unfold_locales (auto simp: stays_in_guest_def verdict_def context_op_defs)

text \<open>
  An iteration of the interpreter from a running context either stays in the guest, or is a system
  call: then the emulator goes on exactly when the kernel says so.
\<close>

lemma interpreter_step_kernel:
  assumes l: "live c" and h: "x_handle_syscall c = Some handler" and s: "interpreter_step c = (b, c')"
  shows "x_env c' = x_env c \<and> (if b then live c' else verdict c' \<in> {invalid_verdict, unsupported_verdict}) \<or>
    (\<exists>m s r. handler (x_env c) m s = (r, x_env c', x_host c') \<and>
      (case sr_action r of X64_EMULATOR_SYSCALL_ACTION_CONTINUE \<Rightarrow> b \<and> live c'
       | X64_EMULATOR_SYSCALL_ACTION_EXIT_THREAD \<Rightarrow> \<not> b \<and> verdict c' = exited_verdict
       | X64_EMULATOR_SYSCALL_ACTION_YIELD \<Rightarrow> \<not> b \<and> verdict c' = yielded_verdict))"
proof -
  obtain d c1 where d: "decode_x64_instruction c = (d, c1)" by fastforce
  have v: "verdict c \<notin> {exited_verdict, yielded_verdict}" using l by (auto simp: live_def)
  have 1: "stays_in_guest c c1" "op_ok (d, c1)" using guest.decode_step[of c] decode_verdict[OF l] by (simp_all add: d)
  show ?thesis
  proof (cases d)
    case None
    then show ?thesis using s 1 by (auto simp: interpreter_step_def d stays_in_guest_def op_ok_def)
  next
    case (Some i)
    obtain out c2 where x: "x64_dispatch i c1 = (out, c2)" by fastforce
    have l1: "live c1" using 1 Some by (simp add: op_ok_def)
    have ok: "handler_ok (out, c2)" using dispatch_verdict[OF l1, of i] by (simp add: x)
    have r: "verdict (retire c) = verdict c" "x_env (retire c) = x_env c" "x_host (retire c) = x_host c"
      for c :: "'a x64_execution_context" by (simp_all add: retire_def verdict_def)
    have st: "b = (out = X64_INSTRUCTION_OUTCOME_CONTINUE_RUNNING)"
      "c' = (if out = X64_INSTRUCTION_OUTCOME_STOP_RUNNING then c2 else retire c2)"
      using s by (cases out; simp add: interpreter_step_def d Some x)+
    from guest.dispatch_cases[of c1 i] show ?thesis
    proof
      assume "stays_in_guest c1 (snd (x64_dispatch i c1))"
      then have "x_env c2 = x_env c" "verdict c2 \<notin> {exited_verdict, yielded_verdict}"
        using guest.trans[OF 1(1)] v by (auto simp: x stays_in_guest_def)
      then show ?thesis using ok live_updates(13) by (cases out) (auto simp: st handler_ok_def r)
    next
      assume "\<exists>c3. stays_in_guest c1 c3 \<and> x64_dispatch i c1 = execute_x64_syscall i c3"
      then obtain c3 where c3: "stays_in_guest c c3" "execute_x64_syscall i c3 = (out, c2)"
        using guest.trans[OF 1(1)] x by metis
      let ?c4 = "set_instruction_pointer (i_next_address i + 1) c3"
      obtain r env m where hd: "handler (x_env ?c4) (x_host ?c4) (x_state ?c4) = (r, env, m)" by (metis prod_cases3)
      have e: "x_env ?c4 = x_env c" "x_handle_syscall ?c4 = Some handler"
        using c3(1) h by (simp_all add: stays_in_guest_def set_instruction_pointer_def)
      have "env = x_env c2 \<and> m = x_host c2 \<and> (case sr_action r of
          X64_EMULATOR_SYSCALL_ACTION_CONTINUE \<Rightarrow> out = X64_INSTRUCTION_OUTCOME_CONTINUE_RUNNING
        | X64_EMULATOR_SYSCALL_ACTION_EXIT_THREAD \<Rightarrow> out = X64_INSTRUCTION_OUTCOME_RETIRE_AND_STOP \<and> verdict c2 = exited_verdict
        | X64_EMULATOR_SYSCALL_ACTION_YIELD \<Rightarrow> out = X64_INSTRUCTION_OUTCOME_RETIRE_AND_STOP \<and> verdict c2 = yielded_verdict)"
        using c3(2) hd e(2)
        by (cases "sr_action r") (auto simp: execute_x64_syscall_def call_handle_syscall_def Let_def set_register64_def
            set_thread_exited_def set_yielded_def verdict_def)
      then show ?thesis
        using hd e(1) ok live_updates(13)[of c2]
        by (intro disjI2 exI[of _ "x_host ?c4"] exI[of _ "x_state ?c4"] exI[of _ r])
          (cases "sr_action r"; auto simp: st r handler_ok_def)
    qed
  qed
qed

section \<open>One system call\<close>

lemma sched_step_same_current:
  assumes "sched_inv s" and "sched_step s s'" and "cur s = Some t" and "st s t = USER_THREAD_STATE_RUNNING"
    and "cur s' = Some t"
  shows "st s' t = USER_THREAD_STATE_RUNNING"
  using assms(2)
proof cases
  case (exit u s1)
  then have "u = t" using assms(3) by simp
  with exit(4) assms(5) show ?thesis by (auto elim!: rescheduleE)
next
  case (complete_self b c saved)
  then show ?thesis using assms(3-5) sched_invD(6)[OF assms(1)] by auto
qed (use assms(3-5) in \<open>auto\<close>)

lemma runnable_abs:
  assumes "runtime_inv rt" and "m_current_thread rt = Some t"
  shows "has_runnable_thread rt \<longleftrightarrow> st (abs_sched rt) t = USER_THREAD_STATE_RUNNING"
  using assms sched_invD(2)[of "abs_sched rt" t] by (auto simp: runtime_inv_def has_runnable_thread_def)

lemma emulated_syscall_kernel:
  assumes inv: "runtime_inv rt" and run: "has_runnable_thread rt" and cur: "m_current_thread rt = Some t"
    and nh: "m_next_handle_value rt \<noteq> - 1" and d: "dispatch_x64_syscall rt m s = (r, rt', m')"
  shows "kernel_step AARCH64 rt rt'" and "runtime_inv rt'" and "m' = host_memory rt'"
    and "sr_action r = X64_EMULATOR_SYSCALL_ACTION_CONTINUE \<longleftrightarrow> m_current_thread rt' = Some t"
    and "m_current_thread rt' = Some t \<Longrightarrow> has_runnable_thread rt'"
proof -
  note S = emulated_syscall_sched[OF inv nh run d]
  show "kernel_step AARCH64 rt rt'" using kernel_step.emulated_syscall[OF refl run d] .
  show i': "runtime_inv rt'" using S by simp
  have "m' = host_memory rt' \<and> (sr_action r = X64_EMULATOR_SYSCALL_ACTION_CONTINUE \<longleftrightarrow> m_current_thread rt' = Some t)"
    using d cur by (rule dispatch_x64_syscall_state) simp
  then show "m' = host_memory rt'"
    "sr_action r = X64_EMULATOR_SYSCALL_ACTION_CONTINUE \<longleftrightarrow> m_current_thread rt' = Some t" by blast+
  assume c': "m_current_thread rt' = Some t"
  have "sched_inv (abs_sched rt)" "st (abs_sched rt) t = USER_THREAD_STATE_RUNNING"
    using inv run runnable_abs[OF inv cur] by (simp_all add: runtime_inv_def)
  then show "has_runnable_thread rt'"
    using sched_step_same_current[of "abs_sched rt" "abs_sched rt'" t] S cur c' runnable_abs[OF i' c'] by simp
qed

section \<open>A run of the interpreter\<close>

definition clean_end :: "'k x64_execution_context \<Rightarrow> bool" where
  "clean_end c \<longleftrightarrow> verdict c \<in> {exited_verdict, yielded_verdict}"

text \<open>What a run has made of the runtime: the thread is still current, or it is not and the memories agree.\<close>

definition run_end :: "thread_ref \<Rightarrow> user_runtime x64_execution_context \<Rightarrow> bool" where
  "run_end t c \<longleftrightarrow> runtime_inv (x_env c) \<and>
     (if clean_end c then m_current_thread (x_env c) \<noteq> Some t \<and> x_host c = host_memory (x_env c)
      else m_current_thread (x_env c) = Some t \<and> has_runnable_thread (x_env c))"

text \<open>A context in which the interpreter runs the current thread \<open>t\<close>.\<close>

definition emulating :: "thread_ref \<Rightarrow> user_runtime x64_execution_context \<Rightarrow> bool" where
  "emulating t c \<longleftrightarrow> live c \<and> x_handle_syscall c = Some dispatch_x64_syscall \<and> runtime_inv (x_env c) \<and>
     has_runnable_thread (x_env c) \<and> m_current_thread (x_env c) = Some t"

lemma emulating_step:
  assumes e: "emulating t c" and nh: "m_next_handle_value (x_env c) \<noteq> - 1" and s: "interpreter_step c = (b, c')"
  shows "if b then emulating t c' else run_end t c'"
    and "x_env c' = x_env c \<or> kernel_step AARCH64 (x_env c) (x_env c')"
proof -
  note E = e[unfolded emulating_def]
  have h': "x_handle_syscall c' = Some dispatch_x64_syscall" using interpreter_step_invocation(2)[OF s] E by simp
  have l: "live c" and h: "x_handle_syscall c = Some dispatch_x64_syscall" using E by simp_all
  from interpreter_step_kernel[OF l h s]
  have "(if b then emulating t c' else run_end t c') \<and>
      (x_env c' = x_env c \<or> kernel_step AARCH64 (x_env c) (x_env c'))"
  proof (elim disjE exE conjE)
    assume "x_env c' = x_env c" "if b then live c' else verdict c' \<in> {invalid_verdict, unsupported_verdict}"
    then show ?thesis using E h' by (cases b) (auto simp: emulating_def run_end_def clean_end_def)
  next
    fix m g r
    assume d: "dispatch_x64_syscall (x_env c) m g = (r, x_env c', x_host c')"
      and a: "case sr_action r of X64_EMULATOR_SYSCALL_ACTION_CONTINUE \<Rightarrow> b \<and> live c'
        | X64_EMULATOR_SYSCALL_ACTION_YIELD \<Rightarrow> \<not> b \<and> verdict c' = yielded_verdict
        | X64_EMULATOR_SYSCALL_ACTION_EXIT_THREAD \<Rightarrow> \<not> b \<and> verdict c' = exited_verdict"
    note K = emulated_syscall_kernel[OF _ _ _ nh d, of t]
    show ?thesis
      using a K E h' by (cases "sr_action r") (simp_all add: emulating_def run_end_def clean_end_def)
  qed
  then show "if b then emulating t c' else run_end t c'" "x_env c' = x_env c \<or> kernel_step AARCH64 (x_env c) (x_env c')"
    by blast+
qed

lemma loop_kernel:
  assumes "emulating t c" and "unat (m_next_handle_value (x_env c)) + remaining_budget c < 2 ^ 64"
    and "kernel_run AARCH64 rt0 n (x_env c)"
  shows "(\<exists>k \<le> n + remaining_budget c. kernel_run AARCH64 rt0 k (x_env (interpreter_loop c))) \<and> run_end t (interpreter_loop c)"
  using assms
proof (induction c arbitrary: n rule: interpreter_loop.induct)
  case (1 c)
  note P = "1.prems"
  show ?case
  proof (cases "retired_instructions (x_result c) < opt_instruction_budget (x_options c)")
    case False
    then have "interpreter_loop c = set_backend_failure X64_EMULATOR_BACKEND_FAILURE_INSTRUCTION_LIMIT_REACHED c"
      by (simp add: interpreter_loop.simps[of c])
    then show ?thesis
      using P by (auto simp: run_end_def clean_end_def verdict_def set_backend_failure_def emulating_def intro!: exI[of _ n])
  next
    case True
    obtain b c' where s: "interpreter_step c = (b, c')" by fastforce
    have lp: "interpreter_loop c = (if b then interpreter_loop c' else c')" using True by (simp add: interpreter_loop.simps[of c] s)
    have rem: "remaining_budget c \<noteq> 0" using True by (simp add: remaining_budget_def word_less_nat_alt)
    then have nh: "m_next_handle_value (x_env c) \<noteq> - 1" using P(2) unat_max_u64 by auto
    note S = emulating_step[OF P(1) nh s]
    obtain n' where n': "n' \<le> Suc n" "kernel_run AARCH64 rt0 n' (x_env c')"
      using S(2) P(3) kernel_run.step[OF P(3)] by (metis le_SucI order_refl)
    have nh': "unat (m_next_handle_value (x_env c')) \<le> Suc (unat (m_next_handle_value (x_env c)))"
      using S(2) kernel_step_next_handle by auto
    show ?thesis
    proof (cases b)
      case True
      then have less: "remaining_budget c' < remaining_budget c"
        using interpreter_step_smaller[of c c'] s \<open>retired_instructions (x_result c) < _\<close> by simp
      have "(\<exists>k \<le> n' + remaining_budget c'. kernel_run AARCH64 rt0 k (x_env (interpreter_loop c'))) \<and> run_end t (interpreter_loop c')"
        using S(1) True less nh' P(2)
        by (intro "1.IH"[OF \<open>retired_instructions (x_result c) < _\<close> s[symmetric] True _ _ n'(2)]) simp_all
      moreover have "n' + remaining_budget c' \<le> n + remaining_budget c" using less n'(1) by simp
      ultimately show ?thesis unfolding lp using True order_trans by (simp only: if_True) blast
    next
      case False
      then show ?thesis using S(1) n' rem by (intro conjI exI[of _ n']) (simp_all add: lp)
    qed
  qed
qed

section \<open>A turn of an emulated thread\<close>

lemma initialize_result_live:
  "mem_bytes (x_memory c) \<noteq> 0 \<Longrightarrow> live (initialize_result c)"
  by (simp add: live_def verdict_def initialize_result_def Let_def)

lemma emulated_run:
  assumes inv: "runtime_inv rt" and run: "has_runnable_thread rt" and cur: "m_current_thread rt = Some t"
    and nh: "unat (m_next_handle_value rt) + 512 < 2 ^ 64" and reg: "get_user_region storage \<noteq> 0"
    and k: "kernel_run AARCH64 rt0 n rt"
  obtains c k where "run_x64_emulator True (emulated_thread_context storage th rt) = (True, c)"
    and "kernel_run AARCH64 rt0 k (x_env c)" and "k \<le> n + 512" and "run_end t c"
    and "verdict c = limit_verdict \<or> verdict c \<in> stop_verdicts"
proof -
  let ?c = "initialize_result (emulated_thread_context storage th rt)"
  have mem: "mem_bytes (x_memory (emulated_thread_context storage th rt)) \<noteq> 0"
    using reg by (simp add: emulated_thread_context_def)
  have e: "emulating t ?c"
    using initialize_result_live[OF mem] inv run cur
    by (simp add: emulating_def frame_simps) (simp add: emulated_thread_context_def)
  have env: "x_env ?c = rt" by (simp add: frame_simps) (simp add: emulated_thread_context_def)
  have rem: "remaining_budget ?c = 512"
    by (simp add: remaining_budget_def frame_simps)
      (simp add: emulated_thread_context_def X64_EMULATOR_INSTRUCTION_BUDGET_def)
  have r: "run_x64_emulator True (emulated_thread_context storage th rt) = (True, interpreter_loop ?c)"
    using mem by (simp add: run_x64_emulator_def x64_interpreter_run_def is_valid_invocation_def frame_simps Let_def)
      (simp add: emulated_thread_context_def X64_EMULATOR_INSTRUCTION_BUDGET_def)
  have v: "verdict (interpreter_loop ?c) = limit_verdict \<or> verdict (interpreter_loop ?c) \<in> stop_verdicts"
    using loop_verdict[of ?c] e by (auto simp: emulating_def frame_simps split: if_splits)
  show thesis
    using loop_kernel[OF e, of rt0 n] nh k that[OF r _ _ _ v] unfolding env rem by blast
qed

lemma fault_turn:
  assumes inv: "runtime_inv rt" and run: "has_runnable_thread rt" and cur: "m_current_thread rt = Some t"
    and k: "kernel_run AARCH64 rt0 n rt"
    and rt': "rt' = snd (terminate_current_thread AARCH64 (scast status) status (debug_log message (rt\<lparr>host_memory := m\<rparr>)))"
  shows "kernel_run AARCH64 rt0 (n + 3) rt'" and "runtime_inv rt'" and "thread_state rt' t = USER_THREAD_STATE_EXITED"
proof -
  let ?rt1 = "rt\<lparr>host_memory := m\<rparr>"
  let ?rt2 = "debug_log message ?rt1"
  have r1: "has_runnable_thread ?rt1"
    using run by (simp add: has_runnable_thread_def thread_state_def frame_simps cong: option.case_cong)
  have i2: "runtime_inv ?rt2" by (rule inv_debug_log[OF inv_host_memory[OF inv]])
  have c2: "m_current_thread ?rt2 = Some t" using cur by (simp add: debug_log_def)
  have r2: "has_runnable_thread ?rt2"
    using r1 by (simp add: has_runnable_thread_def thread_state_def debug_log_def frame_simps cong: option.case_cong)
  have "kernel_run AARCH64 rt0 (Suc (Suc (Suc n))) rt'"
    unfolding rt'
    by (rule kernel_run.step[OF kernel_run.step[OF kernel_run.step[OF k]]])
      (rule kernel_step.user[OF run] kernel_step.kernel_message[OF r1] kernel_step.emulated_fault[OF refl r2])+
  then show "kernel_run AARCH64 rt0 (n + 3) rt'" by (simp add: numeral_3_eq_3)
  show "runtime_inv rt'" using terminate_sched[OF i2 r2] by (simp add: rt')
  show "thread_state rt' t = USER_THREAD_STATE_EXITED" using terminate_spec(1)[OF i2 r2 c2 surjective_pairing] by (simp add: rt')
qed

lemma not_current_not_running:
  "runtime_inv rt \<Longrightarrow> m_current_thread rt \<noteq> Some t \<Longrightarrow> thread_state rt t \<noteq> USER_THREAD_STATE_RUNNING"
  using sched_invD(1)[of "abs_sched rt" t] by (auto simp: runtime_inv_def)

lemma emulated_thread_outcome:
  assumes inv: "runtime_inv rt" and run: "has_runnable_thread rt" and cur: "m_current_thread rt = Some t"
    and nh: "unat (m_next_handle_value rt) + 512 < 2 ^ 64" and reg: "get_user_region storage \<noteq> 0"
    and k: "kernel_run AARCH64 rt0 n rt"
  shows "case run_x64_emulator_thread storage th rt of
      Inl message \<Rightarrow> message = ''x64 emulator hit the instruction budget''
    | Inr (storage', rt') \<Rightarrow> (\<exists>k \<le> n + 515. kernel_run AARCH64 rt0 k rt') \<and> runtime_inv rt' \<and>
        thread_state rt' t \<noteq> USER_THREAD_STATE_RUNNING"
proof -
  obtain c k where r: "run_x64_emulator True (emulated_thread_context storage th rt) = (True, c)"
    and kr: "kernel_run AARCH64 rt0 k (x_env c)" "k \<le> n + 512" and e: "run_end t c"
    and v: "verdict c = limit_verdict \<or> verdict c \<in> stop_verdicts"
    using emulated_run[OF inv run cur nh reg k, of th] .
  let ?out = "run_x64_emulator_thread storage th rt"
  note defs = run_x64_emulator_thread_def r Let_def
  show ?thesis
  proof (cases "clean_end c")
    case True
    then have "x_host c = host_memory (x_env c)" "runtime_inv (x_env c)" "m_current_thread (x_env c) \<noteq> Some t"
      using e by (auto simp: run_end_def)
    moreover have "?out = Inr (storage\<lparr>x64_guest_state := x_state c\<rparr>, (x_env c)\<lparr>host_memory := x_host c\<rparr>)"
      using True by (auto simp: defs clean_end_def verdict_def is_x64_emulator_guest_fault_def)
    ultimately show ?thesis using kr not_current_not_running[of "x_env c" t] by (auto intro!: exI[of _ k])
  next
    case False
    then have E: "runtime_inv (x_env c)" "m_current_thread (x_env c) = Some t" "has_runnable_thread (x_env c)"
      using e by (auto simp: run_end_def)
    consider "verdict c = limit_verdict" | "verdict c \<in> {invalid_verdict, unsupported_verdict}"
      using v False by (auto simp: stop_verdicts_def clean_end_def)
    then show ?thesis
    proof cases
      case 1
      then show ?thesis by (simp add: defs verdict_def describe_x64_emulator_backend_failure_def)
    next
      case 2
      let ?st = "get_x64_emulator_guest_fault_status (x_result c)"
      have out: "?out = Inr (storage\<lparr>x64_guest_state := x_state c\<rparr>,
          snd (terminate_current_thread AARCH64 (scast ?st) ?st
            (debug_log (x64_fault_message (x_result c)) ((x_env c)\<lparr>host_memory := x_host c\<rparr>))))"
        using 2 by (auto simp: defs verdict_def is_x64_emulator_guest_fault_def debug_log_x64_emulator_fault_def)
      note F = fault_turn[OF E(1,3,2) kr(1) refl, of ?st "x64_fault_message (x_result c)" "x_host c"]
      show ?thesis unfolding out using F kr(2) by (auto intro!: exI[of _ "k + 3"])
    qed
  qed
qed

lemma bounded_mono: "\<exists>k \<le> m. P k \<Longrightarrow> m \<le> m' \<Longrightarrow> \<exists>k \<le> m'. P k" for m m' :: nat
  by (meson order_trans)

lemma entry_frames:
  "get_address_space_info (log_once b s (arch_activate_process_address_space arch p rt)) q = get_address_space_info rt q"
  "get_process_execution_backend (arch_activate_process_address_space arch p rt) q = get_process_execution_backend rt q"
  "m_current_thread (log_once b s (arch_activate_process_address_space arch p rt)) = m_current_thread rt"
  "m_next_handle_value (log_once b s (arch_activate_process_address_space arch p rt)) = m_next_handle_value rt"
  "has_runnable_thread (log_once b s (arch_activate_process_address_space arch p rt)) = has_runnable_thread rt"
proof -
  have log: "get_process (log_once b s rt) = get_process rt" "get_thread (log_once b s rt) = get_thread rt"
    "m_current_thread (log_once b s rt) = m_current_thread rt"
    "m_next_handle_value (log_once b s rt) = m_next_handle_value rt" for rt
    by (auto simp: log_once_def debug_log_def get_process_def get_thread_def)
  show "get_address_space_info (log_once b s (arch_activate_process_address_space arch p rt)) q = get_address_space_info rt q"
    "get_process_execution_backend (arch_activate_process_address_space arch p rt) q = get_process_execution_backend rt q"
    "m_current_thread (log_once b s (arch_activate_process_address_space arch p rt)) = m_current_thread rt"
    "m_next_handle_value (log_once b s (arch_activate_process_address_space arch p rt)) = m_next_handle_value rt"
    "has_runnable_thread (log_once b s (arch_activate_process_address_space arch p rt)) = has_runnable_thread rt"
    by (simp_all add: get_address_space_info_def get_process_execution_backend_def has_runnable_thread_def
        thread_state_def log frame_simps split: option.split)
qed

lemma entry_run:
  assumes inv: "runtime_inv rt" and run: "has_runnable_thread rt"
    and rt1_def: "rt1 = arch_activate_process_address_space arch p rt"
  shows "\<exists>n \<le> 2. kernel_run arch rt n (log_once b s rt1)" and "runtime_inv (log_once b s rt1)"
proof -
  have r1: "has_runnable_thread rt1" using run entry_frames(5)[of True s arch p rt] by (simp add: rt1_def log_once_def)
  have 1: "kernel_run arch rt 1 rt1"
    unfolding rt1_def One_nat_def by (rule kernel_run.step[OF kernel_run.start kernel_step.activate[OF run]])
  have "kernel_run arch rt 2 (debug_log (map of_char s) rt1)"
    unfolding numeral_2_eq_2 by (rule kernel_run.step[OF 1[unfolded One_nat_def] kernel_step.kernel_message[OF r1]])
  with 1 show "\<exists>n \<le> 2. kernel_run arch rt n (log_once b s rt1)"
    by (cases b) (auto simp: log_once_def intro: exI[of _ 1] exI[of _ 2])
  show "runtime_inv (log_once b s rt1)"
    using inv_activate[OF inv, of arch p] inv_debug_log by (simp add: rt1_def log_once_def)
qed

text \<open>
  One turn of an emulated thread is a run of the kernel: from a state that satisfies the kernel
  invariant and whose current thread belongs to an emulated process with a resolvable storage,
  \<open>enter_user_thread\<close> either panics with the message of the instruction budget, or it returns with the
  runtime in a state that at most 517 steps of the machine reach, the invariant holds there and
  the thread no longer runs: it has exited, faulted, blocked, or handed the processor on.
\<close>

lemma enter_emulated:
  assumes inv: "runtime_inv (p_runtime plat)" and run: "has_runnable_thread (p_runtime plat)"
    and cur: "m_current_thread (p_runtime plat) = Some t"
    and p: "get_process_context (p_runtime plat) t = Some p"
    and b: "get_process_execution_backend (p_runtime plat) p = PROCESS_EXECUTION_BACKEND_X64_EMULATOR"
    and i: "get_process_storage p plat = Some i" and reg: "get_user_region (m_process_storage plat ! i) \<noteq> 0"
    and nh: "unat (m_next_handle_value (p_runtime plat)) + 512 < 2 ^ 64"
  shows "case enter_user_thread plat of
      Inl message \<Rightarrow> message = ''x64 emulator hit the instruction budget''
    | Inr Parked \<Rightarrow> False
    | Inr (Native _ _) \<Rightarrow> False
    | Inr (Emulated plat') \<Rightarrow>
        (\<exists>n \<le> 517. kernel_run AARCH64 (p_runtime plat) n (p_runtime plat')) \<and> runtime_inv (p_runtime plat') \<and>
        thread_state (p_runtime plat') t \<noteq> USER_THREAD_STATE_RUNNING"
proof -
  let ?rt = "p_runtime plat"
  let ?rt2 = "log_once (m_has_logged_x64_emulator_runtime_ready plat) ''arm64 x64 emulator runtime ready''
    (arch_activate_process_address_space AARCH64 (Some p) ?rt)"
  obtain th where th: "get_thread ?rt t = Some th" using p by (auto simp: get_process_context_def split: option.splits)
  obtain n where n: "n \<le> 2" "kernel_run AARCH64 ?rt n ?rt2" using entry_run(1)[OF inv run refl] by blast
  have bound: "n + 515 \<le> 517" using n(1) by simp
  have out: "case run_x64_emulator_thread (m_process_storage plat ! i) th ?rt2 of
      Inl message \<Rightarrow> message = ''x64 emulator hit the instruction budget''
    | Inr (storage', rt') \<Rightarrow> (\<exists>k \<le> n + 515. kernel_run AARCH64 ?rt k rt') \<and> runtime_inv rt' \<and>
        thread_state rt' t \<noteq> USER_THREAD_STATE_RUNNING"
    using emulated_thread_outcome[OF entry_run(2)[OF inv run refl] _ _ _ reg n(2), of t th] run cur nh
    by (simp add: entry_frames)
  have st: "get_process_storage p (plat\<lparr>p_runtime := ?rt2, m_has_logged_x64_emulator_runtime_ready := True\<rparr>) = Some i"
    using i by (simp add: get_process_storage_def entry_frames)
  have e: "enter_user_thread plat = (case run_x64_emulator_thread (m_process_storage plat ! i) th ?rt2 of
      Inl message \<Rightarrow> Inl message
    | Inr (storage', rt3) \<Rightarrow> Inr (Emulated (plat\<lparr>p_runtime := rt3, m_has_logged_x64_emulator_runtime_ready := True,
        m_process_storage := (m_process_storage plat)[i := storage']\<rparr>)))"
    using run cur p b th st by (simp add: enter_user_thread_def Let_def entry_frames split: sum.split)
  show ?thesis
  proof (cases "run_x64_emulator_thread (m_process_storage plat ! i) th ?rt2")
    case (Inl message)
    then show ?thesis using out by (simp add: e)
  next
    case (Inr r)
    then show ?thesis using out bounded_mono[OF _ bound, of "\<lambda>k. kernel_run AARCH64 ?rt k (snd r)"] by (simp add: e split_beta)
  qed
qed

text \<open>A booted system with one emulated process.\<close>

definition emulated_configuration :: initial_process_configuration where
  "emulated_configuration = example_configuration\<lparr>cfg_metadata := \<lparr>guest_architecture = PROCESS_GUEST_ARCHITECTURE_X64,
     personality = PROCESS_PERSONALITY_RINGOS, execution_backend = PROCESS_EXECUTION_BACKEND_X64_EMULATOR\<rparr>\<rparr>"

definition emulated_bootstrap :: initial_user_runtime_bootstrap where
  "emulated_bootstrap = \<lparr>boot_process_count = 1, boot_initial_process_index = 0,
     boot_initial_processes = [emulated_configuration, emulated_configuration]\<rparr>"

definition example_storage :: arm64_process_storage where
  "example_storage = \<lparr>root_table_address = arch_root_table example_asp, user_region_storage_address = 0x80001000,
     x64_guest_state = \<lparr>general_registers = replicate 16 0, simd_registers = replicate 16 (replicate 16 0),
       e_instruction_pointer = 0, e_flags = 0\<rparr>\<rparr>"

definition example_platform :: "user_runtime \<Rightarrow> arm64_platform" where
  "example_platform rt = \<lparr>p_runtime = rt, m_process_storage = [example_storage],
     m_has_logged_native_runtime_ready = False, m_has_logged_x64_emulator_runtime_ready = False\<rparr>"

lemma example_region: "get_user_region example_storage = 0x80200000"
  by (simp add: example_storage_def get_user_region_def align_up_def ARM64_USER_RUNTIME_LARGE_PAGE_SIZE_def Let_def)

lemma emulated_bootstrap_valid: "valid_bootstrap emulated_bootstrap"
  by (simp add: valid_bootstrap_def emulated_bootstrap_def emulated_configuration_def example_configuration_def example_asp_wf
      USER_RUNTIME_MAX_INITIAL_PROCESSES_def)

lemma emulated_boot:
  obtains rt where "run_initial_user_runtime AARCH64 emulated_bootstrap (g_user_runtime (\<lambda>_. 0) 0) = Inr rt"
    and "runtime_inv rt" and "has_runnable_thread rt" and "m_current_thread rt = Some 0"
    and "unat (m_next_handle_value rt) = 3" and "get_process_context rt 0 = Some 0"
    and "get_process_execution_backend rt 0 = PROCESS_EXECUTION_BACKEND_X64_EMULATOR"
    and "get_address_space_info rt 0 = example_asp" and "\<And>p. get_process rt p \<noteq> None \<Longrightarrow> p = 0"
proof -
  obtain rt where rt: "run_initial_user_runtime AARCH64 emulated_bootstrap (g_user_runtime (\<lambda>_. 0) 0) = Inr rt"
    "runtime_inv rt" "has_runnable_thread rt" "m_current_thread rt = Some 0" "unat (m_next_handle_value rt) = 3"
    using valid_bootstrapD[OF emulated_bootstrap_valid, of AARCH64 "\<lambda>_. 0" 0] by (auto simp: emulated_bootstrap_def)
  have eq: "rt = set_current_thread AARCH64 (Some 0) (boot_runtime (\<lambda>_. 0) 0
      [Some (boot_process emulated_configuration 1 1), None, None, None]
      [Some (boot_thread 0 (cfg_thread_context emulated_configuration) 1 2), None, None, None] 2 3)"
    using rt(1) by (simp add: boot_sequence_defs runtime_reset_fresh create_first emulated_bootstrap_def
        USER_RUNTIME_MAX_INITIAL_PROCESSES_def del: create_initial_processes.simps)
  have "get_process_context rt 0 = Some 0"
    unfolding eq by (simp add: get_process_context_def frame_simps boot_thread_def make_thread_def
        acquire_process_reference_def)
  moreover have "get_process_execution_backend rt 0 = PROCESS_EXECUTION_BACKEND_X64_EMULATOR"
      "get_address_space_info rt 0 = example_asp"
    unfolding eq by (simp_all add: get_process_execution_backend_def get_address_space_info_def frame_simps
        boot_process_def make_process_def acquire_process_reference_def emulated_configuration_def example_configuration_def)
  moreover have "get_process rt p \<noteq> None \<Longrightarrow> p = 0" for p unfolding eq by (auto simp: frame_simps nth_Cons' split: if_splits)
  ultimately show thesis using that rt by blast
qed

section \<open>What the fault message says\<close>

text \<open>The reference reader: the value of a sequence of lower-case hexadecimal digits.\<close>

definition hex_value :: "u8 list \<Rightarrow> nat" where
  "hex_value ds = foldl (\<lambda>a d. 16 * a + (case find_index (\<lambda>x. x = d) HEX_DIGITS of None \<Rightarrow> 0 | Some k \<Rightarrow> k)) 0 ds"

definition hex_digit :: "u8 \<Rightarrow> u8" where
  "hex_digit v = HEX_DIGITS ! unat (v AND 0xF)"

lemma HEX_DIGITS_list:
  "HEX_DIGITS = [48, 49, 50, 51, 52, 53, 54, 55, 56, 57, 97, 98, 99, 100, 101, 102]"
  by (simp add: HEX_DIGITS_def of_char_Char)

lemma unat_nibble: "unat (v AND 0xF) = unat v mod 16" if "4 < LENGTH('a)" for v :: "'a :: len word"
proof -
  have "v AND 0xF = take_bit 4 v" by (simp add: take_bit_eq_mask mask_eq_exp_minus_1)
  moreover have "unat (take_bit 4 v) = take_bit 4 (unat v)" by (simp only: unsigned_take_bit_eq)
  ultimately show ?thesis by (simp only: take_bit_eq_mod) simp
qed

lemma replicate_update [simp]: "(replicate n x)[i := x] = replicate n x"
  by (induction n arbitrary: i) (auto split: nat.split)

lemma hex_digit_index:
  "find_index (\<lambda>x. x = hex_digit v) HEX_DIGITS = Some (unat v mod 16)" "hex_digit v \<noteq> 0"
proof -
  have "list_all (\<lambda>k. find_index (\<lambda>x. x = HEX_DIGITS ! k) HEX_DIGITS = Some k \<and> HEX_DIGITS ! k \<noteq> 0) [0..<16]"
    unfolding HEX_DIGITS_list by code_simp
  then have "find_index (\<lambda>x. x = HEX_DIGITS ! k) HEX_DIGITS = Some k \<and> HEX_DIGITS ! k \<noteq> 0" if "k < 16" for k
    using that by (simp add: list_all_iff)
  then show "find_index (\<lambda>x. x = hex_digit v) HEX_DIGITS = Some (unat v mod 16)" "hex_digit v \<noteq> 0"
    by (simp_all add: hex_digit_def unat_nibble)
qed

text \<open>A buffer of \<open>112\<close> bytes of which the first are written.\<close>

definition filled :: "u8 list \<Rightarrow> u8 list \<times> nat" where
  "filled d = (d @ replicate (112 - length d) 0, length d)"

lemma filled_next: "length d < 112 \<Longrightarrow> ((d @ replicate (112 - length d) 0)[length d := x], Suc (length d)) = filled (d @ [x])"
proof -
  assume "length d < 112"
  then have "112 - length d = Suc (111 - length d)" by simp
  then show ?thesis by (simp add: filled_def list_update_append)
qed

lemma append_nibble_filled: "length d < 111 \<Longrightarrow> append_hex_nibble 112 v (filled d) = filled (d @ [hex_digit v])"
  using filled_next[of d "hex_digit v"] by (simp add: append_hex_nibble_def filled_def hex_digit_def)

lemma append_literal_filled:
  "length d + length xs < 112 \<Longrightarrow> 0 \<notin> set xs \<Longrightarrow> append_literal 112 xs (filled d) = filled (d @ xs)"
proof (induction xs arbitrary: d)
  case (Cons x xs)
  then have "append_literal 112 (x # xs) (filled d) = append_literal 112 xs (filled (d @ [x]))"
    using filled_next[of d x] by (simp add: filled_def)
  then show ?case using Cons by simp
qed simp

lemma append_digits_filled:
  "length d + length shifts < 112 \<Longrightarrow> append_hex_digits 112 v shifts (filled d) =
     filled (d @ map (\<lambda>k. hex_digit (ucast (drop_bit k v AND 0xF))) shifts)"
  by (induction shifts arbitrary: d) (simp_all add: append_nibble_filled)

definition hex_shifts :: "nat \<Rightarrow> nat list" where
  "hex_shifts n = map (\<lambda>i. 4 * i) (rev [0..<n])"

definition hex_text :: "u64 \<Rightarrow> u8 list" where
  "hex_text v = map (\<lambda>k. hex_digit (ucast (drop_bit k v AND 0xF))) (hex_shifts 16)"

lemma hex_shifts_16: "hex_shifts 16 = [60, 56, 52, 48, 44, 40, 36, 32, 28, 24, 20, 16, 12, 8, 4, 0]"
  by (simp add: hex_shifts_def upt_rec)

lemma append_u64_filled: "length d + 16 < 112 \<Longrightarrow> append_hex_u64 112 v (filled d) = filled (d @ hex_text v)"
  unfolding append_hex_u64_def hex_text_def hex_shifts_16[symmetric]
  by (rule append_digits_filled) (simp add: hex_shifts_def)

lemma digit_of_nibble: "unat (ucast (drop_bit k v AND 0xF) :: u8) mod 16 = unat v div 2 ^ k mod 16" for v :: u64
proof -
  have "unat (drop_bit k v AND 0xF) = unat v div 2 ^ k mod 16"
    by (simp add: unat_nibble unat_drop_bit_eq) (simp add: drop_bit_eq_div)
  then show ?thesis by (simp add: unsigned_ucast_eq take_bit_eq_mod)
qed

lemma foldl_base16: "foldl (\<lambda>a d. 16 * a + g d) a ds = a * 16 ^ length ds + foldl (\<lambda>a d. 16 * a + g d) 0 ds" for a :: nat
  by (induction ds rule: rev_induct) (simp_all add: distrib_left)

lemma hex_value_Cons: "hex_value (d # ds) = hex_value [d] * 16 ^ length ds + hex_value ds"
  unfolding hex_value_def foldl.simps by (subst foldl_base16) simp

lemma hex_value_digits:
  "hex_value (map (\<lambda>k. hex_digit (ucast (drop_bit k v AND 0xF))) (hex_shifts n)) = unat v mod 16 ^ n" for v :: u64
proof (induction n)
  case (Suc n)
  have "hex_shifts (Suc n) = 4 * n # hex_shifts n" "length (hex_shifts n) = n" by (simp_all add: hex_shifts_def)
  moreover have "hex_value [hex_digit (ucast (drop_bit (4 * n) v AND 0xF))] = unat v div 16 ^ n mod 16"
    by (simp add: hex_value_def hex_digit_index digit_of_nibble power_mult)
  moreover have "unat v mod 16 ^ Suc n = (unat v div 16 ^ n mod 16) * 16 ^ n + unat v mod 16 ^ n"
    using mod_mult2_eq[of "unat v" "16 ^ n" 16] by (simp only: power_Suc2 mult.commute)
  ultimately show ?case by (simp only: list.map hex_value_Cons[of _ "map _ (hex_shifts n)"] length_map Suc)
qed (simp add: hex_value_def hex_shifts_def)

lemma hex_text_value: "hex_value (hex_text v) = unat v" "length (hex_text v) = 16" "0 \<notin> set (hex_text v)"
proof -
  have "unat v < 16 ^ 16" using unat_lt_u64[of v] by simp
  then show "hex_value (hex_text v) = unat v" unfolding hex_text_def hex_value_digits by (rule mod_less)
  show "length (hex_text v) = 16" by (simp add: hex_text_def hex_shifts_def)
  show "0 \<notin> set (hex_text v)" unfolding hex_text_def using hex_digit_index(2) by (metis (no_types, lifting) ex_map_conv)
qed

text \<open>
  C33. The report of a guest fault is complete and exact: it fits the message buffer of 112 bytes, and
  what is logged is the fixed text with sixteen hexadecimal digits for the instruction pointer,
  sixteen for the memory address and two for the opcode byte, which read back to the recorded values.
\<close>

theorem fault_message_roundtrip:
  "\<exists>ip address opc. c_string (x64_fault_message result) =
     map of_char ''x64 fault ip=0x'' @ ip @ map of_char '' addr=0x'' @ address @ map of_char '' opcode=0x'' @ opc \<and>
   length ip = 16 \<and> hex_value ip = unat (fault_instruction_pointer (fault result)) \<and>
   length address = 16 \<and> hex_value address = unat (fault_memory_address (fault result)) \<and>
   length opc = 2 \<and> hex_value opc = unat (fault_byte (fault result))"
proof -
  let ?f = "fault result"
  let ?opc = "[hex_digit (drop_bit 4 (fault_byte ?f)), hex_digit (fault_byte ?f)]"
  let ?text = "map of_char ''x64 fault ip=0x'' @ hex_text (fault_instruction_pointer ?f) @ map of_char '' addr=0x'' @
    hex_text (fault_memory_address ?f) @ map of_char '' opcode=0x'' @ ?opc"
  have 0: "(replicate 112 0, 0) = filled []" by (simp add: filled_def)
  have nz: "(0 :: u8) \<notin> set (map of_char ''x64 fault ip=0x'')" "(0 :: u8) \<notin> set (map of_char '' addr=0x'')"
    "(0 :: u8) \<notin> set (map of_char '' opcode=0x'')" by (simp_all add: of_char_Char)
  have msg: "x64_fault_message result = ?text @ replicate (112 - length ?text) 0"
    unfolding x64_fault_message_def Let_def 0
    by (simp add: append_literal_filled append_u64_filled append_nibble_filled nz hex_text_value del: list.map)
      (simp add: filled_def list_update_append hex_text_value)
  have "0 \<notin> set ?text" using nz hex_text_value(3) hex_digit_index(2) by auto
  then have "c_string (x64_fault_message result) = ?text"
    unfolding msg c_string_def by (subst takeWhile_append2) auto
  moreover have "hex_value ?opc = unat (fault_byte ?f)"
    using unsigned_less[of "fault_byte ?f", where 'a = nat] by (simp add: hex_value_def hex_digit_index unat_drop_bit_eq) (simp add: drop_bit_eq_div)
  ultimately show ?thesis using hex_text_value by (intro exI[of _ "hex_text _"] exI[of _ ?opc]) auto
qed

end
