(* ===== verification/Arm64_Platform.thy ===== *)
theory Arm64_Platform
  imports Page_Tables Platform_Boot Emulated_Thread
begin

text \<open>
  The start-up half of \<open>arch/arm64/arm64_initial_user_runtime_platform.cpp\<close>: the translation tables, the
  placement of the programs, native or for the emulator, the configurations handed to the runtime,
  and the registers that switch the MMU on. The state is the array of process storages, of which the
  guest registers are the part that is not plain memory, and the host memory; host addresses are
  physical addresses. The theory has the processor's walk for the configuration the kernel writes as a
  reference and shows that a native process is given exactly its address space.
\<close>

section \<open>Translation tables\<close>

definition ARM64_USER_RUNTIME_USER_REGION_SIZE :: u64 where
  "ARM64_USER_RUNTIME_USER_REGION_SIZE = ARM64_USER_RUNTIME_LARGE_PAGE_SIZE"

definition ARM64_USER_RUNTIME_PAGE_SIZE :: u64 where "ARM64_USER_RUNTIME_PAGE_SIZE = 4096"
definition KERNEL_IDENTITY_SIZE :: u64 where "KERNEL_IDENTITY_SIZE = 0x2000000"
definition KERNEL_IDENTITY_BASE :: u64 where "KERNEL_IDENTITY_BASE = 0x40000000"
definition KERNEL_BLOCK_COUNT :: nat where "KERNEL_BLOCK_COUNT = unat (KERNEL_IDENTITY_SIZE div ARM64_USER_RUNTIME_LARGE_PAGE_SIZE)"
definition USER_REGION_VIRTUAL_ADDRESS :: u64 where "USER_REGION_VIRTUAL_ADDRESS = X64_USER_IMAGE_VIRTUAL_ADDRESS"
definition USER_BLOCK_INDEX :: nat where "USER_BLOCK_INDEX = unat (USER_REGION_VIRTUAL_ADDRESS div ARM64_USER_RUNTIME_LARGE_PAGE_SIZE)"
definition KERNEL_ROOT_INDEX :: nat where "KERNEL_ROOT_INDEX = unat (drop_bit 30 KERNEL_IDENTITY_BASE)"

definition TABLE_DESCRIPTOR :: u64 where "TABLE_DESCRIPTOR = 0x3"
definition BLOCK_DESCRIPTOR :: u64 where "BLOCK_DESCRIPTOR = 0x1"
definition ATTRIBUTE_INDEX_NORMAL :: u64 where "ATTRIBUTE_INDEX_NORMAL = push_bit 2 0"
definition ACCESS_PERMISSION_USER_RW :: u64 where "ACCESS_PERMISSION_USER_RW = push_bit 6 1"
definition INNER_SHAREABLE :: u64 where "INNER_SHAREABLE = push_bit 8 3"
definition ACCESS_FLAG :: u64 where "ACCESS_FLAG = push_bit 10 1"

definition make_table_descriptor :: "u64 \<Rightarrow> u64" where
  "make_table_descriptor address = (address AND NOT 0xFFF) OR TABLE_DESCRIPTOR"

definition make_block_descriptor :: "u64 \<Rightarrow> u64 \<Rightarrow> u64" where
  "make_block_descriptor address flags = (address AND NOT 0x1FFFFF) OR flags OR BLOCK_DESCRIPTOR"

text \<open>The storage: three tables, the guest state, and at offset \<open>0x4000\<close> two large pages for the region.\<close>

definition lower_block_table_address :: "arm64_process_storage \<Rightarrow> u64" where
  "lower_block_table_address storage = storage_page (root_table_address storage) 1"

definition kernel_block_table_address :: "arm64_process_storage \<Rightarrow> u64" where
  "kernel_block_table_address storage = storage_page (root_table_address storage) 2"

definition SIZEOF_ARM64_PROCESS_STORAGE :: nat where "SIZEOF_ARM64_PROCESS_STORAGE = 0x4000 + 0x400000"

definition zero_x64_state :: x64_emulator_state where
  "zero_x64_state = \<lparr>general_registers = replicate 16 0, simd_registers = replicate 16 (replicate 16 0),
     e_instruction_pointer = 0, e_flags = 0\<rparr>"

definition arm64_initialize_process_storage :: "arm64_process_storage \<Rightarrow> hmem \<Rightarrow> arm64_process_storage \<times> hmem" where
  "arm64_initialize_process_storage storage m =
     (storage\<lparr>x64_guest_state := zero_x64_state\<rparr>, memset m (root_table_address storage) 0 SIZEOF_ARM64_PROCESS_STORAGE)"

definition initialize_translation_tables :: "arm64_process_storage \<Rightarrow> hmem \<Rightarrow> hmem" where
  "initialize_translation_tables storage m =
     (let m1 = set_table_entry m (root_table_address storage) 0 (make_table_descriptor (lower_block_table_address storage));
          m2 = set_table_entry m1 (root_table_address storage) KERNEL_ROOT_INDEX
                 (make_table_descriptor (kernel_block_table_address storage));
          m3 = set_table_entry m2 (lower_block_table_address storage) USER_BLOCK_INDEX
                 (make_block_descriptor (get_user_region storage)
                   (ATTRIBUTE_INDEX_NORMAL OR ACCESS_PERMISSION_USER_RW OR INNER_SHAREABLE OR ACCESS_FLAG)) in
      fold (\<lambda>block_index m. set_table_entry m (kernel_block_table_address storage) block_index
             (make_block_descriptor (KERNEL_IDENTITY_BASE + of_nat block_index * ARM64_USER_RUNTIME_LARGE_PAGE_SIZE)
               (ATTRIBUTE_INDEX_NORMAL OR INNER_SHAREABLE OR ACCESS_FLAG))) [0..<KERNEL_BLOCK_COUNT] m3)"

section \<open>Programs and configurations\<close>

definition arm64_load_config :: pe_image_load_config where
  "arm64_load_config = \<lparr>expected_machine = PE_MACHINE_ARM64, expected_image_base = USER_REGION_VIRTUAL_ADDRESS,
     expected_section_alignment = ucast ARM64_USER_RUNTIME_PAGE_SIZE, expected_file_alignment = ucast ARM64_USER_RUNTIME_PAGE_SIZE,
     loaded_image_size = ARM64_USER_RUNTIME_USER_REGION_SIZE, allow_imports = False, allow_relocations = False\<rparr>"

definition initialize_arm64_pe_image :: "u64 \<Rightarrow> u64 \<Rightarrow> arm64_process_storage \<Rightarrow> hmem \<Rightarrow> string + (u64 \<times> hmem)" where
  "initialize_arm64_pe_image image_bytes image_size storage m =
     (case load_pe32_plus_image image_bytes image_size (get_user_region storage) arm64_load_config m of
        (load_status, load_result, m1) \<Rightarrow>
          if load_status \<noteq> PE_IMAGE_LOAD_STATUS_OK then Inl (describe_pe_image_load_status load_status)
          else Inr (res_entry_point load_result, m1))"

definition initialize_x64_emulator_image :: "u64 \<Rightarrow> u64 \<Rightarrow> arm64_process_storage \<Rightarrow> hmem \<Rightarrow> string + (u64 \<times> hmem)" where
  "initialize_x64_emulator_image image_bytes image_size storage m =
     (let user_region = get_user_region storage;
          m1 = memset m user_region 0 (unat ARM64_USER_RUNTIME_USER_REGION_SIZE) in
      case load_x64_pe64_image image_bytes image_size X64_USER_IMAGE_VIRTUAL_ADDRESS user_region X64_USER_REGION_SIZE None m1 of
        (load_status, image_info, m2) \<Rightarrow>
          if load_status \<noteq> X64_PE64_IMAGE_LOAD_STATUS_OK then Inl (describe_x64_pe64_image_load_status load_status)
          else Inr (info_entry_point image_info, store_bytes m2 (user_region + X64_USER_REGION_SIZE - 8) (le_bytes 8 0)))"

definition ARM64_INITIAL_PSTATE :: u64 where "ARM64_INITIAL_PSTATE = 0"
definition X64_INITIAL_RFLAGS :: u64 where "X64_INITIAL_RFLAGS = 0x202"

text \<open>The two functions that populate a process, on the storages and the memory.\<close>

type_synonym arm64_state = "arm64_process_storage list \<times> hmem"

definition populate_native_bootstrap_for_process :: "arm64_state process_populator" where
  "populate_native_bootstrap_for_process i image_start image_end cfg = (\<lambda>(storages, m).
     case arm64_initialize_process_storage (storages ! i) m of
       (storage, m1) \<Rightarrow>
        (case initialize_arm64_pe_image image_start (image_end - image_start) storage (initialize_translation_tables storage m1) of
           Inl message \<Rightarrow> Inl message
         | Inr (entry_point, m2) \<Rightarrow>
            (case add_address_space_mapping ((cfg_address_space cfg)\<lparr>arch_root_table := root_table_address storage\<rparr>)
                    USER_REGION_VIRTUAL_ADDRESS (get_user_region storage) ARM64_USER_RUNTIME_USER_REGION_SIZE of
               None \<Rightarrow> Inl ''failed to initialize arm64 bootstrap mappings''
             | Some asp \<Rightarrow>
                 Inr (cfg\<lparr>cfg_metadata := \<lparr>guest_architecture = PROCESS_GUEST_ARCHITECTURE_ARM64,
                            personality = PROCESS_PERSONALITY_RINGOS, execution_backend = PROCESS_EXECUTION_BACKEND_NATIVE\<rparr>,
                          cfg_address_space := asp,
                          cfg_thread_context := \<lparr>ctx_instruction_pointer = entry_point,
                            ctx_stack_pointer = USER_REGION_VIRTUAL_ADDRESS + ARM64_USER_RUNTIME_USER_REGION_SIZE,
                            ctx_flags = ARM64_INITIAL_PSTATE, ctx_argument0 = 0\<rparr>\<rparr>,
                      storages[i := storage], m2))))"

definition arm64_emulated_stack_pointer :: u64 where
  "arm64_emulated_stack_pointer = X64_USER_STACK_VIRTUAL_ADDRESS + ARM64_USER_RUNTIME_PAGE_SIZE - 8 - WINDOWS_X64_STACK_HOME_SPACE_SIZE"

definition populate_x64_emulator_bootstrap :: "arm64_state process_populator" where
  "populate_x64_emulator_bootstrap i image_start image_end cfg = (\<lambda>(storages, m).
     case arm64_initialize_process_storage (storages ! i) m of
       (storage, m1) \<Rightarrow>
        (case initialize_x64_emulator_image image_start (image_end - image_start) storage (initialize_translation_tables storage m1) of
           Inl message \<Rightarrow> Inl message
         | Inr (entry_point, m2) \<Rightarrow>
            (case add_address_space_mapping ((cfg_address_space cfg)\<lparr>arch_root_table := root_table_address storage\<rparr>)
                    USER_REGION_VIRTUAL_ADDRESS (get_user_region storage) X64_USER_REGION_SIZE of
               None \<Rightarrow> Inl ''failed to initialize x64 emulator bootstrap mappings''
             | Some asp \<Rightarrow>
                 Inr (cfg\<lparr>cfg_metadata := \<lparr>guest_architecture = PROCESS_GUEST_ARCHITECTURE_X64,
                            personality = PROCESS_PERSONALITY_RINGOS, execution_backend = PROCESS_EXECUTION_BACKEND_X64_EMULATOR\<rparr>,
                          cfg_address_space := asp,
                          cfg_thread_context := \<lparr>ctx_instruction_pointer = entry_point,
                            ctx_stack_pointer = arm64_emulated_stack_pointer,
                            ctx_flags = X64_INITIAL_RFLAGS, ctx_argument0 = 0\<rparr>\<rparr>,
                      storages[i := storage], m2))))"

definition arm64_initialize :: "embedded_images \<Rightarrow> arm64_state \<Rightarrow> string + (initial_user_runtime_bootstrap \<times> arm64_state)" where
  "arm64_initialize images platform =
     (let start = test_app_image_start images; size64 = test_app_image_end images - start;
          pe_machine = try_get_pe_machine start size64 (snd platform) in
      if pe_machine = Some PE_MACHINE_ARM64
      then initialize_processes populate_native_bootstrap_for_process populate_native_bootstrap_for_process images platform
      else if pe_machine = Some PE_MACHINE_X64
      then initialize_processes populate_native_bootstrap_for_process populate_x64_emulator_bootstrap images platform
      else Inl ''arm64 attached user image has an unsupported signature'')"

section \<open>System registers\<close>

record arm64_system_registers =
  vbar_el1 :: u64
  mair_el1 :: u64
  tcr_el1 :: u64
  ttbr0_el1 :: u64
  sctlr_el1 :: u64
  cpacr_el1 :: u64

definition SCTLR_MMU_ENABLE :: u64 where "SCTLR_MMU_ENABLE = push_bit 0 1"
definition SCTLR_DATA_CACHE_ENABLE :: u64 where "SCTLR_DATA_CACHE_ENABLE = push_bit 2 1"
definition SCTLR_INSTRUCTION_CACHE_ENABLE :: u64 where "SCTLR_INSTRUCTION_CACHE_ENABLE = push_bit 12 1"
definition CPACR_EL1_FPEN_FULL_ACCESS :: u64 where "CPACR_EL1_FPEN_FULL_ACCESS = push_bit 20 3"
definition TCR_T0SZ_39_BIT_VA :: u64 where "TCR_T0SZ_39_BIT_VA = 25"
definition TCR_IRGN0_WRITE_BACK :: u64 where "TCR_IRGN0_WRITE_BACK = push_bit 8 1"
definition TCR_ORGN0_WRITE_BACK :: u64 where "TCR_ORGN0_WRITE_BACK = push_bit 10 1"
definition TCR_SH0_INNER_SHAREABLE :: u64 where "TCR_SH0_INNER_SHAREABLE = push_bit 12 3"
definition TCR_TG0_4KB :: u64 where "TCR_TG0_4KB = push_bit 14 0"
definition TCR_EPD1_DISABLE :: u64 where "TCR_EPD1_DISABLE = push_bit 23 1"
definition MAIR_ATTRIBUTE_NORMAL_WRITE_BACK :: u64 where "MAIR_ATTRIBUTE_NORMAL_WRITE_BACK = 0xFF"
definition MAIR_ATTRIBUTE_DEVICE_NGNRNE :: u64 where "MAIR_ATTRIBUTE_DEVICE_NGNRNE = push_bit 8 0"

definition write_vector_base :: "u64 \<Rightarrow> arm64_system_registers \<Rightarrow> arm64_system_registers" where
  "write_vector_base vector_base regs = regs\<lparr>vbar_el1 := vector_base\<rparr>"

definition write_mair :: "u64 \<Rightarrow> arm64_system_registers \<Rightarrow> arm64_system_registers" where
  "write_mair v regs = regs\<lparr>mair_el1 := v\<rparr>"

definition write_tcr :: "u64 \<Rightarrow> arm64_system_registers \<Rightarrow> arm64_system_registers" where
  "write_tcr v regs = regs\<lparr>tcr_el1 := v\<rparr>"

definition write_ttbr0 :: "u64 \<Rightarrow> arm64_system_registers \<Rightarrow> arm64_system_registers" where
  "write_ttbr0 v regs = regs\<lparr>ttbr0_el1 := v\<rparr>"

definition read_system_control :: "arm64_system_registers \<Rightarrow> u64" where
  "read_system_control regs = sctlr_el1 regs"

definition write_system_control :: "u64 \<Rightarrow> arm64_system_registers \<Rightarrow> arm64_system_registers" where
  "write_system_control v regs = regs\<lparr>sctlr_el1 := v\<rparr>"

definition enable_fp_simd :: "arm64_system_registers \<Rightarrow> arm64_system_registers" where
  "enable_fp_simd regs = regs\<lparr>cpacr_el1 := CPACR_EL1_FPEN_FULL_ACCESS\<rparr>"

definition enable_mmu :: "u64 \<Rightarrow> arm64_system_registers \<Rightarrow> arm64_system_registers" where
  "enable_mmu exception_vectors regs =
     (let tcr_value = TCR_T0SZ_39_BIT_VA OR TCR_IRGN0_WRITE_BACK OR TCR_ORGN0_WRITE_BACK OR TCR_SH0_INNER_SHAREABLE OR
            TCR_TG0_4KB OR TCR_EPD1_DISABLE;
          regs1 = enable_fp_simd (write_tcr tcr_value (write_mair (MAIR_ATTRIBUTE_NORMAL_WRITE_BACK OR MAIR_ATTRIBUTE_DEVICE_NGNRNE)
            (write_vector_base exception_vectors regs))) in
      write_system_control
        (read_system_control regs1 OR SCTLR_MMU_ENABLE OR SCTLR_DATA_CACHE_ENABLE OR SCTLR_INSTRUCTION_CACHE_ENABLE) regs1)"

definition arm64_prepare_thread_launch :: "u64 \<Rightarrow> arm64_system_registers \<Rightarrow> arm64_system_registers" where
  "arm64_prepare_thread_launch exception_vectors = write_vector_base exception_vectors"

text \<open>The registers under \<open>activate_process_address_space\<close>, with \<open>m_mmu_enabled\<close>; there is no TLB here.\<close>

definition activate_root_table :: "u64 \<Rightarrow> u64 \<Rightarrow> bool \<times> arm64_system_registers \<Rightarrow> bool \<times> arm64_system_registers" where
  "activate_root_table exception_vectors root_table = (\<lambda>(mmu_enabled, regs).
     if root_table = 0 then (mmu_enabled, regs)
     else (let regs1 = write_ttbr0 root_table regs in
           if \<not> mmu_enabled then (True, enable_mmu exception_vectors regs1) else (mmu_enabled, regs1)))"

section \<open>The page walk of the processor\<close>

text \<open>
  The reference, for a granule of four kilobytes. Bit 0 of a descriptor makes it valid; bit 1 tells tables, and
  pages at the last level, from blocks. Bit 61 of a table takes user access away from all it leads
  to, bit 6 of a block or page allows it, and bit 10 is the access flag. The size field of the control
  register gives the number of address bits and with it the number of levels.
\<close>

definition ARM64_OUTPUT_ADDRESS_MASK :: u64 where "ARM64_OUTPUT_ADDRESS_MASK = 0x0000FFFFFFFFF000"

fun arm64_walk :: "bool \<Rightarrow> hmem \<Rightarrow> nat \<Rightarrow> u64 \<Rightarrow> u64 \<Rightarrow> u64 option" where
  "arm64_walk user m 0 table va = None"
| "arm64_walk user m (Suc level) table va =
     (let e = table_entry m table (walk_index level va); address = e AND ARM64_OUTPUT_ADDRESS_MASK; shift = 12 + 9 * level in
      if \<not> bit e 0 then None
      else if bit e 1 \<and> 0 < level
      then (if user \<and> bit e 61 then None else arm64_walk user m level address va)
      else if \<not> bit e 1 \<and> level = 0 then None
      else if \<not> bit e 10 \<or> user \<and> \<not> bit e 6 then None
      else Some ((address AND NOT (mask shift)) + (va AND mask shift)))"

declare arm64_walk.simps(2) [simp del]

definition arm64_translate :: "bool \<Rightarrow> arm64_system_registers \<Rightarrow> hmem \<Rightarrow> u64 \<Rightarrow> u64 option" where
  "arm64_translate user regs m va =
     (if \<not> bit (sctlr_el1 regs) 0 then Some va
      else (let address_bits = 64 - unat (tcr_el1 regs AND 0x3F) in
        if drop_bit address_bits va \<noteq> 0 then None
        else arm64_walk user m ((address_bits - 4) div 9) (ttbr0_el1 regs AND ARM64_OUTPUT_ADDRESS_MASK) va))"

lemma activated:
  fixes regs :: arm64_system_registers and exception_vectors :: u64
  assumes "root \<noteq> 0"
  defines "regs' \<equiv> snd (activate_root_table exception_vectors root (False, regs))"
  shows "arm64_translate user regs' m va =
    (if drop_bit 39 va \<noteq> 0 then None else arm64_walk user m 3 (root AND ARM64_OUTPUT_ADDRESS_MASK) va)"
proof -
  have "sctlr_el1 regs' = sctlr_el1 regs OR 0x1005" "ttbr0_el1 regs' = root"
    using assms by (simp_all add: activate_root_table_def enable_mmu_def Let_def write_ttbr0_def write_system_control_def
        read_system_control_def enable_fp_simd_def write_tcr_def write_mair_def write_vector_base_def or.assoc
        SCTLR_MMU_ENABLE_def SCTLR_DATA_CACHE_ENABLE_def SCTLR_INSTRUCTION_CACHE_ENABLE_def)
  moreover have "tcr_el1 regs' AND 0x3F = 25"
    using assms by (simp add: activate_root_table_def enable_mmu_def Let_def write_ttbr0_def write_system_control_def
        read_system_control_def enable_fp_simd_def write_tcr_def write_mair_def write_vector_base_def
        TCR_T0SZ_39_BIT_VA_def TCR_IRGN0_WRITE_BACK_def TCR_ORGN0_WRITE_BACK_def TCR_SH0_INNER_SHAREABLE_def TCR_TG0_4KB_def
        TCR_EPD1_DISABLE_def)
  ultimately show ?thesis by (simp add: arm64_translate_def bit_simps)
qed

section \<open>The tables as the processor reads them\<close>

definition arm64_table_word :: "arm64_process_storage \<Rightarrow> nat \<Rightarrow> u64" where
  "arm64_table_word storage k =
     (if k = 0 then make_table_descriptor (storage_page (root_table_address storage) 1)
      else if k = 1 then make_table_descriptor (storage_page (root_table_address storage) 2)
      else if k = 514 then make_block_descriptor (get_user_region storage) 0x740
      else if 1024 \<le> k \<and> k < 1040 then make_block_descriptor (of_nat (0x40000000 + (k - 1024) * 0x200000)) 0x700
      else 0)"

definition arm64_tables :: "arm64_process_storage \<Rightarrow> hmem \<Rightarrow> bool" where
  "arm64_tables storage m \<longleftrightarrow> (\<forall>k < 1536. table_entry m (root_table_address storage) k = arm64_table_word storage k)"

lemma table_indices: "KERNEL_ROOT_INDEX = 1" "USER_BLOCK_INDEX = 2" "KERNEL_BLOCK_COUNT = 16"
  by (simp_all add: KERNEL_ROOT_INDEX_def KERNEL_IDENTITY_BASE_def USER_BLOCK_INDEX_def USER_REGION_VIRTUAL_ADDRESS_def x64_user_layout
      ARM64_USER_RUNTIME_LARGE_PAGE_SIZE_def KERNEL_BLOCK_COUNT_def KERNEL_IDENTITY_SIZE_def)

lemma block_flags:
  "ATTRIBUTE_INDEX_NORMAL OR ACCESS_PERMISSION_USER_RW OR INNER_SHAREABLE OR ACCESS_FLAG = 0x740"
  "ATTRIBUTE_INDEX_NORMAL OR INNER_SHAREABLE OR ACCESS_FLAG = 0x700"
  by (simp_all add: ATTRIBUTE_INDEX_NORMAL_def ACCESS_PERMISSION_USER_RW_def INNER_SHAREABLE_def ACCESS_FLAG_def)

lemma translation_table_words:
  assumes "k < 1536" and zero: "table_entry m (root_table_address storage) k = 0"
  shows "table_entry (initialize_translation_tables storage m) (root_table_address storage) k = arm64_table_word storage k"
proof -
  let ?s = "root_table_address storage"
  define kernel where "kernel = (\<lambda>i. make_block_descriptor (of_nat (0x40000000 + i * 0x200000)) 0x700)"
  have id: "KERNEL_IDENTITY_BASE + of_nat i * ARM64_USER_RUNTIME_LARGE_PAGE_SIZE = (of_nat (0x40000000 + i * 0x200000) :: u64)" for i
    by (simp add: KERNEL_IDENTITY_BASE_def ARM64_USER_RUNTIME_LARGE_PAGE_SIZE_def)
  let ?a = "set_table_entry m ?s 0 (make_table_descriptor (storage_page ?s 1))"
  let ?b = "set_table_entry ?a ?s 1 (make_table_descriptor (storage_page ?s 2))"
  let ?c = "set_table_entry ?b ?s 514 (make_block_descriptor (get_user_region storage) 0x740)"
  have e: "initialize_translation_tables storage m = fold (\<lambda>i m. set_table_entry m ?s (1024 + i) (kernel i)) [0..<16] ?c"
    unfolding initialize_translation_tables_def Let_def lower_block_table_address_def kernel_block_table_address_def
      entry_of_page table_indices block_flags id kernel_def by simp
  have l: "table_entry (initialize_translation_tables storage m) ?s k =
      (if 1024 \<le> k \<and> k < 1024 + 16 then kernel (k - 1024) else table_entry ?c ?s k)"
    unfolding e using assms(1) by (intro entry_fold) simp_all
  show ?thesis
    unfolding l kernel_def using assms by (simp add: entry_set arm64_table_word_def)
qed

lemma block_and_flags:
  fixes a flags :: u64
  assumes "unat a mod 0x200000 = 0" and "a < 2 ^ 48" and "flags \<in> {0x700, 0x740}"
  shows "(make_block_descriptor a flags AND ARM64_OUTPUT_ADDRESS_MASK) AND NOT (mask 21) = a"
    and "bit (make_block_descriptor a flags) 0" "\<not> bit (make_block_descriptor a flags) 1"
    and "bit (make_block_descriptor a flags) 10" "bit (make_block_descriptor a flags) 6 = (flags = 0x740)"
proof -
  have x: "(0x1FFFFF :: u64) = mask 21" "ARM64_OUTPUT_ADDRESS_MASK = NOT (mask 12) AND mask 48"
    by (simp_all add: ARM64_OUTPUT_ADDRESS_MASK_def mask_eq_exp_minus_1)
  have lo: "21 \<le> n" if "bit a n" for n
  proof (rule ccontr)
    assume "\<not> 21 \<le> n"
    then have "bit (take_bit 21 (unat a)) n" using that by (simp add: bit_take_bit_iff bit_unsigned_iff)
    moreover have "take_bit 21 (unat a) = 0" using assms(1) by (simp add: take_bit_eq_mod)
    ultimately show False by simp
  qed
  have "take_bit 48 a = a" using less_mask_eq[OF assms(2)] by (simp add: take_bit_eq_mask)
  then have hi: "n < 48" if "bit a n" for n using that bit_take_bit_iff[of 48 a n] by simp
  have f: "flags OR BLOCK_DESCRIPTOR < 2 ^ 12" using assms(3) by (auto simp: BLOCK_DESCRIPTOR_def)
  have "take_bit 12 (flags OR BLOCK_DESCRIPTOR) = flags OR BLOCK_DESCRIPTOR"
    using less_mask_eq[OF f] by (simp add: take_bit_eq_mask)
  then have fl: "n < 12" if "bit (flags OR BLOCK_DESCRIPTOR) n" for n
    using that bit_take_bit_iff[of 12 "flags OR BLOCK_DESCRIPTOR" n] by simp
  have d: "make_block_descriptor a flags = (a AND NOT (mask 21)) OR (flags OR BLOCK_DESCRIPTOR)"
    by (simp add: make_block_descriptor_def x or.assoc)
  show "(make_block_descriptor a flags AND ARM64_OUTPUT_ADDRESS_MASK) AND NOT (mask 21) = a"
    unfolding d x(2)
  proof (rule bit_word_eqI)
    fix n assume "n < LENGTH(64)"
    then show "bit ((((a AND NOT (mask 21)) OR (flags OR BLOCK_DESCRIPTOR)) AND (NOT (mask 12) AND mask 48)) AND NOT (mask 21)) n = bit a n"
      using lo[of n] hi[of n] fl[of n] unfolding bit_and_iff bit_or_iff[of _ "flags OR BLOCK_DESCRIPTOR"] bit_not_iff bit_mask_iff by auto
  qed
  have b: "bit (make_block_descriptor a flags) n = bit (flags OR BLOCK_DESCRIPTOR) n" if "n < 12" for n
    unfolding d bit_or_iff[of _ "flags OR BLOCK_DESCRIPTOR"] using lo[of n] that by (auto simp: bit_simps)
  show "bit (make_block_descriptor a flags) 0" "\<not> bit (make_block_descriptor a flags) 1"
    "bit (make_block_descriptor a flags) 10" "bit (make_block_descriptor a flags) 6 = (flags = 0x740)"
    using assms(3) b[of 0] b[of 1] b[of 10] b[of 6] by (auto simp: BLOCK_DESCRIPTOR_def)
qed

lemma table_descriptor:
  assumes "a AND 0xFFF = 0" and "a < 2 ^ 48"
  shows "make_table_descriptor a AND ARM64_OUTPUT_ADDRESS_MASK = a" and "bit (make_table_descriptor a) 0"
    "bit (make_table_descriptor a) 1" "\<not> bit (make_table_descriptor a) 61"
proof -
  have x: "ARM64_OUTPUT_ADDRESS_MASK = NOT 0xFFF AND mask 48" and m: "(0xFFF :: u64) = mask 12"
    by (simp_all add: ARM64_OUTPUT_ADDRESS_MASK_def mask_eq_exp_minus_1)
  have t: "(TABLE_DESCRIPTOR :: u64) < 0x1000" by (simp add: TABLE_DESCRIPTOR_def)
  show "make_table_descriptor a AND ARM64_OUTPUT_ADDRESS_MASK = a"
    unfolding make_table_descriptor_def x and.assoc[symmetric] page_and_flags(1)[OF assms(1) t] by (rule less_mask_eq[OF assms(2)])
  have b: "bit (make_table_descriptor a) n = bit TABLE_DESCRIPTOR n" if "n < 12" for n
    using arg_cong[OF page_and_flags(2)[OF assms(1) t], of "\<lambda>w. bit w n"] that by (simp add: make_table_descriptor_def m bit_simps)
  show "bit (make_table_descriptor a) 0" "bit (make_table_descriptor a) 1"
    using b[of 0] b[of 1] by (simp_all add: TABLE_DESCRIPTOR_def)
  have "take_bit 48 a = a" using less_mask_eq[OF assms(2)] by (simp add: take_bit_eq_mask)
  then have "\<not> bit a 61" using bit_take_bit_iff[of 48 a 61] by simp
  then show "\<not> bit (make_table_descriptor a) 61" by (simp add: make_table_descriptor_def TABLE_DESCRIPTOR_def bit_simps)
qed

text \<open>Storages are aligned to a page, and they and the large page after them have 48-bit addresses.\<close>

definition physical_arm64_storage :: "arm64_process_storage \<Rightarrow> bool" where
  "physical_arm64_storage storage \<longleftrightarrow> unat (root_table_address storage) mod 4096 = 0 \<and>
     0 < unat (root_table_address storage) \<and> unat (root_table_address storage) + 0x404000 \<le> 2 ^ 48 \<and>
     user_region_storage_address storage = storage_page (root_table_address storage) 4"

lemma arm64_storage_page:
  assumes "physical_arm64_storage storage" and "n \<le> 4"
  shows "unat (storage_page (root_table_address storage) n) = unat (root_table_address storage) + 4096 * n"
    and "storage_page (root_table_address storage) n AND 0xFFF = 0" and "storage_page (root_table_address storage) n < 2 ^ 48"
proof -
  let ?s = "root_table_address storage"
  have n: "unat (of_nat (4096 * n) :: u64) = 4096 * n" using assms(2) by (intro unat_of_nat_u64) simp
  show u: "unat (storage_page ?s n) = unat ?s + 4096 * n"
    unfolding storage_page_def using assms n by (subst unat_add_no_wrap) (auto simp: physical_arm64_storage_def)
  show "storage_page ?s n AND 0xFFF = 0"
    unfolding aligned_iff u using assms(1) by (simp add: physical_arm64_storage_def mod_add_eq[symmetric])
  show "storage_page ?s n < 2 ^ 48" using u assms by (simp add: word_less_nat_alt physical_arm64_storage_def)
qed

lemma align_up_spec:
  assumes "unat v + 0x200000 < 2 ^ 64"
  shows "unat (align_up v 0x200000) mod 0x200000 = 0" and "unat v \<le> unat (align_up v 0x200000)"
    and "unat (align_up v 0x200000) < unat v + 0x200000"
proof -
  let ?w = "v + 0x1FFFFF"
  have m: "(0x1FFFFF :: u64) = mask 21" by (simp add: mask_eq_exp_minus_1)
  have a: "align_up v 0x200000 = ?w AND NOT (mask 21)" by (simp add: align_up_def Let_def m[symmetric])
  have u: "unat ?w = unat v + 0x1FFFFF" using assms by (subst unat_add_no_wrap) simp_all
  define q where "q = unat ?w div 0x200000"
  have "unat (drop_bit 21 ?w) = q"
    unfolding unsigned_drop_bit_eq q_def using unat_lt_u64[of ?w] by (simp add: drop_bit_eq_div take_bit_nat_eq_self)
  then have d: "drop_bit 21 ?w = of_nat q" using word_of_nat_eq_iff by (metis of_nat_unat ucast_id)
  have "?w AND NOT (mask 21) = push_bit 21 (drop_bit 21 ?w)" by (rule bit_word_eqI) (auto simp: bit_simps)
  then have "align_up v 0x200000 = of_nat (q * 0x200000)" unfolding a d by (simp add: push_bit_eq_mult)
  moreover have "q * 0x200000 \<le> unat ?w" by (simp add: q_def)
  ultimately have r: "unat (align_up v 0x200000) = q * 0x200000"
    using unat_lt_u64[of ?w] unat_of_nat_u64[of "q * 0x200000"] by simp
  show "unat (align_up v 0x200000) mod 0x200000 = 0" unfolding r by simp
  show "unat v \<le> unat (align_up v 0x200000)" "unat (align_up v 0x200000) < unat v + 0x200000"
    unfolding r q_def u using div_mult_mod_eq[of "unat v + 0x1FFFFF" "0x200000"] mod_less_divisor[of "0x200000" "unat v + 0x1FFFFF"]
    by simp_all
qed

lemma user_region_spec:
  assumes "physical_arm64_storage storage"
  defines "r \<equiv> get_user_region storage" and "s \<equiv> root_table_address storage"
  shows "unat r mod 0x200000 = 0" and "unat s + 0x4000 \<le> unat r" and "unat r < unat s + 0x204000" and "r < 2 ^ 48"
proof -
  have v: "unat (user_region_storage_address storage) = unat s + 0x4000" "unat s + 0x404000 \<le> 2 ^ 48"
    using arm64_storage_page(1)[OF assms(1), of 4] assms(1) by (simp_all add: physical_arm64_storage_def s_def)
  have r: "r = align_up (user_region_storage_address storage) 0x200000"
    by (simp add: r_def get_user_region_def ARM64_USER_RUNTIME_LARGE_PAGE_SIZE_def)
  have b: "unat (user_region_storage_address storage) + 0x200000 < 2 ^ 64" using v by simp
  note A = align_up_spec[OF b, folded r]
  show "unat r mod 0x200000 = 0" "unat s + 0x4000 \<le> unat r" "unat r < unat s + 0x204000" using A v by simp_all
  then show "r < 2 ^ 48" using v by (simp add: word_less_nat_alt)
qed

lemma kernel_block:
  assumes "i < 16"
  defines "a \<equiv> of_nat (0x40000000 + i * 0x200000) :: u64"
  shows "unat a mod 0x200000 = 0" and "a < 2 ^ 48"
proof -
  have u: "unat a = 0x40000000 + i * 0x200000" unfolding a_def using assms(1) by (intro unat_of_nat_u64) simp
  have "0x40000000 + i * 0x200000 = (512 + i) * 0x200000" by simp
  then show "unat a mod 0x200000 = 0" unfolding u by (metis mod_mult_self2_is_0)
  show "a < 2 ^ 48" using u assms(1) by (simp add: word_less_nat_alt)
qed

lemma arm64_walk_tables:
  fixes va :: u64
  assumes t: "arm64_tables storage m" and s: "physical_arm64_storage storage"
  defines "i \<equiv> \<lambda>level. walk_index level va" and "r \<equiv> get_user_region storage"
  shows "arm64_walk user m 3 (root_table_address storage) va =
    (if i 2 = 0 \<and> i 1 = 2 then Some (r + (va AND mask 21))
     else if i 2 = 1 \<and> i 1 < 16 \<and> \<not> user then Some (of_nat (0x40000000 + i 1 * 0x200000) + (va AND mask 21)) else None)"
proof -
  let ?s = "root_table_address storage"
  have b: "i l < 512" for l by (simp add: i_def walk_index_div)
  have page: "table_entry m (storage_page ?s n) k = arm64_table_word storage (512 * n + k)" if "n < 3" "k < 512" for n k
    using t that by (simp add: entry_of_page arm64_tables_def)
  have two: "arm64_walk user m 2 t va = arm64_walk user m (Suc 1) t va" for t by (simp add: numeral_2_eq_2)
  note T1 = table_descriptor[OF arm64_storage_page(2,3)[OF s], of 1] and T2 = table_descriptor[OF arm64_storage_page(2,3)[OF s], of 2]
  have root: "?s = storage_page ?s 0" by (simp add: storage_page_def)
  have e2: "table_entry m ?s (i 2) = (if i 2 = 0 then make_table_descriptor (storage_page ?s 1)
      else if i 2 = 1 then make_table_descriptor (storage_page ?s 2) else 0)"
    using page[of 0 "i 2"] b[of 2] root by (simp add: arm64_table_word_def)
  have w2: "arm64_walk user m 3 ?s va = (if i 2 = 0 then arm64_walk user m 2 (storage_page ?s 1) va
      else if i 2 = 1 then arm64_walk user m 2 (storage_page ?s 2) va else None)"
    using arm64_walk.simps(2)[of user m 2 ?s va] e2 T1 T2 by (simp add: i_def Let_def split: if_splits)
  have e1: "table_entry m (storage_page ?s 1) (i 1) = (if i 1 = 2 then make_block_descriptor r 0x740 else 0)"
    using page[of 1 "i 1"] b[of 1] by (simp add: arm64_table_word_def r_def)
  have w1: "arm64_walk user m 2 (storage_page ?s 1) va = (if i 1 = 2 then Some (r + (va AND mask 21)) else None)"
    using e1 block_and_flags[of r "0x740", OF user_region_spec(1,4)[OF s, folded r_def]]
      arm64_walk.simps(2)[of user m 1 "storage_page ?s 1" va]
    unfolding two by (cases "i 1 = 2") (simp_all add: i_def Let_def)
  have ek: "table_entry m (storage_page ?s 2) (i 1) =
      (if i 1 < 16 then make_block_descriptor (of_nat (0x40000000 + i 1 * 0x200000)) 0x700 else 0)"
    using page[of 2 "i 1"] b[of 1] by (simp add: arm64_table_word_def del: of_nat_add of_nat_mult)
  have wk: "arm64_walk user m 2 (storage_page ?s 2) va =
      (if i 1 < 16 \<and> \<not> user then Some (of_nat (0x40000000 + i 1 * 0x200000) + (va AND mask 21)) else None)"
    using ek block_and_flags[of "of_nat (0x40000000 + i 1 * 0x200000)" "0x700"] kernel_block[of "i 1"]
      arm64_walk.simps(2)[of user m 1 "storage_page ?s 2" va]
    unfolding two by (cases "i 1 < 16") (simp_all add: i_def Let_def del: of_nat_add of_nat_mult)
  show ?thesis
    using w2 w1 wk by (cases user) (auto simp del: of_nat_add of_nat_mult)
qed

lemma root_masked:
  assumes "physical_arm64_storage storage"
  shows "root_table_address storage AND ARM64_OUTPUT_ADDRESS_MASK = root_table_address storage"
proof -
  let ?s = "root_table_address storage"
  have a: "?s AND 0xFFF = 0" "?s < 2 ^ 48" using arm64_storage_page(2,3)[OF assms, of 0] by (simp_all add: storage_page_def)
  have "ARM64_OUTPUT_ADDRESS_MASK = NOT 0xFFF AND mask 48" by (simp add: ARM64_OUTPUT_ADDRESS_MASK_def mask_eq_exp_minus_1)
  moreover have "?s AND NOT 0xFFF = ?s" using page_and_flags(1)[OF a(1), of 0] by (simp add: and.assoc)
  ultimately show ?thesis using less_mask_eq[OF a(2)] by (metis and.assoc)
qed

lemma large_page_split:
  fixes va :: u64
  assumes "unat va div 0x200000 = n"
  shows "va = of_nat (n * 0x200000) + (va AND mask 21)"
proof -
  have u: "unat (of_nat (n * 0x200000) :: u64) = n * 0x200000"
    using unat_lt_u64[of va] div_times_less_eq_dividend[of "unat va" "0x200000"] assms by (intro unat_of_nat_u64) simp
  have "unat (va AND mask 21) = unat va mod 0x200000"
    unfolding take_bit_eq_mask[symmetric] unsigned_take_bit_eq by (simp add: take_bit_eq_mod)
  then have "unat (of_nat (n * 0x200000) + (va AND mask 21)) = unat va"
    using u assms unat_lt_u64[of va] div_mult_mod_eq[of "unat va" "0x200000"] by (subst unat_add_no_wrap) simp_all
  then show ?thesis by (simp add: word_unat_eq_iff)
qed

lemma arm64_translate_tables:
  fixes regs :: arm64_system_registers and exception_vectors :: u64
  assumes t: "arm64_tables storage m" and s: "physical_arm64_storage storage"
  defines "regs' \<equiv> snd (activate_root_table exception_vectors (root_table_address storage) (False, regs))"
  shows "arm64_translate True regs' m va =
      (if 0x400000 \<le> unat va \<and> unat va < 0x600000 then Some (get_user_region storage + (va - 0x400000)) else None)"
    and "0x40000000 \<le> unat va \<Longrightarrow> unat va < 0x42000000 \<Longrightarrow> arm64_translate False regs' m va = Some va"
proof -
  let ?v = "unat va" and ?r = "get_user_region storage"
  have "root_table_address storage \<noteq> 0" using s by (auto simp: physical_arm64_storage_def)
  note T = activated[OF this, of _ exception_vectors regs, folded regs'_def, unfolded root_masked[OF s]] and W = arm64_walk_tables[OF t s]
  have "unat (drop_bit 39 va) = ?v div 2 ^ 39"
    unfolding unsigned_drop_bit_eq using unat_lt_u64[of va] by (simp add: drop_bit_eq_div take_bit_nat_eq_self)
  then have d: "drop_bit 39 va = 0 \<longleftrightarrow> ?v < 2 ^ 39" using unat_eq_zero[of "drop_bit 39 va"] by (simp add: div_eq_0_iff)
  define q where "q = ?v div 0x200000"
  have i: "walk_index 2 va = q div 512 mod 512" "walk_index 1 va = q mod 512"
    by (simp_all add: walk_index_div q_def div_mult2_eq[symmetric])
  have user: "drop_bit 39 va = 0 \<and> walk_index 2 va = 0 \<and> walk_index 1 va = 2 \<longleftrightarrow> q = 2"
  proof -
    have "?v < 2 ^ 39 \<longleftrightarrow> q < 0x40000" by (simp add: q_def div_less_iff_less_mult)
    moreover have "q < 0x40000 \<and> q div 512 mod 512 = 0 \<and> q mod 512 = 2 \<longleftrightarrow> q = 2"
    proof (intro iffI)
      assume a: "q < 0x40000 \<and> q div 512 mod 512 = 0 \<and> q mod 512 = 2"
      then have "q div 512 < 512" by (simp add: div_less_iff_less_mult)
      then have "q div 512 = 0" using a by (metis mod_less)
      then show "q = 2" using a div_mult_mod_eq[of q 512] by simp
    qed simp
    ultimately show ?thesis unfolding d i by (simp only:)
  qed
  have q2: "q = 2 \<longleftrightarrow> 0x400000 \<le> ?v \<and> ?v < 0x600000" unfolding q_def by auto
  have va2: "?r + (va AND mask 21) = ?r + (va - 0x400000)" if "q = 2"
    using large_page_split[of va 2] that by (simp add: q_def algebra_simps)
  show "arm64_translate True regs' m va = (if 0x400000 \<le> ?v \<and> ?v < 0x600000 then Some (?r + (va - 0x400000)) else None)"
    unfolding T W q2[symmetric] using user va2 by auto
  show "arm64_translate False regs' m va = Some va" if v: "0x40000000 \<le> ?v" "?v < 0x42000000"
  proof -
    have "512 \<le> q" "q < 528" using v by (simp_all add: q_def)
    then have k: "walk_index 2 va = 1" "walk_index 1 va < 16" "q = 512 + walk_index 1 va"
      unfolding i using le_mod_geq[of 512 q] by simp_all
    have "va = of_nat (0x40000000 + walk_index 1 va * 0x200000) + (va AND mask 21)"
      using large_page_split[of va q] k(3) by (simp add: q_def)
    then show ?thesis unfolding T W using d v k(1,2) by simp
  qed
qed

section \<open>What populating a process does\<close>

lemma arm64_initialized_storage:
  assumes "arm64_initialize_process_storage storage m = (storage', m1)"
  shows "storage' = storage\<lparr>x64_guest_state := zero_x64_state\<rparr>" and "root_table_address storage' = root_table_address storage"
    and "get_user_region storage' = get_user_region storage" and "m1 = memset m (root_table_address storage) 0 0x404000"
    and "physical_arm64_storage storage' = physical_arm64_storage storage"
  using assms by (auto simp: arm64_initialize_process_storage_def get_user_region_def SIZEOF_ARM64_PROCESS_STORAGE_def
      physical_arm64_storage_def)

lemma translation_tables_region:
  "region_only (root_table_address storage) 0x404000 m (initialize_translation_tables storage m)"
proof -
  have e: "region_only s 0x404000 m (set_table_entry m (storage_page s p) i v)" if "p < 3" "i < 512" for s m p i v
    unfolding entry_of_page using that by (intro region_set_entry) simp_all
  have e0: "region_only s 0x404000 m (set_table_entry m s i v)" if "i < 512" for s m i v
    using that by (intro region_set_entry) simp_all
  show ?thesis
    unfolding initialize_translation_tables_def Let_def table_indices lower_block_table_address_def kernel_block_table_address_def
    by (rule region_trans[OF region_trans[OF region_trans[OF e0 e0] e] region_fold]) (use e in auto)
qed

lemma arm64_tables_initialized:
  assumes "arm64_initialize_process_storage storage m = (storage', m1)"
  shows "arm64_tables storage' (initialize_translation_tables storage' m1)"
  unfolding arm64_tables_def
  using translation_table_words[of _ m1 storage'] arm64_initialized_storage(2,4)[OF assms] by (auto simp: entry_memset)

text \<open>Placing the program, of either kind, writes from the region on and not below it.\<close>

lemma initialize_arm64_pe_image_keeps:
  assumes "initialize_arm64_pe_image image_bytes image_size storage m = Inr (entry_point, m')"
  shows "region_only (get_user_region storage) (2 ^ 33) m m'"
proof -
  obtain st res m1 where l: "load_pe32_plus_image image_bytes image_size (get_user_region storage) arm64_load_config m = (st, res, m1)"
    by (metis prod_cases3)
  then have "m' = m1" using assms by (auto simp: initialize_arm64_pe_image_def split: if_splits)
  then show ?thesis
    using load_pe_reach[OF l] by (simp add: arm64_load_config_def ARM64_USER_RUNTIME_USER_REGION_SIZE_def ARM64_USER_RUNTIME_LARGE_PAGE_SIZE_def)
qed

lemma initialize_x64_emulator_image_keeps:
  assumes "initialize_x64_emulator_image image_bytes image_size storage m = Inr (entry_point, m')"
  shows "region_only (get_user_region storage) (2 ^ 33) m m'"
proof -
  let ?r = "get_user_region storage"
  let ?m1 = "memset m ?r 0 (unat ARM64_USER_RUNTIME_USER_REGION_SIZE)"
  obtain st info m2 where l: "load_x64_pe64_image image_bytes image_size X64_USER_IMAGE_VIRTUAL_ADDRESS ?r X64_USER_REGION_SIZE None ?m1 =
      (st, info, m2)" by (metis prod_cases3)
  have r0: "region_only ?r (2 ^ 33) m ?m1"
    by (rule region_mono[OF region_memset])
      (simp_all add: ARM64_USER_RUNTIME_USER_REGION_SIZE_def ARM64_USER_RUNTIME_LARGE_PAGE_SIZE_def)
  have r1: "region_only ?r (2 ^ 33) ?m1 m2"
    by (rule load_x64_reach[OF l no_resolver_confined]) (simp add: x64_user_layout)
  have m': "m' = store_bytes m2 (?r + 0x9FF8) (le_bytes 8 0)"
    using assms l by (auto simp: initialize_x64_emulator_image_def Let_def x64_user_layout algebra_simps split: if_splits)
  have "region_only ?r (2 ^ 33) m2 m'"
    unfolding m' region_only_def using store_shifted[of "0x9FF8" "le_bytes 8 0" m2 ?r] by simp
  then show ?thesis by (rule region_trans[OF region_trans[OF r0 r1]])
qed

lemma populate_native_cases:
  assumes "populate_native_bootstrap_for_process i image_start image_end cfg (storages, m) = Inr (cfg', storages', m')"
  obtains storage m1 entry_point asp where "arm64_initialize_process_storage (storages ! i) m = (storage, m1)"
    "initialize_arm64_pe_image image_start (image_end - image_start) storage (initialize_translation_tables storage m1) =
      Inr (entry_point, m')"
    "add_address_space_mapping ((cfg_address_space cfg)\<lparr>arch_root_table := root_table_address storage\<rparr>)
       USER_REGION_VIRTUAL_ADDRESS (get_user_region storage) ARM64_USER_RUNTIME_USER_REGION_SIZE = Some asp"
    "cfg_address_space cfg' = asp" "storages' = storages[i := storage]"
    "execution_backend (cfg_metadata cfg') = PROCESS_EXECUTION_BACKEND_NATIVE"
  using assms by (auto simp: populate_native_bootstrap_for_process_def split: prod.splits sum.splits option.splits)

lemma populate_emulator_cases:
  assumes "populate_x64_emulator_bootstrap i image_start image_end cfg (storages, m) = Inr (cfg', storages', m')"
  obtains storage m1 entry_point asp where "arm64_initialize_process_storage (storages ! i) m = (storage, m1)"
    "initialize_x64_emulator_image image_start (image_end - image_start) storage (initialize_translation_tables storage m1) =
      Inr (entry_point, m')"
    "add_address_space_mapping ((cfg_address_space cfg)\<lparr>arch_root_table := root_table_address storage\<rparr>)
       USER_REGION_VIRTUAL_ADDRESS (get_user_region storage) X64_USER_REGION_SIZE = Some asp"
    "cfg_address_space cfg' = asp" "storages' = storages[i := storage]"
    "execution_backend (cfg_metadata cfg') = PROCESS_EXECUTION_BACKEND_X64_EMULATOR"
  using assms by (auto simp: populate_x64_emulator_bootstrap_def split: prod.splits sum.splits option.splits)

lemma region_from_root:
  assumes "physical_arm64_storage storage" and "region_only (get_user_region storage) (2 ^ 33) m m'"
  obtains k where "0x4000 \<le> k" and "k < 0x204000" and "region_only (root_table_address storage + of_nat k) (2 ^ 33) m m'"
proof -
  let ?s = "root_table_address storage" and ?r = "get_user_region storage"
  note R = user_region_spec[OF assms(1)]
  define k where "k = unat ?r - unat ?s"
  have "unat (?s + of_nat k) = unat ?r"
    using R unat_lt_u64[of ?r] unat_of_nat_u64[of k] by (subst unat_add_no_wrap) (simp_all add: k_def)
  then have "?r = ?s + of_nat k" by (simp add: word_unat_eq_iff)
  then show thesis using that[of k] R assms(2) by (simp add: k_def)
qed

lemma storage_filled:
  assumes i: "arm64_initialize_process_storage storage m = (storage', m1)" and p: "physical_arm64_storage storage"
    and r: "region_only (get_user_region storage') (2 ^ 33) (initialize_translation_tables storage' m1) m'"
  shows "arm64_tables storage' m'" and "region_only (root_table_address storage) (2 ^ 34) m m'"
proof -
  note I = arm64_initialized_storage[OF i]
  let ?s = "root_table_address storage"
  have p': "physical_arm64_storage storage'" using p I(5) by simp
  obtain k where k: "0x4000 \<le> k" "k < 0x204000" "region_only (?s + of_nat k) (2 ^ 33) (initialize_translation_tables storage' m1) m'"
    using region_from_root[OF p' r] I(2) by metis
  show "arm64_tables storage' m'"
    using arm64_tables_initialized[OF i] region_entry[OF k(3)] k(1,2) I(2) by (simp add: arm64_tables_def)
  have "region_only ?s (2 ^ 34) m m1" unfolding I(4) by (rule region_mono[OF region_memset]) simp_all
  moreover have "region_only ?s (2 ^ 34) m1 (initialize_translation_tables storage' m1)"
    using region_mono[OF translation_tables_region[of storage' m1], of "2 ^ 34"] I(2) by simp
  moreover have "region_only ?s (2 ^ 34) (initialize_translation_tables storage' m1) m'"
    using k(2) by (intro region_shift[OF k(3)]) simp_all
  ultimately show "region_only ?s (2 ^ 34) m m'" using region_trans by blast
qed

lemma arm64_populate_wf:
  assumes "add_address_space_mapping ((cfg_address_space cfg)\<lparr>arch_root_table := root\<rparr>) a b n = Some asp"
    and "wf_address_space (cfg_address_space cfg)"
  shows "wf_address_space asp"
proof -
  have "wf_address_space ((cfg_address_space cfg)\<lparr>arch_root_table := root\<rparr>)"
    using assms(2) by (simp add: wf_address_space_def live_mappings_def)
  then show ?thesis using assms(1) by (auto intro: add_address_space_mapping_wf)
qed

lemma populate_native_wf:
  "populate_native_bootstrap_for_process i image_start image_end cfg m = Inr (cfg', m') \<Longrightarrow>
    wf_address_space (cfg_address_space cfg) \<Longrightarrow> wf_address_space (cfg_address_space cfg')"
  by (cases m; cases m') (auto elim!: populate_native_cases dest: arm64_populate_wf)

lemma populate_emulator_wf:
  "populate_x64_emulator_bootstrap i image_start image_end cfg m = Inr (cfg', m') \<Longrightarrow>
    wf_address_space (cfg_address_space cfg) \<Longrightarrow> wf_address_space (cfg_address_space cfg')"
  by (cases m; cases m') (auto elim!: populate_emulator_cases dest: arm64_populate_wf)

interpretation arm64_native_boot: initial_platform populate_native_bootstrap_for_process populate_native_bootstrap_for_process
  by unfold_locales (rule populate_native_wf, assumption, assumption)+

interpretation arm64_emulated_boot: initial_platform populate_native_bootstrap_for_process populate_x64_emulator_bootstrap
  by unfold_locales (rule populate_native_wf populate_emulator_wf, assumption, assumption)+

lemma native_address_space:
  assumes "populate_native_bootstrap_for_process i image_start image_end zero_configuration (storages, m) = Inr (cfg, storages', m')"
    and "physical_arm64_storage (storages ! i)"
  shows "arch_root_table (cfg_address_space cfg) = root_table_address (storages ! i)"
    and "xlate (cfg_address_space cfg) va =
      (if 0x400000 \<le> unat va \<and> unat va < 0x600000 then Some (get_user_region (storages ! i) + (va - 0x400000)) else None)"
proof -
  let ?s = "root_table_address (storages ! i)" and ?r = "get_user_region (storages ! i)"
  note R = user_region_spec[OF assms(2)]
  have a: "add_address_space_mapping (empty_address_space ?s) 0x400000 ?r 0x200000 = Some (cfg_address_space cfg)"
    using assms(1)
    by (rule populate_native_cases) (simp add: arm64_initialized_storage zero_configuration_root USER_REGION_VIRTUAL_ADDRESS_def
        x64_user_layout ARM64_USER_RUNTIME_USER_REGION_SIZE_def ARM64_USER_RUNTIME_LARGE_PAGE_SIZE_def)
  have v: "is_valid_address_range ?r 0x200000" "is_valid_address_range 0x400000 0x200000"
    unfolding is_valid_address_range_iff using R by (simp_all add: word_less_nat_alt)
  have rep: "replicate 8 x = [x, x, x, x, x, x, x, x]" for x :: address_space_mapping by (simp add: numeral_eq_Suc)
  have "arch_root_table asp = ?s \<and> live_mappings asp = [\<lparr>asm_user_address = 0x400000, asm_host_address = ?r, asm_size = 0x200000\<rparr>]"
    if "add_address_space_mapping (empty_address_space ?s) 0x400000 ?r 0x200000 = Some asp" for asp
    using that v by (auto simp: add_address_space_mapping_def empty_address_space_def live_mappings_def
        USER_RUNTIME_MAX_ADDRESS_SPACE_MAPPINGS_def rep)
  from this[OF a] have asp: "arch_root_table (cfg_address_space cfg) = ?s"
    "live_mappings (cfg_address_space cfg) = [\<lparr>asm_user_address = 0x400000, asm_host_address = ?r, asm_size = 0x200000\<rparr>]"
    by simp_all
  then show "arch_root_table (cfg_address_space cfg) = ?s" by simp
  have "?r \<noteq> 0" using R by (auto simp: unat_eq_zero[symmetric])
  then show "xlate (cfg_address_space cfg) va =
      (if 0x400000 \<le> unat va \<and> unat va < 0x600000 then Some (?r + (va - 0x400000)) else None)"
    using asp by (simp add: xlate_def user_bytes_def)
qed

lemma arm64_populated:
  assumes "populate i image_start image_end cfg (storages, m) = Inr (cfg', storages', m')"
    and "populate \<in> {populate_native_bootstrap_for_process, populate_x64_emulator_bootstrap}"
    and p: "physical_arm64_storage (storages ! i)"
  shows "storages' = storages[i := (storages ! i)\<lparr>x64_guest_state := zero_x64_state\<rparr>]"
    and "arm64_tables (storages ! i) m'" and "region_only (root_table_address (storages ! i)) (2 ^ 34) m m'"
proof -
  obtain storage m1 where i: "arm64_initialize_process_storage (storages ! i) m = (storage, m1)" "storages' = storages[i := storage]"
    "region_only (get_user_region storage) (2 ^ 33) (initialize_translation_tables storage m1) m'"
    using assms(1,2) initialize_arm64_pe_image_keeps initialize_x64_emulator_image_keeps
    by (auto elim!: populate_native_cases populate_emulator_cases)
  note I = arm64_initialized_storage[OF i(1)]
  show "storages' = storages[i := (storages ! i)\<lparr>x64_guest_state := zero_x64_state\<rparr>]" using i(2) I(1) by simp
  show "arm64_tables (storages ! i) m'"
    using storage_filled(1)[OF i(1) p i(3)] I(2,3) by (simp add: arm64_tables_def arm64_table_word_def)
  show "region_only (root_table_address (storages ! i)) (2 ^ 34) m m'" by (rule storage_filled(2)[OF i(1) p i(3)])
qed

section \<open>The platform is initialized\<close>

text \<open>The array of two storages, one after the other.\<close>

definition physical_arm64_storages :: "arm64_process_storage list \<Rightarrow> bool" where
  "physical_arm64_storages storages \<longleftrightarrow> length storages = 2 \<and> (\<forall>storage \<in> set storages. physical_arm64_storage storage) \<and>
     root_table_address (storages ! 1) = root_table_address (storages ! 0) + of_nat SIZEOF_ARM64_PROCESS_STORAGE"

lemma arm64_initialize_calls:
  assumes "arm64_initialize images (storages, m) = Inr (bs, storages', m')"
  obtains populate_client where "populate_client \<in> {populate_native_bootstrap_for_process, populate_x64_emulator_bootstrap}"
    and "initialize_processes populate_native_bootstrap_for_process populate_client images (storages, m) = Inr (bs, storages', m')"
  using assms by (auto simp: arm64_initialize_def Let_def split: if_splits)

text \<open>A native process was populated by the native function, and its tables are in the final memory.\<close>

lemma arm64_initialize_process:
  assumes "arm64_initialize images (storages, m) = Inr (bs, storages', m')" and "i < unat (boot_process_count bs)"
    and "execution_backend (cfg_metadata (boot_initial_processes bs ! i)) = PROCESS_EXECUTION_BACKEND_NATIVE"
    and phys: "physical_arm64_storages storages"
  obtains image_start image_end storages0 m0 state1 where "i < 2" "storages0 ! i = storages ! i"
    and "populate_native_bootstrap_for_process i image_start image_end zero_configuration (storages0, m0) =
      Inr (boot_initial_processes bs ! i, state1)" and "arm64_tables (storages ! i) m'"
proof -
  have p: "physical_arm64_storage (storages ! k)" if "k < 2" for k using phys that by (simp add: physical_arm64_storages_def)
  obtain populate_client where c: "populate_client \<in> {populate_native_bootstrap_for_process, populate_x64_emulator_bootstrap}"
    and init: "initialize_processes populate_native_bootstrap_for_process populate_client images (storages, m) = Inr (bs, storages', m')"
    by (rule arm64_initialize_calls[OF assms(1)])
  have native: "populate_client = populate_native_bootstrap_for_process"
    if "populate_client k a b cfg (ss, mm) = Inr (boot_initial_processes bs ! i, ss', mm')" for k a b cfg ss mm ss' mm'
    using that c assms(3) by (auto elim: populate_emulator_cases)
  from init show thesis
  proof (cases rule: initialize_processes_cases)
    case one
    then have i: "i = 0" using assms(2) by simp
    have n: "populate_client = populate_native_bootstrap_for_process" using native one(2) i by blast
    show thesis using that[of storages] arm64_populated(2)[OF one(2) c p] one(2)[unfolded n] i by auto
  next
    case (two state1)
    obtain storages1 m1 where s1: "state1 = (storages1, m1)" by (cases state1)
    note F = arm64_populated[where populate = populate_native_bootstrap_for_process, OF two(2)[unfolded s1] _ p[of 0], simplified]
    have st1: "storages1 ! 1 = storages ! 1" using F(1) by simp
    have p1: "physical_arm64_storage (storages1 ! 1)" using p[of 1] st1 by simp
    note G = arm64_populated[where populate = populate_client, OF two(3)[unfolded s1] c p1]
    have "region_only (root_table_address (storages ! 0) + of_nat SIZEOF_ARM64_PROCESS_STORAGE) (2 ^ 34) m1 m'"
      using G(3) phys st1 by (simp add: physical_arm64_storages_def)
    from region_entry[OF this] have "arm64_tables (storages ! 0) m'"
      using F(2) by (simp add: arm64_tables_def SIZEOF_ARM64_PROCESS_STORAGE_def)
    moreover have "i = 0 \<or> i = 1" using assms(2) two(1) by auto
    ultimately show thesis using that two(2,3) s1 native st1 G(2) by (metis One_nat_def less_2_cases_iff)
  qed
qed

section \<open>Properties\<close>

text \<open>
  C15. The translation tables the arm64 platform builds are the address spaces the kernel keeps. When the
  platform has been initialized with storages in physical memory, then for every native initial process,
  with the final memory and whatever its image holds, the processor whose registers are set by the
  activation of its address space translates a user-mode access to exactly the host byte the
  kernel's mapping table has for it and faults on every other address; in kernel mode the 32
  megabytes of the kernel are mapped to themselves.
\<close>

theorem arm64_page_tables_are_address_space:
  assumes "arm64_initialize images (storages, m) = Inr (bs, storages', m')" and "physical_arm64_storages storages"
    and "i < unat (boot_process_count bs)"
    and "execution_backend (cfg_metadata (boot_initial_processes bs ! i)) = PROCESS_EXECUTION_BACKEND_NATIVE"
  shows "let asp = cfg_address_space (boot_initial_processes bs ! i);
      regs' = snd (activate_root_table exception_vectors (arch_root_table asp) (False, regs)) in
    (\<forall>va. arm64_translate True regs' m' va = xlate asp va) \<and>
    (\<forall>va. KERNEL_IDENTITY_BASE \<le> va \<and> va < KERNEL_IDENTITY_BASE + KERNEL_IDENTITY_SIZE \<longrightarrow>
       arm64_translate False regs' m' va = Some va)"
proof -
  let ?cfg = "boot_initial_processes bs ! i"
  obtain image_start image_end storages0 m0 state1 where i: "i < 2" "storages0 ! i = storages ! i"
    and n: "populate_native_bootstrap_for_process i image_start image_end zero_configuration (storages0, m0) = Inr (?cfg, state1)"
    and t: "arm64_tables (storages ! i) m'" by (rule arm64_initialize_process[OF assms(1,3,4,2)])
  have p: "physical_arm64_storage (storages ! i)" using assms(2) i(1) by (simp add: physical_arm64_storages_def)
  note N = native_address_space[of i image_start image_end storages0 m0 ?cfg "fst state1" "snd state1", unfolded prod.collapse i(2), OF n p]
  show ?thesis
    using arm64_translate_tables[OF t p, where regs = regs and exception_vectors = exception_vectors] N
    by (simp add: Let_def KERNEL_IDENTITY_BASE_def KERNEL_IDENTITY_SIZE_def word_less_nat_alt word_le_nat_alt)
qed

text \<open>A system with one native program, its region at \<open>0x200000\<close>.\<close>

definition example_arm64_storages :: "arm64_process_storage list" where
  "example_arm64_storages =
     [\<lparr>root_table_address = 0x1FC000, user_region_storage_address = 0x200000, x64_guest_state = zero_x64_state\<rparr>,
      \<lparr>root_table_address = 0x600000, user_region_storage_address = 0x604000, x64_guest_state = zero_x64_state\<rparr>]"

lemma example_arm64_storages_physical: "physical_arm64_storages example_arm64_storages"
  by (simp add: physical_arm64_storages_def physical_arm64_storage_def example_arm64_storages_def storage_page_def
      SIZEOF_ARM64_PROCESS_STORAGE_def)

lemma example_machine_found:
  assumes "holds_example x64 0x10 8 m"
  shows "try_get_pe_machine 0x100000 400 m = Some (example_machine x64)"
proof -
  define config where "config = \<lparr>expected_machine = example_machine x64, expected_image_base = 0x400000,
     expected_section_alignment = 0x1000, expected_file_alignment = 0x1000, loaded_image_size = 0x20,
     allow_imports = False, allow_relocations = False\<rparr>"
  note H = example_headers[OF assms]
  have "check_headers config 400 64 (pe_headers m 0x100000) = None" by (rule H(4)) (simp add: config_def accepts_example_def)
  then have "nt_signature (pe_headers m 0x100000) = PE_NT_SIGNATURE" "magic (optional_header (pe_headers m 0x100000)) = PE32_PLUS_MAGIC"
    by (auto simp: check_headers_def Let_def split: if_splits)
  moreover have "pe_headers m 0x100000 = read_nt_headers (load_bytes m (0x100000 + 64) SIZEOF_NT_HEADERS)"
    by (simp add: pe_headers_def H(1))
  ultimately show ?thesis
    using H(2,3,5) by (simp add: try_get_pe_machine_def copy_embedded_record_def Let_def word_sless_alt SIZEOF_DOS_HEADER_def
        SIZEOF_NT_HEADERS_def SIZEOF_FILE_HEADER_def SIZEOF_OPTIONAL_HEADER_def)
qed

lemma example_arm64_initialize:
  obtains bs storages' m' where
    "arm64_initialize example_images (example_arm64_storages, example_image False 0x10 8) = Inr (bs, storages', m')"
    and "boot_process_count bs = 1"
    and "execution_backend (cfg_metadata (boot_initial_processes bs ! 0)) = PROCESS_EXECUTION_BACKEND_NATIVE"
proof -
  let ?st = "example_arm64_storages ! 0" and ?m = "example_image False 0x10 8"
  obtain storage m1 where i: "arm64_initialize_process_storage ?st ?m = (storage, m1)" by force
  note I = arm64_initialized_storage[OF i]
  have s: "root_table_address ?st = 0x1FC000" "get_user_region ?st = 0x200000"
    by (simp_all add: example_arm64_storages_def get_user_region_def align_up_def ARM64_USER_RUNTIME_LARGE_PAGE_SIZE_def Let_def)
  let ?init = "initialize_translation_tables storage m1"
  have "region_only 0x1FC000 0x404000 ?m m1" unfolding I(4) s by (rule region_memset) simp
  moreover have "region_only 0x1FC000 0x404000 m1 ?init" using translation_tables_region[of storage m1] I(2) s by simp
  ultimately have h: "holds_example False 0x10 8 ?init"
    by (intro region_holds[OF example_image_holds apart_below region_trans]) simp_all
  have acc: "accepts_example False arm64_load_config" and L: "unat (loaded_image_size arm64_load_config) = 0x200000"
    by (simp_all add: accepts_example_def arm64_load_config_def example_machine_def x64_user_layout USER_REGION_VIRTUAL_ADDRESS_def
        ARM64_USER_RUNTIME_PAGE_SIZE_def ARM64_USER_RUNTIME_USER_REGION_SIZE_def ARM64_USER_RUNTIME_LARGE_PAGE_SIZE_def)
  obtain res m2 where l: "load_pe32_plus_image 0x100000 400 0x200000 arm64_load_config ?init = (PE_IMAGE_LOAD_STATUS_OK, res, m2)"
    by (rule example_loads[OF h acc apart_below]) (simp_all add: L)
  have e: "\<exists>entry m2. initialize_arm64_pe_image 0x100000 400 storage ?init = Inr (entry, m2)"
    using l I(3) s by (simp add: initialize_arm64_pe_image_def)
  have v: "is_valid_address_range 0x200000 0x200000" "is_valid_address_range 0x400000 0x200000"
    by (simp_all add: is_valid_address_range_iff)
  have "\<exists>asp. add_address_space_mapping (empty_address_space 0x1FC000) 0x400000 0x200000 0x200000 = Some asp"
    using v by (simp add: add_address_space_mapping_def empty_address_space_def live_mappings_def USER_RUNTIME_MAX_ADDRESS_SPACE_MAPPINGS_def)
  then have "\<exists>cfg ss m3. populate_native_bootstrap_for_process 0 0x100000 0x100190 zero_configuration (example_arm64_storages, ?m) =
      Inr (cfg, ss, m3) \<and> execution_backend (cfg_metadata cfg) = PROCESS_EXECUTION_BACKEND_NATIVE"
    using e i I(2,3) s by (auto simp: populate_native_bootstrap_for_process_def zero_configuration_root USER_REGION_VIRTUAL_ADDRESS_def
        x64_user_layout ARM64_USER_RUNTIME_USER_REGION_SIZE_def ARM64_USER_RUNTIME_LARGE_PAGE_SIZE_def)
  moreover have "boot_initial_processes zero_bootstrap = [zero_configuration, zero_configuration]"
    by (simp add: zero_bootstrap_def USER_RUNTIME_MAX_INITIAL_PROCESSES_def numeral_eq_Suc)
  moreover have "try_get_pe_machine 0x100000 400 ?m = Some PE_MACHINE_ARM64"
    using example_machine_found[OF example_image_holds] by (simp add: example_machine_def)
  ultimately have "\<exists>bs ss m'. arm64_initialize example_images (example_arm64_storages, ?m) = Inr (bs, ss, m') \<and> boot_process_count bs = 1 \<and>
      execution_backend (cfg_metadata (boot_initial_processes bs ! 0)) = PROCESS_EXECUTION_BACKEND_NATIVE"
    by (auto simp: arm64_initialize_def Let_def initialize_processes_def populate_process_def example_images_def has_embedded_image_def)
  then show thesis using that by blast
qed

theorem arm64_page_tables_are_address_space_witness:
  "\<exists>bs storages' m'. arm64_initialize example_images (example_arm64_storages, example_image False 0x10 8) = Inr (bs, storages', m') \<and>
     (let asp = cfg_address_space (boot_initial_processes bs ! 0);
          regs' = snd (activate_root_table 0x40000000 (arch_root_table asp)
            (False, \<lparr>vbar_el1 = 0, mair_el1 = 0, tcr_el1 = 0, ttbr0_el1 = 0, sctlr_el1 = 0, cpacr_el1 = 0\<rparr>)) in
      arm64_translate True regs' m' 0x400008 = xlate asp 0x400008 \<and> arm64_translate False regs' m' 0x41000000 = Some 0x41000000)"
proof -
  obtain bs storages' m' where i:
    "arm64_initialize example_images (example_arm64_storages, example_image False 0x10 8) = Inr (bs, storages', m')"
    "boot_process_count bs = 1" "execution_backend (cfg_metadata (boot_initial_processes bs ! 0)) = PROCESS_EXECUTION_BACKEND_NATIVE"
    by (rule example_arm64_initialize)
  from arm64_page_tables_are_address_space[OF i(1) example_arm64_storages_physical, of 0 "0x40000000"
      "\<lparr>vbar_el1 = 0, mair_el1 = 0, tcr_el1 = 0, ttbr0_el1 = 0, sctlr_el1 = 0, cpacr_el1 = 0\<rparr>"]
  show ?thesis using i by (auto simp: Let_def KERNEL_IDENTITY_BASE_def KERNEL_IDENTITY_SIZE_def)
qed

end
