(* ===== verification/Thread_Loop.thy ===== *)
theory Thread_Loop
  imports Emulated_Thread
begin

text \<open>
  The loop of \<open>enter_user_thread\<close> on arm64: turns follow each other until a native thread is entered, the
  processor is parked, or the kernel panics. The set of processes and their address spaces never change after
  the boot, so the storage of an emulated process is found in every turn.
\<close>

section \<open>The loop\<close>

text \<open>The result after at most \<open>n\<close> turns; it is the last \<open>Emulated\<close> state when the loop goes on.\<close>

fun thread_loop :: "nat \<Rightarrow> arm64_platform \<Rightarrow> string + arm64_turn" where
  "thread_loop 0 plat = Inr (Emulated plat)"
| "thread_loop (Suc n) plat =
     (case enter_user_thread plat of Inr (Emulated plat') \<Rightarrow> thread_loop n plat' | out \<Rightarrow> out)"

section \<open>Processes are kept\<close>

lemma processes_call_frames [frame_simps]:
  "get_process (finish_call c rt) = get_process rt"
  "get_process (begin_call c a b rt) = get_process rt"
  "get_process (debug_log s rt) = get_process rt"
  by (auto simp: finish_call_def begin_call_def debug_log_def get_process_def[of "_ :: user_runtime"] frame_simps split: option.split)

lemma processes_terminate [frame_simps]:
  "get_process (snd (terminate_current_thread arch code status rt)) = get_process rt"
  by (auto simp: terminate_current_thread_def schedule_next_ready_thread_def handle_thread_exit_def
      fail_pending_call_def Let_def frame_simps split: option.split)

lemma processes_rpc:
  assumes "rpc_dispatch_syscall arch t sc rt = (r, rt')"
  shows "get_process rt' = get_process rt"
proof -
  have "get_process rt' = get_process rt" if "rpc_open p sc rt = (r, rt')" for p
    using that by (cases rule: rpc_open_cases) (auto simp: frame_simps get_process_def)
  moreover have "get_process rt' = get_process rt" if "rpc_close p sc rt = (r, rt')" for p
    using that by (cases rule: rpc_close_cases) (auto simp: get_process_def)
  moreover have "get_process rt' = get_process rt" if "rpc_register arch t p sc rt = (r, rt')" for p
    using that by (cases rule: rpc_register_cases) (auto simp: frame_simps)
  moreover have "get_process rt' = get_process rt" if "rpc_call arch t p sc rt = (r, rt')" for p
    using that by (elim rpc_call_cases; (elim prepare_server_thread_cases)?) (auto simp: frame_simps)
  moreover have "get_process rt' = get_process rt" if "complete_call arch t x rt = (r, rt')" for x
    using that by (auto simp: complete_call_def Let_def frame_simps split: option.splits if_splits)
  ultimately show ?thesis using assms unfolding rpc_dispatch_syscall_def by (simp split: if_splits option.splits)
qed

lemma processes_dispatch: "get_process (snd (dispatch_syscall arch sc rt)) = get_process rt"
proof -
  have "get_process rt' = get_process rt" if "dispatch_syscall arch sc rt = (r, rt')" for r rt'
    using that by (auto simp: dispatch_syscall_def syscall_debug_log_def Let_def frame_simps dest!: processes_rpc
        split: if_splits option.splits prod.splits)
  then show ?thesis using surjective_pairing by blast
qed

lemma kernel_step_processes:
  assumes "kernel_step arch rt rt'"
  shows "get_process rt' = get_process rt"
  using assms
proof cases
  case (x64_syscall frame b frame')
  then show ?thesis by (elim x64_handle_syscall_state) (simp add: frame_simps processes_dispatch)
next
  case (arm64_syscall frame b frame')
  then show ?thesis by (elim arm64_handle_syscall_state) (simp add: frame_simps processes_dispatch)
next
  case (emulated_syscall m s r m')
  then obtain t where t: "m_current_thread rt = Some t" by (auto simp: has_runnable_thread_def split: option.splits)
  show ?thesis using emulated_syscall(3) t by (rule dispatch_x64_syscall_state) (simp add: frame_simps processes_dispatch)
qed (simp_all add: frame_simps)

lemma kernel_run_keeps:
  assumes "kernel_run arch rt0 n rt"
  shows "get_process rt = get_process rt0" and "unat (m_next_handle_value rt) \<le> unat (m_next_handle_value rt0) + n"
  using assms
proof (induction rule: kernel_run.induct)
  case (step n rt rt')
  { case 1 show ?case using step.IH(1) step.hyps(2) kernel_step_processes by metis }
  { case 2 show ?case using step.IH(2) kernel_step_next_handle[OF step.hyps(2)] by simp }
qed simp_all

section \<open>Storages\<close>

definition storages_resolve :: "arm64_platform \<Rightarrow> bool" where
  "storages_resolve plat \<longleftrightarrow> (\<forall>p. get_process (p_runtime plat) p \<noteq> None \<longrightarrow>
     get_process_execution_backend (p_runtime plat) p = PROCESS_EXECUTION_BACKEND_NATIVE \<or>
     get_process_execution_backend (p_runtime plat) p = PROCESS_EXECUTION_BACKEND_X64_EMULATOR \<and>
       (\<exists>i. get_process_storage p plat = Some i \<and> get_user_region (m_process_storage plat ! i) \<noteq> 0))"

definition storage_addresses :: "arm64_platform \<Rightarrow> (u64 \<times> u64) list" where
  "storage_addresses plat = map (\<lambda>storage. (root_table_address storage, get_user_region storage)) (m_process_storage plat)"

lemma find_index_of_map: "find_index P (map f xs) = find_index (\<lambda>x. P (f x)) xs"
  by (induction xs) auto

lemma resolve_cong:
  assumes "get_process (p_runtime plat') = get_process (p_runtime plat)" and a: "storage_addresses plat' = storage_addresses plat"
    and "storages_resolve plat"
  shows "storages_resolve plat'"
proof -
  have b: "get_process_execution_backend (p_runtime plat') = get_process_execution_backend (p_runtime plat)"
    "get_address_space_info (p_runtime plat') = get_address_space_info (p_runtime plat)"
    by (auto simp: fun_eq_iff get_process_execution_backend_def get_address_space_info_def assms(1))
  have s: "get_process_storage p plat = find_index (\<lambda>(root, _). root = arch_root_table (get_address_space_info (p_runtime plat) p))
      (storage_addresses plat)" for p and plat :: arm64_platform
    by (simp add: get_process_storage_def storage_addresses_def find_index_of_map)
  have same: "get_process_storage p plat' = get_process_storage p plat" for p by (simp add: s a b)
  have region: "get_user_region (m_process_storage plat' ! i) = get_user_region (m_process_storage plat ! i)"
    if "get_process_storage p plat = Some i" for p i
  proof -
    have i: "i < length (storage_addresses plat)" using that unfolding s by (rule find_index_length)
    have "get_user_region (m_process_storage q ! i) = snd (storage_addresses q ! i)" if "i < length (storage_addresses q)" for q
      using that by (simp add: storage_addresses_def)
    then show ?thesis using i a by metis
  qed
  show ?thesis using assms(1,3) same region unfolding storages_resolve_def b by metis
qed

lemma run_keeps_storage:
  "run_x64_emulator_thread storage th rt = Inr (storage', rt') \<Longrightarrow>
     root_table_address storage' = root_table_address storage \<and> get_user_region storage' = get_user_region storage"
  by (auto simp: run_x64_emulator_thread_def Let_def get_user_region_def split: prod.splits bool.splits if_splits)

lemma turn_keeps_storages:
  assumes "enter_user_thread plat = Inr (Emulated plat')"
  shows "storage_addresses plat' = storage_addresses plat"
proof -
  have up: "map f (xs[i := y]) = map f xs" if "f y = f (xs ! i)" for f :: "arm64_process_storage \<Rightarrow> u64 \<times> u64" and xs i y
    using that by (metis list_update_id map_update)
  show ?thesis
    using assms by (auto simp: enter_user_thread_def Let_def storage_addresses_def dest!: run_keeps_storage intro!: up
        split: option.splits if_splits prod.splits process_execution_backend.splits sum.splits)
qed

section \<open>A turn\<close>

text \<open>How a turn ends in any state that satisfies the invariant.\<close>

definition turn_outcome :: "nat \<Rightarrow> arm64_platform \<Rightarrow> string + arm64_turn \<Rightarrow> bool" where
  "turn_outcome bound plat out \<longleftrightarrow> (case out of
      Inl message \<Rightarrow> message = ''x64 emulator hit the instruction budget''
    | Inr Parked \<Rightarrow> \<exists>n \<le> bound. \<exists>rt'. kernel_run AARCH64 (p_runtime plat) n rt' \<and> runtime_inv rt' \<and> \<not> has_runnable_thread rt'
    | Inr (Native frame plat') \<Rightarrow> (\<exists>n \<le> bound. kernel_run AARCH64 (p_runtime plat) n (p_runtime plat')) \<and> runtime_inv (p_runtime plat') \<and>
        (\<exists>t th p. m_current_thread (p_runtime plat') = Some t \<and> get_thread (p_runtime plat') t = Some th \<and> m_process th = Some p \<and>
           m_state th = USER_THREAD_STATE_RUNNING \<and> frame = load_arm64_syscall_frame th \<and>
           get_process_execution_backend (p_runtime plat') p = PROCESS_EXECUTION_BACKEND_NATIVE)
    | Inr (Emulated plat') \<Rightarrow> (\<exists>n \<le> bound. kernel_run AARCH64 (p_runtime plat) n (p_runtime plat')) \<and> runtime_inv (p_runtime plat') \<and>
        storages_resolve plat')"

lemma native_turn:
  assumes inv: "runtime_inv (p_runtime plat)" and run: "has_runnable_thread (p_runtime plat)" and t: "m_current_thread (p_runtime plat) = Some t"
    and th: "get_thread (p_runtime plat) t = Some th" "m_process th = Some p"
    and b: "get_process_execution_backend (p_runtime plat) p = PROCESS_EXECUTION_BACKEND_NATIVE"
  shows "turn_outcome 2 plat (enter_user_thread plat)"
proof -
  let ?rt = "p_runtime plat"
  let ?rt1 = "arch_activate_process_address_space AARCH64 (Some p) ?rt"
  let ?rt2 = "log_once (m_has_logged_native_runtime_ready plat) ''arm64 initial user runtime ready'' ?rt1"
  have pc: "get_process_context ?rt t = Some p" using th by (simp add: get_process_context_def)
  have e: "enter_user_thread plat = Inr (Native (load_arm64_syscall_frame th) (plat\<lparr>p_runtime := ?rt2, m_has_logged_native_runtime_ready := True\<rparr>))"
    using t run th(1) pc b by (simp add: enter_user_thread_def Let_def entry_frames)
  have g: "get_thread ?rt2 t = Some th" "get_process_execution_backend ?rt2 p = PROCESS_EXECUTION_BACKEND_NATIVE" "m_current_thread ?rt2 = Some t"
    using th b t by (auto simp: log_once_def debug_log_def get_thread_def get_process_execution_backend_def get_process_def frame_simps
        arch_activate_process_address_space_def Let_def)
  have "m_state th = USER_THREAD_STATE_RUNNING"
    using run t th(1) inv sched_invD(2)[of "abs_sched ?rt" t] by (auto simp: has_runnable_thread_def runtime_inv_def thread_state_def)
  then show ?thesis using entry_run[OF inv run refl] g th(2) by (simp add: e turn_outcome_def)
qed

lemma turn_outcome_mono: "turn_outcome b plat out \<Longrightarrow> b \<le> b' \<Longrightarrow> turn_outcome b' plat out"
  unfolding turn_outcome_def by (auto split: sum.splits arm64_turn.splits; meson le_trans)

lemma enter_turn:
  assumes inv: "runtime_inv (p_runtime plat)" and res: "storages_resolve plat" and nh: "unat (m_next_handle_value (p_runtime plat)) + 512 < 2 ^ 64"
  shows "turn_outcome 517 plat (enter_user_thread plat)"
proof (cases "has_runnable_thread (p_runtime plat)")
  case False
  then have "enter_user_thread plat = Inr Parked" by (auto simp: enter_user_thread_def Let_def split: option.split)
  then show ?thesis using False inv kernel_run.start by (auto simp: turn_outcome_def)
next
  case run: True
  let ?rt = "p_runtime plat"
  obtain t where t: "m_current_thread ?rt = Some t" using run by (auto simp: has_runnable_thread_def split: option.splits)
  have wf: "runtime_wf ?rt" using inv by (simp add: runtime_inv_def)
  obtain th where th: "get_thread ?rt t = Some th" using runtime_wfD(6)[OF wf t] by auto
  obtain p where p: "m_process th = Some p" "get_process ?rt p \<noteq> None" using runtime_wfD(3)[OF wf th] by (auto simp: wf_thread_def)
  consider "get_process_execution_backend ?rt p = PROCESS_EXECUTION_BACKEND_NATIVE"
    | i where "get_process_execution_backend ?rt p = PROCESS_EXECUTION_BACKEND_X64_EMULATOR" "get_process_storage p plat = Some i"
      "get_user_region (m_process_storage plat ! i) \<noteq> 0"
    using res p(2) by (auto simp: storages_resolve_def)
  then show ?thesis
  proof cases
    case 1
    then show ?thesis using turn_outcome_mono[OF native_turn[OF inv run t th p(1)]] by simp
  next
    case (2 i)
    have pc: "get_process_context ?rt t = Some p" using th p(1) by (simp add: get_process_context_def)
    have "storages_resolve plat'" if "enter_user_thread plat = Inr (Emulated plat')" "kernel_run AARCH64 ?rt n (p_runtime plat')" for plat' n
      by (rule resolve_cong[OF kernel_run_keeps(1)[OF that(2)] turn_keeps_storages[OF that(1)] res])
    then show ?thesis
      using enter_emulated[OF inv run t pc 2 nh] unfolding turn_outcome_def by (auto split: sum.splits arm64_turn.splits)
  qed
qed

lemma kernel_run_trans:
  assumes "kernel_run arch rt n rt1" and "kernel_run arch rt1 k rt2"
  shows "kernel_run arch rt (n + k) rt2"
  using assms(2) by (induction rule: kernel_run.induct) (auto intro: assms(1) kernel_run.step)

lemma turn_outcome_trans:
  assumes k: "kernel_run AARCH64 (p_runtime plat) k (p_runtime plat')" "k \<le> b" and o: "turn_outcome b' plat' out"
  shows "turn_outcome (b + b') plat out"
proof -
  have "\<exists>n \<le> b + b'. kernel_run AARCH64 (p_runtime plat) n rt" if "\<exists>n \<le> b'. kernel_run AARCH64 (p_runtime plat') n rt" for rt
    using that kernel_run_trans[OF k(1)] k(2) by (meson add_mono)
  then show ?thesis using o unfolding turn_outcome_def by (auto split: sum.splits arm64_turn.splits) blast
qed

section \<open>Properties\<close>

text \<open>
  C32. The thread loop of arm64. From a state that satisfies the kernel invariant and in which every emulated process
  has a storage, any number \<open>n\<close> of turns ends in one of four ways: with the panic of the instruction
  budget and no other; parked, in a state that has no runnable thread; entering a native thread, with exactly the
  frame of the running thread; or with the last emulated thread's turn over and the loop going on. The
  runtime has then made at most \<open>517 * n\<close> steps of the machine, and the invariant holds.
\<close>

theorem arm64_thread_loop:
  assumes "runtime_inv (p_runtime plat)" and "storages_resolve plat"
    and "unat (m_next_handle_value (p_runtime plat)) + 517 * n + 512 < 2 ^ 64"
  shows "turn_outcome (517 * n) plat (thread_loop n plat)"
  using assms
proof (induction n arbitrary: plat)
  case 0
  then show ?case using kernel_run.start by (auto simp: turn_outcome_def)
next
  case (Suc n)
  have t: "turn_outcome 517 plat (enter_user_thread plat)" using enter_turn[OF Suc.prems(1,2)] Suc.prems(3) by simp
  show ?case
  proof (cases "\<exists>plat'. enter_user_thread plat = Inr (Emulated plat')")
    case True
    then obtain plat' where e: "enter_user_thread plat = Inr (Emulated plat')" ..
    then obtain k where k: "kernel_run AARCH64 (p_runtime plat) k (p_runtime plat')" "k \<le> 517" "runtime_inv (p_runtime plat')"
      "storages_resolve plat'" using t by (auto simp: turn_outcome_def)
    have "turn_outcome (517 * n) plat' (thread_loop n plat')"
      using kernel_run_keeps(2)[OF k(1)] k(2) Suc.prems(3) by (intro Suc.IH k(3,4)) simp
    then show ?thesis using turn_outcome_trans[OF k(1,2)] by (simp add: e)
  next
    case False
    then have "thread_loop (Suc n) plat = enter_user_thread plat" by (auto split: sum.split arm64_turn.split)
    then show ?thesis using turn_outcome_mono[OF t] by simp
  qed
qed

theorem arm64_thread_loop_witness:
  "\<exists>rt. run_initial_user_runtime AARCH64 emulated_bootstrap (g_user_runtime (\<lambda>_. 0) 0) = Inr rt \<and>
     turn_outcome 5170 (example_platform rt) (thread_loop 10 (example_platform rt))"
proof -
  obtain rt where rt: "run_initial_user_runtime AARCH64 emulated_bootstrap (g_user_runtime (\<lambda>_. 0) 0) = Inr rt"
    "runtime_inv rt" "unat (m_next_handle_value rt) = 3" "get_process_execution_backend rt 0 = PROCESS_EXECUTION_BACKEND_X64_EMULATOR"
    "get_address_space_info rt 0 = example_asp" "\<forall>p. get_process rt p \<noteq> None \<longrightarrow> p = 0"
    using emulated_boot by metis
  have "get_process_storage 0 (example_platform rt) = Some 0"
    by (simp add: get_process_storage_def example_platform_def rt(5) example_storage_def)
  then have "storages_resolve (example_platform rt)"
    unfolding storages_resolve_def using rt(4,6) example_region by (auto simp: example_platform_def)
  then show ?thesis using arm64_thread_loop[of "example_platform rt" 10] rt by (auto simp: example_platform_def)
qed

end
