(* ===== verification/Kernel_Boot.thy ===== *)
theory Kernel_Boot
  imports Debug_Output X64_Platform Arm64_Platform Thread_Loop
begin

text \<open>
  The kernel from the C++ entry point of each architecture to its first user thread: \<open>arch/x64/entry.cpp\<close> and
  \<open>arch/arm64/entry.cpp\<close>, the machine description of \<open>kernel/machine.cpp\<close> and its architecture parts,
  \<open>kernel_main\<close>, and the sequence of \<open>run_initial_user_runtime\<close> over the table of platform functions. A panic
  ends the boot with its two lines in the log.
\<close>

section \<open>The machine\<close>

definition ARCH_X64 :: u32 where "ARCH_X64 = 0"
definition ARCH_ARM64 :: u32 where "ARCH_ARM64 = 1"

record boot_info =
  info_arch_id :: u32
  device_tree_blob_address :: u64
  device_tree_blob_size :: u64

definition MACHINE_NAME_MAX_LENGTH :: nat where "MACHINE_NAME_MAX_LENGTH = 32"
definition MACHINE_KIND_UNKNOWN :: u32 where "MACHINE_KIND_UNKNOWN = 0"
definition MACHINE_KIND_X64_GENERIC :: u32 where "MACHINE_KIND_X64_GENERIC = 1"
definition MACHINE_KIND_QEMU_ARM64_VIRT :: u32 where "MACHINE_KIND_QEMU_ARM64_VIRT = 2"

record machine_descriptor =
  machine_arch_id :: u32
  machine_kind :: u32
  machine_name :: "u8 list"

text \<open>The descriptor after \<open>memset\<close>.\<close>

definition zero_machine :: machine_descriptor where
  "zero_machine = \<lparr>machine_arch_id = 0, machine_kind = 0, machine_name = replicate MACHINE_NAME_MAX_LENGTH 0\<rparr>"

definition x64_initialize_machine :: "boot_info \<Rightarrow> bool \<times> machine_descriptor" where
  "x64_initialize_machine info =
     (info_arch_id info = ARCH_X64,
      zero_machine\<lparr>machine_arch_id := info_arch_id info, machine_kind := MACHINE_KIND_X64_GENERIC,
        machine_name := copy_string (machine_name zero_machine) (Some (map of_char ''x64-generic''))\<rparr>)"

definition initialize_qemu_arm64_virt_machine_descriptor :: "boot_info \<Rightarrow> machine_descriptor \<Rightarrow> machine_descriptor" where
  "initialize_qemu_arm64_virt_machine_descriptor info out_machine =
     out_machine\<lparr>machine_arch_id := info_arch_id info, machine_kind := MACHINE_KIND_QEMU_ARM64_VIRT,
       machine_name := copy_string (machine_name out_machine) (Some (map of_char ''qemu-arm64-virt''))\<rparr>"

definition try_initialize_qemu_arm64_virt_machine :: "boot_info \<Rightarrow> machine_descriptor \<Rightarrow> bool \<times> machine_descriptor" where
  "try_initialize_qemu_arm64_virt_machine info out_machine =
     (if info_arch_id info \<noteq> ARCH_ARM64 then (False, out_machine)
      else (True, initialize_qemu_arm64_virt_machine_descriptor info out_machine))"

definition arm64_initialize_machine :: "boot_info \<Rightarrow> bool \<times> machine_descriptor" where
  "arm64_initialize_machine info =
     (if info_arch_id info \<noteq> ARCH_ARM64 then (False, zero_machine)
      else try_initialize_qemu_arm64_virt_machine info (zero_machine\<lparr>machine_arch_id := info_arch_id info\<rparr>))"

definition arch_initialize_machine :: "target_arch \<Rightarrow> boot_info \<Rightarrow> bool \<times> machine_descriptor" where
  "arch_initialize_machine arch = (case arch of X86_64 \<Rightarrow> x64_initialize_machine | AARCH64 \<Rightarrow> arm64_initialize_machine)"

section \<open>Globals, log and panic\<close>

record kernel_globals =
  g_machine :: machine_descriptor
  g_runtime :: user_runtime

definition get_machine :: "kernel_globals \<Rightarrow> machine_descriptor" where
  "get_machine g = g_machine g"

definition kernel_log :: "string \<Rightarrow> kernel_globals \<Rightarrow> kernel_globals" where
  "kernel_log message g = g\<lparr>g_runtime := debug_log (map of_char message) (g_runtime g)\<rparr>"

text \<open>
  The boot ends in the loop of \<open>panic\<close> or in the platform's \<open>enter_user_thread\<close>, which does not return;
  \<open>'e\<close> is what is known of it.
\<close>

datatype 'e boot_outcome =
    Halted kernel_globals
  | Entered machine_descriptor 'e

definition panic :: "string \<Rightarrow> kernel_globals \<Rightarrow> 'e boot_outcome" where
  "panic message g = Halted (kernel_log message (kernel_log ''PANIC'' g))"

definition initialize_machine :: "target_arch \<Rightarrow> boot_info \<Rightarrow> kernel_globals \<Rightarrow> 'e boot_outcome + kernel_globals" where
  "initialize_machine arch info g =
     (case arch_initialize_machine arch info of
        (True, out_machine) \<Rightarrow> Inr (g\<lparr>g_machine := out_machine\<rparr>)
      | (False, out_machine) \<Rightarrow> Inl (panic ''unsupported boot machine'' (g\<lparr>g_machine := out_machine\<rparr>)))"

section \<open>The initial user runtime\<close>

text \<open>The table of functions of a platform and the object they work on.\<close>

record ('p, 'e) initial_user_runtime_platform =
  p_context :: 'p
  p_initialize :: "'p \<Rightarrow> hmem \<Rightarrow> string + (initial_user_runtime_bootstrap \<times> 'p \<times> hmem)"
  p_prepare_thread_launch :: "process_ref \<Rightarrow> thread_ref \<Rightarrow> 'p \<Rightarrow> user_runtime \<Rightarrow> 'p \<times> user_runtime"
  p_enter_user_thread :: "process_ref \<Rightarrow> thread_ref \<Rightarrow> 'p \<Rightarrow> user_runtime \<Rightarrow> 'e"

text \<open>
  \<open>run_initial_user_runtime\<close> of the code. A platform's \<open>initialize\<close> that panics is \<open>Inl\<close> with the message; what is
  kept of the halted kernel is its log, not the objects and bytes the failing step had already made.
\<close>

definition run_platform :: "target_arch \<Rightarrow> ('p, 'e) initial_user_runtime_platform \<Rightarrow> kernel_globals \<Rightarrow> 'e boot_outcome" where
  "run_platform arch platform g =
     (case p_initialize platform (p_context platform) (host_memory (g_runtime g)) of
        Inl message \<Rightarrow> panic message (g\<lparr>g_runtime := runtime_reset (g_runtime g)\<rparr>)
      | Inr (bootstrap, context1, m) \<Rightarrow>
         (case start_initial_user_runtime arch bootstrap ((g_runtime g)\<lparr>host_memory := m\<rparr>) of
            Inl message \<Rightarrow> panic message (g\<lparr>g_runtime := (runtime_reset (g_runtime g))\<lparr>host_memory := m\<rparr>\<rparr>)
          | Inr ((initial_process, initial_thread), rt) \<Rightarrow>
             (case p_prepare_thread_launch platform initial_process initial_thread context1 rt of
                (context2, rt1) \<Rightarrow>
                  Entered (g_machine g) (p_enter_user_thread platform initial_process initial_thread context2 rt1))))"

definition kernel_main :: "target_arch \<Rightarrow> ('p, 'e) initial_user_runtime_platform \<Rightarrow> boot_info \<Rightarrow> kernel_globals \<Rightarrow> 'e boot_outcome" where
  "kernel_main arch platform info g0 =
     (case initialize_machine arch info g0 of
        Inl halted \<Rightarrow> halted
      | Inr g1 \<Rightarrow>
         (let go = (\<lambda>banner. run_platform arch platform
                (kernel_log ''hello world'' (kernel_log ''gdb hooks ready'' (kernel_log banner g1)))) in
          if info_arch_id info = ARCH_X64 then go ''ringos x64''
          else if info_arch_id info = ARCH_ARM64 then go ''ringos arm64''
          else panic ''unknown architecture id'' g1))"

section \<open>The entry points\<close>

text \<open>The constructors the compiler collects in \<open>.init_array\<close>.\<close>

definition run_global_constructors :: "(kernel_globals \<Rightarrow> kernel_globals) list \<Rightarrow> kernel_globals \<Rightarrow> kernel_globals" where
  "run_global_constructors init_array g = fold (\<lambda>init_function g. init_function g) init_array g"

definition x64_entry :: "(kernel_globals \<Rightarrow> kernel_globals) list \<Rightarrow> ('p, 'e) initial_user_runtime_platform \<Rightarrow>
    kernel_globals \<Rightarrow> 'e boot_outcome" where
  "x64_entry init_array platform g =
     kernel_main X86_64 platform \<lparr>info_arch_id = ARCH_X64, device_tree_blob_address = 0, device_tree_blob_size = 0\<rparr>
       (run_global_constructors init_array g)"

definition FDT_MAGIC :: u32 where "FDT_MAGIC = 0xD00DFEED"

text \<open>The buffer is an address in host memory.\<close>

definition read_big_endian_u32 :: "hmem \<Rightarrow> u64 \<Rightarrow> u32" where
  "read_big_endian_u32 m buffer =
     (if buffer = 0 then 0
      else push_bit 24 (ucast (m buffer)) OR push_bit 16 (ucast (m (buffer + 1))) OR push_bit 8 (ucast (m (buffer + 2))) OR
           ucast (m (buffer + 3)))"

definition try_read_device_tree_blob_size :: "hmem \<Rightarrow> u64 \<Rightarrow> u64" where
  "try_read_device_tree_blob_size m blob_address =
     (if blob_address = 0 then 0
      else if read_big_endian_u32 m blob_address \<noteq> FDT_MAGIC then 0
      else ucast (read_big_endian_u32 m (blob_address + 4)))"

definition arm64_boot_info :: "hmem \<Rightarrow> u64 \<Rightarrow> boot_info" where
  "arm64_boot_info m blob_address =
     \<lparr>info_arch_id = ARCH_ARM64, device_tree_blob_address = blob_address,
      device_tree_blob_size = try_read_device_tree_blob_size m blob_address\<rparr>"

definition arm64_entry :: "(kernel_globals \<Rightarrow> kernel_globals) list \<Rightarrow> ('p, 'e) initial_user_runtime_platform \<Rightarrow> u64 \<Rightarrow>
    kernel_globals \<Rightarrow> 'e boot_outcome" where
  "arm64_entry init_array platform blob_address g =
     (let g1 = run_global_constructors init_array g in
      kernel_main AARCH64 platform (arm64_boot_info (host_memory (g_runtime g1)) blob_address) g1)"

section \<open>Ends outside the boot\<close>

text \<open>Where the system call stub goes when no thread can run, and the vector for exceptions the kernel does not expect.\<close>

definition x64_user_thread_exit :: "kernel_globals \<Rightarrow> 'e boot_outcome" where
  "x64_user_thread_exit g = Halted (kernel_log ''x64 returned to kernel after user runtime exit'' g)"

definition arm64_unhandled_exception :: "kernel_globals \<Rightarrow> 'e boot_outcome" where
  "arm64_unhandled_exception = panic ''arm64 hit an unhandled exception vector''"

section \<open>The platforms\<close>

text \<open>
  The object of the x64 platform is its storages at a fixed address and, beside it, the model-specific
  registers; the addresses of the system call entry and of \<open>m_cpu_local\<close> are constants of the link.
\<close>

definition x64_platform :: "u64 \<Rightarrow> embedded_images \<Rightarrow> u64 \<Rightarrow> u64 \<Rightarrow> msr_file \<Rightarrow>
    (msr_file, msr_file \<times> ((u64 \<times> u64 \<times> u64) \<times> user_runtime) option) initial_user_runtime_platform" where
  "x64_platform storages images syscall_entry cpu_local msrs =
     \<lparr>p_context = msrs,
      p_initialize = (\<lambda>msrs m. map_sum id (\<lambda>(bs, m'). (bs, msrs, m')) (x64_initialize storages images m)),
      p_prepare_thread_launch = (\<lambda>_ initial_thread msrs rt.
        prod.swap (x64_prepare_thread_launch syscall_entry cpu_local initial_thread (rt, msrs))),
      p_enter_user_thread = (\<lambda>initial_process initial_thread msrs rt.
        (msrs, x64_enter_user_thread initial_process initial_thread rt))\<rparr>"

text \<open>
  The object of the arm64 platform is its storages and two flags, and beside it the system registers. What is
  known of its loop is the first turn.
\<close>

definition arm64_platform_dispatch :: "arm64_process_storage list \<Rightarrow> embedded_images \<Rightarrow> u64 \<Rightarrow> arm64_system_registers \<Rightarrow>
    (arm64_process_storage list \<times> arm64_system_registers, arm64_system_registers \<times> (string + arm64_turn))
      initial_user_runtime_platform" where
  "arm64_platform_dispatch storages images exception_vectors regs =
     \<lparr>p_context = (storages, regs),
      p_initialize = (\<lambda>(storages, regs) m.
        map_sum id (\<lambda>(bs, storages', m'). (bs, (storages', regs), m')) (arm64_initialize images (storages, m))),
      p_prepare_thread_launch = (\<lambda>_ _ (storages, regs) rt.
        ((storages, arm64_prepare_thread_launch exception_vectors regs), rt)),
      p_enter_user_thread = (\<lambda>_ _ (storages, regs) rt.
        (regs, enter_user_thread \<lparr>p_runtime = rt, m_process_storage = storages,
           m_has_logged_native_runtime_ready = False, m_has_logged_x64_emulator_runtime_ready = False\<rparr>))\<rparr>"

section \<open>The device tree\<close>

text \<open>The entry point finds the size of a blob whose header holds the magic number and the size in big-endian order.\<close>

definition holds_big_endian :: "hmem \<Rightarrow> u64 \<Rightarrow> u32 \<Rightarrow> bool" where
  "holds_big_endian m a v \<longleftrightarrow> m a = ucast (drop_bit 24 v) \<and> m (a + 1) = ucast (drop_bit 16 v) \<and> m (a + 2) = ucast (drop_bit 8 v) \<and>
     m (a + 3) = ucast v"

lemma read_big_endian_u32_holds:
  assumes "holds_big_endian m a v" and "a \<noteq> 0"
  shows "read_big_endian_u32 m a = v"
proof -
  have "push_bit 24 (ucast (ucast (drop_bit 24 v) :: u8)) OR push_bit 16 (ucast (ucast (drop_bit 16 v) :: u8)) OR
      push_bit 8 (ucast (ucast (drop_bit 8 v) :: u8)) OR ucast (ucast v :: u8) = v"
  proof (rule bit_word_eqI, goal_cases)
    case (1 n)
    then consider "n < 8" | "8 \<le> n" "n < 16" | "16 \<le> n" "n < 24" | "24 \<le> n" "n < 32" by fastforce
    then show ?case by cases (auto simp: bit_simps)
  qed
  then show ?thesis using assms by (simp add: read_big_endian_u32_def holds_big_endian_def)
qed

lemma device_tree_found:
  assumes "holds_big_endian m blob FDT_MAGIC" and "holds_big_endian m (blob + 4) size32" and "blob \<noteq> 0" and "blob + 4 \<noteq> 0"
  shows "device_tree_blob_size (arm64_boot_info m blob) = ucast size32"
  using assms by (simp add: arm64_boot_info_def try_read_device_tree_blob_size_def read_big_endian_u32_holds)

lemma device_tree_missing:
  "blob = 0 \<or> read_big_endian_u32 m blob \<noteq> FDT_MAGIC \<Longrightarrow> device_tree_blob_size (arm64_boot_info m blob) = 0"
  by (auto simp: arm64_boot_info_def try_read_device_tree_blob_size_def)

section \<open>The runtime is started\<close>

text \<open>The log is not read by the start of the runtime, so the lines before it are kept.\<close>

lemma log_runtime_reset: "runtime_reset (debug_log s rt) = debug_log s (runtime_reset rt)"
  by (simp add: runtime_reset_def rpc_runtime_reset_def debug_log_def Let_def)

lemma log_create_process:
  "create_process md asp (debug_log s rt) = map_prod id (debug_log s) (create_process md asp rt)"
  by (auto simp: create_process_def debug_log_def split: prod.splits option.splits)

lemma log_create_thread:
  "create_thread p c (debug_log s rt) = map_prod id (debug_log s) (create_thread p c rt)"
  by (auto simp: create_thread_def debug_log_def get_thread_def Let_def split: prod.splits option.splits)

lemma log_create_initial_processes:
  "create_initial_processes cfgs (debug_log s rt) = map_sum id (map_prod id (debug_log s)) (create_initial_processes cfgs rt)"
proof (induction cfgs arbitrary: rt)
  case (Cons cfg cfgs)
  show ?case
    by (auto simp: log_create_process log_create_thread Cons.IH split: prod.splits option.splits sum.splits)
qed simp

lemma log_frames:
  "m_current_thread (debug_log s rt) = m_current_thread rt" "thread_state (debug_log s rt) = thread_state rt"
  "get_process_context (debug_log s rt) = get_process_context rt" "get_address_space_info (debug_log s rt) = get_address_space_info rt"
  "get_thread (debug_log s rt) = get_thread rt" "has_runnable_thread (debug_log s rt) = has_runnable_thread rt"
  "get_process_execution_backend (debug_log s rt) = get_process_execution_backend rt"
  "update_thread t f (debug_log s rt) = debug_log s (update_thread t f rt)"
  "m_next_handle_value (debug_log s rt) = m_next_handle_value rt" "host_memory (debug_log s rt) = host_memory rt"
  "arch_activate_process_address_space arch p (debug_log s rt) = debug_log s (arch_activate_process_address_space arch p rt)"
  "arch_prepare_user_thread arch u (debug_log s rt) = debug_log s (arch_prepare_user_thread arch u rt)"
  by (auto simp: debug_log_def fun_eq_iff thread_state_def get_thread_def get_process_context_def get_address_space_info_def
      get_process_def has_runnable_thread_def get_process_execution_backend_def update_thread_def
      arch_activate_process_address_space_def arch_prepare_user_thread_def Let_def split: option.split target_arch.split)

lemma log_set_current_thread: "set_current_thread arch u (debug_log s rt) = debug_log s (set_current_thread arch u rt)"
proof -
  have "(debug_log s rt)\<lparr>m_current_thread := v\<rparr> = debug_log s (rt\<lparr>m_current_thread := v\<rparr>)" for rt v
    by (simp add: debug_log_def)
  then show ?thesis by (simp add: set_current_thread_def Let_def log_frames split: option.split)
qed

lemma log_start:
  "start_initial_user_runtime arch bs (debug_log s rt) =
     map_sum id (map_prod id (debug_log s)) (start_initial_user_runtime arch bs rt)"
  by (auto simp: start_initial_user_runtime_def log_runtime_reset log_create_initial_processes log_set_current_thread Let_def
      split: sum.splits prod.splits)

text \<open>What a start from a valid bootstrap whose first process is the initial one leads to.\<close>

definition starts_first :: "target_arch \<Rightarrow> initial_process_configuration \<Rightarrow> hmem \<Rightarrow> user_runtime \<Rightarrow> bool" where
  "starts_first arch cfg m rt \<longleftrightarrow> runtime_inv rt \<and> has_runnable_thread rt \<and> m_current_thread rt = Some 0 \<and>
     unat (m_next_handle_value rt) \<le> 5 \<and> host_memory rt = m \<and> get_process_context rt 0 = Some 0 \<and>
     get_address_space_info rt 0 = cfg_address_space cfg \<and>
     get_process_execution_backend rt 0 = execution_backend (cfg_metadata cfg) \<and>
     arch_activate_process_address_space arch (Some 0) rt = rt \<and> arch_prepare_user_thread arch (Some 0) rt = rt \<and>
     get_thread rt 0 = Some (set_state USER_THREAD_STATE_RUNNING (boot_thread 0 (cfg_thread_context cfg) 1 2))"

text \<open>Making a thread current has activated its address space and prepared its entry, so doing it again changes nothing.\<close>

lemma set_current_again:
  assumes "m_current_thread rt = None" and p: "get_process_context rt t = Some p" and th: "get_thread rt t = Some th"
    and rt': "rt' = set_current_thread arch (Some t) rt"
  shows "arch_activate_process_address_space arch (Some p) rt' = rt'" and "arch_prepare_user_thread arch (Some t) rt' = rt'"
proof -
  define rt2 where "rt2 = rt\<lparr>m_current_thread := Some t\<rparr>"
  define rt3 where "rt3 = arch_activate_process_address_space arch (Some p) rt2"
  define rt4 where "rt4 = arch_prepare_user_thread arch (Some t) rt3"
  have p2: "get_process_context rt2 t = Some p" using p by (simp add: rt2_def get_process_context_def get_thread_def)
  have 4: "rt' = rt4 \<or> rt' = update_thread t (set_state USER_THREAD_STATE_RUNNING) rt4"
    using assms(1) p2 unfolding rt' rt4_def rt3_def by (simp add: set_current_thread_def Let_def rt2_def)
  have u: "arch_activate_process_address_space arch (Some p) (update_thread t (set_state x) r) =
      update_thread t (set_state x) (arch_activate_process_address_space arch (Some p) r)"
    "arch_prepare_user_thread arch (Some t) (update_thread t (set_state x) r) =
      update_thread t (set_state x) (arch_prepare_user_thread arch (Some t) r)" for x r
    by (auto simp: arch_activate_process_address_space_def arch_prepare_user_thread_def get_address_space_info_def get_process_def
        Let_def update_thread_def get_thread_def get_by_index_update_slot set_state_def split: target_arch.split option.split)
  have i: "arch_activate_process_address_space arch (Some p) rt4 = rt4" "arch_prepare_user_thread arch (Some t) rt4 = rt4"
    by (auto simp: rt4_def rt3_def arch_activate_process_address_space_def arch_prepare_user_thread_def get_address_space_info_def
        get_process_def get_thread_def Let_def split: target_arch.split option.split)
  show "arch_activate_process_address_space arch (Some p) rt' = rt'" "arch_prepare_user_thread arch (Some t) rt' = rt'"
    using 4 by (auto simp: u i)
qed

lemma boot_runtime_keeps:
  "host_memory (boot_runtime m root procs thrs k nh) = m" "debug_messages (boot_runtime m root procs thrs k nh) = []"
  by (simp_all add: boot_runtime_def runtime_reset_def rpc_runtime_reset_def g_user_runtime_def Let_def)

lemma first_thread_fields:
  assumes rt: "rt = set_current_thread arch (Some 0) (boot_runtime m root (Some (boot_process cfg 1 1) # procs)
      (Some (boot_thread 0 (cfg_thread_context cfg) 1 2) # thrs) k nh)"
  shows "get_process_context rt 0 = Some 0" and "get_address_space_info rt 0 = cfg_address_space cfg"
    and "get_process_execution_backend rt 0 = execution_backend (cfg_metadata cfg)"
    and "get_thread rt 0 = Some (set_state USER_THREAD_STATE_RUNNING (boot_thread 0 (cfg_thread_context cfg) 1 2))"
    and "host_memory rt = m" and "debug_messages rt = []"
    and "arch_activate_process_address_space arch (Some 0) rt = rt" and "arch_prepare_user_thread arch (Some 0) rt = rt"
proof -
  let ?rt0 = "boot_runtime m root (Some (boot_process cfg 1 1) # procs) (Some (boot_thread 0 (cfg_thread_context cfg) 1 2) # thrs) k nh"
  note defs = boot_thread_def make_thread_def boot_process_def make_process_def acquire_process_reference_def
  show "get_process_context rt 0 = Some 0" "get_address_space_info rt 0 = cfg_address_space cfg"
    "get_process_execution_backend rt 0 = execution_backend (cfg_metadata cfg)"
    "get_thread rt 0 = Some (set_state USER_THREAD_STATE_RUNNING (boot_thread 0 (cfg_thread_context cfg) 1 2))"
    "host_memory rt = m" "debug_messages rt = []"
    unfolding rt by (simp_all add: switched_state_def thread_state_def set_current_keeps boot_runtime_keeps get_process_context_def get_address_space_info_def
        get_process_execution_backend_def frame_simps defs)
  have "m_current_thread ?rt0 = None" "get_process_context ?rt0 0 = Some 0" "get_thread ?rt0 0 = Some (boot_thread 0 (cfg_thread_context cfg) 1 2)"
    by (simp_all add: get_process_context_def defs)
  from set_current_again[OF this rt] show "arch_activate_process_address_space arch (Some 0) rt = rt"
    "arch_prepare_user_thread arch (Some 0) rt = rt" .
qed

lemma start_first:
  assumes v: "valid_bootstrap bs" and z: "boot_initial_process_index bs = 0"
  obtains rt where "start_initial_user_runtime arch bs (g_user_runtime m root) = Inr ((0, 0), rt)"
    and "starts_first arch (boot_initial_processes bs ! 0) m rt" and "debug_messages rt = []" and "reachable arch 0 rt"
proof -
  obtain rt where r: "run_initial_user_runtime arch bs (g_user_runtime m root) = Inr rt" "runtime_inv rt" "has_runnable_thread rt"
    "m_current_thread rt = Some 0" "unat (m_next_handle_value rt) = 1 + 2 * unat (boot_process_count bs)"
    using valid_bootstrapD[OF v, of arch m root] z by auto
  obtain c0 c1 where cs: "boot_initial_processes bs = [c0, c1]"
    using v by (auto simp: valid_bootstrap_def USER_RUNTIME_MAX_INITIAL_PROCESSES_def numeral_2_eq_2 length_Suc_conv)
  have n: "boot_process_count bs = 1 \<or> boot_process_count bs = 2" using v by (auto simp: valid_bootstrap_def)
  have "\<exists>procs thrs k nh rt'. start_initial_user_runtime arch bs (g_user_runtime m root) = Inr ((0, 0), rt') \<and>
      rt' = set_current_thread arch (Some 0) (boot_runtime m root (Some (boot_process c0 1 1) # procs)
        (Some (boot_thread 0 (cfg_thread_context c0) 1 2) # thrs) k nh)"
    using n cs z by (auto simp: start_initial_user_runtime_def runtime_reset_fresh create_first create_both
        USER_RUNTIME_MAX_INITIAL_PROCESSES_def Let_def simp del: create_initial_processes.simps) blast+
  then obtain procs thrs k nh rt' where s: "start_initial_user_runtime arch bs (g_user_runtime m root) = Inr ((0, 0), rt')"
    and rt': "rt' = set_current_thread arch (Some 0) (boot_runtime m root (Some (boot_process c0 1 1) # procs)
        (Some (boot_thread 0 (cfg_thread_context c0) 1 2) # thrs) k nh)" by blast
  have eq: "rt' = rt" using r(1) s by (simp add: run_initial_user_runtime_def)
  have "starts_first arch (boot_initial_processes bs ! 0) m rt" "debug_messages rt = []"
    using first_thread_fields[OF rt'] r(2-5) n by (auto simp: starts_first_def cs eq)
  moreover have "reachable arch 0 rt" unfolding reachable_def using v r(1) kernel_run.start by blast
  ultimately show thesis using that s eq by blast
qed

section \<open>What the boot needs of a platform\<close>

definition arch_id_of :: "target_arch \<Rightarrow> u32" where
  "arch_id_of arch = (case arch of X86_64 \<Rightarrow> ARCH_X64 | AARCH64 \<Rightarrow> ARCH_ARM64)"

text \<open>The descriptor and the lines a successful boot leaves.\<close>

definition described_machine :: "target_arch \<Rightarrow> machine_descriptor" where
  "described_machine arch =
     (case arch of
        X86_64 \<Rightarrow> \<lparr>machine_arch_id = ARCH_X64, machine_kind = MACHINE_KIND_X64_GENERIC,
          machine_name = map of_char ''x64-generic'' @ replicate 21 0\<rparr>
      | AARCH64 \<Rightarrow> \<lparr>machine_arch_id = ARCH_ARM64, machine_kind = MACHINE_KIND_QEMU_ARM64_VIRT,
          machine_name = map of_char ''qemu-arm64-virt'' @ replicate 17 0\<rparr>)"

definition boot_log :: "target_arch \<Rightarrow> u8 list list" where
  "boot_log arch = map (map of_char)
     [case arch of X86_64 \<Rightarrow> ''ringos x64'' | AARCH64 \<Rightarrow> ''ringos arm64'', ''gdb hooks ready'', ''hello world'']"

definition logged :: "u8 list list \<Rightarrow> user_runtime \<Rightarrow> user_runtime" where
  "logged messages rt = fold debug_log messages rt"

lemma machine_names:
  "copy_string (replicate 32 0) (Some (map of_char ''x64-generic'')) = map of_char ''x64-generic'' @ replicate 21 0"
  "copy_string (replicate 32 0) (Some (map of_char ''qemu-arm64-virt'')) = map of_char ''qemu-arm64-virt'' @ replicate 17 0"
  by code_simp+

lemma arch_initialize_machine_own:
  "info_arch_id info = arch_id_of arch \<Longrightarrow> arch_initialize_machine arch info = (True, described_machine arch)"
  by (cases arch) (simp_all add: arch_id_of_def arch_initialize_machine_def x64_initialize_machine_def arm64_initialize_machine_def
      try_initialize_qemu_arm64_virt_machine_def initialize_qemu_arm64_virt_machine_descriptor_def described_machine_def
      zero_machine_def MACHINE_NAME_MAX_LENGTH_def machine_names del: list.map)

text \<open>A kernel started with the number of another architecture stops before it writes its banner.\<close>

lemma arch_initialize_machine_other:
  "info_arch_id info \<noteq> arch_id_of arch \<Longrightarrow> \<not> fst (arch_initialize_machine arch info)"
  by (cases arch) (simp_all add: arch_id_of_def arch_initialize_machine_def x64_initialize_machine_def arm64_initialize_machine_def)

lemma logged_frames:
  "m_current_thread (logged ms rt) = m_current_thread rt" "has_runnable_thread (logged ms rt) = has_runnable_thread rt"
  "get_process_context (logged ms rt) = get_process_context rt" "get_address_space_info (logged ms rt) = get_address_space_info rt"
  "get_thread (logged ms rt) = get_thread rt" "m_next_handle_value (logged ms rt) = m_next_handle_value rt"
  "get_process_execution_backend (logged ms rt) = get_process_execution_backend rt" "host_memory (logged ms rt) = host_memory rt"
  "debug_messages (logged ms rt) = debug_messages rt @ map c_string ms"
  "(logged ms rt)\<lparr>host_memory := m\<rparr> = logged ms (rt\<lparr>host_memory := m\<rparr>)"
  "arch_prepare_user_thread arch u (logged ms rt) = logged ms (arch_prepare_user_thread arch u rt)"
  "arch_activate_process_address_space arch p (logged ms rt) = logged ms (arch_activate_process_address_space arch p rt)"
  "runtime_reset (logged ms rt) = logged ms (runtime_reset rt)"
proof -
  have "(debug_log s rt)\<lparr>host_memory := m\<rparr> = debug_log s (rt\<lparr>host_memory := m\<rparr>)"
    "debug_messages (debug_log s rt) = debug_messages rt @ [c_string s]" for s rt by (simp_all add: debug_log_def)
  then show "(logged ms rt)\<lparr>host_memory := m\<rparr> = logged ms (rt\<lparr>host_memory := m\<rparr>)"
    "debug_messages (logged ms rt) = debug_messages rt @ map c_string ms"
    unfolding logged_def by (induction ms arbitrary: rt) simp_all
qed (unfold logged_def, (induction ms arbitrary: rt, simp_all add: log_frames log_runtime_reset)+)

lemma logged_start:
  "start_initial_user_runtime arch bs (logged ms rt) = map_sum id (map_prod id (logged ms)) (start_initial_user_runtime arch bs rt)"
  unfolding logged_def
proof (induction ms arbitrary: rt)
  case Nil
  show ?case by (cases "start_initial_user_runtime arch bs rt") (auto simp: id_def)
next
  case (Cons s ms)
  show ?case by (cases "start_initial_user_runtime arch bs rt") (auto simp: Cons.IH log_start)
qed

lemma logged_run: "has_runnable_thread rt \<Longrightarrow> kernel_run arch rt0 n rt \<Longrightarrow> kernel_run arch rt0 (n + length ms) (logged ms rt)"
proof (induction ms arbitrary: n rt)
  case (Cons s ms)
  have "kernel_run arch rt0 (Suc n) (debug_log s rt)"
    by (rule kernel_run.step[OF Cons.prems(2) kernel_step.kernel_message[OF Cons.prems(1)]])
  from Cons.IH[OF _ this] show ?case using Cons.prems(1) by (simp add: log_frames logged_def)
qed (simp add: logged_def)

lemma boot_log_strings: "map c_string (boot_log arch) = boot_log arch"
  by (cases arch) (simp_all add: boot_log_def c_string_def of_char_Char)

lemma refused_log:
  "debug_messages (logged (boot_log arch @ [map of_char ''PANIC'', s]) (runtime_reset (g_user_runtime m root))) =
     boot_log arch @ [map of_char ''PANIC'', c_string s]"
proof -
  have "debug_messages (runtime_reset (g_user_runtime m root)) = []" by (simp add: runtime_reset_fresh boot_runtime_keeps)
  then show ?thesis by (simp add: logged_frames boot_log_strings) (simp add: c_string_def)
qed

lemma length_boot_log: "length (boot_log arch) = 3"
  by (simp add: boot_log_def)

lemma reachable_logged: "reachable arch n rt \<Longrightarrow> has_runnable_thread rt \<Longrightarrow> reachable arch (n + length ms) (logged ms rt)"
  unfolding reachable_def using logged_run by blast

lemma starts_first_logged: "starts_first arch cfg m rt \<Longrightarrow> starts_first arch cfg m (logged ms rt)"
proof -
  assume s: "starts_first arch cfg m rt"
  have "runtime_inv (logged ms rt)" if "runtime_inv rt"
    using that unfolding logged_def by (induction ms arbitrary: rt) (simp_all add: inv_debug_log)
  then show ?thesis using s by (simp add: starts_first_def logged_frames)
qed

lemma logged_append: "logged (as @ bs) rt = logged bs (logged as rt)" "logged [] rt = rt" "logged (s # ss) rt = logged ss (debug_log s rt)"
  by (simp_all add: logged_def)

lemma g_user_runtime_memory:
  "host_memory (g_user_runtime m root) = m" "(g_user_runtime m root)\<lparr>host_memory := m'\<rparr> = g_user_runtime m' root"
  by (simp_all add: g_user_runtime_def)

locale kernel_platform =
  fixes arch :: target_arch and platform :: "('p, 'e) initial_user_runtime_platform"
  assumes initialized: "p_initialize platform c m = Inr (bs, c', m') \<Longrightarrow>
      valid_bootstrap bs \<and> boot_initial_process_index bs = 0"
begin

lemma kernel_main_starts:
  assumes "info_arch_id info = arch_id_of arch" and g: "g_runtime g = g_user_runtime m root"
  shows "kernel_main arch platform info g =
    run_platform arch platform \<lparr>g_machine = described_machine arch, g_runtime = logged (boot_log arch) (g_user_runtime m root)\<rparr>"
proof -
  have "info_arch_id info = ARCH_X64 \<longleftrightarrow> arch = X86_64" "info_arch_id info = ARCH_ARM64 \<longleftrightarrow> arch = AARCH64"
    using assms(1) by (cases arch; simp add: arch_id_of_def ARCH_X64_def ARCH_ARM64_def)+
  moreover have "(initialize_machine arch info g :: 'e boot_outcome + kernel_globals) = Inr (g\<lparr>g_machine := described_machine arch\<rparr>)"
    by (simp add: initialize_machine_def arch_initialize_machine_own[OF assms(1)])
  ultimately show ?thesis
    using g by (cases g; cases arch) (simp_all add: kernel_main_def kernel_log_def logged_append boot_log_def)
qed

lemma refused:
  assumes "info_arch_id info = arch_id_of arch" and "g_runtime g = g_user_runtime m root"
    and "p_initialize platform (p_context platform) m = Inl message"
  shows "kernel_main arch platform info g = Halted \<lparr>g_machine = described_machine arch,
    g_runtime = logged (boot_log arch @ [map of_char ''PANIC'', map of_char message]) (runtime_reset (g_user_runtime m root))\<rparr>"
  using assms(3) unfolding kernel_main_starts[OF assms(1,2)]
  by (simp add: run_platform_def logged_frames panic_def kernel_log_def logged_append g_user_runtime_memory)

lemma started:
  assumes "info_arch_id info = arch_id_of arch" and "g_runtime g = g_user_runtime m root"
    and i: "p_initialize platform (p_context platform) m = Inr (bs, c, m')"
  obtains rt where "starts_first arch (boot_initial_processes bs ! 0) m' rt" and "debug_messages rt = boot_log arch"
    and "reachable arch 3 rt"
    and "kernel_main arch platform info g = (case p_prepare_thread_launch platform 0 0 c rt of
      (c', rt') \<Rightarrow> Entered (described_machine arch) (p_enter_user_thread platform 0 0 c' rt'))"
proof -
  have v: "valid_bootstrap bs" "boot_initial_process_index bs = 0" using initialized[OF i] by simp_all
  obtain rt where rt: "start_initial_user_runtime arch bs (g_user_runtime m' root) = Inr ((0, 0), rt)"
    "starts_first arch (boot_initial_processes bs ! 0) m' rt" "debug_messages rt = []" "reachable arch 0 rt"
    by (rule start_first[OF v])
  let ?rt = "logged (boot_log arch) rt"
  have "debug_messages ?rt = boot_log arch" by (simp add: logged_frames rt(3) boot_log_strings)
  moreover have "reachable arch 3 ?rt"
    using reachable_logged[OF rt(4), of "boot_log arch"] rt(2) by (simp add: starts_first_def length_boot_log)
  moreover have "kernel_main arch platform info g = (case p_prepare_thread_launch platform 0 0 c ?rt of
      (c', rt') \<Rightarrow> Entered (described_machine arch) (p_enter_user_thread platform 0 0 c' rt'))"
    unfolding kernel_main_starts[OF assms(1,2)] 
    by (simp add: run_platform_def logged_frames i logged_start rt(1) map_prod_def g_user_runtime_memory)
  ultimately show thesis using that starts_first_logged[OF rt(2)] by blast
qed

end

interpretation x64_kernel: kernel_platform X86_64 "x64_platform storages images syscall_entry cpu_local msrs"
proof unfold_locales
  fix c c' m m' bs
  assume "p_initialize (x64_platform storages images syscall_entry cpu_local msrs) c m = Inr (bs, c', m')"
  then have "x64_initialize storages images m = Inr (bs, m')"
    by (cases "x64_initialize storages images m") (auto simp: x64_platform_def)
  then show "valid_bootstrap bs \<and> boot_initial_process_index bs = 0"
    unfolding x64_initialize_def Let_def by (rule x64_boot.initialize_valid)
qed

interpretation arm64_kernel: kernel_platform AARCH64 "arm64_platform_dispatch storages images exception_vectors regs"
proof unfold_locales
  fix c c' m m' bs
  assume "p_initialize (arm64_platform_dispatch storages images exception_vectors regs) c m = Inr (bs, c', m')"
  then have "arm64_initialize images (fst c, m) = Inr (bs, fst c', m')"
    by (cases c; cases "arm64_initialize images (fst c, m)") (auto simp: arm64_platform_dispatch_def)
  then show "valid_bootstrap bs \<and> boot_initial_process_index bs = 0"
    using arm64_native_boot.initialize_valid arm64_emulated_boot.initialize_valid
    by (auto simp: arm64_initialize_def Let_def split: if_splits)
qed

section \<open>The first thread\<close>

lemma starts_first_root:
  assumes "starts_first arch cfg m rt" and "arch_root_table (cfg_address_space cfg) \<noteq> 0"
  shows "root_table_register rt = arch_root_table (cfg_address_space cfg)"
proof -
  have "arch_activate_process_address_space arch (Some 0) rt = rt" "get_address_space_info rt 0 = cfg_address_space cfg"
    using assms(1) by (simp_all add: starts_first_def)
  from arg_cong[OF this(1), of root_table_register] this(2) show ?thesis
    using assms(2) by (simp add: arch_activate_process_address_space_def Let_def split: target_arch.splits)
qed

lemma x64_first_thread:
  assumes "starts_first X86_64 cfg m rt"
  shows "x64_enter_user_thread 0 0 rt =
    Some ((ctx_instruction_pointer (cfg_thread_context cfg), ctx_stack_pointer (cfg_thread_context cfg), ctx_flags (cfg_thread_context cfg)),
      debug_log (map of_char ''x64 initial user runtime ready'') rt)"
  using assms by (simp add: x64_enter_user_thread_def starts_first_def log_frames Let_def boot_thread_def make_thread_def set_state_def
      acquire_process_reference_def)

text \<open>What holds in the state in which a boot with the line \<open>ready\<close> hands over to the first thread.\<close>

definition launched :: "target_arch \<Rightarrow> string \<Rightarrow> initial_process_configuration \<Rightarrow> hmem \<Rightarrow> user_runtime \<Rightarrow> bool" where
  "launched arch ready cfg m rt \<longleftrightarrow> reachable arch 4 rt \<and> runtime_inv rt \<and> has_runnable_thread rt \<and> m_current_thread rt = Some 0 \<and>
     debug_messages rt = boot_log arch @ [map of_char ready] \<and> host_memory rt = m \<and>
     get_address_space_info rt 0 = cfg_address_space cfg \<and>
     (arch_root_table (cfg_address_space cfg) \<noteq> 0 \<longrightarrow> root_table_register rt = arch_root_table (cfg_address_space cfg))"

lemma launchedI:
  assumes s: "starts_first arch cfg m rt" and "debug_messages rt = boot_log arch" and r: "reachable arch 3 rt"
    and "c_string (map of_char ready) = map of_char ready"
  shows "launched arch ready cfg m (debug_log (map of_char ready) rt)"
proof -
  have "reachable arch 4 (debug_log (map of_char ready) rt)"
    using reachable_logged[OF r, of "[map of_char ready]"] s by (simp add: starts_first_def logged_append)
  moreover have "root_table_register (debug_log (map of_char ready) rt) = root_table_register rt" by (simp add: debug_log_def)
  ultimately show ?thesis
    using s starts_first_root[OF s] assms(2,4) by (simp add: launched_def starts_first_def log_frames inv_debug_log) (simp add: debug_log_def)
qed

section \<open>The first process on arm64\<close>

lemma populated_process:
  assumes "populate i a b zero_configuration (ss, m) = Inr (cfg, ss', m')"
    and "populate \<in> {populate_native_bootstrap_for_process, populate_x64_emulator_bootstrap}"
  shows "arch_root_table (cfg_address_space cfg) = root_table_address (ss ! i) \<and>
    ss' = ss[i := (ss ! i)\<lparr>x64_guest_state := zero_x64_state\<rparr>] \<and>
    execution_backend (cfg_metadata cfg) \<in> {PROCESS_EXECUTION_BACKEND_NATIVE, PROCESS_EXECUTION_BACKEND_X64_EMULATOR}"
proof -
  have root: "arch_root_table asp' = arch_root_table asp" if "add_address_space_mapping asp u h n = Some asp'" for asp u h n asp'
    using that by (auto simp: add_address_space_mapping_def split: if_splits)
  obtain storage m1 where "arm64_initialize_process_storage (ss ! i) m = (storage, m1)" "ss' = ss[i := storage]"
    "arch_root_table (cfg_address_space cfg) = root_table_address storage"
    "execution_backend (cfg_metadata cfg) \<in> {PROCESS_EXECUTION_BACKEND_NATIVE, PROCESS_EXECUTION_BACKEND_X64_EMULATOR}"
    using assms by (auto elim!: populate_native_cases populate_emulator_cases dest: root)
  then show ?thesis using arm64_initialized_storage[of "ss ! i" m storage m1] by simp
qed

lemma arm64_first_process:
  assumes "arm64_initialize images (storages, m) = Inr (bs, storages', m')" and "length storages = 2"
  shows "arch_root_table (cfg_address_space (boot_initial_processes bs ! 0)) = root_table_address (storages ! 0) \<and>
    storages' ! 0 = (storages ! 0)\<lparr>x64_guest_state := zero_x64_state\<rparr> \<and> length storages' = 2 \<and>
    execution_backend (cfg_metadata (boot_initial_processes bs ! 0)) \<in>
      {PROCESS_EXECUTION_BACKEND_NATIVE, PROCESS_EXECUTION_BACKEND_X64_EMULATOR}"
proof -
  obtain client where c: "client \<in> {populate_native_bootstrap_for_process, populate_x64_emulator_bootstrap}"
    and "initialize_processes populate_native_bootstrap_for_process client images (storages, m) = Inr (bs, storages', m')"
    by (rule arm64_initialize_calls[OF assms(1)])
  from this(2) show ?thesis
  proof (cases rule: initialize_processes_cases)
    case one
    then show ?thesis using populated_process[OF one(2) c] assms(2) by simp
  next
    case (two state1)
    obtain storages1 m1 where "state1 = (storages1, m1)" by (cases state1)
    note two = two[unfolded this]
    show ?thesis
      using populated_process[where populate = populate_native_bootstrap_for_process, OF two(2)] populated_process[OF two(3) c] assms(2) by simp
  qed
qed

lemma arm64_first_native:
  assumes "starts_first AARCH64 cfg m rt" and "execution_backend (cfg_metadata cfg) = PROCESS_EXECUTION_BACKEND_NATIVE"
    and "p_runtime plat = rt" and "\<not> m_has_logged_native_runtime_ready plat"
  obtains frame plat' where "enter_user_thread plat = Inr (Native frame plat')"
    and "p_runtime plat' = debug_log (map of_char ''arm64 initial user runtime ready'') rt"
    and "f_elr frame = ctx_instruction_pointer (cfg_thread_context cfg)" and "f_sp_el0 frame = ctx_stack_pointer (cfg_thread_context cfg)"
    and "f_spsr frame = ctx_flags (cfg_thread_context cfg)" and "f_x0 frame = ctx_argument0 (cfg_thread_context cfg)"
  using that assms by (simp add: enter_user_thread_def starts_first_def log_once_def Let_def load_arm64_syscall_frame_def boot_thread_def
      make_thread_def set_state_def acquire_process_reference_def)

lemma reachable_run: "reachable arch n rt \<Longrightarrow> kernel_run arch rt k rt' \<Longrightarrow> reachable arch (n + k) rt'"
proof -
  assume "reachable arch n rt" and k: "kernel_run arch rt k rt'"
  then obtain bs m root rt0 where b: "valid_bootstrap bs" "run_initial_user_runtime arch bs (g_user_runtime m root) = Inr rt0"
    "kernel_run arch rt0 n rt" by (auto simp: reachable_def)
  from kernel_run_trans[OF b(3) k] show ?thesis using b(1,2) by (auto simp: reachable_def)
qed

lemma arm64_first_emulated:
  assumes s: "starts_first AARCH64 cfg m rt" and r: "reachable AARCH64 3 rt"
    and b: "execution_backend (cfg_metadata cfg) = PROCESS_EXECUTION_BACKEND_X64_EMULATOR"
    and p: "p_runtime plat = rt" "m_process_storage plat = storage # storages"
    and root: "arch_root_table (cfg_address_space cfg) = root_table_address storage" and reg: "get_user_region storage \<noteq> 0"
  shows "case enter_user_thread plat of
      Inl message \<Rightarrow> message = ''x64 emulator hit the instruction budget''
    | Inr Parked \<Rightarrow> False | Inr (Native _ _) \<Rightarrow> False
    | Inr (Emulated plat') \<Rightarrow> (\<exists>n \<le> 520. reachable AARCH64 n (p_runtime plat')) \<and> runtime_inv (p_runtime plat')"
proof -
  have st: "get_process_storage 0 plat = Some 0"
    using s p root by (simp add: get_process_storage_def starts_first_def)
  have "\<exists>n \<le> 520. reachable AARCH64 n rt'" if "n \<le> 517" "kernel_run AARCH64 rt n rt'" for n rt'
    using reachable_run[OF r that(2)] that(1) by (intro exI[of _ "3 + n"]) simp
  then show ?thesis
    using enter_emulated[of plat 0 0 0] s st p reg b by (auto simp: starts_first_def split: sum.splits arm64_turn.splits)
qed

lemma arm64_entered:
  assumes c: "g_runtime (run_global_constructors init_array g) = g_user_runtime m root"
    and init: "arm64_initialize images (storages, m) = Inr (bs, storages', m')"
  obtains rt where "starts_first AARCH64 (boot_initial_processes bs ! 0) m' rt" and "debug_messages rt = boot_log AARCH64"
    and "reachable AARCH64 3 rt"
    and "arm64_entry init_array (arm64_platform_dispatch storages images exception_vectors regs) blob g =
      Entered (described_machine AARCH64) (regs\<lparr>vbar_el1 := exception_vectors\<rparr>,
        enter_user_thread \<lparr>p_runtime = rt, m_process_storage = storages', m_has_logged_native_runtime_ready = False,
          m_has_logged_x64_emulator_runtime_ready = False\<rparr>)"
proof -
  let ?p = "arm64_platform_dispatch storages images exception_vectors regs" and ?g = "run_global_constructors init_array g"
  let ?info = "arm64_boot_info (host_memory (g_runtime ?g)) blob"
  have a: "info_arch_id ?info = arch_id_of AARCH64" by (simp add: arch_id_of_def arm64_boot_info_def)
  have "p_initialize ?p (p_context ?p) m = Inr (bs, (storages', regs), m')" using init by (simp add: arm64_platform_dispatch_def)
  then obtain rt where rt: "starts_first AARCH64 (boot_initial_processes bs ! 0) m' rt" "debug_messages rt = boot_log AARCH64"
    "reachable AARCH64 3 rt" and k: "kernel_main AARCH64 ?p ?info ?g =
      (case p_prepare_thread_launch ?p 0 0 (storages', regs) rt of (c', rt') \<Rightarrow> Entered (described_machine AARCH64) (p_enter_user_thread ?p 0 0 c' rt'))"
    by (rule arm64_kernel.started[OF a c])
  show thesis
    using that[OF rt] k
    by (simp add: arm64_entry_def arm64_platform_dispatch_def arm64_prepare_thread_launch_def write_vector_base_def Let_def)
qed

end
