(* ===== verification/User_Sdk.thy ===== *)
theory User_Sdk
  imports Rpc_Properties
begin

text \<open>
  The system call wrappers of the two SDKs (\<open>user/sdk/src\<close> and \<open>kernelsdk/src\<close>, which have the same
  bodies), over the assembly stub that enters the kernel, and what a program sees when the stub is
  the kernel's dispatcher: a console that takes lines of at most 95 characters. The interface is the
  locale \<open>line_console\<close>; its interpretation is the wrapper of the log call on the kernel.
\<close>

section \<open>Wrappers\<close>

text \<open>\<open>ringos_syscall1\<close> to \<open>ringos_syscall3\<close> as one function from the number and the arguments.\<close>

type_synonym 's syscall_stub = "u64 \<Rightarrow> u64 list \<Rightarrow> 's \<Rightarrow> i32 \<times> 's"

definition RINGOS_HANDLE_INVALID :: u64 where "RINGOS_HANDLE_INVALID = 0"
definition SDK_RPC_MAX_REQUEST_SIZE :: u64 where "SDK_RPC_MAX_REQUEST_SIZE = 256"

definition ringos_debug_log :: "'s syscall_stub \<Rightarrow> u64 \<Rightarrow> 's \<Rightarrow> i32 \<times> 's" where
  "ringos_debug_log ringos_syscall message env =
     (if message = 0 then (STATUS_INVALID_ARGUMENT, env) else ringos_syscall SYSCALL_DEBUG_LOG [message] env)"

text \<open>The address of \<open>ringos_rpc_complete_trampoline\<close> is a parameter.\<close>

definition ringos_rpc_register :: "'s syscall_stub \<Rightarrow> u64 \<Rightarrow> u64 \<Rightarrow> u64 \<Rightarrow> 's \<Rightarrow> i32 \<times> 's" where
  "ringos_rpc_register ringos_syscall trampoline name callback env =
     (if name = 0 \<or> callback = 0 then (STATUS_INVALID_ARGUMENT, env)
      else ringos_syscall SYSCALL_RPC_REGISTER [name, callback, trampoline] env)"

definition ringos_rpc_open :: "'s syscall_stub \<Rightarrow> u64 \<Rightarrow> u64 \<Rightarrow> 's \<Rightarrow> i32 \<times> 's" where
  "ringos_rpc_open ringos_syscall name out_rpc_handle env =
     (if name = 0 \<or> out_rpc_handle = 0 then (STATUS_INVALID_ARGUMENT, env)
      else ringos_syscall SYSCALL_RPC_OPEN [name, out_rpc_handle] env)"

definition ringos_rpc_call :: "'s syscall_stub \<Rightarrow> u64 \<Rightarrow> u64 \<Rightarrow> u64 \<Rightarrow> 's \<Rightarrow> i32 \<times> 's" where
  "ringos_rpc_call ringos_syscall handle request request_size env =
     (if handle = RINGOS_HANDLE_INVALID \<or> request = 0 \<or> request_size = 0 \<or> request_size > SDK_RPC_MAX_REQUEST_SIZE
      then (STATUS_INVALID_ARGUMENT, env)
      else ringos_syscall SYSCALL_RPC_CALL [handle, request, request_size] env)"

definition ringos_rpc_close :: "'s syscall_stub \<Rightarrow> u64 \<Rightarrow> 's \<Rightarrow> i32 \<times> 's" where
  "ringos_rpc_close ringos_syscall handle env =
     (if handle = RINGOS_HANDLE_INVALID then (STATUS_INVALID_ARGUMENT, env)
      else ringos_syscall SYSCALL_RPC_CLOSE [handle] env)"

text \<open>
  The stub on the kernel: the dispatcher with the number and the arguments in their registers and
  the rest of the trap in \<open>sc\<close>. Argument registers the call does not use keep what \<open>sc\<close> has.
\<close>

definition argument_or :: "u64 list \<Rightarrow> nat \<Rightarrow> u64 \<Rightarrow> u64" where
  "argument_or arguments i v = (if i < length arguments then arguments ! i else v)"

definition kernel_stub :: "target_arch \<Rightarrow> user_syscall_context \<Rightarrow> user_runtime syscall_stub" where
  "kernel_stub arch sc number arguments rt =
     dispatch_syscall arch (sc\<lparr>sc_syscall_number := number, sc_argument0 := argument_or arguments 0 (sc_argument0 sc),
       sc_argument1 := argument_or arguments 1 (sc_argument1 sc), sc_argument2 := argument_or arguments 2 (sc_argument2 sc)\<rparr>) rt"

section \<open>A console of short lines\<close>

text \<open>
  \<open>console buffer\<close> logs the C string at the start of an array of the program. The interface has the
  states in which the array can be read, the lines logged so far and the length that a line may have.
\<close>

locale line_console =
  fixes console :: "u8 list \<Rightarrow> 's \<Rightarrow> i32 \<times> 's" and ready :: "'s \<Rightarrow> bool" and lines :: "'s \<Rightarrow> u8 list list"
    and array_size line_size :: nat
  assumes accepts: "ready env \<Longrightarrow> length buffer \<le> array_size \<Longrightarrow> 0 \<in> set buffer \<Longrightarrow> length (c_string buffer) \<le> line_size \<Longrightarrow>
      \<exists>env'. console buffer env = (STATUS_OK, env') \<and> ready env' \<and> lines env' = lines env @ [c_string buffer]"
    and refuses: "ready env \<Longrightarrow> length buffer \<le> array_size \<Longrightarrow> 0 \<in> set buffer \<Longrightarrow> line_size < length (c_string buffer) \<Longrightarrow>
      \<exists>env' status. console buffer env = (status, env') \<and> status \<noteq> STATUS_OK \<and> ready env' \<and> lines env' = lines env"

section \<open>The kernel's console\<close>

text \<open>
  A store of a user program: bytes go through its address space, and a store that is not mapped
  faults before it reaches memory.
\<close>

fun store_user :: "address_space \<Rightarrow> hmem \<Rightarrow> u64 \<Rightarrow> u8 list \<Rightarrow> hmem" where
  "store_user asp m a [] = m"
| "store_user asp m a (b # bs) = store_user asp (case xlate asp a of None \<Rightarrow> m | Some h \<Rightarrow> m(h := b)) (a + 1) bs"

definition current_address_space :: "user_runtime \<Rightarrow> address_space" where
  "current_address_space rt = (case m_current_thread rt of None \<Rightarrow> empty_address_space 0
     | Some t \<Rightarrow> (case get_process_context rt t of None \<Rightarrow> empty_address_space 0 | Some p \<Rightarrow> get_address_space_info rt p))"

definition kernel_console :: "target_arch \<Rightarrow> user_syscall_context \<Rightarrow> u64 \<Rightarrow> u8 list \<Rightarrow> user_runtime \<Rightarrow> i32 \<times> user_runtime" where
  "kernel_console arch sc a buffer rt =
     ringos_debug_log (kernel_stub arch sc) a
       (rt\<lparr>host_memory := store_user (current_address_space rt) (host_memory rt) a buffer\<rparr>)"

text \<open>The current thread belongs to a process, and its array of \<open>n\<close> bytes at \<open>a\<close> is mapped.\<close>

definition console_ready :: "u64 \<Rightarrow> nat \<Rightarrow> user_runtime \<Rightarrow> bool" where
  "console_ready a n rt \<longleftrightarrow> a \<noteq> 0 \<and>
     (\<exists>t p. m_current_thread rt = Some t \<and> get_process_context rt t = Some p) \<and>
     wf_address_space (current_address_space rt) \<and>
     (\<forall>i < n. xlate (current_address_space rt) (a + of_nat i) \<noteq> None) \<and> unaliased (current_address_space rt) a n"

lemma store_user_outside: "x \<notin> host_range asp a (length bs) \<Longrightarrow> store_user asp m a bs x = m x"
proof (induction bs arbitrary: m a)
  case (Cons b bs)
  have r: "host_range asp a (length (b # bs)) = host_range asp a 1 \<union> host_range asp (a + 1) (length bs)"
    using host_range_split[of asp a 1 "length bs"] by simp
  have "x \<notin> host_range asp (a + 1) (length bs)" "xlate asp a \<noteq> Some x" using Cons.prems unfolding r by (auto simp: host_range_def)
  then show ?case using Cons.IH by (simp split: option.split)
qed simp

lemma store_user_range:
  assumes "\<forall>i < length bs. xlate asp (a + of_nat i) \<noteq> None" and "unaliased asp a (length bs)"
  shows "user_range asp a (length bs) bs (store_user asp m a bs)"
  using assms
proof (induction bs arbitrary: m a)
  case Nil
  then show ?case by (simp add: user_range_def)
next
  case (Cons b bs)
  obtain h where h: "xlate asp a = Some h" using Cons.prems(1) by fastforce
  have m: "\<forall>i < length bs. xlate asp (a + 1 + of_nat i) \<noteq> None"
  proof (intro allI impI)
    fix i assume "i < length bs"
    then show "xlate asp (a + 1 + of_nat i) \<noteq> None" using Cons.prems(1)[rule_format, of "Suc i"] by (simp add: add.assoc)
  qed
  have u: "unaliased asp (a + 1) (length bs)" using unaliased_split[of asp a 1 "length bs"] Cons.prems(2) by simp
  have "h \<notin> host_range asp (a + 1) (length bs)"
  proof
    assume "h \<in> host_range asp (a + 1) (length bs)"
    then obtain i where "i < length bs" "xlate asp (a + of_nat (Suc i)) = Some h" by (auto simp: host_range_def add.assoc)
    then show False using Cons.prems(2)[unfolded unaliased_def, rule_format, of 0 "Suc i" h] h by simp
  qed
  then have "user_range asp a 1 [b] (store_user asp m a (b # bs))"
    using h by (simp add: user_range_def store_user_outside)
  from user_range_append[OF this, of "length bs" bs] Cons.IH[OF m u] show ?case by simp
qed

lemma user_string_of_array:
  assumes "user_range asp a (length buffer) buffer m" and "0 \<in> set buffer"
  shows "user_string asp m a (c_string buffer)"
proof -
  let ?s = "c_string buffer"
  obtain rest where b: "buffer = ?s @ 0 # rest"
    using assms(2) unfolding c_string_def
    by (metis (mono_tags, lifting) dropWhile_eq_Nil_conv hd_dropWhile list.collapse takeWhile_dropWhile_id)
  have "0 \<notin> set ?s" by (auto simp: c_string_def dest: set_takeWhileD)
  moreover have "user_range asp a (Suc (length ?s)) (?s @ [0]) m"
    using assms(1) unfolding user_range_def
  proof (intro conjI allI impI)
    fix i assume i: "i < Suc (length ?s)"
    then have l: "i < length buffer" using arg_cong[OF b, of length] by simp
    have "buffer ! i = (?s @ [0]) ! i" using i by (subst b) (simp add: nth_append)
    then show "\<exists>h. xlate asp (a + of_nat i) = Some h \<and> m h = (?s @ [0]) ! i"
      using assms(1) l unfolding user_range_def by metis
  qed simp
  ultimately show ?thesis by (simp add: user_string_def)
qed

lemma user_string_not_shorter: "user_string asp m a bs \<Longrightarrow> user_string asp m a cs \<Longrightarrow> length cs \<le> length bs"
proof (rule ccontr)
  assume bs: "user_string asp m a bs" and cs: "user_string asp m a cs" and "\<not> length cs \<le> length bs"
  then have lt: "length bs < length cs" by simp
  obtain h where h: "xlate asp (a + of_nat (length bs)) = Some h" "m h = 0"
    using bs unfolding user_string_def user_range_def by (metis lessI nth_append_length)
  have "m h = (cs @ [0]) ! length bs"
    using cs h(1) lt unfolding user_string_def user_range_def by (metis less_SucI option.inject)
  then have "0 \<in> set cs" using h(2) lt by (metis nth_append nth_mem)
  then show False using cs by (simp add: user_string_def)
qed

lemma user_string_unique:
  assumes "user_string asp m a bs" and "user_string asp m a cs"
  shows "bs = cs"
proof (rule nth_equalityI)
  show l: "length bs = length cs" using user_string_not_shorter[OF assms] user_string_not_shorter[OF assms(2,1)] by simp
  fix i assume i: "i < length bs"
  have "\<exists>h. xlate asp (a + of_nat i) = Some h \<and> m h = (bs @ [0]) ! i" "\<exists>h. xlate asp (a + of_nat i) = Some h \<and> m h = (cs @ [0]) ! i"
    using assms i l unfolding user_string_def user_range_def by (auto dest: less_SucI)
  then show "bs ! i = cs ! i" using i l by (auto simp: nth_append)
qed

lemma log_buffer_status:
  assumes "wf_address_space asp" and "user_string asp m a s" and "copy_user_string asp m a (replicate 96 0) = (status, buffer)"
  shows "status = STATUS_OK \<longleftrightarrow> length s \<le> 95" and "status = STATUS_OK \<Longrightarrow> c_string buffer = s"
proof -
  have ok: "c_string buffer = s \<and> length s \<le> 95" if st: "status = STATUS_OK"
  proof -
    obtain bs where bs: "user_string asp m a bs" "length bs < 96" "buffer = bs @ [0] @ drop (Suc (length bs)) (replicate 96 0)"
      using copy_user_string_OK[OF assms(1) assms(3)[unfolded st]] by auto
    have "bs = s" by (rule user_string_unique[OF bs(1) assms(2)])
    moreover have "c_string buffer = bs" using bs(1) unfolding bs(3) c_string_def user_string_def
      by (subst takeWhile_append2) auto
    ultimately show ?thesis using bs(2) by simp
  qed
  have "status = STATUS_OK" if "length s \<le> 95"
  proof -
    have "length s < length (replicate 96 (0 :: u8))" using that by simp
    from copy_user_string_loop_complete[OF assms(1,2) this, of 0 96] assms(3) show ?thesis by (simp add: copy_user_string_def)
  qed
  then show "status = STATUS_OK \<longleftrightarrow> length s \<le> 95" "status = STATUS_OK \<Longrightarrow> c_string buffer = s" using ok by auto
qed

lemma unaliased_mono: "unaliased asp a n \<Longrightarrow> k \<le> n \<Longrightarrow> unaliased asp a k"
  by (simp add: unaliased_def)

lemma kernel_console_logs:
  assumes r: "console_ready a n rt" and l: "length buffer \<le> n" and z: "0 \<in> set buffer"
  obtains status rt' where "kernel_console arch sc a buffer rt = (status, rt')" and "console_ready a n rt'"
    and "status = STATUS_OK \<longleftrightarrow> length (c_string buffer) \<le> 95"
    and "debug_messages rt' = debug_messages rt @ (if status = STATUS_OK then [c_string buffer] else [])"
proof -
  let ?asp = "current_address_space rt"
  obtain t p where t: "m_current_thread rt = Some t" "get_process_context rt t = Some p" using r by (auto simp: console_ready_def)
  have asp: "?asp = get_address_space_info rt p" using t by (simp add: current_address_space_def)
  let ?m = "store_user ?asp (host_memory rt) a buffer"
  have "user_range ?asp a (length buffer) buffer ?m"
    using r l by (intro store_user_range) (auto simp: console_ready_def intro: unaliased_mono)
  from user_string_of_array[OF this z] have s: "user_string ?asp ?m a (c_string buffer)" .
  obtain status b where c: "copy_user_string ?asp ?m a (replicate 96 0) = (status, b)" by force
  have wf: "wf_address_space ?asp" using r by (simp add: console_ready_def)
  note L = log_buffer_status[OF wf s c]
  define f where "f = set_user_context (make_thread_context_from_syscall (sc\<lparr>sc_syscall_number := SYSCALL_DEBUG_LOG, sc_argument0 := a,
       sc_argument1 := sc_argument1 sc, sc_argument2 := sc_argument2 sc\<rparr>))"
  define rt1 where "rt1 = update_thread t f (rt\<lparr>host_memory := ?m\<rparr>)"
  have fr: "m_current_thread rt1 = Some t" "get_address_space_info rt1 p = ?asp" "host_memory rt1 = ?m"
    "debug_messages rt1 = debug_messages rt"
    using t asp by (simp_all add: rt1_def update_thread_def get_address_space_info_def get_process_def)
  have "get_process_context (rt\<lparr>host_memory := ?m\<rparr>) t = Some p" using t(2) by (simp add: get_process_context_def get_thread_def)
  then have ctx: "get_process_context rt1 t = Some p" by (simp add: rt1_def f_def frame_simps)
  have a0: "a \<noteq> 0" using r by (simp add: console_ready_def)
  have k: "kernel_console arch sc a buffer rt = (if status \<noteq> STATUS_OK then (status, rt1) else (STATUS_OK, debug_log b rt1))"
    using a0 t fr c by (simp add: kernel_console_def ringos_debug_log_def kernel_stub_def argument_or_def dispatch_syscall_def
        syscall_debug_log_def DEBUG_MESSAGE_BUFFER_SIZE_def Let_def get_process_context_def get_thread_def f_def rt1_def)
  have ready: "console_ready a n rt'" if "rt' = rt1 \<or> rt' = debug_log b rt1" for rt'
  proof -
    have "m_current_thread rt' = Some t" "get_process_context rt' t = Some p" "get_address_space_info rt' p = ?asp"
      using fr ctx that by (auto simp: debug_log_def get_process_context_def get_thread_def get_address_space_info_def get_process_def)
    then show ?thesis using r by (simp add: console_ready_def current_address_space_def)
  qed
  show thesis
  proof (cases "status = STATUS_OK")
    case True
    moreover have "debug_messages (debug_log b rt1) = debug_messages rt @ [c_string buffer]"
      using L(2)[OF True] fr(4) by (simp add: debug_log_def)
    ultimately show thesis using that[OF _ ready] k L(1) by simp
  next
    case False
    then show thesis using that[OF _ ready] k L(1) fr(4) by simp
  qed
qed

interpretation kernel_lines: line_console "kernel_console arch sc a" "console_ready a n" debug_messages n 95 for arch sc a n
proof unfold_locales
  fix rt and buffer :: "u8 list"
  assume a: "console_ready a n rt" "length buffer \<le> n" "0 \<in> set buffer"
  show "\<exists>rt'. kernel_console arch sc a buffer rt = (STATUS_OK, rt') \<and> console_ready a n rt' \<and>
      debug_messages rt' = debug_messages rt @ [c_string buffer]" if "length (c_string buffer) \<le> 95"
    by (rule kernel_console_logs[OF a, of arch sc]) (use that in auto)
  show "\<exists>rt' status. kernel_console arch sc a buffer rt = (status, rt') \<and> status \<noteq> STATUS_OK \<and> console_ready a n rt' \<and>
      debug_messages rt' = debug_messages rt" if "95 < length (c_string buffer)"
    by (rule kernel_console_logs[OF a, of arch sc]) (use that in auto)
qed

section \<open>A runtime with a console\<close>

text \<open>The runtime of the example calls, whose current thread has 512 bytes mapped at \<open>0x1000\<close>.\<close>

definition example_console_asp :: address_space where
  "example_console_asp = the (add_address_space_mapping (empty_address_space 0) 0x1000 0x8000 0x200)"

definition example_console_runtime :: user_runtime where
  "example_console_runtime =
     example_runtime\<lparr>m_processes := update_slot 0 (\<lambda>p. p\<lparr>m_address_space := example_console_asp\<rparr>) (m_processes example_runtime)\<rparr>"

lemma example_console_asp_add:
  "add_address_space_mapping (empty_address_space 0) 0x1000 0x8000 0x200 = Some example_console_asp"
proof -
  have "\<exists>asp. add_address_space_mapping (empty_address_space 0) 0x1000 0x8000 0x200 = Some asp"
    by (simp add: add_address_space_mapping_def is_valid_address_range_def empty_address_space_def
        live_mappings_def USER_RUNTIME_MAX_ADDRESS_SPACE_MAPPINGS_def)
  then show ?thesis by (auto simp: example_console_asp_def)
qed

lemma example_console_xlate:
  "xlate example_console_asp a = (if 0x1000 \<le> unat a \<and> unat a < 0x1200 then Some (0x8000 + (a - 0x1000)) else None)"
  using add_address_space_mapping_SomeD(1)[OF example_console_asp_add]
  by (simp add: xlate_def user_bytes_def empty_address_space_def live_mappings_def)

lemma example_console_ready:
  assumes "n \<le> 0x200"
  shows "console_ready 0x1000 n example_console_runtime"
proof -
  have t: "get_process_context example_console_runtime 0 = Some 0" "m_current_thread example_console_runtime = Some 0"
    using example_runtime_sel(1)[of 0]
    by (simp_all add: example_console_runtime_def get_process_context_def get_thread_def)
  have "get_process example_console_runtime 0 = Some ((example_process 1 1)\<lparr>m_address_space := example_console_asp\<rparr>)"
    using example_runtime_sel(2)[of 0]
    by (auto simp: example_console_runtime_def get_process_def get_by_index_def update_slot_def split: if_splits)
  then have asp: "current_address_space example_console_runtime = example_console_asp"
    using t by (simp add: current_address_space_def get_address_space_info_def)
  have x: "xlate example_console_asp (0x1000 + of_nat i) = Some (0x8000 + of_nat i)" if "i < n" for i
  proof -
    have "unat (of_nat i :: u64) = i" using that assms by (intro unat_of_nat_u64) simp
    then have "unat (0x1000 + of_nat i :: u64) = 0x1000 + i" using that assms by (subst unat_add_no_wrap) simp_all
    then show ?thesis using that assms by (simp add: example_console_xlate)
  qed
  have "unaliased example_console_asp 0x1000 n"
    unfolding unaliased_def
  proof (intro allI impI)
    fix i j h assume "i < n" "j < n" "xlate example_console_asp (0x1000 + of_nat i) = Some h" "xlate example_console_asp (0x1000 + of_nat j) = Some h"
    then have "(0x8000 :: u64) + of_nat i = 0x8000 + of_nat j" using x by (metis option.inject)
    then have "(of_nat i :: u64) = of_nat j" by simp
    moreover have "unat (of_nat i :: u64) = i" "unat (of_nat j :: u64) = j"
      using \<open>i < n\<close> \<open>j < n\<close> assms by (simp_all add: unat_of_nat_u64)
    ultimately show "i = j" by metis
  qed
  moreover have "wf_address_space example_console_asp"
    by (rule add_address_space_mapping_wf[OF wf_empty_address_space example_console_asp_add])
  ultimately show ?thesis using t x asp by (auto simp: console_ready_def)
qed

end
