(* ===== verification/Terminal_Service.thy ===== *)
theory Terminal_Service
  imports User_Sdk
begin

text \<open>
  The terminal service, \<open>services/terminal/srv_terminal_main.cpp\<close>: a line buffer fed by the bytes of write
  requests. The buffer is flushed to the log by a newline and when a character finds it full. The reference is
  a function of the whole stream of bytes, so the theorem says that request boundaries do not
  matter: lines are cut at newlines and at 95 characters, and every one of them is short enough for the kernel.
\<close>

section \<open>The service\<close>

definition TERMINAL_SERVICE_LINE_CAPACITY :: nat where "TERMINAL_SERVICE_LINE_CAPACITY = 95"
definition TERMINAL_SERVICE_WRITE_MAX_BYTES :: u64 where "TERMINAL_SERVICE_WRITE_MAX_BYTES = 240"
definition TERMINAL_SERVICE_RPC_OPERATION_WRITE_BUFFER :: u64 where "TERMINAL_SERVICE_RPC_OPERATION_WRITE_BUFFER = 1"
definition SIZEOF_TERMINAL_SERVICE_REQUEST_HEADER :: u64 where "SIZEOF_TERMINAL_SERVICE_REQUEST_HEADER = 8"
definition SIZEOF_TERMINAL_SERVICE_WRITE_REQUEST :: u64 where "SIZEOF_TERMINAL_SERVICE_WRITE_REQUEST = 256"

record terminal =
  g_terminal_line :: "u8 list"
  g_terminal_line_length :: nat

definition initial_terminal :: terminal where
  "initial_terminal = \<lparr>g_terminal_line = replicate (TERMINAL_SERVICE_LINE_CAPACITY + 1) 0, g_terminal_line_length = 0\<rparr>"

text \<open>\<open>ringos_debug_log\<close> on the array is the parameter \<open>console\<close>; \<open>'s\<close> is the state behind it.\<close>

definition terminal_flush_line :: "(u8 list \<Rightarrow> 's \<Rightarrow> i32 \<times> 's) \<Rightarrow> terminal \<times> 's \<Rightarrow> i32 \<times> terminal \<times> 's" where
  "terminal_flush_line console = (\<lambda>(t, env).
     if g_terminal_line_length t = 0 then (STATUS_OK, t, env)
     else (let t1 = t\<lparr>g_terminal_line := (g_terminal_line t)[g_terminal_line_length t := 0]\<rparr> in
           case console (g_terminal_line t1) env of
             (status, env') \<Rightarrow> (status, t1\<lparr>g_terminal_line_length := 0\<rparr>, env')))"

definition append_terminal_character :: "u8 \<Rightarrow> terminal \<Rightarrow> terminal" where
  "append_terminal_character character t =
     t\<lparr>g_terminal_line := (g_terminal_line t)[g_terminal_line_length t := character],
       g_terminal_line_length := g_terminal_line_length t + 1\<rparr>"

definition terminal_write_character :: "(u8 list \<Rightarrow> 's \<Rightarrow> i32 \<times> 's) \<Rightarrow> u8 \<Rightarrow> terminal \<times> 's \<Rightarrow> i32 \<times> terminal \<times> 's" where
  "terminal_write_character console character = (\<lambda>(t, env).
     if character = 0 \<or> character = 13 then (STATUS_OK, t, env)
     else if character = 10 then terminal_flush_line console (t, env)
     else if g_terminal_line_length t = TERMINAL_SERVICE_LINE_CAPACITY
     then (case terminal_flush_line console (t, env) of
             (flush_status, t1, env1) \<Rightarrow>
               if flush_status \<noteq> STATUS_OK then (flush_status, t1, env1)
               else (STATUS_OK, append_terminal_character character t1, env1))
     else (STATUS_OK, append_terminal_character character t, env))"

text \<open>The loop over the bytes of a request.\<close>

fun terminal_write_bytes :: "(u8 list \<Rightarrow> 's \<Rightarrow> i32 \<times> 's) \<Rightarrow> u8 list \<Rightarrow> terminal \<times> 's \<Rightarrow> i32 \<times> terminal \<times> 's" where
  "terminal_write_bytes console [] ts = (STATUS_OK, ts)"
| "terminal_write_bytes console (b # bs) ts =
     (case terminal_write_character console b ts of
        (status, ts') \<Rightarrow> if status \<noteq> STATUS_OK then (status, ts') else terminal_write_bytes console bs ts')"

text \<open>The request is read from the memory \<open>m\<close> of the service, where the kernel has put it.\<close>

record terminal_service_write_request =
  req_operation :: u64
  req_length :: u64
  req_bytes :: "u8 list"

definition read_write_request :: "hmem \<Rightarrow> u64 \<Rightarrow> terminal_service_write_request" where
  "read_write_request m request =
     \<lparr>req_operation = le_word (load_bytes m request 8), req_length = le_word (load_bytes m (request + 8) 8),
      req_bytes = load_bytes m (request + 16) (unat TERMINAL_SERVICE_WRITE_MAX_BYTES)\<rparr>"

definition terminal_write_buffer :: "(u8 list \<Rightarrow> 's \<Rightarrow> i32 \<times> 's) \<Rightarrow> terminal_service_write_request \<Rightarrow> terminal \<times> 's \<Rightarrow>
    i32 \<times> terminal \<times> 's" where
  "terminal_write_buffer console write_request ts =
     (if req_length write_request = 0 \<or> req_length write_request > TERMINAL_SERVICE_WRITE_MAX_BYTES
      then (STATUS_INVALID_ARGUMENT, ts)
      else terminal_write_bytes console (take (unat (req_length write_request)) (req_bytes write_request)) ts)"

definition terminal_handle_request :: "(u8 list \<Rightarrow> 's \<Rightarrow> i32 \<times> 's) \<Rightarrow> hmem \<Rightarrow> u64 \<Rightarrow> u64 \<Rightarrow> terminal \<times> 's \<Rightarrow>
    i32 \<times> terminal \<times> 's" where
  "terminal_handle_request console m request request_size ts =
     (if request = 0 \<or> request_size < SIZEOF_TERMINAL_SERVICE_REQUEST_HEADER then (STATUS_INVALID_ARGUMENT, ts)
      else if req_operation (read_write_request m request) = TERMINAL_SERVICE_RPC_OPERATION_WRITE_BUFFER
      then (if request_size \<noteq> SIZEOF_TERMINAL_SERVICE_WRITE_REQUEST then (STATUS_INVALID_ARGUMENT, ts)
            else terminal_write_buffer console (read_write_request m request) ts)
      else (STATUS_NOT_SUPPORTED, ts))"

text \<open>\<open>main\<close> returns 1 when it cannot register and otherwise never returns.\<close>

definition terminal_main :: "('s \<Rightarrow> i32 \<times> 's) \<Rightarrow> 's \<Rightarrow> i32 option \<times> 's" where
  "terminal_main register env =
     (case register env of (register_status, env') \<Rightarrow> (if register_status \<noteq> STATUS_OK then Some 1 else None, env'))"

section \<open>The reference\<close>

text \<open>
  A stream is cut at newlines, without the bytes 0 and 13; each part is cut into pieces of 95 characters. All
  pieces are logged, except the last piece of the part that has no newline yet: it is pending.
\<close>

function pieces :: "u8 list \<Rightarrow> u8 list list" where
  "pieces w = (if w = [] then [] else take 95 w # pieces (drop 95 w))"
  by pat_completeness auto
termination
  by (relation "measure length") auto

declare pieces.simps [simp del]

fun split_lines :: "u8 list \<Rightarrow> u8 list list \<times> u8 list" where
  "split_lines [] = ([], [])"
| "split_lines (c # cs) = (case split_lines cs of
     (ls, r) \<Rightarrow> if c = 10 then ([] # ls, r) else case ls of [] \<Rightarrow> ([], c # r) | l # ls' \<Rightarrow> ((c # l) # ls', r))"

definition printable :: "u8 list \<Rightarrow> u8 list" where
  "printable s = filter (\<lambda>c. c \<noteq> 0 \<and> c \<noteq> 13) s"

definition terminal_lines :: "u8 list \<Rightarrow> u8 list list" where
  "terminal_lines s = (case split_lines (printable s) of (ls, r) \<Rightarrow> concat (map pieces ls) @ butlast (pieces r))"

definition terminal_pending :: "u8 list \<Rightarrow> u8 list" where
  "terminal_pending s = (case split_lines (printable s) of (ls, r) \<Rightarrow> if r = [] then [] else last (pieces r))"

lemma split_lines_snoc:
  "split_lines (s @ [c]) = (case split_lines s of (ls, r) \<Rightarrow> if c = 10 then (ls @ [r], []) else (ls, r @ [c]))"
proof (induction s)
  case (Cons d s)
  obtain ls r where s: "split_lines s = (ls, r)" by force
  then show ?case using Cons by (cases ls) (auto split: if_splits list.splits)
qed simp

lemma pieces_eq_Nil [simp]: "pieces w = [] \<longleftrightarrow> w = []"
  by (subst pieces.simps) simp

lemma pieces_Nil [simp]: "pieces [] = []"
  by simp

lemma pieces_short: "w \<noteq> [] \<Longrightarrow> length w \<le> 95 \<Longrightarrow> pieces w = [w]"
  by (subst pieces.simps, subst pieces.simps) simp

lemma pieces_snoc:
  "pieces (w @ [c]) = (if w = [] then [[c]] else if length (last (pieces w)) = 95 then pieces w @ [[c]]
     else butlast (pieces w) @ [last (pieces w) @ [c]])"
proof (induction w rule: pieces.induct)
  case (1 w)
  show ?case
  proof (cases "95 < length w")
    case True
    then have ne: "w \<noteq> []" "drop 95 w \<noteq> []" by auto
    have "pieces (w @ [c]) = take 95 w # pieces (drop 95 w @ [c])" using True by (subst pieces.simps) simp
    moreover have "pieces w = take 95 w # pieces (drop 95 w)" using ne by (subst pieces.simps) simp
    ultimately show ?thesis using 1[OF ne(1)] ne by simp
  next
    case False
    show ?thesis
    proof (cases "w = []")
      case True
      then show ?thesis by (simp add: pieces_short)
    next
      case ne: False
      have one: "pieces w = [w]" using False ne by (intro pieces_short) auto
      have "pieces (w @ [c]) = take 95 (w @ [c]) # pieces (drop 95 (w @ [c]))" by (subst pieces.simps) simp
      then show ?thesis using False ne one by (cases "length w = 95") (auto simp: pieces_short)
    qed
  qed
qed

lemma last_piece_length: "w \<noteq> [] \<Longrightarrow> length (last (pieces w)) \<le> 95 \<and> last (pieces w) \<noteq> []"
proof (induction w rule: pieces.induct)
  case (1 w)
  show ?case using 1 by (subst (1 2) pieces.simps) (cases "drop 95 w = []"; auto)
qed

lemma terminal_snoc:
  "terminal_lines (s @ [c]) = terminal_lines s @
     (if terminal_pending s \<noteq> [] \<and> (c = 10 \<or> c \<notin> {0, 13} \<and> length (terminal_pending s) = 95) then [terminal_pending s] else [])"
  "terminal_pending (s @ [c]) = (if c = 0 \<or> c = 13 then terminal_pending s else if c = 10 then []
     else if length (terminal_pending s) = 95 then [c] else terminal_pending s @ [c])"
proof -
  obtain ls r where s: "split_lines (printable s) = (ls, r)" by force
  have p: "printable (s @ [c]) = (if c = 0 \<or> c = 13 then printable s else printable s @ [c])" by (simp add: printable_def)
  have r: "butlast (pieces r) @ [last (pieces r)] = pieces r" if "r \<noteq> []" using that by simp
  note D = terminal_lines_def terminal_pending_def p s
  show "terminal_lines (s @ [c]) = terminal_lines s @
     (if terminal_pending s \<noteq> [] \<and> (c = 10 \<or> c \<notin> {0, 13} \<and> length (terminal_pending s) = 95) then [terminal_pending s] else [])"
    using last_piece_length[of r] by (cases "r = []") (auto simp: D split_lines_snoc pieces_snoc pieces_short r)
  show "terminal_pending (s @ [c]) = (if c = 0 \<or> c = 13 then terminal_pending s else if c = 10 then []
     else if length (terminal_pending s) = 95 then [c] else terminal_pending s @ [c])"
    by (cases "r = []") (auto simp: D split_lines_snoc pieces_snoc pieces_short)
qed

lemma terminal_empty [simp]: "terminal_lines [] = []" "terminal_pending [] = []"
  by (simp_all add: terminal_lines_def terminal_pending_def printable_def)

lemma terminal_pending_bounds: "length (terminal_pending s) \<le> 95 \<and> 0 \<notin> set (terminal_pending s)"
  by (induction s rule: rev_induct) (auto simp: terminal_snoc)

section \<open>The service follows the reference\<close>

definition shows_stream :: "terminal \<Rightarrow> u8 list \<Rightarrow> bool" where
  "shows_stream t s \<longleftrightarrow> length (g_terminal_line t) = 96 \<and> g_terminal_line_length t = length (terminal_pending s) \<and>
     take (length (terminal_pending s)) (g_terminal_line t) = terminal_pending s"

lemma initial_terminal_shows: "shows_stream initial_terminal []"
  by (simp add: shows_stream_def initial_terminal_def TERMINAL_SERVICE_LINE_CAPACITY_def)

lemma flushed_array:
  assumes "shows_stream t s"
  defines "array \<equiv> (g_terminal_line t)[g_terminal_line_length t := 0]"
  shows "length array = 96" and "0 \<in> set array" and "c_string array = terminal_pending s"
proof -
  let ?n = "g_terminal_line_length t"
  have n: "?n < length (g_terminal_line t)" using assms(1) terminal_pending_bounds[of s] by (simp add: shows_stream_def)
  have a: "array = terminal_pending s @ 0 # drop (Suc ?n) (g_terminal_line t)"
    unfolding array_def using n assms(1) by (simp add: upd_conv_take_nth_drop shows_stream_def)
  show "length array = 96" using assms by (simp add: shows_stream_def)
  show "0 \<in> set array" unfolding a by simp
  show "c_string array = terminal_pending s"
    unfolding a c_string_def using terminal_pending_bounds[of s] by (subst takeWhile_append2) auto
qed

lemma append_shows:
  assumes "shows_stream t s" and "c \<notin> {0, 10, 13}" and "length (terminal_pending s) < 95"
  shows "shows_stream (append_terminal_character c t) (s @ [c])"
  using assms by (auto simp: shows_stream_def append_terminal_character_def terminal_snoc take_Suc_conv_app_nth)

text \<open>Any console with room for the buffer and its longest line.\<close>

locale terminal_console = line_console +
  assumes room: "96 \<le> array_size" "95 \<le> line_size"
begin

lemma flush_line:
  assumes "ready env" and "shows_stream t s"
  obtains t' env' where "terminal_flush_line console (t, env) = (STATUS_OK, t', env')" and "ready env'"
    and "shows_stream t' (s @ [10])" and "lines env' = lines env @ (if terminal_pending s = [] then [] else [terminal_pending s])"
proof (cases "terminal_pending s = []")
  case True
  then show thesis using assms that by (simp add: terminal_flush_line_def shows_stream_def terminal_snoc)
next
  case False
  let ?a = "(g_terminal_line t)[g_terminal_line_length t := 0]"
  note A = flushed_array[OF assms(2)]
  have "length ?a \<le> array_size" "length (c_string ?a) \<le> line_size" using A room terminal_pending_bounds[of s] by simp_all
  then obtain env' where "console ?a env = (STATUS_OK, env')" "ready env'" "lines env' = lines env @ [terminal_pending s]"
    using accepts[OF assms(1) _ A(2)] A(3) by auto
  moreover have "shows_stream (t\<lparr>g_terminal_line := ?a, g_terminal_line_length := 0\<rparr>) (s @ [10])"
    using A(1) by (simp add: shows_stream_def terminal_snoc)
  moreover have "g_terminal_line_length t \<noteq> 0" using False assms(2) by (simp add: shows_stream_def)
  ultimately show thesis using that False by (simp add: terminal_flush_line_def Let_def)
qed

lemma write_character:
  assumes "ready env" and "shows_stream t s"
  obtains t' env' where "terminal_write_character console c (t, env) = (STATUS_OK, t', env')" and "ready env'"
    and "shows_stream t' (s @ [c])" and "\<exists>new. terminal_lines (s @ [c]) = terminal_lines s @ new \<and> lines env' = lines env @ new"
proof -
  obtain t1 env1 where f: "terminal_flush_line console (t, env) = (STATUS_OK, t1, env1)" "ready env1" "shows_stream t1 (s @ [10])"
    "lines env1 = lines env @ (if terminal_pending s = [] then [] else [terminal_pending s])" by (rule flush_line[OF assms])
  consider (skip) "c = 0 \<or> c = 13" | (newline) "c = 10" | (full) "c \<notin> {0, 10, 13}" "length (terminal_pending s) = 95"
    | (fits) "c \<notin> {0, 10, 13}" "length (terminal_pending s) < 95" using terminal_pending_bounds[of s] by force
  then show thesis
  proof cases
    case skip
    then show thesis using assms that[of t env] by (auto simp: terminal_write_character_def shows_stream_def terminal_snoc)
  next
    case newline
    then show thesis using f that[of t1 env1] by (auto simp: terminal_write_character_def terminal_snoc)
  next
    case full
    have "shows_stream (append_terminal_character c t1) (s @ [10] @ [c])"
      using append_shows[OF f(3) full(1)] by (simp add: terminal_snoc)
    moreover have "terminal_pending (s @ [10] @ [c]) = terminal_pending (s @ [c])"
      using full terminal_snoc(2)[of "s @ [10]" c] terminal_snoc(2)[of s c] terminal_snoc(2)[of s 10] by simp
    ultimately have "shows_stream (append_terminal_character c t1) (s @ [c])" by (simp add: shows_stream_def)
    moreover have "g_terminal_line_length t = TERMINAL_SERVICE_LINE_CAPACITY"
      using full(2) assms(2) by (simp add: shows_stream_def TERMINAL_SERVICE_LINE_CAPACITY_def)
    moreover have "terminal_pending s \<noteq> []" using full(2) by auto
    ultimately show thesis
      using f full that[of "append_terminal_character c t1" env1] by (auto simp: terminal_write_character_def terminal_snoc)
  next
    case fits
    then have "g_terminal_line_length t \<noteq> TERMINAL_SERVICE_LINE_CAPACITY"
      using assms(2) by (simp add: shows_stream_def TERMINAL_SERVICE_LINE_CAPACITY_def)
    then show thesis
      using assms fits append_shows[OF assms(2)] that[of "append_terminal_character c t" env]
      by (auto simp: terminal_write_character_def terminal_snoc)
  qed
qed

lemma write_bytes:
  assumes "ready env" and "shows_stream t s"
  shows "\<exists>t' env' new. terminal_write_bytes console bs (t, env) = (STATUS_OK, t', env') \<and> ready env' \<and> shows_stream t' (s @ bs) \<and>
    terminal_lines (s @ bs) = terminal_lines s @ new \<and> lines env' = lines env @ new"
  using assms
proof (induction bs arbitrary: t s env)
  case (Cons b bs)
  obtain t1 env1 new1 where c: "terminal_write_character console b (t, env) = (STATUS_OK, t1, env1)" "ready env1"
    "shows_stream t1 (s @ [b])" "terminal_lines (s @ [b]) = terminal_lines s @ new1" "lines env1 = lines env @ new1"
    using write_character[OF Cons.prems, of b] by metis
  from Cons.IH[OF c(2,3)] show ?case using c(1,4,5) by auto
qed simp

end

interpretation terminal_on_kernel: terminal_console "kernel_console arch sc a" "console_ready a 96" debug_messages 96 95
  for arch sc a
  by unfold_locales simp_all

section \<open>Properties\<close>

text \<open>The callbacks for a sequence of requests, each in the memory it was delivered in, with their statuses.\<close>

fun terminal_serve :: "(u8 list \<Rightarrow> 's \<Rightarrow> i32 \<times> 's) \<Rightarrow> (hmem \<times> u64) list \<Rightarrow> terminal \<times> 's \<Rightarrow> i32 list \<times> terminal \<times> 's" where
  "terminal_serve console [] ts = ([], ts)"
| "terminal_serve console ((m, request) # rs) ts =
     (case terminal_handle_request console m request SIZEOF_TERMINAL_SERVICE_WRITE_REQUEST ts of
        (status, ts1) \<Rightarrow> (case terminal_serve console rs ts1 of (statuses, ts2) \<Rightarrow> (status # statuses, ts2)))"

definition request_payload :: "hmem \<times> u64 \<Rightarrow> u8 list" where
  "request_payload = (\<lambda>(m, request). take (unat (req_length (read_write_request m request))) (req_bytes (read_write_request m request)))"

definition well_formed_write :: "hmem \<times> u64 \<Rightarrow> bool" where
  "well_formed_write = (\<lambda>(m, request). request \<noteq> 0 \<and>
     req_operation (read_write_request m request) = TERMINAL_SERVICE_RPC_OPERATION_WRITE_BUFFER \<and>
     req_length (read_write_request m request) \<noteq> 0 \<and> req_length (read_write_request m request) \<le> TERMINAL_SERVICE_WRITE_MAX_BYTES)"

lemma well_formed_handled:
  "well_formed_write (m, request) \<Longrightarrow>
    terminal_handle_request console m request SIZEOF_TERMINAL_SERVICE_WRITE_REQUEST ts = terminal_write_bytes console (request_payload (m, request)) ts"
  by (simp add: well_formed_write_def terminal_handle_request_def terminal_write_buffer_def request_payload_def not_less[symmetric]
      SIZEOF_TERMINAL_SERVICE_WRITE_REQUEST_def SIZEOF_TERMINAL_SERVICE_REQUEST_HEADER_def)

context terminal_console
begin

lemma serve:
  assumes "ready env" and "shows_stream t s" and "\<forall>r \<in> set rs. well_formed_write r"
  shows "\<exists>t' env' new. terminal_serve console rs (t, env) = (replicate (length rs) STATUS_OK, t', env') \<and> ready env' \<and>
    shows_stream t' (s @ concat (map request_payload rs)) \<and>
    terminal_lines (s @ concat (map request_payload rs)) = terminal_lines s @ new \<and> lines env' = lines env @ new"
  using assms
proof (induction rs arbitrary: t s env)
  case (Cons r rs)
  obtain m request where r: "r = (m, request)" by force
  obtain t1 env1 new1 where w: "terminal_write_bytes console (request_payload r) (t, env) = (STATUS_OK, t1, env1)" "ready env1"
    "shows_stream t1 (s @ request_payload r)" "terminal_lines (s @ request_payload r) = terminal_lines s @ new1"
    "lines env1 = lines env @ new1" using write_bytes[OF Cons.prems(1,2), of "request_payload r"] by blast
  have "terminal_handle_request console m request SIZEOF_TERMINAL_SERVICE_WRITE_REQUEST (t, env) = (STATUS_OK, t1, env1)"
    using w(1) well_formed_handled[of m request console "(t, env)"] Cons.prems(3) r by simp
  moreover obtain t2 env2 new2 where "terminal_serve console rs (t1, env1) = (replicate (length rs) STATUS_OK, t2, env2)" "ready env2"
    "shows_stream t2 (s @ request_payload r @ concat (map request_payload rs))"
    "terminal_lines (s @ request_payload r @ concat (map request_payload rs)) = terminal_lines (s @ request_payload r) @ new2"
    "lines env2 = lines env1 @ new2"
    using Cons.IH[OF w(2,3)] Cons.prems(3) by auto
  ultimately show ?case using w(4,5) r by auto
qed simp

end

text \<open>
  C17. The terminal service prints what it is sent. Any sequence of well-formed write requests that the service
  handles from its start on, with its buffer mapped in its process, is answered STATUS_OK throughout;
  the kernel's log has grown by exactly the lines of the whole byte stream, cut at newlines and at
  95 characters wherever the requests divide it, no line being too long for the kernel's message buffer; and
  the service's buffer holds the text after the last cut.
\<close>

theorem terminal_prints_stream:
  assumes "console_ready line_address 96 rt" and "\<forall>r \<in> set rs. well_formed_write r"
  shows "\<exists>t' rt'. terminal_serve (kernel_console arch sc line_address) rs (initial_terminal, rt) =
        (replicate (length rs) STATUS_OK, t', rt') \<and>
      debug_messages rt' = debug_messages rt @ terminal_lines (concat (map request_payload rs)) \<and>
      take (g_terminal_line_length t') (g_terminal_line t') = terminal_pending (concat (map request_payload rs))"
  using terminal_on_kernel.serve[OF assms(1) initial_terminal_shows assms(2), of arch sc] by (auto simp: shows_stream_def)

text \<open>A request at \<open>0x2000\<close> with the text \<open>AB\<close>, a newline and \<open>C\<close>.\<close>

definition example_request :: hmem where
  "example_request = store_bytes (\<lambda>_. 0) 0x2000 ([1, 0, 0, 0, 0, 0, 0, 0, 4, 0, 0, 0, 0, 0, 0, 0] @ [65, 66, 10, 67])"

lemma load_store_part:
  assumes "k + n \<le> length bs" and "length bs < 2 ^ 64"
  shows "load_bytes (store_bytes m a bs) (a + of_nat k) n = take n (drop k bs)"
proof (rule nth_equalityI)
  fix i assume i: "i < length (load_bytes (store_bytes m a bs) (a + of_nat k) n)"
  have "offset (a + of_nat k + of_nat i) a = k + i" using offset_add[of "k + i" a] assms i by (simp add: add.assoc)
  then show "load_bytes (store_bytes m a bs) (a + of_nat k) n ! i = take n (drop k bs) ! i"
    using assms i by (simp add: nth_load_bytes store_bytes_at)
qed (use assms in simp)

lemma example_request_read:
  "well_formed_write (example_request, 0x2000)" "request_payload (example_request, 0x2000) = [65, 66, 10, 67]"
proof -
  have h: "load_bytes example_request 0x2000 8 = [1, 0, 0, 0, 0, 0, 0, 0]" "load_bytes example_request 0x2008 8 = [4, 0, 0, 0, 0, 0, 0, 0]"
    "load_bytes example_request 0x2010 4 = [65, 66, 10, 67]"
    using load_store_part[of 0 8 "[1, 0, 0, 0, 0, 0, 0, 0, 4, 0, 0, 0, 0, 0, 0, 0] @ [65, 66, 10, 67]" "\<lambda>_. 0" "0x2000"]
      load_store_part[of 8 8 "[1, 0, 0, 0, 0, 0, 0, 0, 4, 0, 0, 0, 0, 0, 0, 0] @ [65, 66, 10, 67]" "\<lambda>_. 0" "0x2000"]
      load_store_part[of 16 4 "[1, 0, 0, 0, 0, 0, 0, 0, 4, 0, 0, 0, 0, 0, 0, 0] @ [65, 66, 10, 67]" "\<lambda>_. 0" "0x2000"]
    unfolding example_request_def by (simp_all del: store_bytes.simps load_bytes.simps)
  have b: "take 4 (load_bytes example_request 0x2010 240) = [65, 66, 10, 67]"
    using h(3) load_bytes_append[of example_request "0x2010" 4 236] by simp
  have r: "req_operation (read_write_request example_request 0x2000) = 1" "req_length (read_write_request example_request 0x2000) = 4"
    "req_bytes (read_write_request example_request 0x2000) = load_bytes example_request 0x2010 240"
    by (simp_all add: read_write_request_def h TERMINAL_SERVICE_WRITE_MAX_BYTES_def)
  show "well_formed_write (example_request, 0x2000)"
    by (simp add: well_formed_write_def r TERMINAL_SERVICE_RPC_OPERATION_WRITE_BUFFER_def TERMINAL_SERVICE_WRITE_MAX_BYTES_def)
  show "request_payload (example_request, 0x2000) = [65, 66, 10, 67]" by (simp add: request_payload_def r b)
qed

theorem terminal_prints_stream_witness:
  "\<exists>t' rt'. terminal_serve (kernel_console AARCH64 example_call 0x1000) [(example_request, 0x2000)] (initial_terminal, example_console_runtime) =
      ([STATUS_OK], t', rt') \<and> debug_messages rt' = debug_messages example_console_runtime @ [[65, 66]] \<and>
    take (g_terminal_line_length t') (g_terminal_line t') = [67]"
proof -
  have "terminal_lines [65, 66, 10, 67] = [[65, 66]]" "terminal_pending [65, 66, 10, 67] = [67]"
    by (simp_all add: terminal_lines_def terminal_pending_def printable_def pieces_short)
  then show ?thesis
    using terminal_prints_stream[OF example_console_ready, of "[(example_request, 0x2000)]" AARCH64 example_call] example_request_read
    by simp
qed

end
