(* ===== verification/Terminal_Call.thy ===== *)
theory Terminal_Call
  imports Terminal_Service Debug_Output
begin

text \<open>
  A write through the terminal service from end to end: the client's \<open>ringos_rpc_call\<close> enters the kernel, which
  copies the request to the service's stack and switches to it; the callback reads it there and logs lines by
  system calls of its own; the completion trampoline hands its status back and the client runs again. The
  request has the layout of \<open>services/srv_terminal.h\<close>, filled in as \<open>user/samples/console_service_write\<close> does.
\<close>

section \<open>The two programs\<close>

text \<open>Memory as a process sees it.\<close>

definition user_view :: "address_space \<Rightarrow> hmem \<Rightarrow> hmem" where
  "user_view asp m a = (case xlate asp a of None \<Rightarrow> 0 | Some h \<Rightarrow> m h)"

definition write_request_bytes :: "u8 list \<Rightarrow> u8 list" where
  "write_request_bytes w =
     le_bytes 8 TERMINAL_SERVICE_RPC_OPERATION_WRITE_BUFFER @ le_bytes 8 (of_nat (length w)) @ w @
     replicate (unat TERMINAL_SERVICE_WRITE_MAX_BYTES - length w) 0"

definition client_write :: "target_arch \<Rightarrow> user_syscall_context \<Rightarrow> u64 \<Rightarrow> u64 \<Rightarrow> user_runtime \<Rightarrow> i32 \<times> user_runtime" where
  "client_write arch sc handle request = ringos_rpc_call (kernel_stub arch sc) handle request SIZEOF_TERMINAL_SERVICE_WRITE_REQUEST"

text \<open>The callback starts with the arguments of the thread's resume state in its registers.\<close>

definition terminal_callback :: "target_arch \<Rightarrow> user_syscall_context \<Rightarrow> u64 \<Rightarrow> terminal \<times> user_runtime \<Rightarrow>
    (i32 \<times> terminal \<times> user_runtime) option" where
  "terminal_callback arch sc line_address = (\<lambda>(t, rt).
     case Option.bind (m_current_thread rt) (get_thread rt) of None \<Rightarrow> None
     | Some th \<Rightarrow> Some (terminal_handle_request (kernel_console arch sc line_address)
         (user_view (current_address_space rt) (host_memory rt))
         (resume_argument0 (m_resume_state th)) (resume_argument1 (m_resume_state th)) (t, rt)))"

text \<open>The trampoline passes what the callback returns to \<open>SYSCALL_RPC_COMPLETE\<close>.\<close>

definition complete_trampoline :: "target_arch \<Rightarrow> user_syscall_context \<Rightarrow> i32 \<Rightarrow> user_runtime \<Rightarrow> i32 \<times> user_runtime" where
  "complete_trampoline arch sc status = kernel_stub arch sc SYSCALL_RPC_COMPLETE [scast status]"

section \<open>The request\<close>

lemma load_user_view:
  assumes "user_range asp a n bs m"
  shows "load_bytes (user_view asp m) a n = bs"
proof (rule nth_equalityI)
  fix i assume "i < length (load_bytes (user_view asp m) a n)"
  then show "load_bytes (user_view asp m) a n ! i = bs ! i"
    using assms by (auto simp: nth_load_bytes user_range_def user_view_def split: option.splits)
qed (use assms in \<open>simp add: user_range_def\<close>)

lemma load_bytes_part:
  assumes "load_bytes m a n = bs" and "k + l \<le> n"
  shows "load_bytes m (a + of_nat k) l = take l (drop k bs)"
proof (rule nth_equalityI)
  have "length bs = n" using assms(1) by auto
  then show "length (load_bytes m (a + of_nat k) l) = length (take l (drop k bs))" using assms(2) by simp
  fix i assume i: "i < length (load_bytes m (a + of_nat k) l)"
  have "load_bytes m a n ! (k + i) = bs ! (k + i)" using assms(1) by simp
  then show "load_bytes m (a + of_nat k) l ! i = take l (drop k bs) ! i"
    using i assms(2) \<open>length bs = n\<close> by (simp add: nth_load_bytes add.assoc)
qed

lemma write_request_read:
  assumes r: "user_range asp x 256 (write_request_bytes w) m" and l: "0 < length w" "length w \<le> 240" and "x \<noteq> 0"
  shows "well_formed_write (user_view asp m, x)" and "request_payload (user_view asp m, x) = w"
proof -
  let ?v = "user_view asp m" and ?bs = "write_request_bytes w"
  note L = load_user_view[OF r]
  have "unat (of_nat (length w) :: u64) = length w" using l by (intro unat_of_nat_u64) simp
  moreover have "load_bytes ?v x 8 = le_bytes 8 1" "load_bytes ?v (x + 8) 8 = le_bytes 8 (of_nat (length w))"
    "load_bytes ?v (x + 16) 240 = w @ replicate (240 - length w) 0"
    using load_bytes_part[OF L, of 0 8] load_bytes_part[OF L, of 8 8] load_bytes_part[OF L, of 16 240] l
    by (simp_all add: write_request_bytes_def length_le_bytes TERMINAL_SERVICE_RPC_OPERATION_WRITE_BUFFER_def
        TERMINAL_SERVICE_WRITE_MAX_BYTES_def del: load_bytes.simps le_bytes.simps)
  ultimately have q: "req_operation (read_write_request ?v x) = 1" "unat (req_length (read_write_request ?v x)) = length w"
    "req_bytes (read_write_request ?v x) = w @ replicate (240 - length w) 0"
    by (simp_all add: read_write_request_def TERMINAL_SERVICE_WRITE_MAX_BYTES_def del: load_bytes.simps le_bytes.simps)
  then show "request_payload (?v, x) = w" by (simp add: request_payload_def)
  have "req_length (read_write_request ?v x) \<noteq> 0" "req_length (read_write_request ?v x) \<le> 240"
    using q(2) l by (auto simp: word_le_nat_alt)
  then show "well_formed_write (?v, x)"
    using q(1) assms(4) by (simp add: well_formed_write_def TERMINAL_SERVICE_RPC_OPERATION_WRITE_BUFFER_def TERMINAL_SERVICE_WRITE_MAX_BYTES_def)
qed

section \<open>The callback and the pending call\<close>

text \<open>What the log calls of the current thread leave alone.\<close>

definition only_logged :: "user_runtime \<Rightarrow> user_runtime \<Rightarrow> bool" where
  "only_logged rt0 rt \<longleftrightarrow> m_channels rt = m_channels rt0 \<and> m_current_thread rt = m_current_thread rt0 \<and>
     (\<forall>u. Some u \<noteq> m_current_thread rt0 \<longrightarrow> get_thread rt u = get_thread rt0 u) \<and>
     (\<forall>u. get_thread rt u = None \<longleftrightarrow> get_thread rt0 u = None) \<and>
     (\<forall>u. get_process_context rt u = get_process_context rt0 u)"

lemma kernel_console_only_logs:
  assumes "kernel_console arch sc a buffer rt = (status, rt')"
  shows "only_logged rt rt'"
proof -
  have "rt' = (rt\<lparr>host_memory := m\<rparr>) \<or> (\<exists>t f msgs. m_current_thread rt = Some t \<and> (\<forall>th. m_process (f th) = m_process th) \<and>
      rt' = (update_thread t f (rt\<lparr>host_memory := m\<rparr>))\<lparr>debug_messages := msgs\<rparr>)"
    if "m = store_user (current_address_space rt) (host_memory rt) a buffer" for m
  proof -
    have *: "update_thread t f (rt\<lparr>host_memory := m\<rparr>) =
        (update_thread t f (rt\<lparr>host_memory := m\<rparr>))\<lparr>debug_messages := debug_messages rt\<rparr>" for t f
      by (simp add: update_thread_def)
    have p: "m_process (set_user_context c th) = m_process th" for c th by (simp add: thread_op_defs)
    show ?thesis
      using assms unfolding kernel_console_def ringos_debug_log_def kernel_stub_def dispatch_syscall_def syscall_debug_log_def that[symmetric]
      by (auto simp: Let_def debug_log_def split: if_splits option.splits prod.splits intro!: p *)
  qed
  then show ?thesis
    by (auto simp: only_logged_def get_process_context_def get_thread_def update_thread_def get_by_index_update_slot
        split: option.splits if_splits)
qed

lemma only_logged_refl: "only_logged rt rt"
  by (simp add: only_logged_def)

lemma only_logged_trans: "only_logged rt0 rt \<Longrightarrow> only_logged rt rt' \<Longrightarrow> only_logged rt0 rt'"
  by (simp add: only_logged_def)

interpretation terminal_in_call: terminal_console "kernel_console arch sc a" "\<lambda>rt. console_ready a 96 rt \<and> only_logged rt0 rt"
    debug_messages 96 95 for arch sc a rt0
proof unfold_locales
  fix rt and buffer :: "u8 list"
  assume r: "console_ready a 96 rt \<and> only_logged rt0 rt" and a: "length buffer \<le> 96" "0 \<in> set buffer"
  have k: "only_logged rt0 rt'" if "kernel_console arch sc a buffer rt = (status, rt')" for status rt'
    using only_logged_trans kernel_console_only_logs[OF that] r by blast
  show "\<exists>rt'. kernel_console arch sc a buffer rt = (STATUS_OK, rt') \<and> (console_ready a 96 rt' \<and> only_logged rt0 rt') \<and>
      debug_messages rt' = debug_messages rt @ [c_string buffer]" if "length (c_string buffer) \<le> 95"
    using kernel_lines.accepts[of a 96 rt buffer arch sc] k r a that by blast
  show "\<exists>rt' status. kernel_console arch sc a buffer rt = (status, rt') \<and> status \<noteq> STATUS_OK \<and>
      (console_ready a 96 rt' \<and> only_logged rt0 rt') \<and> debug_messages rt' = debug_messages rt" if "95 < length (c_string buffer)"
    using kernel_lines.refuses[of a 96 rt buffer arch sc] k r a that by blast
qed simp_all

section \<open>The calls around it\<close>

lemma begin_call_log: "debug_messages (begin_call c a b rt) = debug_messages rt"
  by (auto simp: begin_call_def set_endpoint_busy_def update_endpoint_def update_channel_def split: option.split)

lemma prepare_server_log: "prepare_server_thread arch ep b p ra n rt = (s, rt') \<Longrightarrow> debug_messages rt' = debug_messages rt"
  by (erule prepare_server_thread_cases) (simp_all add: update_thread_def)

lemma rpc_call_log:
  assumes "rpc_call arch a p sc rt = (STATUS_OK, rt')"
  shows "debug_messages rt' = debug_messages rt"
  using assms
  by (cases rule: rpc_call_cases) (auto simp: set_current_keeps update_thread_def begin_call_log dest!: prepare_server_log split: if_splits)

lemma complete_call_log: "debug_messages (snd (complete_call arch b status rt)) = debug_messages rt"
  by (auto simp: complete_call_def finish_call_def cancel_call_def set_endpoint_busy_def update_endpoint_def update_channel_def
      update_thread_def set_current_keeps Let_def split: option.split)

text \<open>A server that had no call before has exactly the new one.\<close>

lemma pending_after_call:
  assumes idle: "find_pending_channel_by_server_thread rt b = None"
    and c: "get_channel rt' c = Some ch" "m_pending_server_thread ch = Some b"
    and others: "\<And>d. d \<noteq> c \<Longrightarrow> get_channel rt' d = get_channel rt d"
  shows "find_pending_channel_by_server_thread rt' b = Some c"
proof -
  have "\<not> has_pending_server b (m_items (m_channels rt') ! j)" if "j < c" for j
  proof
    assume h: "has_pending_server b (m_items (m_channels rt') ! j)"
    have "j < length (m_items (m_channels rt'))"
      using c(1) that by (auto simp: get_channel_def get_by_index_def split: if_splits)
    then obtain ch' where "get_channel rt' j = Some ch'" "m_pending_server_thread ch' = Some b"
      using h by (auto simp: has_pending_server_def get_channel_def get_by_index_def split: option.splits)
    then show False using others[of j] that idle by (auto simp: find_pending_None_iff)
  qed
  then show ?thesis
    using c by (auto simp: find_pending_channel_by_server_thread_def find_index_Some_iff has_pending_server_def get_channel_def
        get_by_index_def split: if_splits)
qed

lemma client_write_calls:
  assumes "client_write arch sc handle request rt = (STATUS_OK, rt1)" and "m_current_thread rt = Some a" and "get_process_context rt a = Some p"
  obtains sc' where "rpc_call arch a p sc' (update_thread a (set_user_context (make_thread_context_from_syscall sc')) rt) = (STATUS_OK, rt1)"
    and "sc_argument0 sc' = handle" and "sc_argument1 sc' = request" and "sc_argument2 sc' = 256" and "request \<noteq> 0"
proof -
  let ?sc = "sc\<lparr>sc_syscall_number := SYSCALL_RPC_CALL, sc_argument0 := handle, sc_argument1 := request, sc_argument2 := 256\<rparr>"
  have "\<not> (handle = 0 \<or> request = 0)" and d: "dispatch_syscall arch ?sc rt = (STATUS_OK, rt1)"
    using assms(1) by (auto simp: client_write_def ringos_rpc_call_def kernel_stub_def argument_or_def SIZEOF_TERMINAL_SERVICE_WRITE_REQUEST_def
        SDK_RPC_MAX_REQUEST_SIZE_def RINGOS_HANDLE_INVALID_def status_defs split: if_splits)
  moreover have "get_process_context (update_thread a (set_user_context c) rt) a = Some p" for c
    using assms(3) by (simp add: get_process_context_def frame_simps split: option.splits)
  ultimately show thesis
    using that[of ?sc] assms(2,3) by (simp add: dispatch_syscall_def rpc_dispatch_syscall_def syscall_defs Let_def)
qed

section \<open>From the call to the completion\<close>

text \<open>The line buffer of the service is mapped in its process.\<close>

definition line_buffer_mapped :: "address_space \<Rightarrow> u64 \<Rightarrow> bool" where
  "line_buffer_mapped asp a \<longleftrightarrow> a \<noteq> 0 \<and> (\<forall>i < 96. xlate asp (a + of_nat i) \<noteq> None) \<and> unaliased asp a 96"

lemma rpc_call_processes:
  assumes "rpc_call arch a p sc rt = (STATUS_OK, rt')"
  shows "get_process rt' = get_process rt"
proof -
  have 1: "get_process rt1 = get_process rt" if "prepare_server_thread arch ep b p ra n rt = (s, rt1)" for ep b ra n s rt1
    using that by (rule prepare_server_thread_cases) (simp_all add: frame_simps)
  have 2: "get_process (begin_call c a b rt) = get_process rt" for c b rt
    by (auto simp: begin_call_def set_endpoint_busy_def frame_simps split: option.split)
  from assms show ?thesis
    by (cases rule: rpc_call_cases) (auto simp: frame_simps 2 dest!: 1 split: if_splits)
qed

lemma client_write_delivers:
  assumes inv: "runtime_inv rt" and cur: "m_current_thread rt = Some a" "get_process_context rt a = Some p"
    and call: "client_write arch sc handle request rt = (STATUS_OK, rt1)"
    and srv: "m_current_thread rt1 = Some b" "b \<noteq> a" "get_process_context rt b = Some q"
      "find_pending_channel_by_server_thread rt b = None"
    and x: "x = request_address rt b 256"
    and req: "user_range (get_address_space_info rt p) request 256 bs (host_memory rt)"
    and mem: "unaliased (get_address_space_info rt q) (x - 8) 264"
      "host_range (get_address_space_info rt p) request 256 \<inter> host_range (get_address_space_info rt q) (x - 8) 264 = {}"
  obtains c ch th tha thb where "user_range (get_address_space_info rt q) x 256 bs (host_memory rt1)"
    and "get_thread rt1 b = Some th" and "resume_argument0 (m_resume_state th) = x" and "resume_argument1 (m_resume_state th) = 256"
    and "get_process_context rt1 b = Some q" and "get_address_space_info rt1 q = get_address_space_info rt q"
    and "find_pending_channel_by_server_thread rt1 b = Some c" and "get_channel rt1 c = Some ch" and "m_pending_client_thread ch = Some a"
    and "get_thread rt1 a = Some tha" and "debug_messages rt1 = debug_messages rt"
    and "get_thread rt b = Some thb" and "m_saved_server_context ch = m_user_context thb"
proof -
  obtain sc' where rc: "rpc_call arch a p sc' (update_thread a (set_user_context (make_thread_context_from_syscall sc')) rt) = (STATUS_OK, rt1)"
    and args: "sc_argument0 sc' = handle" "sc_argument1 sc' = request" "sc_argument2 sc' = 256"
    by (rule client_write_calls[OF call cur])
  define rt0 where "rt0 = update_thread a (set_user_context (make_thread_context_from_syscall sc')) rt"
  note rc = rc[folded rt0_def]
  have inv0: "runtime_inv rt0" unfolding rt0_def by (rule inv_update_thread[OF inv]) (simp_all add: thread_op_defs)
  then have wf0: "runtime_wf rt0" by (simp add: runtime_inv_def)
  have cur0: "m_current_thread rt0 = Some a" using cur by (simp add: rt0_def frame_simps)
  have asp0: "get_address_space_info rt0 = get_address_space_info rt" "host_memory rt0 = host_memory rt" "debug_messages rt0 = debug_messages rt"
    by (auto simp: rt0_def get_address_space_info_def frame_simps update_thread_def get_process_def)
  have b0: "get_process_context rt0 b = Some q" "request_address rt0 b 256 = x" "get_thread rt0 b = get_thread rt b"
    using srv x by (simp_all add: rt0_def get_process_context_def request_address_def user_stack_pointer_def frame_simps)
  have idle0: "find_pending_channel_by_server_thread rt0 b = None"
    using srv(4) by (simp add: rt0_def find_pending_channel_by_server_thread_def update_thread_def)
  have un: "unat (256 :: u64) = 256" by simp
  have del: "user_range (get_address_space_info rt q) x 256 bs (host_memory rt1)"
    and res: "\<exists>th. get_thread rt1 b = Some th \<and> resume_argument0 (m_resume_state th) = x \<and> resume_argument1 (m_resume_state th) = 256"
    using call_delivers[OF inv0 cur0 rc srv(1) b0(1), of x 256 bs] req mem by (auto simp: args b0 asp0)
  have proc: "get_address_space_info rt1 q = get_address_space_info rt q"
    using rpc_call_processes[OF rc] asp0(1) by (simp add: get_address_space_info_def fun_eq_iff) 
  show thesis
  proof (rule rpc_call_ok[OF wf0 cur0 rc])
    fix c ch e b' th m
    assume c: "get_channel rt1 c = Some (open_call a b' th ch)" and cb: "m_current_thread rt1 = Some b'"
      and th: "get_thread rt0 b' = Some th"
      and th1: "get_thread rt1 b' = Some (set_state (if a \<noteq> b' \<and> m_state th = USER_THREAD_STATE_READY
           then USER_THREAD_STATE_RUNNING else m_state th)
        (redirect arch (m_endpoints rt0 ! e) (request_address rt0 b' (sc_argument2 sc')) (sc_argument2 sc') th))"
      and blk: "a \<noteq> b' \<Longrightarrow> thread_state rt1 a = USER_THREAD_STATE_BLOCKED"
      and oth: "\<And>d. d \<noteq> c \<Longrightarrow> get_channel rt1 d = get_channel rt0 d"
    have b: "b' = b" using cb srv(1) by simp
    have oc: "m_pending_server_thread (open_call a b th ch) = Some b" "m_pending_client_thread (open_call a b th ch) = Some a"
      "m_saved_server_context (open_call a b th ch) = m_user_context th" by (simp_all add: open_call_def)
    have pend: "find_pending_channel_by_server_thread rt1 b = Some c"
      using pending_after_call[OF idle0 c[unfolded b] oc(1) oth] by simp
    have pc: "get_process_context rt1 b = Some q"
      using th1 th b b0(1) by (simp add: get_process_context_def set_state_def redirect_def prepare_rpc_resume_def)
    obtain tha where "get_thread rt1 a = Some tha"
      using blk srv(2) b by (auto simp: thread_state_def split: option.splits)
    then show thesis using that[OF del] res pc proc pend c b oc rpc_call_log[OF rc] asp0(3) th b0(3) by metis
  qed
qed

lemma complete_after_logs:
  assumes k: "only_logged rt1 rt2" and cur: "m_current_thread rt1 = Some b" "get_process_context rt1 b = Some q" "a \<noteq> b"
    and ch: "find_pending_channel_by_server_thread rt1 b = Some c" "get_channel rt1 c = Some ch" "m_pending_client_thread ch = Some a"
    and th: "get_thread rt1 a = Some tha" "get_thread rt1 b \<noteq> None"
  obtains rt3 tha' thb' where "complete_trampoline arch sc status rt2 = (STATUS_OK, rt3)" and "m_current_thread rt3 = Some a"
    and "get_thread rt3 a = Some tha'" and "resume_status_code (m_resume_state tha') = status"
    and "m_state tha' = USER_THREAD_STATE_RUNNING" and "debug_messages rt3 = debug_messages rt2"
    and "get_thread rt3 b = Some thb'" and "m_user_context thb' = m_saved_server_context ch"
proof -
  define sc' where "sc' = sc\<lparr>sc_syscall_number := SYSCALL_RPC_COMPLETE, sc_argument0 := scast status, sc_argument1 := sc_argument1 sc,
    sc_argument2 := sc_argument2 sc\<rparr>"
  define rt' where "rt' = update_thread b (set_user_context (make_thread_context_from_syscall sc')) rt2"
  have f: "m_channels rt2 = m_channels rt1" "m_current_thread rt2 = Some b" "get_process_context rt2 b = Some q" "get_thread rt2 a = Some tha"
    "get_thread rt2 b \<noteq> None"
    using k cur th by (auto simp: only_logged_def)
  have "get_process_context rt' b = Some q" using f(3) by (simp add: rt'_def get_process_context_def frame_simps split: option.splits)
  then have d: "complete_trampoline arch sc status rt2 = complete_call arch b (ucast (scast status :: u64)) rt'"
    using f(2,3) by (simp add: complete_trampoline_def kernel_stub_def argument_or_def dispatch_syscall_def rpc_dispatch_syscall_def
        syscall_defs Let_def rt'_def sc'_def)
  have st: "ucast (scast status :: u64) = status" by (rule bit_word_eqI) (auto simp: bit_simps)
  obtain thb where thb: "get_thread rt' b = Some thb" using f(5) by (auto simp: rt'_def frame_simps)
  have p': "find_pending_channel_by_server_thread rt' b = Some c" "get_channel rt' c = Some ch" "get_thread rt' a = Some tha"
    using ch f cur(3) by (simp_all add: rt'_def find_pending_channel_by_server_thread_def get_channel_def update_thread_def frame_simps
        get_thread_def get_by_index_update_slot)
  obtain r rt3 where c: "complete_call arch b status rt' = (r, rt3)" by force
  note C = complete_call_cross[OF p'(1,2) ch(3) cur(3) p'(3) thb c]
  have log: "debug_messages rt3 = debug_messages rt2"
    using complete_call_log[of arch b status rt'] c by (simp add: rt'_def update_thread_def)
  show thesis
    by (rule that[OF _ C(2,3) _ _ log C(4)])
      (use d c C(1) st in \<open>auto simp: thread_op_defs Let_def restore_server_def split: target_arch.split\<close>)
qed

section \<open>Properties\<close>

text \<open>
  C16. A write through the terminal service, end to end. The client \<open>a\<close> calls the service with a request that holds the
  bytes \<open>w\<close>, and the call begins; the service thread \<open>b\<close> was not serving anyone, its stack does not alias the
  client's request, and its line buffer is mapped. Then the callback finds the bytes \<open>w\<close> and returns
  STATUS_OK, the completion succeeds, the log has grown by exactly the lines that \<open>w\<close> finishes behind the
  stream sent so far, the client runs again with STATUS_OK, and the service is back in its own code.
\<close>

theorem terminal_write_end_to_end:
  assumes "runtime_inv rt" and "m_current_thread rt = Some a" "get_process_context rt a = Some p"
    and "client_write arch sc handle request rt = (STATUS_OK, rt1)"
    and "m_current_thread rt1 = Some b" "b \<noteq> a" "get_process_context rt b = Some q" "find_pending_channel_by_server_thread rt b = None"
    and "user_range (get_address_space_info rt p) request 256 (write_request_bytes w) (host_memory rt)"
    and "0 < length w" "length w \<le> 240" and "x = request_address rt b 256" "x \<noteq> 0"
    and "unaliased (get_address_space_info rt q) (x - 8) 264"
    and "host_range (get_address_space_info rt p) request 256 \<inter> host_range (get_address_space_info rt q) (x - 8) 264 = {}"
    and "line_buffer_mapped (get_address_space_info rt q) line_address" and "shows_stream t s"
  shows "\<exists>t' rt2 rt3 new tha thb thb'.
    terminal_callback arch sc_log line_address (t, rt1) = Some (STATUS_OK, t', rt2) \<and> shows_stream t' (s @ w) \<and>
    complete_trampoline arch sc_done STATUS_OK rt2 = (STATUS_OK, rt3) \<and>
    terminal_lines (s @ w) = terminal_lines s @ new \<and> debug_messages rt3 = debug_messages rt @ new \<and>
    m_current_thread rt3 = Some a \<and> get_thread rt3 a = Some tha \<and> m_state tha = USER_THREAD_STATE_RUNNING \<and>
    resume_status_code (m_resume_state tha) = STATUS_OK \<and>
    get_thread rt b = Some thb \<and> get_thread rt3 b = Some thb' \<and> m_user_context thb' = m_user_context thb"
proof -
  obtain c ch th tha thb where d: "user_range (get_address_space_info rt q) x 256 (write_request_bytes w) (host_memory rt1)"
    "get_thread rt1 b = Some th" "resume_argument0 (m_resume_state th) = x" "resume_argument1 (m_resume_state th) = 256"
    and pc: "get_process_context rt1 b = Some q" and asp: "get_address_space_info rt1 q = get_address_space_info rt q"
    and ch: "find_pending_channel_by_server_thread rt1 b = Some c" "get_channel rt1 c = Some ch" "m_pending_client_thread ch = Some a"
    and tha: "get_thread rt1 a = Some tha" and log1: "debug_messages rt1 = debug_messages rt"
    and thb: "get_thread rt b = Some thb" "m_saved_server_context ch = m_user_context thb"
    by (rule client_write_delivers[OF assms(1-8) assms(12) assms(9) assms(14,15)])
  let ?v = "user_view (get_address_space_info rt q) (host_memory rt1)"
  have cas: "current_address_space rt1 = get_address_space_info rt q" using assms(5) pc asp by (simp add: current_address_space_def)
  have ready: "console_ready line_address 96 rt1 \<and> only_logged rt1 rt1"
    using assms(1,5,16) pc cas get_address_space_wf[of rt q]
    by (auto simp: console_ready_def line_buffer_mapped_def runtime_inv_def only_logged_refl)
  obtain t' rt2 new where w: "terminal_write_bytes (kernel_console arch sc_log line_address) w (t, rt1) = (STATUS_OK, t', rt2)"
    "only_logged rt1 rt2" "shows_stream t' (s @ w)" "terminal_lines (s @ w) = terminal_lines s @ new"
    "debug_messages rt2 = debug_messages rt1 @ new"
    using terminal_in_call.write_bytes[OF ready assms(17), of arch sc_log w] by blast
  note R = write_request_read[OF d(1) assms(10,11,13)]
  have cb: "terminal_callback arch sc_log line_address (t, rt1) = Some (STATUS_OK, t', rt2)"
    using well_formed_handled[OF R(1), of "kernel_console arch sc_log line_address" "(t, rt1)"] w(1) assms(5) d(2-4) cas R(2)
    by (simp add: terminal_callback_def SIZEOF_TERMINAL_SERVICE_WRITE_REQUEST_def)
  obtain rt3 tha' thb' where "complete_trampoline arch sc_done STATUS_OK rt2 = (STATUS_OK, rt3)" "m_current_thread rt3 = Some a"
    "get_thread rt3 a = Some tha'" "resume_status_code (m_resume_state tha') = STATUS_OK" "m_state tha' = USER_THREAD_STATE_RUNNING"
    "debug_messages rt3 = debug_messages rt2" "get_thread rt3 b = Some thb'" "m_user_context thb' = m_saved_server_context ch"
    by (rule complete_after_logs[OF w(2) assms(5) pc assms(6)[symmetric] ch tha, of arch sc_done STATUS_OK]) (use d(2) in auto)
  with cb w log1 thb show ?thesis by auto
qed

section \<open>A system with a client and the service\<close>

text \<open>
  Two processes with one kilobyte at \<open>0x1000\<close>: the client's request is at its start, the service has its stack below
  \<open>0x1310\<close>, its line buffer at \<open>0x1320\<close> and its code behind it.
\<close>

definition service_asp :: address_space where
  "service_asp = the (add_address_space_mapping (empty_address_space 0) 0x1000 0x8000 0x400)"

definition service_process :: "u32 \<Rightarrow> handle_t \<Rightarrow> process" where
  "service_process k h = boot_process (example_configuration\<lparr>cfg_address_space := service_asp\<rparr>) k h"

definition service_thread :: "process_ref \<Rightarrow> user_thread_state \<Rightarrow> u32 \<Rightarrow> handle_t \<Rightarrow> thread" where
  "service_thread p s k h = set_state s (boot_thread p (empty_thread_context\<lparr>ctx_stack_pointer := 0x1310\<rparr>) k h)"

definition service_endpoint :: rpc_endpoint where
  "service_endpoint = example_endpoint\<lparr>m_callback_address := 0x1390, m_completion_address := 0x1398\<rparr>"

definition service_runtime :: user_runtime where
  "service_runtime =
     (boot_runtime (store_bytes (\<lambda>_. 0) 0x8000 (write_request_bytes [72, 105, 10])) 0
        [Some (service_process 1 1), Some (service_process 2 3), None, None]
        [Some (service_thread 0 USER_THREAD_STATE_RUNNING 1 2),
         Some (service_thread 1 USER_THREAD_STATE_READY 2 4), None, None] 3 6)
       \<lparr>m_endpoints := service_endpoint # replicate 7 empty_endpoint,
        m_channels := \<lparr>m_items = Some example_channel # replicate 7 None, m_next_object_id = 2, m_bound = True\<rparr>,
        m_current_thread := Some 0\<rparr>"

lemma service_asp_add: "add_address_space_mapping (empty_address_space 0) 0x1000 0x8000 0x400 = Some service_asp"
proof -
  have "\<exists>asp. add_address_space_mapping (empty_address_space 0) 0x1000 0x8000 0x400 = Some asp"
    by (simp add: add_address_space_mapping_def is_valid_address_range_def empty_address_space_def
        live_mappings_def USER_RUNTIME_MAX_ADDRESS_SPACE_MAPPINGS_def)
  then show ?thesis by (auto simp: service_asp_def)
qed

lemma service_asp_wf: "wf_address_space service_asp"
  by (rule add_address_space_mapping_wf[OF wf_empty_address_space service_asp_add])

lemma service_xlate: "i < 0x400 \<Longrightarrow> xlate service_asp (0x1000 + of_nat i) = Some (0x8000 + of_nat i)"
proof -
  assume i: "i < 0x400"
  have "unat (of_nat i :: u64) = i" using i by (intro unat_of_nat_u64) simp
  then have "unat (0x1000 + of_nat i :: u64) = 0x1000 + i" using i by (subst unat_add_no_wrap) simp_all
  then show ?thesis
    using i add_address_space_mapping_SomeD(1)[OF service_asp_add]
    by (simp add: xlate_def user_bytes_def empty_address_space_def live_mappings_def)
qed

lemma service_xlate_at:
  assumes "k + i < 0x400"
  shows "xlate service_asp (0x1000 + of_nat k + of_nat i) = Some (0x8000 + of_nat (k + i))"
  using service_xlate[OF assms] by (simp add: add.assoc)

lemma service_host_inj:
  assumes "i < 0x400" "j < 0x400" "(0x8000 + of_nat i :: u64) = 0x8000 + of_nat j"
  shows "i = j"
proof -
  have "unat (of_nat i :: u64) = i" "unat (of_nat j :: u64) = j" using assms(1,2) by (simp_all add: unat_of_nat_u64)
  then show ?thesis using assms(3) by (metis add_left_cancel)
qed

lemma service_unaliased: "k + n \<le> 0x400 \<Longrightarrow> unaliased service_asp (0x1000 + of_nat k) n"
proof -
  assume kn: "k + n \<le> 0x400"
  show ?thesis
    unfolding unaliased_def
  proof (intro allI impI)
    fix i j h
    assume "i < n" "j < n" "xlate service_asp (0x1000 + of_nat k + of_nat i) = Some h" "xlate service_asp (0x1000 + of_nat k + of_nat j) = Some h"
    then have "(0x8000 + of_nat (k + i) :: u64) = 0x8000 + of_nat (k + j)" using kn by (simp add: service_xlate_at del: of_nat_add)
    then have "k + i = k + j" using kn \<open>i < n\<close> \<open>j < n\<close> by (intro service_host_inj) simp_all
    then show "i = j" by simp
  qed
qed

lemma service_disjoint:
  assumes "k + n \<le> l" "l + n' \<le> 0x400"
  shows "host_range service_asp (0x1000 + of_nat k) n \<inter> host_range service_asp (0x1000 + of_nat l) n' = {}"
proof (rule ccontr)
  assume "\<not> ?thesis"
  then obtain i j h where "i < n" "j < n'" "xlate service_asp (0x1000 + of_nat k + of_nat i) = Some h"
    "xlate service_asp (0x1000 + of_nat l + of_nat j) = Some h" by (auto simp: host_range_def)
  then have "(0x8000 + of_nat (k + i) :: u64) = 0x8000 + of_nat (l + j)" using assms by (simp add: service_xlate_at del: of_nat_add)
  then have "k + i = l + j" using assms \<open>i < n\<close> \<open>j < n'\<close> by (intro service_host_inj) simp_all
  then show False using assms \<open>i < n\<close> by simp
qed

lemma service_mapped: "k + n \<le> 0x400 \<Longrightarrow> as_chunks.mapped service_asp (0x1000 + of_nat k) n"
  by (auto simp: as_chunks.mapped_def service_xlate_at)

lemma service_runtime_sel [simp]:
  "get_thread service_runtime t = (if t = 0 then Some (service_thread 0 USER_THREAD_STATE_RUNNING 1 2)
     else if t = 1 then Some (service_thread 1 USER_THREAD_STATE_READY 2 4) else None)"
  "get_process service_runtime p = (if p = 0 then Some (service_process 1 1)
     else if p = 1 then Some (service_process 2 3) else None)"
  "get_channel service_runtime c = (if c = 0 then Some example_channel else None)"
  "m_endpoints service_runtime = service_endpoint # replicate 7 empty_endpoint"
  "m_current_thread service_runtime = Some 0"
  "length (m_items (m_threads service_runtime)) = 4"
  "host_memory service_runtime = store_bytes (\<lambda>_. 0) 0x8000 (write_request_bytes [72, 105, 10])"
  "m_next_handle_value service_runtime = 6" "debug_messages service_runtime = []"
  by (auto simp: service_runtime_def get_thread_def get_process_def get_channel_def get_by_index_def boot_runtime_def
      nth_Cons' runtime_reset_def rpc_runtime_reset_def g_user_runtime_def Let_def simp del: store_bytes.simps)

lemma service_sel [simp]:
  "m_state (service_thread p s k h) = s" "m_process (service_thread p s k h) = Some p"
  "ctx_stack_pointer (m_user_context (service_thread p s k h)) = 0x1310"
  "m_address_space (service_process k h) = service_asp"
  "m_owner_process service_endpoint = Some 1" "m_owner_thread service_endpoint = Some 1" "m_callback_address service_endpoint = 0x1390"
  "m_completion_address service_endpoint = 0x1398" "m_is_in_use service_endpoint" "\<not> m_is_busy service_endpoint"
  by (simp_all add: service_thread_def service_process_def boot_thread_def boot_process_def example_configuration_def service_endpoint_def
      example_endpoint_def set_state_def acquire_process_reference_def make_thread_def make_process_def)

lemma service_runtime_inv: "runtime_inv service_runtime"
proof -
  have wf: "runtime_wf service_runtime"
    by (auto simp: runtime_wf_def USER_RUNTIME_MAX_THREADS_def USER_RUNTIME_MAX_RPC_ENDPOINTS_def wf_thread_def
        wf_channel_def example_channel_def make_rpc_channel_def wf_endpoint_def service_endpoint_def example_endpoint_def empty_endpoint_def
        RPC_ENDPOINT_NAME_BUFFER_SIZE_def RINGOS_RPC_ENDPOINT_NAME_MAX_LENGTH_def get_process_context_def
        in_set_replicate service_asp_wf split: if_splits)
  have ts: "thread_state service_runtime t = (if t = 0 then USER_THREAD_STATE_RUNNING
      else if t = 1 then USER_THREAD_STATE_READY else USER_THREAD_STATE_EMPTY)" for t
    by (simp add: thread_state_def)
  have idle: "calls (abs_sched service_runtime) c = None" for c
    by (simp add: example_channel_def make_rpc_channel_def)
  have "sched_inv (abs_sched service_runtime)"
    by (rule sched_invI) (auto simp: ts idle waits_in_def simp del: abs_sched_sel(3) split: if_splits)
  moreover have "get_by_index (m_channels service_runtime) c = (if c = 0 then Some example_channel else None)" for c
    using service_runtime_sel(3)[of c] by (simp add: get_channel_def)
  then have "channel_handles_ok service_runtime"
    by (auto simp: channel_handles_ok_def pool_invar_def example_channel_def make_rpc_channel_def split: if_splits)
  ultimately show ?thesis using wf by (simp add: runtime_inv_def)
qed

lemma service_prepare:
  assumes asp: "get_address_space_info rt 0 = service_asp" "get_address_space_info rt 1 = service_asp" and sp: "user_stack_pointer rt 1 = 0x1310"
  shows "\<exists>rt1. prepare_server_thread AARCH64 service_endpoint 1 0 0x1000 256 rt = (STATUS_OK, rt1)"
proof -
  have al: "align_down 0x1210 16 = (0x1210 :: u64)" by (simp add: align_down_def)
  have v: "validate_user_range rt 1 0x1390 1" "validate_user_range rt 1 0x1398 1"
    using asp(2) service_mapped[of "0x390" 1] service_mapped[of "0x398" 1]
    by (simp_all add: validate_user_range_def validate_address_space_range_def validate_range_loop_mapped[OF service_asp_wf])
  obtain s m where c: "copy_between_loop service_asp service_asp (host_memory rt) 0x1000 0x1210 256 = (s, m)" by force
  have "unat (256 :: u64) = 256" by simp
  then have "s = STATUS_OK"
    using copy_between_status[OF service_asp_wf service_asp_wf, of "host_memory rt" "0x1000" "0x1210" 256]
      service_mapped[of 0 256] service_mapped[of "0x210" 256] unfolding c by simp
  then show ?thesis
    using c v asp(2) by (simp add: prepare_server_thread_def prepare_server_thread_arm64_def sp[unfolded One_nat_def] Let_def
        RINGOS_RPC_MAX_REQUEST_SIZE_def copy_request_def copy_between_user_processes_def asp al)
qed

lemma service_call: "\<exists>rt1. client_write AARCH64 example_call 5 0x1000 service_runtime = (STATUS_OK, rt1) \<and> m_current_thread rt1 = Some 1"
proof -
  let ?sc = "example_call\<lparr>sc_syscall_number := SYSCALL_RPC_CALL, sc_argument0 := 5, sc_argument1 := 0x1000, sc_argument2 := 256\<rparr>"
  define rt where "rt = update_thread 0 (set_user_context (make_thread_context_from_syscall ?sc)) service_runtime"
  have s: "get_address_space_info rt 0 = service_asp" "get_address_space_info rt 1 = service_asp" "user_stack_pointer rt 1 = 0x1310"
    "get_channel rt 0 = Some example_channel" "m_endpoints rt ! 0 = service_endpoint" "thread_state rt 1 = USER_THREAD_STATE_READY"
    "get_process_context rt 0 = Some 0" "m_current_thread rt = Some 0"
    by (simp_all add: rt_def get_address_space_info_def user_stack_pointer_def thread_state_def get_process_context_def frame_simps
        set_user_context_def sync_resume_to_user_context_def)
  have f: "find_channel_by_handle rt 5 = Some 0"
    by (simp add: rt_def find_channel_by_handle_def find_by_handle_def service_runtime_def slot_has_handle_def update_thread_def
        example_channel_def make_rpc_channel_def)
  obtain rt1 where p: "prepare_server_thread AARCH64 service_endpoint 1 0 0x1000 256 rt = (STATUS_OK, rt1)"
    using service_prepare[OF s(1-3)] by blast
  obtain rt2 where c: "rpc_call AARCH64 0 0 ?sc rt = (STATUS_OK, rt2)" "m_current_thread rt2 = Some 1"
    using f p s by (simp add: rpc_call_def RINGOS_RPC_MAX_REQUEST_SIZE_def frame_simps)
  have "client_write AARCH64 example_call 5 0x1000 service_runtime = (STATUS_OK, rt2)"
    using c s(7) by (simp add: client_write_def ringos_rpc_call_def kernel_stub_def argument_or_def SIZEOF_TERMINAL_SERVICE_WRITE_REQUEST_def
        SDK_RPC_MAX_REQUEST_SIZE_def RINGOS_HANDLE_INVALID_def dispatch_syscall_def rpc_dispatch_syscall_def syscall_defs Let_def
        get_process_context_def rt_def)
  then show ?thesis using c(2) by blast
qed

lemma service_request: "user_range service_asp 0x1000 256 (write_request_bytes [72, 105, 10]) (host_memory service_runtime)"
proof -
  have l: "length (write_request_bytes [72, 105, 10]) = 256"
    by (simp add: write_request_bytes_def length_le_bytes TERMINAL_SERVICE_WRITE_MAX_BYTES_def)
  have "store_bytes (\<lambda>_. 0) 0x8000 (write_request_bytes [72, 105, 10]) (0x8000 + of_nat i) = write_request_bytes [72, 105, 10] ! i"
    if "i < 256" for i
    using that store_bytes_at[of "write_request_bytes [72, 105, 10]" "\<lambda>_. 0" "0x8000" "0x8000 + of_nat i"] offset_add[of i "0x8000"] l
    by (simp del: store_bytes.simps)
  then show ?thesis using l by (simp add: user_range_def service_xlate del: store_bytes.simps)
qed

theorem terminal_write_end_to_end_witness:
  "\<exists>rt1 rt2 rt3 t'. client_write AARCH64 example_call 5 0x1000 service_runtime = (STATUS_OK, rt1) \<and>
     terminal_callback AARCH64 example_call 0x1320 (initial_terminal, rt1) = Some (STATUS_OK, t', rt2) \<and>
     complete_trampoline AARCH64 example_call STATUS_OK rt2 = (STATUS_OK, rt3) \<and>
     debug_messages rt3 = [[72, 105]] \<and> m_current_thread rt3 = Some 0"
proof -
  obtain rt1 where c: "client_write AARCH64 example_call 5 0x1000 service_runtime = (STATUS_OK, rt1)" "m_current_thread rt1 = Some 1"
    using service_call by blast
  have asp: "get_address_space_info service_runtime 0 = service_asp" "get_address_space_info service_runtime 1 = service_asp"
    by (simp_all add: get_address_space_info_def)
  have x: "0x1210 = request_address service_runtime 1 256" by (simp add: request_address_def user_stack_pointer_def align_down_def)
  have idle: "find_pending_channel_by_server_thread service_runtime 1 = None"
    by (auto simp: find_pending_None_iff example_channel_def make_rpc_channel_def split: if_splits)
  have m: "unaliased service_asp (0x1210 - 8) 264" "host_range service_asp 0x1000 256 \<inter> host_range service_asp (0x1210 - 8) 264 = {}"
    "line_buffer_mapped service_asp 0x1320"
    using service_unaliased[of "0x208" 264] service_disjoint[of 0 256 "0x208" 264] service_unaliased[of "0x320" 96]
      service_xlate_at[of "0x320"] by (simp_all add: line_buffer_mapped_def)
  have l: "terminal_lines [72, 105, 10] = [[72, 105]]"
    by (simp add: terminal_lines_def printable_def pieces_short)
  have "get_process_context service_runtime 0 = Some 0" "get_process_context service_runtime 1 = Some 1"
    by (simp_all add: get_process_context_def)
  with terminal_write_end_to_end[where rt = service_runtime and a = 0 and p = 0 and b = 1 and q = 1 and w = "[72, 105, 10]" and s = "[]" and
      x = "0x1210" and line_address = "0x1320" and t = initial_terminal and sc_log = example_call and sc_done = example_call,
      OF service_runtime_inv _ _ c(1) c(2)] c(1) idle x m l service_request initial_terminal_shows
  show ?thesis by (simp add: asp asp(2)[unfolded One_nat_def] del: service_runtime_sel(7)) blast
qed

end
