(* ===== verification/User_Libc.thy ===== *)
theory User_Libc
  imports User_Sdk "HOL-Library.Signed_Division"
begin

text \<open>
  The C library that user programs link, \<open>user/libc/src\<close>, without its formatted output: the memory
  and string functions, integer arithmetic, the allocator that always refuses, and the end of a program with
  its exit handlers; and the start-up code that calls it. Memory is the program's own view of its bytes.
\<close>

section \<open>Memory and strings\<close>

fun libc_memcmp :: "hmem \<Rightarrow> u64 \<Rightarrow> u64 \<Rightarrow> nat \<Rightarrow> i32" where
  "libc_memcmp m left right 0 = 0"
| "libc_memcmp m left right (Suc len) =
     (if m left \<noteq> m right then ucast (m left) - ucast (m right) else libc_memcmp m (left + 1) (right + 1) len)"

text \<open>The ascending loop is the one of the kernel's \<open>memcpy\<close>, which has the same body.\<close>

definition libc_memcpy :: "hmem \<Rightarrow> u64 \<Rightarrow> u64 \<Rightarrow> u64 \<Rightarrow> hmem \<times> u64" where
  "libc_memcpy m destination source len = (memcpy m destination source (unat len), destination)"

fun copy_descending :: "hmem \<Rightarrow> u64 \<Rightarrow> u64 \<Rightarrow> nat \<Rightarrow> hmem" where
  "copy_descending m destination source 0 = m"
| "copy_descending m destination source (Suc index) =
     copy_descending (m(destination + of_nat index := m (source + of_nat index))) destination source index"

definition libc_memmove :: "hmem \<Rightarrow> u64 \<Rightarrow> u64 \<Rightarrow> u64 \<Rightarrow> hmem \<times> u64" where
  "libc_memmove m destination source len =
     (if destination = source \<or> len = 0 then (m, destination)
      else if destination < source then (memcpy m destination source (unat len), destination)
      else (copy_descending m destination source (unat len), destination))"

definition libc_memset :: "hmem \<Rightarrow> u64 \<Rightarrow> i32 \<Rightarrow> u64 \<Rightarrow> hmem \<times> u64" where
  "libc_memset m destination v len = (memset m destination (ucast v) (unat len), destination)"

text \<open>\<open>strlen\<close> does not return when there is no zero byte.\<close>

partial_function (option) strlen_loop :: "hmem \<Rightarrow> u64 \<Rightarrow> u64 \<Rightarrow> u64 option" where
  "strlen_loop m string len = (if m (string + len) \<noteq> 0 then strlen_loop m string (len + 1) else Some len)"

definition libc_strlen :: "hmem \<Rightarrow> u64 \<Rightarrow> u64 option" where
  "libc_strlen m string = strlen_loop m string 0"

section \<open>Integers and allocation\<close>

text \<open>
  An overflow of a signed operation and a division by zero are undefined: the value is None. The type
  \<open>long\<close> has the width of the target, so \<open>labs\<close> and \<open>ldiv\<close> are for every width.
\<close>

definition signed_minimum :: "'a :: len word" where "signed_minimum = push_bit (LENGTH('a) - 1) 1"

definition signed_abs :: "'a :: len word \<Rightarrow> 'a word option" where
  "signed_abs v = (if v = signed_minimum then None else Some (if v <s 0 then - v else v))"

definition signed_div :: "'a :: len word \<Rightarrow> 'a word \<Rightarrow> ('a word \<times> 'a word) option" where
  "signed_div numerator denominator =
     (if denominator = 0 \<or> numerator = signed_minimum \<and> denominator = - 1 then None
      else Some (word_of_int (sint numerator sdiv sint denominator), word_of_int (sint numerator smod sint denominator)))"

definition libc_abs :: "i32 \<Rightarrow> i32 option" where "libc_abs = signed_abs"
definition libc_labs :: "'long :: len word \<Rightarrow> 'long word option" where "libc_labs = signed_abs"
definition libc_llabs :: "u64 \<Rightarrow> u64 option" where "libc_llabs = signed_abs"
definition libc_div :: "i32 \<Rightarrow> i32 \<Rightarrow> (i32 \<times> i32) option" where "libc_div = signed_div"
definition libc_ldiv :: "'long :: len word \<Rightarrow> 'long word \<Rightarrow> ('long word \<times> 'long word) option" where "libc_ldiv = signed_div"
definition libc_lldiv :: "u64 \<Rightarrow> u64 \<Rightarrow> (u64 \<times> u64) option" where "libc_lldiv = signed_div"

text \<open>The allocator: the pointer it returns and \<open>errno\<close>.\<close>

definition ENOMEM :: i32 where "ENOMEM = 12"

definition libc_calloc :: "u64 \<Rightarrow> u64 \<Rightarrow> i32 \<Rightarrow> u64 \<times> i32" where
  "libc_calloc count size64 errno =
     (if count \<noteq> 0 \<and> size64 > (- 1) div count then (0, ENOMEM)
      else if count = 0 \<or> size64 = 0 then (0, errno) else (0, ENOMEM))"

definition libc_malloc :: "u64 \<Rightarrow> i32 \<Rightarrow> u64 \<times> i32" where
  "libc_malloc size64 errno = (if size64 = 0 then (0, errno) else (0, ENOMEM))"

definition libc_free :: "u64 \<Rightarrow> i32 \<Rightarrow> i32" where
  "libc_free pointer errno = errno"

definition libc_realloc :: "u64 \<Rightarrow> u64 \<Rightarrow> i32 \<Rightarrow> u64 \<times> i32" where
  "libc_realloc pointer size64 errno =
     (if pointer = 0 then libc_malloc size64 errno
      else if size64 = 0 then (0, libc_free pointer errno) else (0, ENOMEM))"

section \<open>Start and end of a program\<close>

text \<open>
  The handlers and, in \<open>program_state\<close>, all else a program changes. \<open>call\<close> is the call of a function of
  the program by its address.
\<close>

definition ATEXIT_HANDLER_CAPACITY :: nat where "ATEXIT_HANDLER_CAPACITY = 64"

record 'e exit_state =
  g_atexit_handlers :: "u64 list"
  g_atexit_handler_count :: nat
  program_state :: 'e

definition initial_exit_state :: "'e \<Rightarrow> 'e exit_state" where
  "initial_exit_state e = \<lparr>g_atexit_handlers = replicate ATEXIT_HANDLER_CAPACITY 0, g_atexit_handler_count = 0, program_state = e\<rparr>"

definition libc_atexit :: "u64 \<Rightarrow> 'e exit_state \<Rightarrow> i32 \<times> 'e exit_state" where
  "libc_atexit function_address s =
     (if g_atexit_handler_count s \<ge> ATEXIT_HANDLER_CAPACITY then (- 1, s)
      else (0, s\<lparr>g_atexit_handlers := (g_atexit_handlers s)[g_atexit_handler_count s := function_address],
                 g_atexit_handler_count := g_atexit_handler_count s + 1\<rparr>))"

text \<open>A handler may register handlers, so the loop may run forever.\<close>

partial_function (option) run_atexit_handlers ::
    "(u64 \<Rightarrow> 'e exit_state \<Rightarrow> 'e exit_state) \<Rightarrow> 'e exit_state \<Rightarrow> 'e exit_state option" where
  "run_atexit_handlers call s =
     (if g_atexit_handler_count s > 0
      then (let s1 = s\<lparr>g_atexit_handler_count := g_atexit_handler_count s - 1\<rparr>;
                handler = g_atexit_handlers s1 ! g_atexit_handler_count s1 in
            run_atexit_handlers call (if handler \<noteq> 0 then call handler s1 else s1))
      else Some s)"

text \<open>\<open>exit\<close> does not return: its result is the status it passes to \<open>ringos_thread_exit\<close> and the state then.\<close>

definition libc_exit :: "(u64 \<Rightarrow> 'e exit_state \<Rightarrow> 'e exit_state) \<Rightarrow> i32 \<Rightarrow> 'e exit_state \<Rightarrow> (u64 \<times> 'e exit_state) option" where
  "libc_exit call exit_status s = map_option (\<lambda>s'. (ucast exit_status, s')) (run_atexit_handlers call s)"

definition EXIT_FAILURE :: i32 where "EXIT_FAILURE = 1"

definition libc_abort :: "(u64 \<Rightarrow> 'e exit_state \<Rightarrow> 'e exit_state) \<Rightarrow> 'e exit_state \<Rightarrow> (u64 \<times> 'e exit_state) option" where
  "libc_abort call = libc_exit call EXIT_FAILURE"

definition run_initializers :: "(u64 \<Rightarrow> 'e exit_state \<Rightarrow> 'e exit_state) \<Rightarrow> u64 list \<Rightarrow> 'e exit_state \<Rightarrow> 'e exit_state" where
  "run_initializers call initializers s = fold (\<lambda>f s. if f \<noteq> 0 then call f s else s) initializers s"

definition user_start :: "(u64 \<Rightarrow> 'e exit_state \<Rightarrow> 'e exit_state) \<Rightarrow> u64 list \<Rightarrow> u64 list \<Rightarrow>
    ('e exit_state \<Rightarrow> i32 \<times> 'e exit_state) \<Rightarrow> 'e exit_state \<Rightarrow> (u64 \<times> 'e exit_state) option" where
  "user_start call xi xc main_function s =
     (case main_function (run_initializers call xc (run_initializers call xi s)) of (status, s') \<Rightarrow> libc_exit call status s')"

section \<open>Copies and comparisons\<close>

lemma memcpy_ascending:
  "(\<And>i j. i < j \<Longrightarrow> j < n \<Longrightarrow> d + of_nat i \<noteq> s + of_nat j) \<Longrightarrow> memcpy m d s n = store_bytes m d (load_bytes m s n)"
proof (induction n arbitrary: m d s)
  case (Suc n)
  have "load_bytes (m(d := m s)) (s + 1) n = load_bytes m (s + 1) n"
  proof (rule load_bytes_cong)
    fix i assume "i < n"
    then show "(m(d := m s)) (s + 1 + of_nat i) = m (s + 1 + of_nat i)"
      using Suc.prems[of 0 "Suc i"] by (simp add: add.assoc)
  qed
  moreover have "d + 1 + of_nat i \<noteq> s + 1 + of_nat j" if "i < j" "j < n" for i j
    using Suc.prems[of "Suc i" "Suc j"] that by (simp add: add.assoc)
  ultimately show ?case using Suc.IH[of "d + 1" "s + 1" "m(d := m s)"] by (simp del: fun_upd_apply)
qed simp

lemma store_bytes_commute:
  "(\<And>i. i < length bs \<Longrightarrow> x \<noteq> a + of_nat i) \<Longrightarrow> store_bytes (m(x := v)) a bs = (store_bytes m a bs)(x := v)"
proof (induction bs arbitrary: m a)
  case (Cons b bs)
  have "x \<noteq> a" using Cons.prems[of 0] by simp
  moreover have "x \<noteq> a + 1 + of_nat i" if "i < length bs" for i using Cons.prems[of "Suc i"] that by (simp add: add.assoc)
  moreover have "(m(x := v))(a := b) = (m(a := b))(x := v)" using \<open>x \<noteq> a\<close> by (rule fun_upd_twist)
  ultimately show ?case using Cons.IH[of "a + 1" "m(a := b)"] by (simp del: fun_upd_apply)
qed simp

lemma copy_descending_store:
  "n < 2 ^ 64 \<Longrightarrow> (\<And>i j. j < i \<Longrightarrow> i < n \<Longrightarrow> d + of_nat i \<noteq> s + of_nat j) \<Longrightarrow>
    copy_descending m d s n = store_bytes m d (load_bytes m s n)"
proof (induction n arbitrary: m)
  case (Suc n)
  let ?x = "d + of_nat n" and ?v = "m (s + of_nat n)"
  have "load_bytes (m(?x := ?v)) s n = load_bytes m s n"
    by (rule load_bytes_cong) (use Suc.prems(2)[of _ n] in fastforce)
  then have "copy_descending m d s (Suc n) = store_bytes (m(?x := ?v)) d (load_bytes m s n)"
    using Suc by simp
  also have "\<dots> = (store_bytes m d (load_bytes m s n))(?x := ?v)"
  proof (rule store_bytes_commute)
    fix i assume "i < length (load_bytes m s n)"
    then have "i < n" by simp
    then have "unat (of_nat n :: u64) = n" "unat (of_nat i :: u64) = i" using Suc.prems(1) by (simp_all add: unat_of_nat_u64)
    then show "?x \<noteq> d + of_nat i" using \<open>i < n\<close> by (metis add_left_cancel less_irrefl)
  qed
  also have "\<dots> = store_bytes m d (load_bytes m s (Suc n))"
    using load_bytes_append[of m s n 1] by (simp add: store_bytes_append)
  finally show ?case .
qed simp

lemma copy_offsets:
  fixes d s :: u64
  assumes "d \<noteq> s" and "unat d + n \<le> 2 ^ 64" and "unat s + n \<le> 2 ^ 64" and "i < n" "j < n" "i \<noteq> j"
    and "d + of_nat i = s + of_nat j"
  shows "d < s \<longleftrightarrow> j < i"
proof -
  have n: "i < 2 ^ 64" "j < 2 ^ 64" using assms by simp_all
  have "unat (d + of_nat i) = unat d + i"
    using assms(2,4) unat_of_nat_u64[OF n(1)] by (subst unat_add_no_wrap) simp_all
  moreover have "unat (s + of_nat j) = unat s + j"
    using assms(3,5) unat_of_nat_u64[OF n(2)] by (subst unat_add_no_wrap) simp_all
  ultimately have "unat d + i = unat s + j" using assms(7) by simp
  then show ?thesis by (auto simp: word_less_nat_alt)
qed

lemma strlen_loop_unfold:
  "m (string + len) = 0 \<Longrightarrow> strlen_loop m string len = Some len"
  "m (string + len) \<noteq> 0 \<Longrightarrow> strlen_loop m string len = strlen_loop m string (len + 1)"
  by (simp_all add: strlen_loop.simps[of m string len])

lemma strlen_loop_finds:
  "m (string + of_nat (k + n)) = 0 \<Longrightarrow> (\<And>i. k \<le> i \<Longrightarrow> i < k + n \<Longrightarrow> m (string + of_nat i) \<noteq> 0) \<Longrightarrow>
    strlen_loop m string (of_nat k) = Some (of_nat (k + n))"
proof (induction n arbitrary: k)
  case 0
  then show ?case by (simp add: strlen_loop_unfold)
next
  case (Suc n)
  have "strlen_loop m string (of_nat k) = strlen_loop m string (of_nat (Suc k))"
    using Suc.prems(2)[of k] by (simp add: strlen_loop_unfold add.commute)
  also have "\<dots> = Some (of_nat (Suc k + n))" using Suc.prems by (intro Suc.IH) auto
  finally show ?case by simp
qed

lemma strlen_loop_zero: "strlen_loop m string len = Some n \<Longrightarrow> m (string + n) = 0"
  by (rule strlen_loop.raw_induct[of "\<lambda>m string len n. m (string + n) = 0"]) (auto split: if_splits)

lemma byte_difference:
  fixes a b :: u8
  shows "ucast a - ucast b <s (0 :: i32) \<longleftrightarrow> a < b" and "ucast a - ucast b = (0 :: i32) \<longleftrightarrow> a = b"
proof -
  have d: "(ucast a - ucast b :: i32) = word_of_int (uint a - uint b)" by simp
  have "uint a < 2 ^ LENGTH(8)" "uint b < 2 ^ LENGTH(8)" by (rule unsigned_less)+
  then have u: "0 \<le> uint a" "uint a < 256" "0 \<le> uint b" "uint b < 256" by simp_all
  have "- (2 ^ (LENGTH(32) - 1)) \<le> uint a - uint b" "uint a - uint b < 2 ^ (LENGTH(32) - 1)" using u by (simp_all, linarith+)
  then have s: "sint (ucast a - ucast b :: i32) = uint a - uint b"
    unfolding d sint_sbintrunc' by (rule signed_take_bit_int_eq_self)
  show "ucast a - ucast b <s (0 :: i32) \<longleftrightarrow> a < b" unfolding word_sless_alt s by (simp add: word_less_def)
  have "ucast a - ucast b = (0 :: i32) \<longleftrightarrow> sint (ucast a - ucast b :: i32) = 0"
    using signed_word_eqI[of "ucast a - ucast b :: i32" 0] by auto
  then show "ucast a - ucast b = (0 :: i32) \<longleftrightarrow> a = b" unfolding s by (simp add: word_uint_eq_iff)
qed

lemma memcmp_first_difference:
  "libc_memcmp m l r n = 0 \<longleftrightarrow> load_bytes m l n = load_bytes m r n"
  "libc_memcmp m l r n <s 0 \<longleftrightarrow> (load_bytes m l n, load_bytes m r n) \<in> lexord {(a, b). a < b}"
  by (induction n arbitrary: l r) (auto simp: byte_difference byte_difference(2)[unfolded right_minus_eq])

section \<open>Exit handlers as a stack\<close>

text \<open>The registered handlers, the next one to run first.\<close>

definition handler_stack :: "'e exit_state \<Rightarrow> u64 list" where
  "handler_stack s = rev (take (g_atexit_handler_count s) (g_atexit_handlers s))"

definition exit_state_ok :: "'e exit_state \<Rightarrow> bool" where
  "exit_state_ok s \<longleftrightarrow> length (g_atexit_handlers s) = ATEXIT_HANDLER_CAPACITY \<and> g_atexit_handler_count s \<le> ATEXIT_HANDLER_CAPACITY"

lemma initial_exit_state_ok: "exit_state_ok (initial_exit_state e)" "handler_stack (initial_exit_state e) = []"
  by (simp_all add: exit_state_ok_def handler_stack_def initial_exit_state_def)

lemma atexit_pushes:
  assumes "exit_state_ok s" and "libc_atexit f s = (status, s')"
  shows "exit_state_ok s'" and "program_state s' = program_state s"
    and "length (handler_stack s) < 64 \<Longrightarrow> status = 0 \<and> handler_stack s' = f # handler_stack s"
    and "length (handler_stack s) = 64 \<Longrightarrow> status = - 1 \<and> s' = s"
  using assms by (auto simp: libc_atexit_def exit_state_ok_def handler_stack_def ATEXIT_HANDLER_CAPACITY_def take_Suc_conv_app_nth
      split: if_splits)

text \<open>A call that leaves the handlers alone.\<close>

definition plain_call :: "(u64 \<Rightarrow> 'e \<Rightarrow> 'e) \<Rightarrow> u64 \<Rightarrow> 'e exit_state \<Rightarrow> 'e exit_state" where
  "plain_call effect f s = s\<lparr>program_state := effect f (program_state s)\<rparr>"

definition run_stack :: "(u64 \<Rightarrow> 'e \<Rightarrow> 'e) \<Rightarrow> u64 list \<Rightarrow> 'e \<Rightarrow> 'e" where
  "run_stack effect fs e = fold (\<lambda>f e. if f \<noteq> 0 then effect f e else e) fs e"

lemma run_atexit_pops:
  assumes "exit_state_ok s"
  shows "\<exists>s'. run_atexit_handlers (plain_call effect) s = Some s' \<and> g_atexit_handler_count s' = 0 \<and>
    program_state s' = run_stack effect (handler_stack s) (program_state s)"
  using assms
proof (induction "g_atexit_handler_count s" arbitrary: s)
  case 0
  then show ?case by (simp add: run_atexit_handlers.simps[of _ s] handler_stack_def run_stack_def)
next
  case (Suc n)
  let ?s1 = "s\<lparr>g_atexit_handler_count := n\<rparr>" and ?h = "g_atexit_handlers s ! n"
  let ?s2 = "if ?h \<noteq> 0 then plain_call effect ?h ?s1 else ?s1"
  have step: "run_atexit_handlers (plain_call effect) s = run_atexit_handlers (plain_call effect) ?s2"
    using Suc.hyps(2) by (simp add: run_atexit_handlers.simps[of _ s] Let_def flip: Suc.hyps(2))
  have st: "handler_stack s = ?h # handler_stack ?s2"
    using Suc.prems by (simp add: handler_stack_def exit_state_ok_def plain_call_def take_Suc_conv_app_nth flip: Suc.hyps(2))
  have p: "program_state ?s2 = (if ?h \<noteq> 0 then effect ?h (program_state s) else program_state s)" by (simp add: plain_call_def)
  have "exit_state_ok ?s2" "n = g_atexit_handler_count ?s2"
    using Suc.prems by (simp_all add: exit_state_ok_def plain_call_def flip: Suc.hyps(2))
  from Suc.hyps(1)[OF this(2,1)] show ?case unfolding step st p[unfolded] by (simp add: run_stack_def p)
qed

text \<open>Registering a list of functions in order.\<close>

definition register_all :: "u64 list \<Rightarrow> 'e exit_state \<Rightarrow> 'e exit_state" where
  "register_all fs s = fold (\<lambda>f s. snd (libc_atexit f s)) fs s"

lemma register_all_stack:
  "exit_state_ok s \<Longrightarrow> length (handler_stack s) + length fs \<le> 64 \<Longrightarrow>
    exit_state_ok (register_all fs s) \<and> handler_stack (register_all fs s) = rev fs @ handler_stack s \<and>
    program_state (register_all fs s) = program_state s"
proof (induction fs arbitrary: s)
  case (Cons f fs)
  obtain status s1 where a: "libc_atexit f s = (status, s1)" by force
  note A = atexit_pushes[OF Cons.prems(1) a]
  from Cons.IH[of s1] A Cons.prems(2) a show ?case by (simp add: register_all_def)
qed (simp add: register_all_def)

section \<open>Properties\<close>

text \<open>
  \<open>memmove\<close> with any overlap: when the two ranges do not wrap around the address space, the destination
  receives the bytes the source held before the call, nothing else changes, and the destination is returned.
\<close>

lemma memmove_overlapping:
  assumes "unat destination + unat len \<le> 2 ^ 64" and "unat source + unat len \<le> 2 ^ 64"
  shows "libc_memmove m destination source len =
    (store_bytes m destination (load_bytes m source (unat len)), destination)"
proof -
  let ?d = destination and ?s = source and ?n = "unat len"
  have n: "?n < 2 ^ 64" by (rule unat_lt_u64)
  note O = copy_offsets[OF _ assms]
  have same: "store_bytes m ?s (load_bytes m ?s ?n) = m"
    using n by (auto simp: fun_eq_iff store_bytes_at nth_load_bytes)
  have up: "memcpy m ?d ?s ?n = store_bytes m ?d (load_bytes m ?s ?n)" if "?d < ?s"
  proof (rule memcpy_ascending)
    show "?d + of_nat i \<noteq> ?s + of_nat j" if "i < j" "j < ?n" for i j using O[of i j] \<open>?d < ?s\<close> that by auto
  qed
  have down: "copy_descending m ?d ?s ?n = store_bytes m ?d (load_bytes m ?s ?n)" if "\<not> ?d < ?s" "?d \<noteq> ?s"
  proof (rule copy_descending_store[OF n])
    show "?d + of_nat i \<noteq> ?s + of_nat j" if "j < i" "i < ?n" for i j
      using O[of i j] \<open>\<not> ?d < ?s\<close> \<open>?d \<noteq> ?s\<close> that by auto
  qed
  show ?thesis using same up down by (auto simp: libc_memmove_def)
qed

text \<open>
  The comparison and the length of strings. \<open>memcmp\<close> is zero exactly on equal ranges and negative exactly when the
  first range comes first in the lexicographic order of unsigned bytes. \<open>strlen\<close> returns the offset of the
  first zero byte, and it returns whenever there is one.
\<close>

lemma libc_string_functions:
  "(libc_memcmp m l r n = 0 \<longleftrightarrow> load_bytes m l n = load_bytes m r n) \<and>
   (libc_memcmp m l r n <s 0 \<longleftrightarrow> (load_bytes m l n, load_bytes m r n) \<in> lexord {(a, b). a < b}) \<and>
   (libc_strlen m string = Some len \<longleftrightarrow>
      m (string + len) = 0 \<and> (\<forall>i. i < unat len \<longrightarrow> m (string + of_nat i) \<noteq> 0))"
proof -
  have "libc_strlen m string = Some len" if "m (string + len) = 0" "\<forall>i. i < unat len \<longrightarrow> m (string + of_nat i) \<noteq> 0"
    using that strlen_loop_finds[of m string 0 "unat len"] by (simp add: libc_strlen_def)
  moreover have "\<forall>i. i < unat len \<longrightarrow> m (string + of_nat i) \<noteq> 0" "m (string + len) = 0" if s: "libc_strlen m string = Some len"
  proof -
    show z: "m (string + len) = 0" using s strlen_loop_zero by (simp add: libc_strlen_def)
    define k where "k = (LEAST i. m (string + of_nat i) = 0)"
    have "m (string + of_nat (unat len)) = 0" using z by simp
    then have k: "m (string + of_nat k) = 0" "k \<le> unat len" "\<And>i. i < k \<Longrightarrow> m (string + of_nat i) \<noteq> 0"
      unfolding k_def by (rule LeastI, rule Least_le) (auto dest: not_less_Least)
    have "libc_strlen m string = Some (of_nat k)" using strlen_loop_finds[of m string 0 k] k by (simp add: libc_strlen_def)
    then have "len = of_nat k" using s by simp
    then have "unat len = k" using k(2) unat_lt_u64[of len] unat_of_nat_u64[of k] by simp
    then show "\<forall>i. i < unat len \<longrightarrow> m (string + of_nat i) \<noteq> 0" using k(3) by simp
  qed
  ultimately show ?thesis using memcmp_first_difference by blast
qed

text \<open>
  C40. A program from its start to its end. \<open>user_start\<close> runs the two tables of initializers in order, then
  \<open>main\<close>, then the exit handlers in the reverse order of their registration, null entries being skipped everywhere,
  and ends the thread with the status of \<open>main\<close> as an unsigned number. Here \<open>main\<close> registers up to 64 handlers
  and none of the functions called registers more.
\<close>

theorem program_life_cycle:
  assumes "length handlers \<le> 64"
  shows "\<exists>s'. user_start (plain_call effect) xi xc (\<lambda>s. (status, register_all handlers (plain_call effect main_address s)))
      (initial_exit_state e) = Some (ucast status, s') \<and>
    program_state s' = run_stack effect (rev handlers) (effect main_address (run_stack effect (xi @ xc) e))"
proof -
  have init: "run_initializers (plain_call effect) fs s = s\<lparr>program_state := run_stack effect fs (program_state s)\<rparr>" for fs s
    by (induction fs arbitrary: s) (simp_all add: run_initializers_def run_stack_def plain_call_def)
  let ?s = "plain_call effect main_address (run_initializers (plain_call effect) xc (run_initializers (plain_call effect) xi (initial_exit_state e)))"
  have p: "program_state ?s = effect main_address (run_stack effect (xi @ xc) e)"
    by (simp add: init plain_call_def run_stack_def initial_exit_state_def)
  have ok: "exit_state_ok ?s" "handler_stack ?s = []"
    using initial_exit_state_ok[of e] by (simp_all add: init plain_call_def exit_state_ok_def handler_stack_def)
  note R = register_all_stack[OF ok(1), of handlers]
  then obtain s' where "run_atexit_handlers (plain_call effect) (register_all handlers ?s) = Some s'"
    "program_state s' = run_stack effect (rev handlers) (program_state ?s)"
    using run_atexit_pops[of "register_all handlers ?s" effect] ok(2) assms by auto
  then show ?thesis using p by (simp add: user_start_def libc_exit_def)
qed

theorem program_life_cycle_witness:
  "\<exists>s'. user_start (plain_call (\<lambda>f e. e @ [f])) [0, 1] [2] (\<lambda>s. (0xFFFFFFFF, register_all [4, 5] (plain_call (\<lambda>f e. e @ [f]) 3 s)))
      (initial_exit_state []) = Some (0xFFFFFFFF, s') \<and> program_state s' = [1, 2, 3, 5, 4]"
  using program_life_cycle[of "[4, 5]" "\<lambda>f e. e @ [f]" "[0, 1]" "[2]" "0xFFFFFFFF" 3 "[]"] by (simp add: run_stack_def)

end
