(* ===== verification/User_Stdio.thy ===== *)
theory User_Stdio
  imports User_Libc
begin

text \<open>
  Formatted output of the C library, \<open>user/libc/src/stdio.cpp\<close> and \<open>puts.cpp\<close>. The format and the strings
  printed are given by their characters; the output array does not overlap them. A \<open>va_list\<close> is a position
  in the argument slots, with whatever the slots after the last argument hold. How a \<open>va_list\<close> is
  passed to a function and how wide \<open>long\<close> is depend on the target, so they are parameters: the x64 target of
  the tool chain passes it by reference and has 64 bits, the arm64 target passes a pointer by value and has 32.
  The reference gives the text of a format as a function of the argument values.
\<close>

section \<open>Output\<close>

text \<open>
  The array is the memory from the start of the buffer on, which may be longer than the size the caller gives: a store
  behind the buffer is a store into the rest of the list.
\<close>

record output_buffer =
  out_array :: "u8 list"
  out_cursor :: nat
  out_remaining :: u64
  out_total :: i32

definition append_character :: "u8 \<Rightarrow> output_buffer \<Rightarrow> output_buffer" where
  "append_character v ob =
     (let ob1 = (if out_remaining ob > 1
                 then ob\<lparr>out_array := (out_array ob)[out_cursor ob := v], out_cursor := out_cursor ob + 1\<rparr> else ob);
          ob2 = (if out_remaining ob1 > 0 then ob1\<lparr>out_remaining := out_remaining ob1 - 1\<rparr> else ob1) in
      ob2\<lparr>out_total := out_total ob2 + 1\<rparr>)"

definition NULL_TEXT :: "u8 list" where "NULL_TEXT = [40, 110, 117, 108, 108, 41]"

definition append_string :: "u8 list option \<Rightarrow> output_buffer \<Rightarrow> output_buffer" where
  "append_string v ob = fold append_character (c_string (case v of None \<Rightarrow> NULL_TEXT | Some s \<Rightarrow> s)) ob"

definition digit_alphabet :: "bool \<Rightarrow> u8 list" where
  "digit_alphabet uppercase =
     [48, 49, 50, 51, 52, 53, 54, 55, 56, 57] @ (if uppercase then [65, 66, 67, 68, 69, 70] else [97, 98, 99, 100, 101, 102])"

text \<open>
  The loop that fills \<open>digits\<close>. Its callers pass 10 and 16; with a base below 2 the source would not end.
\<close>

function digits_loop :: "u64 \<Rightarrow> u32 \<Rightarrow> u8 list \<Rightarrow> u8 list \<Rightarrow> nat \<Rightarrow> u8 list \<times> nat" where
  "digits_loop v base alphabet digits digit_count =
     (if v = 0 \<or> base < 2 then (digits, digit_count)
      else digits_loop (v div ucast base) base alphabet (digits[digit_count := alphabet ! unat (v mod ucast base)]) (digit_count + 1))"
  by pat_completeness auto
termination
proof (relation "measure (\<lambda>(v, base, alphabet, digits, digit_count). unat v)")
  fix v :: u64 and base :: u32 and alphabet digits :: "u8 list" and digit_count :: nat
  assume a: "\<not> (v = 0 \<or> base < 2)"
  then have "0 < unat v" by (metis gr0I unat_eq_zero)
  moreover have "2 \<le> unat (ucast base :: u64)"
  proof -
    have "unat base < 2 ^ LENGTH(32)" by (rule unsigned_less)
    then have "unat (ucast base :: u64) = unat base" by (simp add: unsigned_ucast_eq take_bit_nat_eq_self)
    then show ?thesis using a by (simp add: word_less_nat_alt not_less)
  qed
  ultimately show "((v div ucast base, base, alphabet, digits[digit_count := alphabet ! unat (v mod ucast base)], digit_count + 1),
      v, base, alphabet, digits, digit_count) \<in> measure (\<lambda>(v, base, alphabet, digits, digit_count). unat v)"
    by (simp add: unat_div div_less_dividend)
qed simp

declare digits_loop.simps [simp del]

fun emit_digits :: "u8 list \<Rightarrow> nat \<Rightarrow> output_buffer \<Rightarrow> output_buffer" where
  "emit_digits digits 0 ob = ob"
| "emit_digits digits (Suc digit_count) ob = emit_digits digits digit_count (append_character (digits ! digit_count) ob)"

text \<open>The local array is not initialized; the model fills it with zeros, of which none is read.\<close>

definition append_unsigned_value :: "u64 \<Rightarrow> u32 \<Rightarrow> bool \<Rightarrow> output_buffer \<Rightarrow> output_buffer" where
  "append_unsigned_value v base uppercase ob =
     (if v = 0 then append_character 48 ob
      else (case digits_loop v base (digit_alphabet uppercase) (replicate 32 0) 0 of
              (digits, digit_count) \<Rightarrow> emit_digits digits digit_count ob))"

definition append_signed_value :: "u64 \<Rightarrow> output_buffer \<Rightarrow> output_buffer" where
  "append_signed_value v ob =
     (if v <s 0 then append_unsigned_value (- (v + 1) + 1) 10 False (append_character 45 ob)
      else append_unsigned_value v 10 False ob)"

section \<open>Arguments\<close>

record abi =
  va_list_by_reference :: bool
  long_is_64 :: bool

record va_list =
  va_slots :: "nat \<Rightarrow> u64"
  va_position :: nat

definition va_arg :: "va_list \<Rightarrow> u64 \<times> va_list" where
  "va_arg va = (va_slots va (va_position va), va\<lparr>va_position := va_position va + 1\<rparr>)"

datatype format_length =
  FORMAT_LENGTH_DEFAULT_VALUE
| FORMAT_LENGTH_LONG_VALUE
| FORMAT_LENGTH_LONG_LONG_VALUE
| FORMAT_LENGTH_SIZE_VALUE

definition parse_format_length :: "u8 list \<Rightarrow> format_length \<times> u8 list" where
  "parse_format_length format_cursor =
     (case format_cursor of [] \<Rightarrow> (FORMAT_LENGTH_DEFAULT_VALUE, [])
      | c # r \<Rightarrow>
          if c = 108
          then (case r of [] \<Rightarrow> (FORMAT_LENGTH_LONG_VALUE, r)
                | d # r' \<Rightarrow> if d = 108 then (FORMAT_LENGTH_LONG_LONG_VALUE, r') else (FORMAT_LENGTH_LONG_VALUE, r))
          else if c = 122 then (FORMAT_LENGTH_SIZE_VALUE, r) else (FORMAT_LENGTH_DEFAULT_VALUE, format_cursor))"

text \<open>The functions take a \<open>va_list\<close>: only when it is passed by reference does the caller's move.\<close>

definition read_unsigned_argument :: "abi \<Rightarrow> va_list \<Rightarrow> format_length \<Rightarrow> u64 \<times> va_list" where
  "read_unsigned_argument target arguments len =
     (case va_arg arguments of (w, arguments') \<Rightarrow>
       ((case len of
           FORMAT_LENGTH_LONG_VALUE \<Rightarrow> if long_is_64 target then w else ucast (ucast w :: u32)
         | FORMAT_LENGTH_LONG_LONG_VALUE \<Rightarrow> w
         | FORMAT_LENGTH_SIZE_VALUE \<Rightarrow> w
         | FORMAT_LENGTH_DEFAULT_VALUE \<Rightarrow> ucast (ucast w :: u32)),
        if va_list_by_reference target then arguments' else arguments))"

definition read_signed_argument :: "abi \<Rightarrow> va_list \<Rightarrow> format_length \<Rightarrow> u64 \<times> va_list" where
  "read_signed_argument target arguments len =
     (case va_arg arguments of (w, arguments') \<Rightarrow>
       ((case len of
           FORMAT_LENGTH_LONG_VALUE \<Rightarrow> if long_is_64 target then w else scast (ucast w :: i32)
         | FORMAT_LENGTH_LONG_LONG_VALUE \<Rightarrow> w
         | FORMAT_LENGTH_SIZE_VALUE \<Rightarrow> w
         | FORMAT_LENGTH_DEFAULT_VALUE \<Rightarrow> scast (ucast w :: i32)),
        if va_list_by_reference target then arguments' else arguments))"

section \<open>Formats\<close>

text \<open>The switch over the conversion specifier; \<open>string_at\<close> has the string at an address.\<close>

definition print_directive :: "abi \<Rightarrow> (u64 \<Rightarrow> u8 list) \<Rightarrow> u8 \<Rightarrow> format_length \<Rightarrow> va_list \<times> output_buffer \<Rightarrow> va_list \<times> output_buffer" where
  "print_directive target string_at specifier len = (\<lambda>(arguments, ob).
     if specifier = 99 then (case va_arg arguments of (w, arguments') \<Rightarrow> (arguments', append_character (ucast w) ob))
     else if specifier = 100 \<or> specifier = 105
     then (case read_signed_argument target arguments len of (v, arguments') \<Rightarrow> (arguments', append_signed_value v ob))
     else if specifier = 112
     then (case va_arg arguments of (w, arguments') \<Rightarrow>
             (arguments', append_unsigned_value w 16 False (append_string (Some [48, 120]) ob)))
     else if specifier = 115
     then (case va_arg arguments of (w, arguments') \<Rightarrow>
             (arguments', append_string (if w = 0 then None else Some (string_at w)) ob))
     else if specifier = 117
     then (case read_unsigned_argument target arguments len of (v, arguments') \<Rightarrow> (arguments', append_unsigned_value v 10 False ob))
     else if specifier = 120
     then (case read_unsigned_argument target arguments len of (v, arguments') \<Rightarrow> (arguments', append_unsigned_value v 16 False ob))
     else if specifier = 88
     then (case read_unsigned_argument target arguments len of (v, arguments') \<Rightarrow> (arguments', append_unsigned_value v 16 True ob))
     else (arguments, append_character specifier (append_character 37 ob)))"

lemma parse_format_length_shorter: "parse_format_length f = (len, f') \<Longrightarrow> length f' \<le> length f"
  by (auto simp: parse_format_length_def split: list.splits if_splits)

text \<open>
  The loop over the format, whose terminator is the end of the list. At a terminator after a percent sign the source
  steps back and forward again, and the loop ends.
\<close>

function format_loop :: "abi \<Rightarrow> (u64 \<Rightarrow> u8 list) \<Rightarrow> u8 list \<Rightarrow> va_list \<Rightarrow> output_buffer \<Rightarrow> output_buffer" where
  "format_loop target string_at format_cursor arguments ob =
     (case format_cursor of [] \<Rightarrow> ob
      | c # r \<Rightarrow>
          if c \<noteq> 37 then format_loop target string_at r arguments (append_character c ob)
          else if r \<noteq> [] \<and> hd r = 37 then format_loop target string_at (tl r) arguments (append_character 37 ob)
          else (case parse_format_length r of (len, f) \<Rightarrow>
             (case f of [] \<Rightarrow> append_character 37 ob
              | specifier # f' \<Rightarrow>
                  (case print_directive target string_at specifier len (arguments, ob) of
                     (arguments', ob') \<Rightarrow> format_loop target string_at f' arguments' ob'))))"
  by pat_completeness auto
termination
  by (relation "measure (\<lambda>(target, string_at, format_cursor, arguments, ob). length format_cursor)")
    (auto dest!: parse_format_length_shorter[OF sym] simp: less_Suc_eq_le)

declare format_loop.simps [simp del]

definition EINVAL :: i32 where "EINVAL = 22"

text \<open>A null format or buffer is None. The result has the return value, the array and \<open>errno\<close>.\<close>

definition libc_vsnprintf :: "abi \<Rightarrow> (u64 \<Rightarrow> u8 list) \<Rightarrow> u8 list option \<Rightarrow> u64 \<Rightarrow> u8 list option \<Rightarrow> va_list \<Rightarrow> i32 \<Rightarrow>
    i32 \<times> u8 list option \<times> i32" where
  "libc_vsnprintf target string_at buffer buffer_size format arguments errno =
     (case format of None \<Rightarrow> (- 1, buffer, EINVAL)
      | Some f \<Rightarrow>
          if buffer = None \<and> buffer_size \<noteq> 0 then (- 1, buffer, EINVAL)
          else (let ob = format_loop target string_at f arguments
                      \<lparr>out_array = (case buffer of None \<Rightarrow> [] | Some b \<Rightarrow> b), out_cursor = 0, out_remaining = buffer_size, out_total = 0\<rparr>;
                    array = (if buffer_size = 0 then out_array ob
                             else if out_remaining ob > 0 then (out_array ob)[out_cursor ob := 0]
                             else (out_array ob)[unat (buffer_size - 1) := 0]) in
                (out_total ob, map_option (\<lambda>_. array) buffer, errno)))"

definition va_start :: "(nat \<Rightarrow> u64) \<Rightarrow> va_list" where "va_start slots = \<lparr>va_slots = slots, va_position = 0\<rparr>"

definition libc_snprintf :: "abi \<Rightarrow> (u64 \<Rightarrow> u8 list) \<Rightarrow> u8 list option \<Rightarrow> u64 \<Rightarrow> u8 list option \<Rightarrow> (nat \<Rightarrow> u64) \<Rightarrow> i32 \<Rightarrow>
    i32 \<times> u8 list option \<times> i32" where
  "libc_snprintf target string_at buffer buffer_size format slots =
     libc_vsnprintf target string_at buffer buffer_size format (va_start slots)"

definition RINGOS_STDIO_LOG_BUFFER_CAPACITY :: nat where "RINGOS_STDIO_LOG_BUFFER_CAPACITY = 512"

text \<open>The array of \<open>vprintf\<close> is on the stack: \<open>stack\<close> is what it holds. \<open>console\<close> logs the string in an array.\<close>

definition libc_vprintf :: "abi \<Rightarrow> (u64 \<Rightarrow> u8 list) \<Rightarrow> (u8 list \<Rightarrow> 's \<Rightarrow> i32 \<times> 's) \<Rightarrow> u8 list \<Rightarrow> u8 list option \<Rightarrow> va_list \<Rightarrow>
    i32 \<times> 's \<Rightarrow> i32 \<times> i32 \<times> 's" where
  "libc_vprintf target string_at console stack format arguments = (\<lambda>(errno, env).
     case libc_vsnprintf target string_at (Some stack) (of_nat RINGOS_STDIO_LOG_BUFFER_CAPACITY) format arguments errno of
       (result, buffer, errno') \<Rightarrow>
         if result <s 0 then (result, errno', env)
         else (result, errno', snd (console (the buffer) env)))"

definition libc_printf :: "abi \<Rightarrow> (u64 \<Rightarrow> u8 list) \<Rightarrow> (u8 list \<Rightarrow> 's \<Rightarrow> i32 \<times> 's) \<Rightarrow> u8 list \<Rightarrow> u8 list option \<Rightarrow> (nat \<Rightarrow> u64) \<Rightarrow>
    i32 \<times> 's \<Rightarrow> i32 \<times> i32 \<times> 's" where
  "libc_printf target string_at console stack format slots = libc_vprintf target string_at console stack format (va_start slots)"

definition EOF :: i32 where "EOF = - 1"

definition libc_puts :: "(u8 list \<Rightarrow> 's \<Rightarrow> i32 \<times> 's) \<Rightarrow> u8 list option \<Rightarrow> 's \<Rightarrow> i32 \<times> 's" where
  "libc_puts console string env =
     (case string of None \<Rightarrow> (EOF, env)
      | Some s \<Rightarrow>
         (case console s env of (status, env1) \<Rightarrow>
            if status <s 0 then (EOF, env1)
            else (case console [10, 0] env1 of (status2, env2) \<Rightarrow>
                    (if status2 <s 0 then EOF else of_nat (length (c_string s) + 1), env2))))"

section \<open>The reference\<close>

definition digit_text :: "bool \<Rightarrow> nat \<Rightarrow> u8" where
  "digit_text uppercase d = of_nat (if d < 10 then 48 + d else if uppercase then 55 + d else 87 + d)"

function nat_text :: "bool \<Rightarrow> nat \<Rightarrow> nat \<Rightarrow> u8 list" where
  "nat_text uppercase base n =
     (if base < 2 \<or> n < base then [digit_text uppercase n]
      else nat_text uppercase base (n div base) @ [digit_text uppercase (n mod base)])"
  by pat_completeness auto
termination
  by (relation "measure (\<lambda>(uppercase, base, n). n)") auto

declare nat_text.simps [simp del]

definition int_text :: "int \<Rightarrow> u8 list" where
  "int_text z = (if z < 0 then 45 # nat_text False 10 (nat (- z)) else nat_text False 10 (nat z))"

definition argument_bits :: "abi \<Rightarrow> format_length \<Rightarrow> nat" where
  "argument_bits target len = (case len of FORMAT_LENGTH_DEFAULT_VALUE \<Rightarrow> 32
     | FORMAT_LENGTH_LONG_VALUE \<Rightarrow> if long_is_64 target then 64 else 32 | _ \<Rightarrow> 64)"

definition directive_text :: "abi \<Rightarrow> (u64 \<Rightarrow> u8 list) \<Rightarrow> u8 \<Rightarrow> format_length \<Rightarrow> u64 \<Rightarrow> u8 list" where
  "directive_text target string_at specifier len w =
     (let n = unat w mod 2 ^ argument_bits target len in
      if specifier = 99 then [ucast w]
      else if specifier \<in> {100, 105} then int_text (signed_take_bit (argument_bits target len - 1) (uint w))
      else if specifier = 112 then [48, 120] @ nat_text False 16 (unat w)
      else if specifier = 115 then (if w = 0 then NULL_TEXT else c_string (string_at w))
      else if specifier = 117 then nat_text False 10 n
      else if specifier = 120 then nat_text False 16 n
      else if specifier = 88 then nat_text True 16 n
      else [37, specifier])"

definition takes_argument :: "u8 \<Rightarrow> bool" where
  "takes_argument specifier \<longleftrightarrow> specifier \<in> {99, 100, 105, 112, 115, 117, 120, 88}"

function format_text :: "abi \<Rightarrow> (u64 \<Rightarrow> u8 list) \<Rightarrow> (nat \<Rightarrow> u64) \<Rightarrow> nat \<Rightarrow> u8 list \<Rightarrow> u8 list" where
  "format_text target string_at slots i f =
     (case f of [] \<Rightarrow> []
      | c # r \<Rightarrow>
          if c \<noteq> 37 then c # format_text target string_at slots i r
          else if r \<noteq> [] \<and> hd r = 37 then 37 # format_text target string_at slots i (tl r)
          else (case parse_format_length r of (len, f) \<Rightarrow>
             (case f of [] \<Rightarrow> [37]
              | specifier # f' \<Rightarrow> directive_text target string_at specifier len (slots i) @
                  format_text target string_at slots (if takes_argument specifier then i + 1 else i) f')))"
  by pat_completeness auto
termination
  by (relation "measure (\<lambda>(target, string_at, slots, i, f). length f)")
    (auto dest!: parse_format_length_shorter[OF sym] simp: less_Suc_eq_le)

declare format_text.simps [simp del]

section \<open>Numbers\<close>

fun digits_of :: "bool \<Rightarrow> nat \<Rightarrow> nat \<Rightarrow> nat \<Rightarrow> u8 list" where
  "digits_of uppercase base 0 n = []"
| "digits_of uppercase base (Suc k) n = (if n = 0 then [] else digit_text uppercase (n mod base) # digits_of uppercase base k (n div base))"

lemma digits_of_text:
  assumes "2 \<le> base"
  shows "n < base ^ k \<Longrightarrow> 0 < n \<Longrightarrow> rev (digits_of uppercase base k n) = nat_text uppercase base n"
proof (induction k arbitrary: n)
  case (Suc k)
  show ?case
  proof (cases "n < base")
    case True
    then show ?thesis using Suc.prems assms by (subst nat_text.simps) (cases k; simp)
  next
    case False
    then have "0 < n div base" using assms by (simp add: div_greater_zero_iff)
    moreover have "n div base < base ^ k" using Suc.prems(1) assms by (simp add: div_less_iff_less_mult mult.commute)
    ultimately show ?thesis using Suc.IH[of "n div base"] Suc.prems False assms by (subst nat_text.simps) simp
  qed
qed simp

lemma length_digits_of: "length (digits_of uppercase base k n) \<le> k"
  by (induction k arbitrary: n) (auto simp: le_SucI)

lemma alphabet_digit: "d < 16 \<Longrightarrow> digit_alphabet uppercase ! d = digit_text uppercase d"
proof -
  assume "d < 16"
  then have "d \<in> set [0..<16]" by simp
  moreover have "\<forall>d \<in> set [0..<16]. digit_alphabet uppercase ! d = digit_text uppercase d"
    by (cases uppercase) (simp_all add: digit_alphabet_def digit_text_def upt_rec numeral_eq_Suc)
  ultimately show ?thesis by blast
qed

lemma digits_loop_fills:
  assumes "base \<in> {10, 16}"
  shows "unat v < unat base ^ k \<Longrightarrow> digit_count + k \<le> length digits \<Longrightarrow>
    digits_loop v base (digit_alphabet uppercase) digits digit_count =
      (let ds = digits_of uppercase (unat base) k (unat v) in
       (take digit_count digits @ ds @ drop (digit_count + length ds) digits, digit_count + length ds))"
proof (induction k arbitrary: v digits digit_count)
  case 0
  then have "v = 0" by (simp add: unat_eq_zero)
  then show ?case by (simp add: digits_loop.simps[of 0])
next
  case (Suc k)
  have b: "unat (ucast base :: u64) = unat base" "2 \<le> unat base" "\<not> base < 2" "unat base \<le> 16" using assms by auto
  show ?case
  proof (cases "v = 0")
    case True
    then show ?thesis by (simp add: digits_loop.simps[of 0])
  next
    case False
    let ?q = "v div ucast base" and ?d = "unat v mod unat base"
    have q: "unat ?q = unat v div unat base" "unat (v mod ucast base) = ?d" by (simp_all add: unat_div unat_mod b(1))
    have "?d < 16" using b(2,4) mod_less_divisor[of "unat base" "unat v"] by linarith
    then have c: "digit_alphabet uppercase ! ?d = digit_text uppercase ?d" by (rule alphabet_digit)
    have "unat ?q < unat base ^ k" unfolding q using Suc.prems(1) b(2) by (simp add: div_less_iff_less_mult mult.commute)
    note IH = Suc.IH[OF this, of "digit_count + 1" "digits[digit_count := digit_text uppercase ?d]"]
    have "digits_loop v base (digit_alphabet uppercase) digits digit_count =
        digits_loop ?q base (digit_alphabet uppercase) (digits[digit_count := digit_text uppercase ?d]) (digit_count + 1)"
      using False b(3) by (simp add: digits_loop.simps[of v] q(2) c)
    moreover have "0 < unat v" using False by (metis gr0I unat_eq_zero)
    ultimately show ?thesis
      using IH Suc.prems(2) by (simp add: q Let_def take_Suc_conv_app_nth upd_conv_take_nth_drop add.commute)
  qed
qed

lemma emit_digits_rev: "n \<le> length digits \<Longrightarrow> emit_digits digits n ob = fold append_character (rev (take n digits)) ob"
  by (induction n arbitrary: ob) (simp_all add: take_Suc_conv_app_nth)

lemma append_unsigned_text:
  assumes "base \<in> {10, 16}"
  shows "append_unsigned_value v base uppercase ob = fold append_character (nat_text uppercase (unat base) (unat v)) ob"
proof (cases "v = 0")
  case True
  then show ?thesis using assms by (subst nat_text.simps) (auto simp: append_unsigned_value_def digit_text_def)
next
  case False
  have b: "2 \<le> unat base" using assms by auto
  have "unat v < unat base ^ 20" using unat_lt_u64[of v] assms by auto
  note D = digits_loop_fills[OF assms this, of 0 "replicate 32 0" uppercase] and T = digits_of_text[OF b this, of uppercase]
  have "0 < unat v" using False by (metis gr0I unat_eq_zero)
  then have "nat_text uppercase (unat base) (unat v) = rev (digits_of uppercase (unat base) 20 (unat v))" using T by simp
  then show ?thesis
    using False D length_digits_of[of uppercase "unat base" 20 "unat v"]
    by (simp add: append_unsigned_value_def Let_def emit_digits_rev)
qed

lemma signed_magnitude:
  fixes v :: u64
  shows "v <s 0 \<longleftrightarrow> sint v < 0" and "sint v < 0 \<Longrightarrow> unat (- v) = nat (- sint v)" and "0 \<le> sint v \<Longrightarrow> unat v = nat (sint v)"
proof -
  show "v <s 0 \<longleftrightarrow> sint v < 0" by (simp add: word_sless_alt)
  have b: "- (2 ^ 63) \<le> sint v" "sint v < 2 ^ 63" using sint_greater_eq[of v] sint_less[of v] by simp_all
  have "uint (word_of_int (- sint v) :: u64) = - sint v" if "sint v < 0"
    unfolding uint_word_of_int_eq using that b by (intro take_bit_int_eq_self) simp_all
  then show "unat (- v) = nat (- sint v)" if "sint v < 0" using that by (simp add: unat_eq_nat_uint del: nat_uint_eq)
  have "uint (word_of_int (sint v) :: u64) = sint v" if "0 \<le> sint v"
    unfolding uint_word_of_int_eq using that b by (intro take_bit_int_eq_self) simp_all
  then show "unat v = nat (sint v)" if "0 \<le> sint v" using that by (simp add: unat_eq_nat_uint del: nat_uint_eq)
qed

lemma append_signed_text: "append_signed_value v ob = fold append_character (int_text (sint v)) ob"
proof -
  have "- (v + 1) + 1 = - v" by simp
  then show ?thesis
    using signed_magnitude[of v] by (simp add: append_signed_value_def append_unsigned_text int_text_def)
qed

section \<open>Directives and formats\<close>

lemma read_unsigned_value:
  assumes "va_list_by_reference target"
  shows "\<exists>v. read_unsigned_argument target va len = (v, va\<lparr>va_position := va_position va + 1\<rparr>) \<and>
    unat v = unat (va_slots va (va_position va)) mod 2 ^ argument_bits target len"
proof -
  have u: "unat (ucast (ucast w :: u32) :: u64) = unat w mod 2 ^ 32" for w :: u64
    by (simp add: unsigned_ucast_eq take_bit_eq_mod unat_mod)
  have f: "unat w mod 2 ^ 64 = unat w" for w :: u64 using unat_lt_u64[of w] by simp
  show ?thesis
    using assms u f by (cases len) (simp_all add: read_unsigned_argument_def va_arg_def argument_bits_def)
qed

lemma read_signed_value:
  assumes "va_list_by_reference target"
  shows "\<exists>v. read_signed_argument target va len = (v, va\<lparr>va_position := va_position va + 1\<rparr>) \<and>
    sint v = signed_take_bit (argument_bits target len - 1) (uint (va_slots va (va_position va)))"
proof -
  have f: "sint w = signed_take_bit 63 (uint w)" for w :: u64 by (simp add: sint_uint)
  have "sint (ucast w :: i32) = signed_take_bit 31 (uint w)" for w :: u64
    by (simp add: sint_uint unsigned_ucast_eq signed_take_bit_take_bit)
  then have s: "sint (scast (ucast w :: i32) :: u64) = signed_take_bit 31 (uint w)" for w :: u64
    by (simp add: signed_scast_eq)
  show ?thesis
    using assms f s by (cases len) (simp_all add: read_signed_argument_def va_arg_def argument_bits_def)
qed

lemma print_directive_text:
  assumes "va_list_by_reference target"
  shows "print_directive target string_at specifier len (va, ob) =
    (if takes_argument specifier then va\<lparr>va_position := va_position va + 1\<rparr> else va,
     fold append_character (directive_text target string_at specifier len (va_slots va (va_position va))) ob)"
proof -
  obtain v where v: "read_unsigned_argument target va len = (v, va\<lparr>va_position := va_position va + 1\<rparr>)"
    "unat v = unat (va_slots va (va_position va)) mod 2 ^ argument_bits target len" using read_unsigned_value[OF assms] by blast
  obtain z where z: "read_signed_argument target va len = (z, va\<lparr>va_position := va_position va + 1\<rparr>)"
    "sint z = signed_take_bit (argument_bits target len - 1) (uint (va_slots va (va_position va)))" using read_signed_value[OF assms] by blast
  have x: "c_string [48, 120] = [48, 120]" by (simp add: c_string_def)
  have n: "c_string NULL_TEXT = NULL_TEXT" by (simp add: c_string_def NULL_TEXT_def)
  consider "specifier = 99" | "specifier = 100 \<or> specifier = 105" | "specifier = 112" | "specifier = 115" | "specifier = 117"
    | "specifier = 120" | "specifier = 88" | "\<not> takes_argument specifier" unfolding takes_argument_def by blast
  then show ?thesis
  proof cases
    case 4
    then show ?thesis by (simp add: print_directive_def directive_text_def takes_argument_def va_arg_def append_string_def n Let_def)
  qed (auto simp: print_directive_def directive_text_def takes_argument_def va_arg_def v z append_signed_text append_unsigned_text
      append_string_def x Let_def)
qed

lemma format_loop_text:
  assumes "va_list_by_reference target"
  shows "format_loop target string_at f va ob = fold append_character (format_text target string_at (va_slots va) (va_position va) f) ob"
proof (induction "length f" arbitrary: f va ob rule: less_induct)
  case less
  note L = format_loop.simps[of target string_at f va ob] and T = format_text.simps[of target string_at "va_slots va" "va_position va" f]
  show ?case
  proof (cases f)
    case Nil
    then show ?thesis using L T by simp
  next
    case (Cons c r)
    consider (plain) "c \<noteq> 37" | (percent) "c = 37" "r \<noteq> [] \<and> hd r = 37" | (directive) "c = 37" "\<not> (r \<noteq> [] \<and> hd r = 37)" by blast
    then show ?thesis
    proof cases
      case plain
      then show ?thesis using less[of r va "append_character c ob"] L T Cons by simp
    next
      case percent
      then show ?thesis using less[of "tl r" va "append_character 37 ob"] L T Cons by simp
    next
      case directive
      obtain len f1 where p: "parse_format_length r = (len, f1)" by force
      show ?thesis
      proof (cases f1)
        case Nil
        then show ?thesis using L T Cons directive p by simp
      next
        case (Cons specifier f')
        have "length f' < length f" using parse_format_length_shorter[OF p] \<open>f = c # r\<close> Cons by simp
        note IH = less[OF this]
        show ?thesis
          using L T \<open>f = c # r\<close> Cons directive p IH[of va] IH[of "va\<lparr>va_position := va_position va + 1\<rparr>"]
          by (simp add: print_directive_text[OF assms])
      qed
    qed
  qed
qed

section \<open>The array\<close>

text \<open>
  What the appended characters \<open>t\<close> leave in a buffer \<open>b\<close>, of which all but the last byte are used, and in the
  bytes \<open>rest\<close> behind it.
\<close>

definition holds_text :: "u8 list \<Rightarrow> u8 list \<Rightarrow> u8 list \<Rightarrow> output_buffer \<Rightarrow> bool" where
  "holds_text b rest t ob \<longleftrightarrow> out_array ob = (take (length b - 1) t @ drop (length (take (length b - 1) t)) b) @ rest \<and>
     out_cursor ob = length (take (length b - 1) t) \<and> unat (out_remaining ob) = length b - length t \<and> out_total ob = of_nat (length t)"

lemma append_holds:
  assumes "holds_text b rest t ob"
  shows "holds_text b rest (t @ [c]) (append_character c ob)"
proof -
  have r: "unat (out_remaining ob) = length b - length t" using assms by (simp add: holds_text_def)
  have one: "1 < out_remaining ob \<longleftrightarrow> length t + 1 < length b" "0 < out_remaining ob \<longleftrightarrow> length t < length b"
    using r by (auto simp: word_less_nat_alt)
  have m: "unat (out_remaining ob - 1) = length b - length t - 1" if "length t < length b"
    using that r one(2) by (subst unat_sub_no_wrap) (auto simp: word_le_nat_alt)
  consider (room) "length t + 1 < length b" | (last) "length t + 1 = length b" | (full) "length b \<le> length t" by linarith
  then show ?thesis
  proof cases
    case room
    have "(t @ drop (length t) b @ rest)[length t := c] = t @ [c] @ drop (length t + 1) b @ rest"
      using room by (simp add: list_update_append upd_conv_take_nth_drop)
    then show ?thesis
      using assms room one m by (simp add: holds_text_def append_character_def Let_def)
  next
    case last
    then have l: "length b = Suc (length t)" by simp
    show ?thesis using assms one m last by (simp add: holds_text_def append_character_def Let_def l)
  next
    case full
    then show ?thesis using assms one by (auto simp: holds_text_def append_character_def Let_def)
  qed
qed

lemma fold_append_holds: "holds_text b rest t ob \<Longrightarrow> holds_text b rest (t @ s) (fold append_character s ob)"
proof (induction s arbitrary: t ob)
  case (Cons c s)
  from Cons.IH[OF append_holds[OF Cons.prems]] show ?case by simp
qed simp

text \<open>The buffer after the terminator has been stored.\<close>

definition printed_array :: "u8 list \<Rightarrow> u8 list \<Rightarrow> u8 list" where
  "printed_array b t = (let s = take (length b - 1) t in s @ 0 # drop (Suc (length s)) b)"

lemma terminated_array:
  assumes "holds_text b rest t ob" and "b \<noteq> []" and "length b < 2 ^ 64"
  shows "(if out_remaining ob > 0 then (out_array ob)[out_cursor ob := 0]
     else (out_array ob)[unat (of_nat (length b) - 1 :: u64) := 0]) = printed_array b t @ rest"
proof -
  have u: "unat (of_nat (length b) :: u64) = length b" using assms(3) by (rule unat_of_nat_u64)
  have last: "unat (of_nat (length b) - 1 :: u64) = length b - 1"
    using u assms(2) by (subst unat_sub_no_wrap) (auto simp: word_le_nat_alt u Suc_le_eq)
  have r: "0 < out_remaining ob \<longleftrightarrow> length t < length b" using assms(1) by (auto simp: holds_text_def word_less_nat_alt)
  let ?s = "take (length b - 1) t"
  have l: "length ?s < length b" using assms(2) by (cases b) auto
  then have "(?s @ drop (length ?s) b)[length ?s := 0] = printed_array b t"
    by (simp add: printed_array_def Let_def list_update_append upd_conv_take_nth_drop)
  moreover have "((?s @ drop (length ?s) b) @ rest)[length ?s := 0] = (?s @ drop (length ?s) b)[length ?s := 0] @ rest"
    using l by (intro list_update_append1) simp
  moreover have "out_cursor ob = length b - 1" if "\<not> length t < length b" using that assms(1) by (simp add: holds_text_def)
  ultimately show ?thesis using assms(1) r last by (auto simp: holds_text_def)
qed

lemma vsnprintf_prints:
  assumes "\<And>ob. format_loop target string_at f va ob = fold append_character t ob" and "length b < 2 ^ 64"
  shows "libc_vsnprintf target string_at (Some (b @ rest)) (of_nat (length b)) (Some f) va errno =
    (of_nat (length t), Some ((if b = [] then [] else printed_array b t) @ rest), errno)"
proof -
  let ?ob = "\<lparr>out_array = b @ rest, out_cursor = 0, out_remaining = of_nat (length b), out_total = 0\<rparr>"
  have "unat (of_nat (length b) :: u64) = length b" using assms(2) by (rule unat_of_nat_u64)
  then have "holds_text b rest [] ?ob" by (simp only: holds_text_def output_buffer.simps) simp
  from fold_append_holds[OF this, of t] have h: "holds_text b rest t (format_loop target string_at f va ?ob)"
    by (simp add: assms(1))
  have z: "(of_nat (length b) :: u64) = 0 \<longleftrightarrow> b = []"
    using unat_of_nat_u64[OF assms(2)] unat_eq_zero[of "of_nat (length b) :: u64"] by simp
  show ?thesis
  proof (cases "b = []")
    case True
    then show ?thesis using h by (simp add: libc_vsnprintf_def holds_text_def)
  next
    case False
    then show ?thesis using terminated_array[OF h False assms(2)] h z by (simp add: libc_vsnprintf_def Let_def holds_text_def)
  qed
qed

lemmas vsnprintf_text = vsnprintf_prints[OF format_loop_text]

section \<open>Properties\<close>

text \<open>
  C38. Where a \<open>va_list\<close> is passed by reference and the text of the format is short enough for its length to be an \<open>int\<close>,
  \<open>snprintf\<close> stores that text in the buffer \<open>b\<close>, cut to one byte less than its size and terminated, and leaves the
  bytes of the buffer after the terminator and all bytes \<open>rest\<close> behind the buffer alone. It returns the length of the whole
  text; without a buffer, or with one of size zero, it stores nothing and returns the same length. A null
  format, or a null buffer with a size, is refused with EINVAL.
\<close>

theorem snprintf_renders_format:
  assumes "va_list_by_reference target" and "length b < 2 ^ 64" and "length (format_text target string_at slots 0 f) < 2 ^ 31"
  shows "let t = format_text target string_at slots 0 f; s = take (length b - 1) t in
     (\<exists>r. sint r = int (length t) \<and>
       libc_snprintf target string_at (Some (b @ rest)) (of_nat (length b)) (Some f) slots errno =
         (r, Some ((if b = [] then [] else s @ 0 # drop (length s + 1) b) @ rest), errno) \<and>
       libc_snprintf target string_at None 0 (Some f) slots errno = (r, None, errno)) \<and>
     libc_snprintf target string_at buffer buffer_size None slots errno = (- 1, buffer, EINVAL) \<and>
     (buffer_size = 0 \<or> libc_snprintf target string_at None buffer_size format slots errno = (- 1, None, EINVAL))"
proof -
  let ?t = "format_text target string_at slots 0 f"
  have r: "sint (of_nat (length ?t) :: i32) = int (length ?t)"
    using assms(3) by (simp add: signed_of_nat signed_take_bit_int_eq_self)
  have "libc_snprintf target string_at (Some []) 0 (Some f) slots errno = (of_nat (length ?t), Some [], errno)"
    using vsnprintf_text[OF assms(1), where b = "[]" and rest = "[]" and string_at = string_at and va = "va_start slots" and f = f and errno = errno]
    by (simp add: libc_snprintf_def va_start_def)
  then have "libc_snprintf target string_at None 0 (Some f) slots errno = (of_nat (length ?t), None, errno)"
    by (simp add: libc_snprintf_def libc_vsnprintf_def Let_def)
  moreover have "libc_snprintf target string_at (Some (b @ rest)) (of_nat (length b)) (Some f) slots errno =
      (of_nat (length ?t), Some ((if b = [] then [] else printed_array b ?t) @ rest), errno)"
    using vsnprintf_text[OF assms(1,2), where rest = rest and string_at = string_at and va = "va_start slots" and f = f and errno = errno]
    by (simp add: libc_snprintf_def va_start_def)
  moreover have "libc_snprintf target string_at buffer buffer_size None slots errno = (- 1, buffer, EINVAL)"
    "buffer_size = 0 \<or> libc_snprintf target string_at None buffer_size format slots errno = (- 1, None, EINVAL)"
    by (auto simp: libc_snprintf_def libc_vsnprintf_def split: option.split)
  ultimately show ?thesis using r unfolding Let_def printed_array_def by (intro conjI exI[of _ "of_nat (length ?t)"]) simp_all
qed

definition example_slots :: "nat \<Rightarrow> u64" where
  "example_slots i = (if i = 0 then 0xFFFFFFFFFFFFFFD6 else 255)"

lemma example_format_text: "format_text target string_at example_slots 0 [37, 100, 58, 37, 88] = [45, 52, 50, 58, 70, 70]"
proof -
  have n: "nat_text False 10 42 = [52, 50]" "nat_text True 16 255 = [70, 70]"
    by (simp_all add: nat_text.simps[of False 10 42] nat_text.simps[of False 10 4] nat_text.simps[of True 16 255] nat_text.simps[of True 16 15]
        digit_text_def)
  have "signed_take_bit 31 (uint (0xFFFFFFFFFFFFFFD6 :: u64)) = - 42" by simp
  then have d: "directive_text target string_at 100 FORMAT_LENGTH_DEFAULT_VALUE (example_slots 0) = [45, 52, 50]"
    by (simp add: directive_text_def argument_bits_def int_text_def n example_slots_def)
  have x: "directive_text target string_at 88 FORMAT_LENGTH_DEFAULT_VALUE (example_slots 1) = [70, 70]"
    by (simp add: directive_text_def argument_bits_def n example_slots_def)
  note F = format_text.simps[of target string_at example_slots]
  have "format_text target string_at example_slots 1 [37, 88] = [70, 70]"
    using x F[of 1 "[37, 88]"] F[of "Suc (Suc 0)" "[]"] by (simp add: parse_format_length_def takes_argument_def)
  then have "format_text target string_at example_slots 1 [58, 37, 88] = [58, 70, 70]" using F[of 1 "[58, 37, 88]"] by simp
  then show ?thesis using d F[of 0 "[37, 100, 58, 37, 88]"] by (simp add: parse_format_length_def takes_argument_def)
qed

theorem snprintf_renders_format_witness:
  "\<exists>r. sint r = 6 \<and> libc_snprintf \<lparr>va_list_by_reference = True, long_is_64 = True\<rparr> (\<lambda>_. []) (Some [1, 1, 1, 1, 1, 7, 8]) 5
     (Some [37, 100, 58, 37, 88]) example_slots 0 = (r, Some [45, 52, 50, 58, 0, 7, 8], 0)"
  using snprintf_renders_format[of "\<lparr>va_list_by_reference = True, long_is_64 = True\<rparr>" "[1, 1, 1, 1, 1]" "\<lambda>_. []"
      example_slots "[37, 100, 58, 37, 88]" "[7, 8]" 0]
  by (simp add: example_format_text Let_def) blast

text \<open>
  C39. \<open>printf\<close> on the kernel: with its array mapped and a text without zero bytes, it logs the text as one line if it
  has at most 95 characters. A longer text is dropped, because the kernel's message buffer has 96 bytes and the
  library's 512; the result is the length of the text in both cases, so the caller is not told.
\<close>

theorem printf_logs_or_drops:
  assumes "va_list_by_reference target" and "console_ready array_address 512 rt" and "length stack = 512"
    and "0 \<notin> set (format_text target string_at slots 0 f)" and "length (format_text target string_at slots 0 f) < 2 ^ 31"
  shows "\<exists>rt'. libc_printf target string_at (kernel_console arch sc array_address) stack (Some f) slots (errno, rt) =
      (of_nat (length (format_text target string_at slots 0 f)), errno, rt') \<and>
    debug_messages rt' = debug_messages rt @
      (if length (format_text target string_at slots 0 f) \<le> 95 then [format_text target string_at slots 0 f] else [])"
proof -
  let ?t = "format_text target string_at slots 0 f"
  let ?b = "printed_array stack ?t"
  have v: "libc_vsnprintf target string_at (Some stack) 512 (Some f) (va_start slots) errno = (of_nat (length ?t), Some ?b, errno)"
    using vsnprintf_text[OF assms(1), where b = stack and rest = "[]" and string_at = string_at and va = "va_start slots" and f = f and errno = errno] assms(3) by (auto simp: va_start_def)
  have "sint (of_nat (length ?t) :: i32) = int (length ?t)"
    using assms(5) by (simp add: signed_of_nat signed_take_bit_int_eq_self)
  then have nonneg: "\<not> of_nat (length ?t) <s (0 :: i32)" by (simp add: word_sless_alt)
  have b: "?b = take 511 ?t @ 0 # drop (Suc (length (take 511 ?t))) stack" using assms(3) by (simp add: printed_array_def Let_def)
  have l: "length ?b \<le> 512" "0 \<in> set ?b" unfolding b using assms(3) by (simp_all del: length_take) auto
  have c: "c_string ?b = take 511 ?t"
    unfolding b c_string_def using assms(4) by (subst takeWhile_append2) (auto dest: in_set_takeD)
  have "\<exists>status rt'. kernel_console arch sc array_address ?b rt = (status, rt') \<and>
      debug_messages rt' = debug_messages rt @ (if length ?t \<le> 95 then [?t] else [])"
  proof (cases "length ?t \<le> 95")
    case True
    then show ?thesis using kernel_lines.accepts[OF assms(2) l, of arch sc] c by auto
  next
    case False
    then show ?thesis using kernel_lines.refuses[OF assms(2) l, of arch sc] c by auto
  qed
  then show ?thesis
    using v nonneg by (auto simp: libc_printf_def libc_vprintf_def RINGOS_STDIO_LOG_BUFFER_CAPACITY_def)
qed

theorem printf_logs_or_drops_witness:
  "\<exists>rt'. libc_printf \<lparr>va_list_by_reference = True, long_is_64 = True\<rparr> (\<lambda>_. []) (kernel_console AARCH64 example_call 0x1000)
      (replicate 512 0) (Some [37, 100, 58, 37, 88]) example_slots (0, example_console_runtime) = (6, 0, rt') \<and>
    debug_messages rt' = debug_messages example_console_runtime @ [[45, 52, 50, 58, 70, 70]]"
  using printf_logs_or_drops[of "\<lparr>va_list_by_reference = True, long_is_64 = True\<rparr>" "0x1000" example_console_runtime "replicate 512 0"
      "\<lambda>_. []" example_slots "[37, 100, 58, 37, 88]" AARCH64 example_call 0] example_console_ready[of 512]
  by (simp add: example_format_text)

text \<open>
  Where a \<open>va_list\<close> is passed by value, as on the arm64 target, the functions that read an integer argument do not
  move the list of their caller: a format with two integer conversions prints the first argument twice.
\<close>

lemma by_value_repeats_argument:
  "libc_snprintf \<lparr>va_list_by_reference = False, long_is_64 = False\<rparr> string_at (Some [1, 1, 1, 1]) 4 (Some [37, 100, 32, 37, 100])
     (\<lambda>i. if i = 0 then 1 else 2) errno = (3, Some [49, 32, 49, 0], errno) \<and>
   format_text \<lparr>va_list_by_reference = False, long_is_64 = False\<rparr> string_at (\<lambda>i. if i = 0 then 1 else 2) 0 [37, 100, 32, 37, 100] = [49, 32, 50]"
proof -
  let ?abi = "\<lparr>va_list_by_reference = False, long_is_64 = False\<rparr>" and ?slots = "\<lambda>i :: nat. if i = 0 then 1 else 2 :: u64"
  have i: "int_text 1 = [49]" "int_text 2 = [50]"
    by (simp_all add: int_text_def nat_text.simps[of False 10] digit_text_def)
  have p: "print_directive ?abi string_at 100 FORMAT_LENGTH_DEFAULT_VALUE (va_start ?slots, ob) = (va_start ?slots, append_character 49 ob)" for ob
  proof -
    have "read_signed_argument ?abi (va_start ?slots) FORMAT_LENGTH_DEFAULT_VALUE = (1, va_start ?slots)"
      by (simp add: read_signed_argument_def va_arg_def va_start_def)
    then show ?thesis by (simp add: print_directive_def append_signed_text i)
  qed
  note L = format_loop.simps[of ?abi string_at _ "va_start ?slots"]
  have "format_loop ?abi string_at [37, 100, 32, 37, 100] (va_start ?slots) ob = fold append_character [49, 32, 49] ob" for ob
    by (simp add: L[of "[37, 100, 32, 37, 100]"] L[of "[32, 37, 100]"] L[of "[37, 100]"] L[of "[]"] parse_format_length_def p)
  then have "libc_snprintf ?abi string_at (Some [1, 1, 1, 1]) 4 (Some [37, 100, 32, 37, 100]) ?slots errno = (3, Some [49, 32, 49, 0], errno)"
    using vsnprintf_prints[of ?abi string_at "[37, 100, 32, 37, 100]" "va_start ?slots" "[49, 32, 49]" "[1, 1, 1, 1]" "[]" errno]
    by (simp add: libc_snprintf_def printed_array_def Let_def)
  moreover have d: "directive_text ?abi string_at 100 FORMAT_LENGTH_DEFAULT_VALUE 1 = [49]"
    "directive_text ?abi string_at 100 FORMAT_LENGTH_DEFAULT_VALUE 2 = [50]"
    by (simp_all add: directive_text_def argument_bits_def i)
  have "format_text ?abi string_at ?slots (Suc 0) [37, 100] = [50]"
    using d(2) format_text.simps[of ?abi string_at ?slots "Suc 0" "[37, 100]"] format_text.simps[of ?abi string_at ?slots "Suc (Suc 0)" "[]"]
    by (simp add: parse_format_length_def takes_argument_def)
  then have "format_text ?abi string_at ?slots (Suc 0) [32, 37, 100] = [32, 50]"
    using format_text.simps[of ?abi string_at ?slots "Suc 0" "[32, 37, 100]"] by simp
  then have "format_text ?abi string_at ?slots 0 [37, 100, 32, 37, 100] = [49, 32, 50]"
    using d(1) format_text.simps[of ?abi string_at ?slots 0 "[37, 100, 32, 37, 100]"] by (simp add: parse_format_length_def takes_argument_def)
  ultimately show ?thesis by simp
qed

end
