(* ===== verification/Spec2Isabelle.thy ===== *)
theory Spec2Isabelle
  imports Rpc_Safety X64_Bounds Win32_Emulation Kernel_Boot Terminal_Call User_Stdio
begin

text \<open>
  A verification development for ringos-ng, a small operating system kernel in C++ for x86-64 and
  arm64 with a user runtime of processes and threads, synchronous RPC between threads, and an
  interpreter that runs x64 user programs on arm64.

  \<^bold>\<open>The program and its parts.\<close> The kernel (\<open>src/kernel\<close>) keeps one \<open>user_runtime\<close>: fixed-capacity
  pools of processes, threads, memory objects and RPC channels, a table of RPC endpoints, the current
  thread and a counter for handles. A user thread enters the kernel through the system call entry of its
  architecture (\<open>src/arch\<close>), which saves registers in the thread object, calls
  \<open>dispatch_syscall\<close> and resumes the thread that is current afterwards. An RPC call blocks the client,
  redirects the server thread to a callback on its own stack and switches to it; completing the call
  restores the server and resumes the client. Threads of x64 processes on arm64 run in the emulator
  (\<open>src/emulator\<close>), whose system call callback enters the same dispatcher. The PE loader
  (\<open>src/win32\<close>) places the first programs in their regions during the boot, which runs from the C++ entry point of the
  architecture through \<open>kernel_main\<close> and \<open>run_initial_user_runtime\<close> into the first user thread.

  \<^bold>\<open>Theories and sources.\<close>
  \<^item> \<open>Prelude\<close>, \<open>Host_Memory\<close>: words, option and list lemmas, little-endian bytes; the byte memory behind
    host pointers with \<open>memcpy\<close>, \<open>memset\<close> (\<open>kernel/klibc/memory.cpp\<close>) and \<open>copy_string\<close>
    (\<open>kernel/klibc/string.cpp\<close>).
  \<^item> \<open>Address_Space\<close>: \<open>kernel/address_space.cpp\<close>; \<open>wf_address_space\<close> is its invariant.
  \<^item> \<open>Kernel_Object_Pool\<close>: \<open>kernel/kernel_object_pool.inl\<close> and \<open>kernel_object.cpp\<close>, with the locale of a
    finite store of objects under handles and its interpretation on the slot list.
  \<^item> \<open>Kernel_Objects\<close>: the objects of \<open>kernel/thread.cpp\<close>, \<open>process.cpp\<close>, the memory objects and the
    types of \<open>user_runtime_types.h\<close>.
  \<^item> \<open>User_Memory\<close>: the copies between kernel and user memory of \<open>kernel/user_runtime.cpp\<close>.
  \<^item> \<open>Runtime_State\<close>, \<open>Rpc\<close>, \<open>User_Runtime\<close>: the record \<open>user_runtime\<close> (pointers to pooled objects are
    slot numbers), scheduling, \<open>kernel/rpc.cpp\<close>, the dispatcher and the boot of
    \<open>kernel/user_runtime.cpp\<close>. A panic is \<open>Inl\<close> with its message.
  \<^item> \<open>Syscall_Entry\<close>: \<open>x64_handle_syscall\<close> (\<open>arch/x64/user_runtime.cpp\<close>) and \<open>arm64_handle_syscall\<close>
    (\<open>arch/arm64/arm64_initial_user_runtime_platform.cpp\<close>); the frame is a record.
  \<^item> \<open>Scheduling\<close>: the abstract specification, a step relation on thread states, the current thread and
    the pending calls; \<open>Runtime_Refinement\<close>: the dispatcher implements it.
  \<^item> \<open>Runtime_Invariant\<close>: \<open>kernel_step\<close>, the steps of the machine (user code, both entries, emulated
    system calls and faults), reachability from a boot, and the scheduling properties;
    \<open>Rpc_Properties\<close>, \<open>Rpc_Safety\<close>: what calls deliver, restore and leave alone.
  \<^item> \<open>X64_Context\<close>, \<open>X64_Alu\<close>, \<open>X64_Data_Movement\<close>, \<open>X64_Control_Flow\<close>, \<open>X64_Simd\<close>, \<open>X64_Dispatch\<close>,
    \<open>X64_Interpreter\<close>: the execution context, every instruction handler, the decoder, the dispatch tables,
    the loop and the entry point of \<open>src/emulator/x64\<close>. The system call callback is a parameter.
  \<^item> \<open>X64_Frames\<close>: the locale \<open>context_ops\<close> between the context and the handlers, \<open>context_relation\<close> that
    extends it by the system call, and their interpretations; \<open>X64_Results\<close>, \<open>X64_Flags\<close>,
    \<open>X64_Properties\<close>: how runs are reported, what the flags mean, and the emulator's properties.
    \<open>X64_Bounds\<close>: runs with memory behind the register arrays, modelled as further elements of their lists.
  \<^item> \<open>Emulated_Syscall\<close>, \<open>Emulated_Thread\<close>: the emulator's callback into the kernel, one turn of the loop of
    \<open>enter_user_thread\<close> and the fault report of the arm64 platform; \<open>Thread_Loop\<close>: any number of turns.
  \<^item> \<open>Pe_Image\<close>: \<open>win32/pe_image.cpp\<close>, with the layout an image asks for as the reference.
  \<^item> \<open>X64_Pe_Image\<close>: \<open>win32/x64_pe64_image.cpp\<close>, the import loops on top of it and the locale
    \<open>stub_resolver\<close> of what they need of a resolver; \<open>Win32_Emulation\<close>: \<open>win32/x64_win32_emulation.cpp\<close>
    and its table of exports, the interpretation of that locale, and the stubs run in the emulator.
  \<^item> \<open>Page_Tables\<close>, \<open>Platform_Boot\<close>: translation tables as arrays in host memory; what the \<open>initialize\<close>
    functions of the platforms share, with the locale \<open>initial_platform\<close> of what the boot needs of them.
    \<open>X64_Platform\<close>, \<open>Arm64_Platform\<close>: the tables, the image placement, the configurations and the control registers of
    \<open>arch/x64/x64_initial_user_runtime_platform.cpp\<close> and \<open>arch/arm64/arm64_initial_user_runtime_platform.cpp\<close>, a
    reference definition of each processor's page walk, and the interpretations of the locale.
  \<^item> \<open>Debug_Output\<close>: \<open>kernel/debug.cpp\<close>, \<open>panic.cpp\<close> and their architecture parts as lists of device accesses, a reference definition
    of the host console, and the locale \<open>debug_channel\<close> with one interpretation per architecture.
  \<^item> \<open>Kernel_Boot\<close>: \<open>entry.cpp\<close> of both architectures, \<open>machine.cpp\<close> and its architecture parts, \<open>kernel_main\<close>, the table of
    platform functions and \<open>run_initial_user_runtime\<close> over it (\<open>run_platform\<close>), with the locale \<open>kernel_platform\<close>,
    interpreted on both platforms.
  \<^item> \<open>User_Sdk\<close>: the system call wrappers of \<open>user/sdk/src\<close> and \<open>kernelsdk/src\<close> (same bodies) over the assembly stub,
    the locale \<open>line_console\<close> of a log of short lines and its interpretation on the kernel's dispatcher.
    \<open>Terminal_Service\<close>: \<open>services/terminal/srv_terminal_main.cpp\<close>, with \<open>terminal_console\<close>, which extends that locale.
    \<open>Terminal_Call\<close>: a client (\<open>user/samples/console_service_write\<close>), the kernel and the service in one call.
  \<^item> \<open>User_Libc\<close>: \<open>user/libc/src\<close> without formatted output, and \<open>user/crt/src/crt0.c\<close>; \<open>User_Stdio\<close>:
    \<open>stdio.cpp\<close> and \<open>puts.cpp\<close>, with the text of a format as the reference.

  \<^bold>\<open>What the lemmas show.\<close> Address spaces: validation is equivalent to every byte being mapped, adding a
  mapping changes exactly its range. Pools: fresh handles, erase undoes emplace. User memory: copies
  succeed exactly on mapped ranges and are confined to them; a failing write may leave a prefix. Runtime:
  boot establishes the invariant, every system call refines the abstract scheduler and keeps it, one thread
  runs at most, a thread is blocked exactly when one call waits for it, exited threads stay exited,
  scheduling is round robin. RPC: requests arrive, completing a call restores the server, failed calls
  change nothing, memory changes only where caller or callee map it. Emulator: runs terminate, are
  classified, never access the register arrays out of bounds and keep the sandbox; flags decide comparisons; calls and returns, reads and
  writes are inverse; a turn of an emulated thread is a bounded run of the kernel, and so are \<open>n\<close> turns of the thread loop. Loader: on success the
  region is the reference layout, the import tables and stubs stay in it for every image, the whole load stays in it if no
  section has more raw data than memory (which the loader does not check), and an import runs as its
  system call. Platforms: a successful \<open>initialize\<close> boots into a reachable state, and the page tables, walked as the
  processor does, translate user accesses exactly as the kernel's address space and map the kernel to itself. Boot: from the entry point the
  kernel halts in \<open>panic\<close> exactly when the platform's \<open>initialize\<close> fails, and otherwise enters the first thread; the
  messages of the runtime are the lines the host reads.
  User programs: the terminal service prints the byte stream it is sent whatever the requests, a client's write is in the log
  when its call returns, \<open>memmove\<close> copies under
  overlap, initializers, \<open>main\<close> and exit handlers run in their order, \<open>snprintf\<close> stores the truncated text,
  writes nothing behind its buffer and returns the length. Where the code does not do what it means to, a theorem shows it.

  \<^bold>\<open>Bounds and fuel.\<close> No fuel is used: the interpreter loop terminates by its instruction budget, the
  prefix loop of the decoder by the memory size, the copy loops by the bytes left, the import loops by the
  bytes of the image behind them. The handle counter is 64
  bits wide; the properties of reachable states hold for runs of fewer than \<open>2 ^ 63\<close> steps, in which it
  cannot wrap. An emulated turn has a budget of 512 instructions, so at most 512 system calls; with its log lines
  and the end of the thread it is at most 517 steps.

  \<^bold>\<open>Not modelled.\<close> Assembly stubs, the TLB, caches and device registers, and what a panic leaves beyond its log, because they
  are not C++ state. The code before the C++ entry points is
  assembly; the functions in \<open>.init_array\<close> are a parameter of the entry points, and native user code between two entries of the kernel is any change of host memory. Tests, samples and the tool chain are not part of the system; \<open>user/crt/entry.c\<close>
  and \<open>user/libc/stdio.c\<close> are older variants that no build file names. How the tool chain passes a \<open>va_list\<close> and how wide
  its \<open>long\<close> is are parameters of \<open>User_Stdio\<close>. Addresses the linker chooses (process storage, images) are parameters.
\<close>

section \<open>Properties\<close>

text \<open>
  C12. The x64 kernel boots. From the state the global constructors leave, \<open>x64_entry\<close> either stops in \<open>panic\<close> with the
  message of the platform's \<open>initialize\<close> in the log behind the three boot lines, exactly when that function
  fails; or it enters user mode at the entry point, stack and flags of the first process, in a
  reachable state of the runtime with that process's page tables active and the system call registers set.
\<close>

theorem x64_boots:
  assumes "g_runtime (run_global_constructors init_array g) = g_user_runtime m root"
  shows "case x64_initialize storages images m of
      Inl message \<Rightarrow> \<exists>g'. x64_entry init_array (x64_platform storages images syscall_entry cpu_local msrs) g = Halted g' \<and>
        get_machine g' = described_machine X86_64 \<and>
        debug_messages (g_runtime g') = boot_log X86_64 @ [map of_char ''PANIC'', c_string (map of_char message)]
    | Inr (bs, m') \<Rightarrow> let cfg = boot_initial_processes bs ! 0; ctx = cfg_thread_context cfg in
        \<exists>rt msrs'. x64_entry init_array (x64_platform storages images syscall_entry cpu_local msrs) g =
          Entered (described_machine X86_64)
            (msrs', Some ((ctx_instruction_pointer ctx, ctx_stack_pointer ctx, ctx_flags ctx), rt)) \<and>
        launched X86_64 ''x64 initial user runtime ready'' cfg m' rt \<and>
        msrs' MSR_LSTAR = syscall_entry \<and> msrs' MSR_KERNEL_GS_BASE = cpu_local \<and> msrs' MSR_EFER = msrs MSR_EFER OR EFER_SCE"
proof -
  let ?p = "x64_platform storages images syscall_entry cpu_local msrs"
  let ?info = "\<lparr>info_arch_id = ARCH_X64, device_tree_blob_address = 0, device_tree_blob_size = 0\<rparr>"
  have a: "info_arch_id ?info = arch_id_of X86_64" by (simp add: arch_id_of_def)
  show ?thesis
  proof (cases "x64_initialize storages images m")
    case (Inl message)
    then have "p_initialize ?p (p_context ?p) m = Inl message" by (simp add: x64_platform_def)
    from x64_kernel.refused[OF a assms this] show ?thesis
      by (simp add: Inl x64_entry_def get_machine_def refused_log del: list.map(2))
  next
    case (Inr r)
    obtain bs m' where r: "r = (bs, m')" by (cases r)
    have "p_initialize ?p (p_context ?p) m = Inr (bs, msrs, m')" using Inr r by (simp add: x64_platform_def)
    then obtain rt where rt: "starts_first X86_64 (boot_initial_processes bs ! 0) m' rt" "debug_messages rt = boot_log X86_64"
      "reachable X86_64 3 rt" and k: "kernel_main X86_64 ?p ?info (run_global_constructors init_array g) =
        (case p_prepare_thread_launch ?p 0 0 msrs rt of (c', rt') \<Rightarrow> Entered (described_machine X86_64) (p_enter_user_thread ?p 0 0 c' rt'))"
      by (rule x64_kernel.started[OF a assms])
    have "arch_prepare_user_thread X86_64 (Some 0) rt = rt" using rt(1) by (simp add: starts_first_def)
    then show ?thesis
      using k x64_first_thread[OF rt(1)] launchedI[OF rt, of "''x64 initial user runtime ready''"] syscall_msrs[of syscall_entry cpu_local msrs]
      by (simp add: Inr r x64_entry_def x64_platform_def x64_prepare_thread_launch_def Let_def c_string_def)
  qed
qed

text \<open>
  C13. The arm64 kernel boots, as the x64 kernel does: a failing \<open>initialize\<close> stops it in \<open>panic\<close> with the message behind the
  boot lines. Otherwise the exception vectors are installed, and the first turn of the thread loop enters a
  native program at its entry point with its stack, flags and argument and its translation tables active, or
  gives an emulated one its first run, which ends in a reachable state or in the panic of the
  instruction budget; it never finds nothing to run.
\<close>

theorem arm64_boots:
  assumes "g_runtime (run_global_constructors init_array g) = g_user_runtime m root" and "physical_arm64_storages storages"
  shows "case arm64_initialize images (storages, m) of
      Inl message \<Rightarrow> \<exists>g'. arm64_entry init_array (arm64_platform_dispatch storages images exception_vectors regs) blob g = Halted g' \<and>
        get_machine g' = described_machine AARCH64 \<and>
        debug_messages (g_runtime g') = boot_log AARCH64 @ [map of_char ''PANIC'', c_string (map of_char message)]
    | Inr (bs, storages', m') \<Rightarrow> let cfg = boot_initial_processes bs ! 0; ctx = cfg_thread_context cfg in
        \<exists>turn. arm64_entry init_array (arm64_platform_dispatch storages images exception_vectors regs) blob g =
          Entered (described_machine AARCH64) (regs\<lparr>vbar_el1 := exception_vectors\<rparr>, turn) \<and>
        (case turn of
           Inl message \<Rightarrow> message = ''x64 emulator hit the instruction budget''
         | Inr Parked \<Rightarrow> False
         | Inr (Native frame plat) \<Rightarrow> launched AARCH64 ''arm64 initial user runtime ready'' cfg m' (p_runtime plat) \<and>
             f_elr frame = ctx_instruction_pointer ctx \<and> f_sp_el0 frame = ctx_stack_pointer ctx \<and>
             f_spsr frame = ctx_flags ctx \<and> f_x0 frame = ctx_argument0 ctx
         | Inr (Emulated plat) \<Rightarrow> (\<exists>n \<le> 520. reachable AARCH64 n (p_runtime plat)) \<and> runtime_inv (p_runtime plat))"
proof (cases "arm64_initialize images (storages, m)")
  case (Inl message)
  let ?p = "arm64_platform_dispatch storages images exception_vectors regs"
  have "p_initialize ?p (p_context ?p) m = Inl message" using Inl by (simp add: arm64_platform_dispatch_def)
  from arm64_kernel.refused[OF _ assms(1) this, of "arm64_boot_info (host_memory (g_user_runtime m root)) blob"] show ?thesis
    by (simp add: Inl arm64_entry_def get_machine_def refused_log Let_def arch_id_of_def arm64_boot_info_def assms(1) del: list.map(2))
next
  case (Inr r)
  obtain bs storages' m' where r: "r = (bs, storages', m')" by (cases r)
  note init = Inr[unfolded r]
  let ?cfg = "boot_initial_processes bs ! 0"
  obtain rt where rt: "starts_first AARCH64 ?cfg m' rt" "debug_messages rt = boot_log AARCH64" "reachable AARCH64 3 rt"
    and k: "arm64_entry init_array (arm64_platform_dispatch storages images exception_vectors regs) blob g =
      Entered (described_machine AARCH64) (regs\<lparr>vbar_el1 := exception_vectors\<rparr>,
        enter_user_thread \<lparr>p_runtime = rt, m_process_storage = storages', m_has_logged_native_runtime_ready = False,
          m_has_logged_x64_emulator_runtime_ready = False\<rparr>)" by (rule arm64_entered[OF assms(1) init])
  define plat where "plat = \<lparr>p_runtime = rt, m_process_storage = storages', m_has_logged_native_runtime_ready = False,
    m_has_logged_x64_emulator_runtime_ready = False\<rparr>"
  have e: "arm64_entry init_array (arm64_platform_dispatch storages images exception_vectors regs) blob g =
      Entered (described_machine AARCH64) (regs\<lparr>vbar_el1 := exception_vectors\<rparr>, enter_user_thread plat)" using k by (simp add: plat_def)
  have "length storages = 2" using assms(2) by (simp add: physical_arm64_storages_def)
  note F = arm64_first_process[OF init this]
  show ?thesis
  proof (cases "execution_backend (cfg_metadata ?cfg) = PROCESS_EXECUTION_BACKEND_NATIVE")
    case True
    obtain frame plat' where n: "enter_user_thread plat = Inr (Native frame plat')"
      "p_runtime plat' = debug_log (map of_char ''arm64 initial user runtime ready'') rt"
      "f_elr frame = ctx_instruction_pointer (cfg_thread_context ?cfg)" "f_sp_el0 frame = ctx_stack_pointer (cfg_thread_context ?cfg)"
      "f_spsr frame = ctx_flags (cfg_thread_context ?cfg)" "f_x0 frame = ctx_argument0 (cfg_thread_context ?cfg)"
      by (rule arm64_first_native[OF rt(1) True, of plat]) (simp_all add: plat_def)
    have "launched AARCH64 ''arm64 initial user runtime ready'' ?cfg m' (p_runtime plat')"
      unfolding n(2) by (rule launchedI[OF rt]) (simp add: c_string_def)
    then show ?thesis using e n by (simp add: init Let_def)
  next
    case False
    then have b: "execution_backend (cfg_metadata ?cfg) = PROCESS_EXECUTION_BACKEND_X64_EMULATOR" using F by simp
    have reg: "get_user_region (storages' ! 0) \<noteq> 0"
      using F user_region_spec(2)[of "storages ! 0"] assms(2) by (auto simp: physical_arm64_storages_def get_user_region_def)
    have cons: "m_process_storage plat = storages' ! 0 # tl storages'" using F by (cases storages') (auto simp: plat_def)
    have root: "arch_root_table (cfg_address_space ?cfg) = root_table_address (storages' ! 0)" and rt': "p_runtime plat = rt"
      using F by (simp_all add: plat_def)
    show ?thesis
      using arm64_first_emulated[OF rt(1,3) b rt' cons root reg] by (auto simp: e init Let_def split: sum.splits arm64_turn.splits)
  qed
qed

text \<open>The kernels with the example program embedded; their one constructor makes the runtime.\<close>

definition example_constructor :: "hmem \<Rightarrow> kernel_globals \<Rightarrow> kernel_globals" where
  "example_constructor m g = g\<lparr>g_runtime := g_user_runtime m 0\<rparr>"

definition raw_globals :: kernel_globals where
  "raw_globals = \<lparr>g_machine = zero_machine, g_runtime = g_user_runtime (\<lambda>_. 0) 0\<rparr>"

theorem x64_boots_witness:
  "\<exists>cfg m' msrs' entry rt. x64_entry [example_constructor (example_image True 0x10 8)]
       (x64_platform 0x1FA000 example_images 0x200000 0x300000 (\<lambda>_. 0)) raw_globals =
     Entered (described_machine X86_64) (msrs', Some (entry, rt)) \<and>
     launched X86_64 ''x64 initial user runtime ready'' cfg m' rt \<and> msrs' MSR_LSTAR = 0x200000"
proof -
  obtain bs m' where "x64_initialize 0x1FA000 example_images (example_image True 0x10 8) = Inr (bs, m')"
    by (rule example_x64_initialize)
  moreover have "g_runtime (run_global_constructors [example_constructor (example_image True 0x10 8)] raw_globals) =
      g_user_runtime (example_image True 0x10 8) 0"
    by (simp add: run_global_constructors_def example_constructor_def)
  ultimately show ?thesis
    using x64_boots[of "[example_constructor (example_image True 0x10 8)]" raw_globals "example_image True 0x10 8" 0 "0x1FA000"
        example_images "0x200000" "0x300000" "\<lambda>_. 0"] by (simp add: Let_def) blast
qed

theorem arm64_boots_witness:
  "\<exists>regs' turn. arm64_entry [example_constructor (example_image False 0x10 8)]
       (arm64_platform_dispatch example_arm64_storages example_images 0x80000
          \<lparr>vbar_el1 = 0, mair_el1 = 0, tcr_el1 = 0, ttbr0_el1 = 0, sctlr_el1 = 0, cpacr_el1 = 0\<rparr>) 0 raw_globals =
     Entered (described_machine AARCH64) (regs', turn) \<and> vbar_el1 regs' = 0x80000 \<and> turn \<noteq> Inr Parked"
proof -
  obtain bs storages' m' where "arm64_initialize example_images (example_arm64_storages, example_image False 0x10 8) = Inr (bs, storages', m')"
    by (rule example_arm64_initialize)
  moreover have "g_runtime (run_global_constructors [example_constructor (example_image False 0x10 8)] raw_globals) =
      g_user_runtime (example_image False 0x10 8) 0"
    by (simp add: run_global_constructors_def example_constructor_def)
  ultimately show ?thesis
    using arm64_boots[of "[example_constructor (example_image False 0x10 8)]" raw_globals "example_image False 0x10 8" 0
        example_arm64_storages example_images "0x80000"
        "\<lparr>vbar_el1 = 0, mair_el1 = 0, tcr_el1 = 0, ttbr0_el1 = 0, sctlr_el1 = 0, cpacr_el1 = 0\<rparr>" 0] example_arm64_storages_physical
    by (simp add: Let_def) (elim exE conjE, intro exI conjI, assumption, simp, auto)
qed

end
